(* ===== verification/Go_Prelude.thy ===== *)
theory Go_Prelude
  imports Main "HOL-Library.Word"
begin

text \<open>
  The shared vocabulary of the development: the Go types the sources use (fixed-width unsigned
  integers, hashes, addresses, byte slices), Go errors with their dynamic type and their wrapping
  (\<open>errors.Is\<close>, \<open>errors.As\<close>, \<open>fmt.Errorf\<close> of \<^verbatim>\<open>utils/fmt/error.go\<close>), the three ways a Go call
  can end, the string tests of the standard library, and the interface of a component that
  consumes a sequence of events while keeping an invariant, and of one that implements a specification.
\<close>

section \<open>Types\<close>

type_synonym uint64 = "64 word"
type_synonym uint8 = "8 word"
type_synonym bytes = "uint8 list"

text \<open>\<open>common.Hash\<close> is a 32-byte array, \<open>common.Address\<close> a 20-byte array; both are read big-endian.\<close>

type_synonym hash = "256 word"
type_synonym address = "160 word"

text \<open>\<open>*big.Int\<close> is an unbounded integer; a nil pointer is \<open>None\<close> where the code can meet one.\<close>

type_synonym big = int

named_theorems op_defs \<open>unfolding equations of the modelled operations\<close>
named_theorems inv_preserve \<open>preservation of the component invariants\<close>

section \<open>How a call ends\<close>

text \<open>
  A Go function returns a value, returns a non-nil error, or panics. A panic is not an error: no
  \<open>if err != nil\<close> sees it.
\<close>

datatype go_error =
    Sentinel string
  | NewError string
  | Typed bool string string "go_error option"
  | Wrapped string go_error

text \<open>
  \<open>Sentinel n\<close> is the package-level variable \<open>n\<close> made with \<open>errors.New\<close>: it is compared by
  identity. \<open>NewError m\<close> is made at the point of return with message \<open>m\<close>. \<open>Typed p t m u\<close> has
  dynamic type \<open>t\<close>, or \<open>*t\<close> when \<open>p\<close> holds, message \<open>m\<close>, and \<open>u\<close> is what its \<open>Unwrap\<close> method
  returns (\<open>None\<close> when it has none). \<open>Wrapped m e\<close> is \<open>fmt.Errorf\<close> of a format ending in a
  \<^verbatim>\<open>%w\<close> verb applied to \<open>e\<close>. A sentinel is named by its message. The messages leave out the
  caller's stack frame that \<^verbatim>\<open>utils/fmt/error.go\<close> appends.
\<close>

datatype 'a outcome = Ok 'a | Err go_error | Panic string

text \<open>A call on a client whose internals are not modelled: it reads and moves the world \<open>'w\<close>.\<close>

type_synonym ('w, 'a) call = "'w \<Rightarrow> 'a outcome \<times> 'w"

fun is_Ok :: "'a outcome \<Rightarrow> bool" where
  "is_Ok (Ok _) = True"
| "is_Ok (Err _) = False"
| "is_Ok (Panic _) = False"

fun wrap_err :: "string \<Rightarrow> 'a outcome \<Rightarrow> 'a outcome" where
  "wrap_err m (Ok x) = Ok x"
| "wrap_err m (Err e) = Err (Wrapped m e)"
| "wrap_err m (Panic p) = Panic p"

lemma wrap_err_Ok [simp]: "wrap_err m r = Ok x \<longleftrightarrow> r = Ok x"
  by (cases r) auto

lemma is_Ok_conv: "is_Ok r \<longleftrightarrow> (\<exists>x. r = Ok x)"
  by (cases r) auto

text \<open>Sequencing inside a function that touches no client.\<close>

definition bind_out :: "'a outcome \<Rightarrow> ('a \<Rightarrow> 'b outcome) \<Rightarrow> 'b outcome" where
  "bind_out r f = (case r of Ok x \<Rightarrow> f x | Err e \<Rightarrow> Err e | Panic p \<Rightarrow> Panic p)"

lemma bind_out_Ok [simp]: "bind_out r f = Ok y \<longleftrightarrow> (\<exists>x. r = Ok x \<and> f x = Ok y)"
  by (cases r) (auto simp: bind_out_def)

lemma bind_out_Ok_left [simp]: "bind_out (Ok x) f = f x"
  by (simp add: bind_out_def)

text \<open>Sequencing of calls: an error or a panic ends the caller.\<close>

definition ret_call :: "'a \<Rightarrow> ('w, 'a) call" where
  "ret_call x w = (Ok x, w)"

definition fail_call :: "go_error \<Rightarrow> ('w, 'a) call" where
  "fail_call e w = (Err e, w)"

definition bind_call :: "('w, 'a) call \<Rightarrow> ('a \<Rightarrow> ('w, 'b) call) \<Rightarrow> ('w, 'b) call" where
  "bind_call c f w =
     (case c w of
        (Ok x, w') \<Rightarrow> f x w'
      | (Err e, w') \<Rightarrow> (Err e, w')
      | (Panic p, w') \<Rightarrow> (Panic p, w'))"

text \<open>\<open>if err != nil { return fmt.Errorf("m: %w", err) }\<close> after a call.\<close>

definition wrap_call :: "string \<Rightarrow> ('w, 'a) call \<Rightarrow> ('w, 'a) call" where
  "wrap_call m c w = (case c w of (r, w') \<Rightarrow> (wrap_err m r, w'))"

text \<open>A call on the world of a component that also keeps state of its own.\<close>

definition lift_call :: "('w, 'a) call \<Rightarrow> ('s \<times> 'w, 'a) call" where
  "lift_call c sw = (case c (snd sw) of (r, w') \<Rightarrow> (r, (fst sw, w')))"

lemma ret_call_Ok [simp]: "ret_call x w = (Ok y, w') \<longleftrightarrow> y = x \<and> w' = w"
  by (auto simp: ret_call_def)

lemma fail_call_Ok [simp]: "fail_call e w \<noteq> (Ok y, w')"
  by (simp add: fail_call_def)

lemma bind_call_Ok [simp]:
  "bind_call c f w = (Ok y, w') \<longleftrightarrow> (\<exists>x w1. c w = (Ok x, w1) \<and> f x w1 = (Ok y, w'))"
  by (auto simp: bind_call_def split: prod.splits outcome.splits)

lemma wrap_call_Ok [simp]: "wrap_call m c w = (Ok y, w') \<longleftrightarrow> c w = (Ok y, w')"
  by (auto simp: wrap_call_def split: prod.splits)

lemma lift_call_Ok [simp]:
  "lift_call c sw = (Ok y, sw') \<longleftrightarrow> (\<exists>w'. c (snd sw) = (Ok y, w') \<and> sw' = (fst sw, w'))"
  by (auto simp: lift_call_def split: prod.splits)

lemma lift_call_fst [simp]: "fst (snd (lift_call c sw)) = fst sw"
  by (simp add: lift_call_def split: prod.splits)

section \<open>Errors: Unwrap, Is, As, Error\<close>

fun Unwrap :: "go_error \<Rightarrow> go_error option" where
  "Unwrap (Sentinel _) = None"
| "Unwrap (NewError _) = None"
| "Unwrap (Typed _ _ _ u) = u"
| "Unwrap (Wrapped _ e) = Some e"

fun error_chain :: "go_error \<Rightarrow> go_error list" where
  "error_chain (Sentinel n) = [Sentinel n]"
| "error_chain (NewError m) = [NewError m]"
| "error_chain (Typed p t m u) =
     Typed p t m u # (case u of None \<Rightarrow> [] | Some e \<Rightarrow> error_chain e)"
| "error_chain (Wrapped m e) = Wrapped m e # error_chain e"

text \<open>\<open>errors.Is(err, target)\<close> for a package-level \<open>target\<close>.\<close>

definition errors_Is :: "go_error \<Rightarrow> string \<Rightarrow> bool" where
  "errors_Is e n \<longleftrightarrow> Sentinel n \<in> set (error_chain e)"

fun has_type :: "bool \<Rightarrow> string \<Rightarrow> go_error \<Rightarrow> bool" where
  "has_type p t (Typed p' t' _ _) = (p = p' \<and> t = t')"
| "has_type p t (Sentinel _) = False"
| "has_type p t (NewError _) = False"
| "has_type p t (Wrapped _ _) = False"

text \<open>
  \<open>errors.As(err, &T{})\<close> has target type \<open>*T\<close> and so looks for an error whose dynamic type is
  \<open>T\<close> itself; an error of dynamic type \<open>*T\<close> is not assignable to it.
\<close>

definition errors_As :: "go_error \<Rightarrow> bool \<Rightarrow> string \<Rightarrow> bool" where
  "errors_As e p t \<longleftrightarrow> list_ex (has_type p t) (error_chain e)"

fun error_msg :: "go_error \<Rightarrow> string" where
  "error_msg (Sentinel n) = n"
| "error_msg (NewError m) = m"
| "error_msg (Typed _ _ m _) = m"
| "error_msg (Wrapped m e) = m @ '': '' @ error_msg e"

lemma errors_Is_simps [simp]:
  "errors_Is (Sentinel n) k \<longleftrightarrow> n = k"
  "\<not> errors_Is (NewError m) k"
  "errors_Is (Wrapped m e) k \<longleftrightarrow> errors_Is e k"
  "\<not> errors_Is (Typed p t m None) k"
  "errors_Is (Typed p t m (Some e)) k \<longleftrightarrow> errors_Is e k"
  by (auto simp: errors_Is_def)

lemma errors_As_simps [simp]:
  "\<not> errors_As (Sentinel n) p t"
  "\<not> errors_As (NewError m) p t"
  "errors_As (Wrapped m e) p t \<longleftrightarrow> errors_As e p t"
  "errors_As (Typed p' t' m None) p t \<longleftrightarrow> p = p' \<and> t = t'"
  "errors_As (Typed p' t' m (Some e)) p t \<longleftrightarrow> p = p' \<and> t = t' \<or> errors_As e p t"
  by (auto simp: errors_As_def)

section \<open>Strings\<close>

fun has_prefix :: "string \<Rightarrow> string \<Rightarrow> bool" where
  "has_prefix s [] = True"
| "has_prefix [] (p # ps) = False"
| "has_prefix (c # s) (p # ps) = (c = p \<and> has_prefix s ps)"

fun str_contains :: "string \<Rightarrow> string \<Rightarrow> bool" where
  "str_contains [] t = has_prefix [] t"
| "str_contains (c # s) t = (has_prefix (c # s) t \<or> str_contains s t)"

lemma has_prefix_iff: "has_prefix s p \<longleftrightarrow> (\<exists>r. s = p @ r)"
  by (induction s p rule: has_prefix.induct) auto

lemma has_prefix_append [simp]: "has_prefix (p @ r) p"
  by (simp add: has_prefix_iff)

lemma str_contains_iff: "str_contains s t \<longleftrightarrow> (\<exists>a b. s = a @ t @ b)"
proof (induction s t rule: str_contains.induct)
  case (1 t)
  then show ?case by (auto simp: has_prefix_iff)
next
  case (2 c s t)
  show ?case
  proof
    assume "str_contains (c # s) t"
    then consider "has_prefix (c # s) t" | "str_contains s t" by auto
    then show "\<exists>a b. c # s = a @ t @ b"
    proof cases
      case 1
      then show ?thesis by (metis append_Nil has_prefix_iff)
    next
      case 2
      with "2.IH" show ?thesis by (metis append_Cons)
    qed
  next
    assume "\<exists>a b. c # s = a @ t @ b"
    then obtain a b where ab: "c # s = a @ t @ b" by blast
    show "str_contains (c # s) t"
    proof (cases a)
      case Nil
      with ab have "has_prefix (c # s) t" by (auto simp: has_prefix_iff)
      then show ?thesis by simp
    next
      case (Cons d a')
      with ab have "s = a' @ t @ b" by simp
      with "2.IH" show ?thesis by auto
    qed
  qed
qed

text \<open>The decimal rendering \<^verbatim>\<open>%d\<close>.\<close>

fun show_nat :: "nat \<Rightarrow> string" where
  "show_nat n = (if n < 10 then [char_of (48 + n)] else show_nat (n div 10) @ [char_of (48 + n mod 10)])"

declare show_nat.simps [simp del]

definition show_int :: "int \<Rightarrow> string" where
  "show_int i = (if i < 0 then CHR ''-'' # show_nat (nat (- i)) else show_nat (nat i))"

text \<open>\<^verbatim>\<open>%v\<close> of a hash: 64 hexadecimal digits.\<close>

definition show_hash :: "hash \<Rightarrow> string" where
  "show_hash h = ''0x'' @ map (\<lambda>i. ''0123456789abcdef'' ! (unat h div 16 ^ (63 - i) mod 16)) [0..<64]"

section \<open>Components that consume events\<close>

text \<open>
  Several components are a state and a step per event (a callback, a reported send error, a call
  of an exported method). What every step keeps, every run keeps.
\<close>

locale event_component =
  fixes step :: "'s \<Rightarrow> 'e \<Rightarrow> 's"
    and inv :: "'s \<Rightarrow> bool"
  assumes step_inv: "inv s \<Longrightarrow> inv (step s e)"
begin

lemma run_inv: "inv s \<Longrightarrow> inv (foldl step s es)"
  by (induction es arbitrary: s) (auto intro: step_inv)

end

text \<open>A step that moves a measured quantity in one direction only.\<close>

locale monotone_component =
  fixes step :: "'s \<Rightarrow> 'e \<Rightarrow> 's"
    and level :: "'s \<Rightarrow> 'n::preorder"
  assumes step_mono: "level s \<le> level (step s e)"
begin

lemma run_mono: "level s \<le> level (foldl step s es)"
proof (induction es arbitrary: s)
  case Nil
  then show ?case by simp
next
  case (Cons e es)
  have "level s \<le> level (step s e)" by (rule step_mono)
  also have "\<dots> \<le> level (foldl step (step s e) es)" by (rule Cons.IH)
  finally show ?case by simp
qed

end

section \<open>Components that implement a specification\<close>

text \<open>
  A component answers an input with an output and a new state, or ends the program (\<open>None\<close>). \<open>exec_run\<close> feeds
  it a sequence of inputs, \<open>spec_run\<close> is what a specification allows over a sequence; a component whose every
  step is allowed under an abstraction of its state is allowed over every sequence.
\<close>

fun exec_run :: "('i \<Rightarrow> 's \<Rightarrow> ('o \<times> 's) option) \<Rightarrow> 'i list \<Rightarrow> 's \<Rightarrow> ('o list \<times> 's) option" where
  "exec_run step [] s = Some ([], s)"
| "exec_run step (i # inps) s =
     (case step i s of
        None \<Rightarrow> None
      | Some (out, s1) \<Rightarrow> (case exec_run step inps s1 of None \<Rightarrow> None | Some (outs, s2) \<Rightarrow> Some (out # outs, s2)))"

inductive spec_run :: "('i \<Rightarrow> 'o \<Rightarrow> 'a \<Rightarrow> 'a \<Rightarrow> bool) \<Rightarrow> 'i list \<Rightarrow> 'o list \<Rightarrow> 'a \<Rightarrow> 'a \<Rightarrow> bool" for spec where
  spec_run_Nil: "spec_run spec [] [] a a"
| spec_run_Cons: "spec i out a a1 \<Longrightarrow> spec_run spec inps outs a1 a2 \<Longrightarrow> spec_run spec (i # inps) (out # outs) a a2"

inductive_simps spec_run_simps [simp]: "spec_run spec [] outs a a'" "spec_run spec (i # inps) outs a a'"

locale implements =
  fixes step :: "'i \<Rightarrow> 's \<Rightarrow> ('o \<times> 's) option"
    and inv :: "'s \<Rightarrow> bool"
    and abst :: "'s \<Rightarrow> 'a"
    and spec :: "'i \<Rightarrow> 'o \<Rightarrow> 'a \<Rightarrow> 'a \<Rightarrow> bool"
  assumes keeps: "inv s \<Longrightarrow> step i s = Some (out, s') \<Longrightarrow> inv s'"
    and simulates: "inv s \<Longrightarrow> step i s = Some (out, s') \<Longrightarrow> spec i out (abst s) (abst s')"
begin

lemma run_simulates: "inv s \<Longrightarrow> exec_run step inps s = Some (outs, s') \<Longrightarrow> spec_run spec inps outs (abst s) (abst s')"
proof (induction inps arbitrary: s outs)
  case (Cons i inps)
  obtain out s1 outs1 where "step i s = Some (out, s1)" "exec_run step inps s1 = Some (outs1, s')" "outs = out # outs1"
    using Cons.prems(2) by (auto split: option.splits)
  with Cons.IH [of s1 outs1] keeps [OF Cons.prems(1)] simulates [OF Cons.prems(1)] show ?case by (blast intro: spec_run_Cons)
qed simp

end

section \<open>Machine arithmetic\<close>

lemma unat_add_no_wrap:
  fixes a b :: "'a::len word"
  assumes "unat a + unat b < 2 ^ LENGTH('a)"
  shows "unat (a + b) = unat a + unat b"
  using assms by (simp add: unat_word_ariths)

text \<open>
  \<open>int\<close>, \<open>int64\<close> and \<open>time.Duration\<close> are 64-bit two's complement: a result outside the range
  wraps around.
\<close>

definition wrap_int64 :: "int \<Rightarrow> int" where
  "wrap_int64 x = (x + 2 ^ 63) mod 2 ^ 64 - 2 ^ 63"

lemma wrap_int64_id: "- (2 ^ 63) \<le> x \<Longrightarrow> x < 2 ^ 63 \<Longrightarrow> wrap_int64 x = x"
  by (simp add: wrap_int64_def)

lemma wrap_int64_range: "- (2 ^ 63) \<le> wrap_int64 x" "wrap_int64 x < 2 ^ 63"
  using pos_mod_bound [of "2 ^ 64" "x + 2 ^ 63"] pos_mod_sign [of "2 ^ 64" "x + 2 ^ 63"]
  by (auto simp: wrap_int64_def)

lemma unat_sub_no_wrap:
  fixes a b :: "'a::len word"
  assumes "b \<le> a"
  shows "unat (a - b) = unat a - unat b"
  using assms by (simp add: unat_sub)

lemma unat_minus_1: "unat (- 1 :: 'a::len word) = 2 ^ LENGTH('a) - 1"
  by (simp add: unsigned_minus_1_eq_mask mask_eq_exp_minus_1)

lemma unat_plus_1:
  assumes "(w :: 'a::len word) \<noteq> - 1"
  shows "unat (w + 1) = unat w + 1"
proof -
  have "unat w \<noteq> 2 ^ LENGTH('a) - 1" using assms by (metis unat_minus_1 word_unat_eq_iff)
  then have "unat w + unat (1 :: 'a word) < 2 ^ LENGTH('a)" using unsigned_less [of w, where 'a = nat]
    unfolding unsigned_1 by linarith
  then show ?thesis by (simp add: unat_add_no_wrap)
qed

lemma unat_add_le: "unat (a + b) \<le> unat a + unat (b :: 'a::len word)"
  by (simp add: unat_word_ariths mod_less_eq_dividend)

lemma unat_add_of_nat_le: "unat (a + of_nat n) \<le> unat (a :: 'a::len word) + n"
  using unat_add_le [of a "of_nat n"] unat_of_nat [where 'a = 'a, of n] mod_less_eq_dividend [of n "2 ^ LENGTH('a)"]
  by linarith

text \<open>Big-endian bytes of a number, as many as asked for, and the number they stand for.\<close>

fun enc_be :: "nat \<Rightarrow> int \<Rightarrow> bytes" where
  "enc_be 0 k = []"
| "enc_be (Suc n) k = enc_be n (k div 256) @ [word_of_int k]"

definition dec_be :: "bytes \<Rightarrow> int" where
  "dec_be bs = foldl (\<lambda>acc b. acc * 256 + uint b) 0 bs"

lemma length_enc_be [simp]: "length (enc_be n k) = n"
  by (induction n arbitrary: k) simp_all

lemma dec_enc_be: "dec_be (enc_be n k) = k mod 256 ^ n"
proof (induction n arbitrary: k)
  case (Suc n)
  have "dec_be (enc_be (Suc n) k) = 256 * (k div 256 mod 256 ^ n) + k mod 256"
    using Suc.IH [of "k div 256"] by (simp add: dec_be_def uint_word_of_int)
  then show ?case using mod_mult2_eq' [of k 256 "256 ^ n"] by (simp add: zmod_zmult2_eq)
qed (simp add: dec_be_def)

text \<open>The 32 bytes of a word of the EVM.\<close>

definition word32 :: "256 word \<Rightarrow> bytes" where
  "word32 w = enc_be 32 (uint w)"

lemma length_word32 [simp]: "length (word32 w) = 32"
  by (simp add: word32_def)

lemma word32_inj [simp]: "word32 v = word32 w \<longleftrightarrow> v = w"
proof
  assume "word32 v = word32 w"
  then have "dec_be (enc_be 32 (uint v)) = dec_be (enc_be 32 (uint w))" by (simp add: word32_def)
  then have "uint v mod 2 ^ 256 = uint w mod 2 ^ 256" by (simp add: dec_enc_be)
  moreover have "uint v < 2 ^ LENGTH(256)" "uint w < 2 ^ LENGTH(256)" by (rule uint_lt2p)+
  ultimately have "uint v = uint w" by simp
  then show "v = w" by (rule word_uint_eqI)
qed simp

end
