(* ===== verification/Retry.thy ===== *)
theory Retry
  imports Go_Prelude
begin

text \<open>
  \<^verbatim>\<open>services/sidecar/utils/retry\<close>: the retry loop \<open>Do\<close> and its two delay strategies. The
  operation, the context and the clock belong to the caller: they are functions on a world
  \<open>'w\<close>. Shown here: \<open>Do\<close> returns the first success, fails permanently with the last error
  exactly when every attempt failed, stops on a cancelled context before running the operation
  again, and runs it at most \<open>maxAttempts\<close> times; the exponential delay stays between its bounds
  as long as the 64-bit product does not overflow.
\<close>

section \<open>The loop\<close>

record 'w retry_env =
  ctx_Err :: "'w \<Rightarrow> go_error option"
  strategy_Duration :: "int \<Rightarrow> 'w \<Rightarrow> int \<times> 'w"
  time_Sleep :: "int \<Rightarrow> 'w \<Rightarrow> 'w"

definition ErrFailedPermanently :: "int \<Rightarrow> go_error \<Rightarrow> go_error" where
  "ErrFailedPermanently attempts lastErr =
     Typed True ''ErrFailedPermanently''
       (''operation failed permanently after '' @ show_int attempts @ '' attempts: '' @ error_msg lastErr)
       (Some lastErr)"

text \<open>No sleep when the loop is about to end.\<close>

definition pause :: "'w retry_env \<Rightarrow> int \<Rightarrow> int \<Rightarrow> 'w \<Rightarrow> 'w" where
  "pause env maxAttempts i w =
     (if i \<noteq> maxAttempts - 1
      then (case strategy_Duration env i w of (d, w') \<Rightarrow> time_Sleep env d w')
      else w)"

function do_loop :: "'w retry_env \<Rightarrow> int \<Rightarrow> ('w, 'a) call \<Rightarrow> int \<Rightarrow> go_error \<Rightarrow> ('w, 'a) call" where
  "do_loop env maxAttempts op i err w =
     (if i < maxAttempts then
        (case ctx_Err env w of
           Some e \<Rightarrow> (Err e, w)
         | None \<Rightarrow>
             (case op w of
                (Ok ret, w1) \<Rightarrow> (Ok ret, w1)
              | (Panic p, w1) \<Rightarrow> (Panic p, w1)
              | (Err e, w1) \<Rightarrow>
                  do_loop env maxAttempts op (i + 1) e (pause env maxAttempts i w1)))
      else (Err (ErrFailedPermanently maxAttempts err), w))"
  by pat_completeness auto
termination
  by (relation "measure (\<lambda>(env, maxAttempts, op, i, err, w). nat (maxAttempts - i))") auto

declare do_loop.simps [simp del]

definition Do :: "'w retry_env \<Rightarrow> int \<Rightarrow> ('w, 'a) call \<Rightarrow> ('w, 'a) call" where
  "Do env maxAttempts op w =
     (if maxAttempts < 1
      then (Err (NewError (''need at least 1 attempt to run op, but have '' @ show_int maxAttempts
                            @ '' max attempts'')), w)
      else do_loop env maxAttempts op 0 (NewError []) w)"

section \<open>Delays\<close>

record exponential_strategy =
  Min_dur :: int
  Max_dur :: int
  MaxJitter :: int

definition Millisecond :: int where
  "Millisecond = 1000000"

text \<open>
  \<open>rand\<close> is the value \<open>rand.Int63n\<close> draws. The conversion of the floating-point power is exact
  up to \<open>2 ^ 52\<close> times 1000; the two 64-bit operations after it wrap around.
\<close>

definition ExponentialStrategy_Duration :: "exponential_strategy \<Rightarrow> int \<Rightarrow> nat \<Rightarrow> int" where
  "ExponentialStrategy_Duration e rand attempt =
     (let jitter = (if MaxJitter e > 0 then rand else 0);
          dur = wrap_int64 (Min_dur e + wrap_int64 (2 ^ attempt * 1000 * Millisecond));
          dur = wrap_int64 (dur + jitter)
      in if dur > Max_dur e then Max_dur e else dur)"

definition Exponential :: exponential_strategy where
  "Exponential = \<lparr>Min_dur = 0, Max_dur = 10000 * Millisecond, MaxJitter = 250 * Millisecond\<rparr>"

definition FixedStrategy_Duration :: "int \<Rightarrow> int \<Rightarrow> 'w \<Rightarrow> int \<times> 'w" where
  "FixedStrategy_Duration dur attempt w = (dur, w)"

section \<open>What the loop does\<close>

text \<open>
  The world in which attempt \<open>i + k\<close> starts, and the error remembered there, when the attempts
  before it failed.
\<close>

fun world_at :: "'w retry_env \<Rightarrow> int \<Rightarrow> ('w, 'a) call \<Rightarrow> int \<Rightarrow> nat \<Rightarrow> 'w \<Rightarrow> 'w" where
  "world_at env n op i 0 w = w"
| "world_at env n op i (Suc k) w = world_at env n op (i + 1) k (pause env n i (snd (op w)))"

fun error_of :: "go_error \<Rightarrow> 'a outcome \<Rightarrow> go_error" where
  "error_of d (Err e) = e"
| "error_of d (Ok x) = d"
| "error_of d (Panic p) = d"

fun err_at :: "'w retry_env \<Rightarrow> int \<Rightarrow> ('w, 'a) call \<Rightarrow> int \<Rightarrow> nat \<Rightarrow> go_error \<Rightarrow> 'w \<Rightarrow> go_error" where
  "err_at env n op i 0 err w = err"
| "err_at env n op i (Suc k) err w =
     err_at env n op (i + 1) k (error_of err (fst (op w))) (pause env n i (snd (op w)))"

definition fails_at :: "'w retry_env \<Rightarrow> int \<Rightarrow> ('w, 'a) call \<Rightarrow> int \<Rightarrow> 'w \<Rightarrow> nat \<Rightarrow> bool" where
  "fails_at env n op i w k \<longleftrightarrow>
     ctx_Err env (world_at env n op i k w) = None \<and>
     (\<exists>e. fst (op (world_at env n op i k w)) = Err e)"

lemma fails_at_0: "fails_at env n op i w 0 \<longleftrightarrow> ctx_Err env w = None \<and> (\<exists>e. fst (op w) = Err e)"
  by (simp add: fails_at_def)

lemma fails_at_Suc:
  "fails_at env n op i w (Suc k) \<longleftrightarrow> fails_at env n op (i + 1) (pause env n i (snd (op w))) k"
  by (simp add: fails_at_def)

text \<open>Failed attempts move the loop on.\<close>

lemma do_loop_skip:
  assumes "i + int k \<le> n" "\<And>j. j < k \<Longrightarrow> fails_at env n op i w j"
  shows "do_loop env n op i err w =
    do_loop env n op (i + int k) (err_at env n op i k err w) (world_at env n op i k w)"
  using assms
proof (induction k arbitrary: i w err)
  case 0
  then show ?case by simp
next
  case (Suc k)
  from Suc.prems(2) [of 0] obtain e w1 where op: "op w = (Err e, w1)" and alive: "ctx_Err env w = None"
    by (cases "op w") (auto simp: fails_at_0)
  have "do_loop env n op i err w = do_loop env n op (i + 1) e (pause env n i w1)"
    using Suc.prems(1) alive op by (subst do_loop.simps) simp
  also have "\<dots> = do_loop env n op (i + 1 + int k) (err_at env n op (i + 1) k e (pause env n i w1))
      (world_at env n op (i + 1) k (pause env n i w1))"
    using Suc.prems op fails_at_Suc [of env n op i w] by (intro Suc.IH) auto
  finally show ?case
    using op by (simp add: ac_simps)
qed

lemma do_loop_done: "n \<le> i \<Longrightarrow> do_loop env n op i err w = (Err (ErrFailedPermanently n err), w)"
  by (subst do_loop.simps) simp

lemma do_loop_Ok:
  "i < n \<Longrightarrow> ctx_Err env w = None \<Longrightarrow> op w = (Ok x, w') \<Longrightarrow> do_loop env n op i err w = (Ok x, w')"
  by (subst do_loop.simps) simp

lemma do_loop_cancelled:
  "i < n \<Longrightarrow> ctx_Err env w = Some e \<Longrightarrow> do_loop env n op i err w = (Err e, w)"
  by (subst do_loop.simps) simp

theorem Do_first_success:
  assumes "int k < n" "\<forall>j<k. fails_at env n op 0 w j"
    and "ctx_Err env (world_at env n op 0 k w) = None"
    and "op (world_at env n op 0 k w) = (Ok x, w')"
  shows "Do env n op w = (Ok x, w')"
  using assms do_loop_skip [of 0 k n env op w] by (simp add: Do_def do_loop_Ok)

theorem Do_all_fail:
  assumes "1 \<le> n" "\<forall>j<nat n. fails_at env n op 0 w j"
  shows "\<exists>w'. Do env n op w = (Err (ErrFailedPermanently n (err_at env n op 0 (nat n) (NewError []) w)), w')"
  using assms do_loop_skip [of 0 "nat n" n env op w] by (simp add: Do_def do_loop_done)

text \<open>
  Whatever the operation counts in the world, it counts at most \<open>maxAttempts\<close> runs.
\<close>

lemma do_loop_attempts:
  fixes runs :: "'w \<Rightarrow> nat"
  assumes op: "\<And>w. runs (snd (op w)) = Suc (runs w)"
    and pause: "\<And>i w. runs (pause env n i w) = runs w"
  shows "runs (snd (do_loop env n op i err w)) \<le> runs w + nat (n - i)"
proof (induction "nat (n - i)" arbitrary: i err w)
  case 0
  then show ?case by (simp add: do_loop_done)
next
  case (Suc k)
  then have i: "i < n" by simp
  show ?case
  proof (cases "ctx_Err env w")
    case (Some e)
    with i show ?thesis by (simp add: do_loop_cancelled)
  next
    case None
    obtain r w1 where opw: "op w = (r, w1)" by (cases "op w")
    with op [of w] have w1: "runs w1 = Suc (runs w)" by simp
    show ?thesis
    proof (cases r)
      case (Err e)
      have "do_loop env n op i err w = do_loop env n op (i + 1) e (pause env n i w1)"
        using i None opw Err by (subst do_loop.simps) simp
      moreover have "runs (snd (do_loop env n op (i + 1) e (pause env n i w1)))
          \<le> runs (pause env n i w1) + nat (n - (i + 1))"
        using Suc.hyps(2) by (intro Suc.hyps(1)) simp
      ultimately show ?thesis using pause [of i w1] w1 i by simp
    next
      case (Ok x)
      with i None opw w1 show ?thesis by (subst do_loop.simps) simp
    next
      case (Panic p)
      with i None opw w1 show ?thesis by (subst do_loop.simps) simp
    qed
  qed
qed

lemma Do_attempts:
  fixes runs :: "'w \<Rightarrow> nat"
  assumes "\<And>w. runs (snd (op w)) = Suc (runs w)" "\<And>i w. runs (pause env n i w) = runs w"
  shows "runs (snd (Do env n op w)) \<le> runs w + nat n"
  using do_loop_attempts [of runs op env n 0, OF assms] by (simp add: Do_def)

section \<open>What the delays are\<close>

lemma pow2_bounds: "k \<le> m \<Longrightarrow> (1::int) \<le> 2 ^ k \<and> (2::int) ^ k \<le> 2 ^ m"
  by (simp add: power_increasing)

theorem Exponential_bounds:
  assumes "attempt \<le> 33" "0 \<le> rand" "rand < 250 * Millisecond"
  shows "1000 * Millisecond \<le> ExponentialStrategy_Duration Exponential rand attempt"
    and "ExponentialStrategy_Duration Exponential rand attempt \<le> 10000 * Millisecond"
proof -
  define x :: int where "x = 2 ^ attempt"
  have p: "1 \<le> x" "x \<le> 8589934592"
    using pow2_bounds [OF assms(1)] by (simp_all add: x_def)
  have "wrap_int64 (x * 1000 * Millisecond) = x * 1000 * Millisecond"
    using p by (intro wrap_int64_id) (auto simp: Millisecond_def)
  moreover have "wrap_int64 (x * 1000 * Millisecond + rand) = x * 1000 * Millisecond + rand"
    using p assms(2,3) by (intro wrap_int64_id) (auto simp: Millisecond_def)
  ultimately have eq: "ExponentialStrategy_Duration Exponential rand attempt =
      min (10000 * Millisecond) (x * 1000 * Millisecond + rand)"
    by (auto simp: ExponentialStrategy_Duration_def Exponential_def Let_def Millisecond_def x_def)
  show "1000 * Millisecond \<le> ExponentialStrategy_Duration Exponential rand attempt"
    and "ExponentialStrategy_Duration Exponential rand attempt \<le> 10000 * Millisecond"
    unfolding eq using p assms(2) by (auto simp: Millisecond_def)
qed

text \<open>From attempt 34 on the product overflows and the delay is negative: no delay at all.\<close>

lemma Exponential_overflow: "ExponentialStrategy_Duration Exponential 0 34 < 0"
  by (simp add: ExponentialStrategy_Duration_def Exponential_def Let_def Millisecond_def wrap_int64_def)

end
