(* ===== verification/Batch_Encoder.thy ===== *)
theory Batch_Encoder
  imports Go_Prelude
begin

text \<open>
  \<^verbatim>\<open>rollup/derivation/batch_v0_encoder.go\<close>: the encoder that packs L2 blocks into sub-batches, and
  \<open>DecodeBatch\<close> of \<^verbatim>\<open>batch_builder.go\<close>. Go's \<open>types.Block\<close> is a record of what the code reads of it;
  go-ethereum's \<open>rlp\<close> package and \<open>Transaction.MarshalBinary\<close> are the parameter \<open>lib\<close>. A slice
  expression out of range is a panic.
\<close>

section \<open>Blocks and the codec\<close>

record L2Tx =
  l2tx_To :: "address option"
  l2tx_Data :: bytes
  l2tx_Hash :: hash

record L2Block =
  block_NumberU64 :: uint64
  block_Hash :: hash
  block_ParentHash :: hash
  block_Transactions :: "L2Tx list"

type_synonym rawTxBlock = "bytes list"

text \<open>
  What reflection shows of a struct value: its fields with their names, the value of the \<open>rlp\<close> tag
  and the field's value. A field is exported when its name starts with an upper-case letter.
\<close>

datatype go_value = GUint uint64 | GBlocks "rawTxBlock list"

type_synonym go_field = "string \<times> string \<times> go_value"

fun exported :: "string \<Rightarrow> bool" where
  "exported [] = False"
| "exported (c # cs) = (c \<in> set ''ABCDEFGHIJKLMNOPQRSTUVWXYZ'')"

definition public_fields :: "go_field list \<Rightarrow> (string \<times> go_value) list" where
  "public_fields fs = map (\<lambda>(n, t, v). (n, v)) (filter (\<lambda>(n, t, v). exported n \<and> t \<noteq> ''-'') fs)"

record codec =
  tx_MarshalBinary :: "L2Tx \<Rightarrow> bytes outcome"
  rlp_ListSize :: "uint64 \<Rightarrow> uint64"
  rlp_IntSize :: "uint64 \<Rightarrow> nat"
  rlp_Encode :: "go_field list list \<Rightarrow> bytes outcome"
  rlp_Decode :: "string list \<Rightarrow> bytes \<Rightarrow> (string \<times> go_value) list list outcome"

text \<open>
  What the code relies on: the list header takes a byte at least; a struct is encoded as the list
  of its public fields; and decoding into a type with those public fields gives them back.
\<close>

definition rlp_list_header :: "codec \<Rightarrow> bool" where
  "rlp_list_header lib \<longleftrightarrow> rlp_ListSize lib 0 = 1 \<and> (\<forall>n. unat n + 9 < 2 ^ 64 \<longrightarrow> unat n < unat (rlp_ListSize lib n))"

definition rlp_public_only :: "codec \<Rightarrow> bool" where
  "rlp_public_only lib \<longleftrightarrow>
     (\<forall>ss ts. map public_fields ss = map public_fields ts \<longrightarrow> rlp_Encode lib ss = rlp_Encode lib ts)"

definition rlp_inverse :: "codec \<Rightarrow> bool" where
  "rlp_inverse lib \<longleftrightarrow>
     (\<forall>ss names d. rlp_Encode lib ss = Ok d \<longrightarrow> (\<forall>s \<in> set ss. map fst (public_fields s) = names) \<longrightarrow>
        rlp_Decode lib names d = Ok (map public_fields ss))"

section \<open>Sub-batches\<close>

record subBatch =
  firstL2BlockNum :: uint64
  txBlocks :: "rawTxBlock list"
  contentSize :: uint64

definition newSubBatch :: subBatch where
  "newSubBatch = \<lparr>firstL2BlockNum = 0, txBlocks = [], contentSize = 0\<rparr>"

definition subBatch_fields :: "subBatch \<Rightarrow> go_field list" where
  "subBatch_fields s =
     [(''firstL2BlockNum'', '''', GUint (firstL2BlockNum s)),
      (''txBlocks'', '''', GBlocks (txBlocks s)),
      (''contentSize'', ''-'', GUint (contentSize s))]"

definition size_sub :: "codec \<Rightarrow> subBatch \<Rightarrow> uint64" where
  "size_sub lib s = rlp_ListSize lib (contentSize s)"

fun marshall_loop :: "codec \<Rightarrow> nat \<Rightarrow> L2Tx list \<Rightarrow> rawTxBlock \<Rightarrow> nat \<Rightarrow> (rawTxBlock \<times> nat) outcome" where
  "marshall_loop lib i [] rawTxs numBytes = Ok (rawTxs, numBytes)"
| "marshall_loop lib i (tx # txs) rawTxs numBytes =
     (case tx_MarshalBinary lib tx of
        Err e \<Rightarrow> Err (Wrapped (''could not marshall tx '' @ show_nat i @ '' in block '' @ show_hash (l2tx_Hash tx)) e)
      | Panic p \<Rightarrow> Panic p
      | Ok rawTx \<Rightarrow> marshall_loop lib (i + 1) txs (rawTxs @ [rawTx]) (numBytes + length rawTx))"

definition marshallTxs :: "codec \<Rightarrow> L2Tx list \<Rightarrow> (rawTxBlock \<times> nat) outcome" where
  "marshallTxs lib txs = marshall_loop lib 0 txs [] 0"

definition appendTxBlock :: "codec \<Rightarrow> uint64 \<Rightarrow> L2Tx list \<Rightarrow> subBatch \<Rightarrow> unit outcome \<times> subBatch" where
  "appendTxBlock lib blockNum txs s =
     (let s1 = (if length (txBlocks s) = 0
                then s\<lparr>firstL2BlockNum := blockNum, contentSize := contentSize s + of_nat (rlp_IntSize lib blockNum)\<rparr>
                else s)
      in case marshallTxs lib txs of
           Err e \<Rightarrow> (Err (Wrapped ''could not marshall txs'' e), s1)
         | Panic p \<Rightarrow> (Panic p, s1)
         | Ok (marshalled, numBytes) \<Rightarrow>
             (Ok (), s1\<lparr>txBlocks := txBlocks s1 @ [marshalled], contentSize := contentSize s1 + of_nat numBytes\<rparr>))"

section \<open>The encoder\<close>

record BatchV0Encoder =
  enc_TargetBatchSize :: uint64
  subBatches :: "subBatch list"
  runningLen :: uint64

abbreviation errBatchFull :: string where "errBatchFull \<equiv> ''batch full''"
abbreviation errBatchTooSmall :: string where "errBatchTooSmall \<equiv> ''batch too small''"

definition V0 :: uint8 where "V0 = 0"

definition NewBatchV0Encoder :: "uint64 \<Rightarrow> BatchV0Encoder" where
  "NewBatchV0Encoder target = \<lparr>enc_TargetBatchSize = target, subBatches = [newSubBatch], runningLen = 0\<rparr>"

definition getVersion :: "BatchV0Encoder \<Rightarrow> uint8" where
  "getVersion e = V0"

text \<open>\<open>e.subBatches[len(e.subBatches)-1]\<close>, and the assignment through the pointer it holds.\<close>

definition currSubBatch :: "BatchV0Encoder \<Rightarrow> subBatch outcome" where
  "currSubBatch e = (if subBatches e = [] then Panic ''index out of range'' else Ok (last (subBatches e)))"

definition set_currSubBatch :: "subBatch \<Rightarrow> BatchV0Encoder \<Rightarrow> BatchV0Encoder" where
  "set_currSubBatch s e = e\<lparr>subBatches := butlast (subBatches e) @ [s]\<rparr>"

definition shouldCloseBatch :: "codec \<Rightarrow> BatchV0Encoder \<Rightarrow> bool outcome" where
  "shouldCloseBatch lib e =
     bind_out (currSubBatch e) (\<lambda>s. Ok (enc_TargetBatchSize e < runningLen e + size_sub lib s))"

definition closeSubBatch :: "codec \<Rightarrow> BatchV0Encoder \<Rightarrow> BatchV0Encoder outcome" where
  "closeSubBatch lib e =
     bind_out (currSubBatch e) (\<lambda>s.
       if size_sub lib s = 0 then Ok e
       else Ok (e\<lparr>runningLen := runningLen e + size_sub lib s, subBatches := subBatches e @ [newSubBatch]\<rparr>))"

definition ProcessBlock_V0 :: "codec \<Rightarrow> L2Block \<Rightarrow> bool \<Rightarrow> BatchV0Encoder \<Rightarrow> unit outcome \<times> BatchV0Encoder" where
  "ProcessBlock_V0 lib block isNewEpoch e =
     (case shouldCloseBatch lib e of
        Err er \<Rightarrow> (Err er, e)
      | Panic p \<Rightarrow> (Panic p, e)
      | Ok closeBatch \<Rightarrow>
          let shouldSkipBlock = length (block_Transactions block) = 0;
              shouldCloseSubBatch = closeBatch \<or> shouldSkipBlock \<or> isNewEpoch
          in case (if shouldCloseSubBatch then closeSubBatch lib e else Ok e) of
               Err er \<Rightarrow> (Err er, e)
             | Panic p \<Rightarrow> (Panic p, e)
             | Ok e1 \<Rightarrow>
                 if closeBatch then (Err (Sentinel errBatchFull), e1)
                 else if shouldSkipBlock then (Ok (), e1)
                 else (case currSubBatch e1 of
                         Err er \<Rightarrow> (Err er, e1)
                       | Panic p \<Rightarrow> (Panic p, e1)
                       | Ok s \<Rightarrow>
                           (case appendTxBlock lib (block_NumberU64 block) (block_Transactions block) s of
                              (r, s') \<Rightarrow> (wrap_err ''could not append block of txs'' r, set_currSubBatch s' e1))))"

definition GetBatch_V0 :: "codec \<Rightarrow> bool \<Rightarrow> BatchV0Encoder \<Rightarrow> bytes outcome \<times> BatchV0Encoder" where
  "GetBatch_V0 lib force e =
     (case currSubBatch e of
        Err er \<Rightarrow> (Err er, e)
      | Panic p \<Rightarrow> (Panic p, e)
      | Ok s \<Rightarrow>
          let totalLen = runningLen e + contentSize s in
          if \<not> force \<and> totalLen < enc_TargetBatchSize e then (Err (Sentinel errBatchTooSmall), e)
          else case bind_out (shouldCloseBatch lib e) (\<lambda>c. if c then closeSubBatch lib e else Ok e) of
                 Err er \<Rightarrow> (Err er, e)
               | Panic p \<Rightarrow> (Panic p, e)
               | Ok e1 \<Rightarrow>
                   (bind_out (wrap_err ''failed to encode batch''
                                (rlp_Encode lib (map subBatch_fields (butlast (subBatches e1)))))
                      (\<lambda>d. Ok (getVersion e1 # d)), e1))"

definition Reset_V0 :: "BatchV0Encoder \<Rightarrow> BatchV0Encoder" where
  "Reset_V0 e = e\<lparr>subBatches := [newSubBatch], runningLen := 0\<rparr>"

section \<open>Decoding\<close>

definition fill_subBatch :: "(string \<times> go_value) list \<Rightarrow> subBatch" where
  "fill_subBatch fs =
     \<lparr>firstL2BlockNum = (case map_of fs ''firstL2BlockNum'' of Some (GUint n) \<Rightarrow> n | _ \<Rightarrow> 0),
      txBlocks = (case map_of fs ''txBlocks'' of Some (GBlocks bs) \<Rightarrow> bs | _ \<Rightarrow> []),
      contentSize = 0\<rparr>"

definition decodeV0 :: "codec \<Rightarrow> bytes \<Rightarrow> subBatch list outcome" where
  "decodeV0 lib d =
     bind_out (rlp_Decode lib (map fst (public_fields (subBatch_fields newSubBatch))) d)
       (\<lambda>sss. Ok (map fill_subBatch sss))"

definition DecodeTxBatchError :: "string \<Rightarrow> go_error" where
  "DecodeTxBatchError m = Typed True ''DecodeTxBatchError'' (''failed to decode batch: '' @ m) None"

definition DecodeBatch :: "codec \<Rightarrow> bytes \<Rightarrow> subBatch list outcome" where
  "DecodeBatch lib d =
     (case d of
        [] \<Rightarrow> Err (DecodeTxBatchError ''empty batch data'')
      | v # rest \<Rightarrow>
          if v = V0 then decodeV0 lib rest
          else Err (DecodeTxBatchError (''invalid batch version: '' @ show_nat (unat v))))"

lemmas encoder_op_defs [op_defs] =
  shouldCloseBatch_def closeSubBatch_def currSubBatch_def set_currSubBatch_def

section \<open>Marshalling\<close>

lemma marshall_loop_Ok:
  "marshall_loop lib i txs acc n = Ok (raw, m) \<longleftrightarrow>
   (\<exists>raws. list_all2 (\<lambda>tx r. tx_MarshalBinary lib tx = Ok r) txs raws \<and> raw = acc @ raws \<and>
           m = n + sum_list (map length raws))"
proof (induction txs arbitrary: i acc n)
  case Nil
  then show ?case by auto
next
  case (Cons tx txs)
  then show ?case by (cases "tx_MarshalBinary lib tx") (auto simp: list_all2_Cons1)
qed

lemma marshallTxs_Ok:
  "marshallTxs lib txs = Ok (raw, m) \<longleftrightarrow>
   list_all2 (\<lambda>tx r. tx_MarshalBinary lib tx = Ok r) txs raw \<and> m = sum_list (map length raw)"
  by (auto simp: marshallTxs_def marshall_loop_Ok)

section \<open>What a decoder needs\<close>

text \<open>
  A sub-batch stores the number of its first block only; the block at position \<open>i\<close> of \<open>txBlocks\<close> is
  read back with number \<open>firstL2BlockNum + i\<close>. \<open>derived\<close> is the sequence of numbered blocks the
  encoder holds under that reading.
\<close>

fun number_from :: "uint64 \<Rightarrow> 'a list \<Rightarrow> (uint64 \<times> 'a) list" where
  "number_from n [] = []"
| "number_from n (x # xs) = (n, x) # number_from (n + 1) xs"

lemma number_from_snoc [simp]:
  "number_from n (xs @ [x]) = number_from n xs @ [(n + of_nat (length xs), x)]"
  by (induction xs arbitrary: n) (simp_all add: algebra_simps)

definition sub_derived :: "subBatch \<Rightarrow> (uint64 \<times> rawTxBlock) list" where
  "sub_derived s = number_from (firstL2BlockNum s) (txBlocks s)"

definition derived :: "BatchV0Encoder \<Rightarrow> (uint64 \<times> rawTxBlock) list" where
  "derived e = concat (map sub_derived (subBatches e))"

text \<open>The current sub-batch can take block \<open>n\<close>: it is empty, or \<open>n\<close> is the number its next position stands for.\<close>

definition sub_next :: "uint64 \<Rightarrow> subBatch \<Rightarrow> bool" where
  "sub_next n s \<longleftrightarrow> txBlocks s = [] \<or> firstL2BlockNum s + of_nat (length (txBlocks s)) = n"

definition enc_inv :: "codec \<Rightarrow> BatchV0Encoder \<Rightarrow> bool" where
  "enc_inv lib e \<longleftrightarrow> subBatches e \<noteq> [] \<and> runningLen e = sum_list (map (size_sub lib) (butlast (subBatches e)))"

definition enc_next :: "uint64 \<Rightarrow> BatchV0Encoder \<Rightarrow> bool" where
  "enc_next n e \<longleftrightarrow> subBatches e \<noteq> [] \<and> sub_next n (last (subBatches e))"

definition open_size :: "BatchV0Encoder \<Rightarrow> nat" where
  "open_size e = unat (contentSize (last (subBatches e)))"

lemma newSubBatch_sel [simp]:
  "firstL2BlockNum newSubBatch = 0" "txBlocks newSubBatch = []" "contentSize newSubBatch = 0"
  "sub_derived newSubBatch = []" "sub_next n newSubBatch"
  by (simp_all add: newSubBatch_def sub_derived_def sub_next_def)

lemma append_last_split: "xs \<noteq> [] \<Longrightarrow> concat (map f xs) = concat (map f (butlast xs)) @ f (last xs)"
  by (induction xs rule: rev_induct) auto

lemma derived_split:
  "subBatches e \<noteq> [] \<Longrightarrow>
   derived e = concat (map sub_derived (butlast (subBatches e))) @ sub_derived (last (subBatches e))"
  by (simp add: derived_def append_last_split)

lemma appendTxBlock_Ok:
  assumes "appendTxBlock lib n txs s = (Ok (), s')" "sub_next n s"
  obtains raw where "marshallTxs lib txs = Ok (raw, sum_list (map length raw))"
    "sub_derived s' = sub_derived s @ [(n, raw)]" "sub_next (n + 1) s'"
    "unat (contentSize s') \<le> unat (contentSize s) + (rlp_IntSize lib n + sum_list (map length raw))"
proof -
  obtain raw k where m: "marshallTxs lib txs = Ok (raw, k)"
    using assms(1) by (auto simp: appendTxBlock_def Let_def split: outcome.splits prod.splits)
  then have k: "k = sum_list (map length raw)" by (simp add: marshallTxs_Ok)
  note le = unat_add_of_nat_le
  have le2: "unat (c + of_nat a + of_nat b) \<le> unat c + (a + b)" for c :: uint64 and a b
    using le [of "c + of_nat a" b] le [of c a] by linarith
  show thesis
    using assms m k le [of "contentSize s" k] le2 [of "contentSize s" "rlp_IntSize lib n" k]
    by (intro that [of raw]) (auto simp: appendTxBlock_def sub_derived_def sub_next_def Let_def split: if_splits)
qed

lemma appendTxBlock_fails:
  assumes "appendTxBlock lib n txs s = (r, s')" "r \<noteq> Ok ()" "sub_next m s"
  shows "sub_derived s' = sub_derived s \<and> sub_next m s'"
  using assms by (auto simp: appendTxBlock_def sub_derived_def sub_next_def Let_def split: outcome.splits prod.splits if_splits)

section \<open>One block\<close>

lemma rlp_list_header_nz:
  "rlp_list_header lib \<Longrightarrow> unat n + 9 < 2 ^ 64 \<Longrightarrow> rlp_ListSize lib n \<noteq> 0"
  by (metis less_nat_zero_code rlp_list_header_def unat_0)

lemma sum_list_last_split:
  "xs \<noteq> [] \<Longrightarrow> sum_list (map f xs) = sum_list (map f (butlast xs)) + (f (last xs) :: uint64)"
  by (induction xs rule: rev_induct) auto

text \<open>The sub-batch that a block is appended to: the current one, or the fresh one of \<open>closeSubBatch\<close>.\<close>

lemma closeSubBatch_Ok:
  assumes "enc_inv lib e" "closeSubBatch lib e = Ok e'"
  shows "enc_inv lib e'" "derived e' = derived e"
    "rlp_list_header lib \<Longrightarrow> open_size e + 9 < 2 ^ 64 \<Longrightarrow> last (subBatches e') = newSubBatch"
    "enc_TargetBatchSize e' = enc_TargetBatchSize e"
  using assms rlp_list_header_nz [of lib "contentSize (last (subBatches e))"]
    sum_list_last_split [of "subBatches e" "size_sub lib"]
  by (auto simp: op_defs enc_inv_def derived_def open_size_def size_sub_def split: if_splits)

lemma set_currSubBatch_props:
  assumes "enc_inv lib e" "currSubBatch e = Ok s"
  shows "enc_inv lib (set_currSubBatch s' e)"
    "derived (set_currSubBatch s' e) = concat (map sub_derived (butlast (subBatches e))) @ sub_derived s'"
    "last (subBatches (set_currSubBatch s' e)) = s'" "subBatches (set_currSubBatch s' e) \<noteq> []"
    "derived e = concat (map sub_derived (butlast (subBatches e))) @ sub_derived s"
    "s = last (subBatches e)"
  using assms by (auto simp: op_defs enc_inv_def derived_def append_last_split split: if_splits)

text \<open>What the encoder takes of an accepted block, and a bound on the bytes it adds.\<close>

definition accepted :: "codec \<Rightarrow> L2Block \<Rightarrow> (uint64 \<times> rawTxBlock) list" where
  "accepted lib b =
     (if block_Transactions b = [] then []
      else case marshallTxs lib (block_Transactions b) of
             Ok (raw, k) \<Rightarrow> [(block_NumberU64 b, raw)] | Err _ \<Rightarrow> [] | Panic _ \<Rightarrow> [])"

definition block_bytes :: "codec \<Rightarrow> L2Block \<Rightarrow> nat" where
  "block_bytes lib b =
     rlp_IntSize lib (block_NumberU64 b) +
     (case marshallTxs lib (block_Transactions b) of Ok (raw, k) \<Rightarrow> k | Err _ \<Rightarrow> 0 | Panic _ \<Rightarrow> 0)"

definition encoder_takes :: "codec \<Rightarrow> uint64 \<Rightarrow> L2Block \<Rightarrow> BatchV0Encoder \<Rightarrow> BatchV0Encoder \<Rightarrow> bool" where
  "encoder_takes lib n b e e' \<longleftrightarrow>
     derived e' = derived e @ accepted lib b \<and> enc_next (n + 1) e' \<and> open_size e' \<le> open_size e + block_bytes lib b"

lemma append_step:
  assumes e1: "enc_inv lib e1" and n: "enc_next (block_NumberU64 b) e1" and ne: "block_Transactions b \<noteq> []"
    and cur: "currSubBatch e1 = Ok s"
    and ap: "appendTxBlock lib (block_NumberU64 b) (block_Transactions b) s = (r, s')"
  shows "r = Ok () \<Longrightarrow> encoder_takes lib (block_NumberU64 b) b e1 (set_currSubBatch s' e1)"
    "r \<noteq> Ok () \<Longrightarrow> derived (set_currSubBatch s' e1) = derived e1 \<and> enc_next (block_NumberU64 b) (set_currSubBatch s' e1)"
proof -
  note cp = set_currSubBatch_props [OF e1 cur]
  have sn: "sub_next (block_NumberU64 b) s" using n cp(6) by (simp add: enc_next_def)
  show "encoder_takes lib (block_NumberU64 b) b e1 (set_currSubBatch s' e1)" if "r = Ok ()"
  proof -
    have ap': "appendTxBlock lib (block_NumberU64 b) (block_Transactions b) s = (Ok (), s')"
      using ap that by simp
    obtain raw where "marshallTxs lib (block_Transactions b) = Ok (raw, sum_list (map length raw))"
      "sub_derived s' = sub_derived s @ [(block_NumberU64 b, raw)]" "sub_next (block_NumberU64 b + 1) s'"
      "unat (contentSize s') \<le> unat (contentSize s) + (rlp_IntSize lib (block_NumberU64 b) + sum_list (map length raw))"
      using appendTxBlock_Ok [OF ap' sn] by blast
    then show ?thesis
      using ne cp by (simp add: encoder_takes_def accepted_def block_bytes_def enc_next_def open_size_def)
  qed
  show "derived (set_currSubBatch s' e1) = derived e1 \<and> enc_next (block_NumberU64 b) (set_currSubBatch s' e1)"
    if "r \<noteq> Ok ()"
    using appendTxBlock_fails [OF ap that sn] cp by (simp add: enc_next_def)
qed

lemma process_step:
  assumes lib: "rlp_list_header lib" and inv: "enc_inv lib e" and nx: "enc_next (block_NumberU64 b) e"
    and fit: "open_size e + 9 < 2 ^ 64" and pb: "ProcessBlock_V0 lib b ep e = (r, e')"
  shows "enc_inv lib e'"
    "r = Ok () \<Longrightarrow> encoder_takes lib (block_NumberU64 b) b e e'"
    "r \<noteq> Ok () \<Longrightarrow> derived e' = derived e \<and> enc_next (block_NumberU64 b) e'"
proof -
  let ?n = "block_NumberU64 b"
  have ne: "subBatches e \<noteq> []" using inv by (simp add: enc_inv_def)
  define c where "c \<longleftrightarrow> enc_TargetBatchSize e < runningLen e + size_sub lib (last (subBatches e))"
  define cs where "cs \<longleftrightarrow> c \<or> block_Transactions b = [] \<or> ep"
  have "\<exists>e1. (if cs then closeSubBatch lib e else Ok e) = Ok e1"
    using ne by (simp add: op_defs)
  then obtain e1 where e1: "(if cs then closeSubBatch lib e else Ok e) = Ok e1" ..
  have k1: "enc_inv lib e1" "derived e1 = derived e" "subBatches e1 \<noteq> []"
    and k2: "cs \<Longrightarrow> last (subBatches e1) = newSubBatch" "\<not> cs \<Longrightarrow> e1 = e"
    using e1 inv closeSubBatch_Ok [OF inv, of e1] lib fit by (auto split: if_splits simp: enc_inv_def)
  have nx1: "enc_next ?n e1" and os: "open_size e1 \<le> open_size e"
    using k1 k2 nx by (cases cs; simp add: enc_next_def open_size_def)+
  obtain s where s: "currSubBatch e1 = Ok s" using k1 by (simp add: currSubBatch_def)
  obtain ra s' where ap: "appendTxBlock lib ?n (block_Transactions b) s = (ra, s')" by fastforce
  have res: "(r, e') = (if c then (Err (Sentinel errBatchFull), e1) else if block_Transactions b = [] then (Ok (), e1)
      else (wrap_err ''could not append block of txs'' ra, set_currSubBatch s' e1))"
    using pb ne s ap e1 by (auto simp: ProcessBlock_V0_def shouldCloseBatch_def currSubBatch_def c_def cs_def Let_def
        split: if_splits)
  show "enc_inv lib e'" using res k1 set_currSubBatch_props(1) [OF k1(1) s] by (auto split: if_splits)
  have "enc_next (?n + 1) e1" if "block_Transactions b = []"
    using k1 k2(1) that by (simp add: cs_def enc_next_def)
  then show "r = Ok () \<Longrightarrow> encoder_takes lib ?n b e e'"
    "r \<noteq> Ok () \<Longrightarrow> derived e' = derived e \<and> enc_next ?n e'"
    using res k1 nx1 os append_step [OF k1(1) nx1 _ s ap]
    by (cases ra; auto simp: encoder_takes_def accepted_def split: if_splits)+
qed

section \<open>Properties\<close>

text \<open>Feeding a sequence of blocks with their epoch flags, while each is accepted.\<close>

fun process_all :: "codec \<Rightarrow> (L2Block \<times> bool) list \<Rightarrow> BatchV0Encoder \<Rightarrow> BatchV0Encoder option" where
  "process_all lib [] e = Some e"
| "process_all lib ((b, ep) # bs) e =
     (case ProcessBlock_V0 lib b ep e of
        (Ok _, e') \<Rightarrow> process_all lib bs e'
      | (Err _, e') \<Rightarrow> None
      | (Panic _, e') \<Rightarrow> None)"

fun consecutive :: "uint64 \<Rightarrow> L2Block list \<Rightarrow> bool" where
  "consecutive n [] = True"
| "consecutive n (b # bs) = (block_NumberU64 b = n \<and> consecutive (n + 1) bs)"

lemma process_all_derived:
  assumes "rlp_list_header lib" "enc_inv lib e" "enc_next n e" "consecutive n (map fst bs)"
    "open_size e + sum_list (map (block_bytes lib \<circ> fst) bs) + 9 < 2 ^ 64"
    "process_all lib bs e = Some e'"
  shows "derived e' = derived e @ concat (map (accepted lib \<circ> fst) bs) \<and> enc_inv lib e'"
  using assms
proof (induction bs arbitrary: e n)
  case Nil
  then show ?case by simp
next
  case (Cons bp bs)
  obtain b ep where bp: "bp = (b, ep)" by fastforce
  obtain e1 where pb: "ProcessBlock_V0 lib b ep e = (Ok (), e1)" and rest: "process_all lib bs e1 = Some e'"
    using Cons.prems(6) by (auto simp: bp split: prod.splits outcome.splits)
  have n: "block_NumberU64 b = n" "consecutive (n + 1) (map fst bs)" using Cons.prems(4) by (auto simp: bp)
  have fit: "open_size e + block_bytes lib b + sum_list (map (block_bytes lib \<circ> fst) bs) + 9 < 2 ^ 64"
    using Cons.prems(5) by (simp add: bp comp_def)
  have st: "enc_inv lib e1" "encoder_takes lib n b e e1"
    using process_step [OF Cons.prems(1,2) _ _ pb] Cons.prems(3) n(1) fit by auto
  then have "enc_next (n + 1) e1" "derived e1 = derived e @ accepted lib b" "open_size e1 \<le> open_size e + block_bytes lib b"
    by (auto simp: encoder_takes_def)
  then show ?case
    using Cons.IH [OF Cons.prems(1) st(1) _ n(2) _ rest] fit by (simp add: bp comp_def)
qed

lemma NewBatchV0Encoder_inv [simp]:
  "enc_inv lib (NewBatchV0Encoder t)" "enc_next n (NewBatchV0Encoder t)" "derived (NewBatchV0Encoder t) = []"
  "open_size (NewBatchV0Encoder t) = 0"
  by (simp_all add: NewBatchV0Encoder_def enc_inv_def enc_next_def derived_def open_size_def)

text \<open>
  C1: the encoding loses no block and no block number. Feed consecutive blocks from a fresh encoder
  (total size below the 64-bit range); if all are accepted, then reading every sub-batch as
  \<open>firstL2BlockNum\<close>, \<open>firstL2BlockNum + 1\<close>, ... gives exactly the non-empty blocks, in order, each
  with its own number and its marshalled transactions, wherever empty blocks and epoch changes cut
  the sub-batches; and \<open>runningLen\<close> is the encoded size of the closed sub-batches.
\<close>

theorem encoder_keeps_every_block:
  assumes "rlp_list_header lib" "consecutive n (map fst bs)"
    "sum_list (map (block_bytes lib \<circ> fst) bs) + 9 < 2 ^ 64"
    "process_all lib bs (NewBatchV0Encoder target) = Some e"
  shows "derived e = concat (map (accepted lib \<circ> fst) bs) \<and>
    runningLen e = sum_list (map (size_sub lib) (butlast (subBatches e)))"
proof -
  have "derived e = concat (map (accepted lib \<circ> fst) bs) \<and> enc_inv lib e"
    using process_all_derived [OF assms(1) _ _ assms(2) _ assms(4)] assms(3) by simp
  then show ?thesis by (simp add: enc_inv_def)
qed

text \<open>
  A concrete codec: RLP's own header sizes, transactions that marshal to their data, lists of structs
  without public fields (one header byte, then one byte per struct).
\<close>

fun be_bytes :: "nat \<Rightarrow> nat" where
  "be_bytes n = (if n = 0 then 0 else 1 + be_bytes (n div 256))"

declare be_bytes.simps [simp del]

definition demo_ListSize :: "uint64 \<Rightarrow> uint64" where
  "demo_ListSize n = (if unat n < 56 then n + 1 else n + 1 + of_nat (be_bytes (unat n)))"

definition demo_codec :: codec where
  "demo_codec = \<lparr>tx_MarshalBinary = (\<lambda>tx. Ok (l2tx_Data tx)), rlp_ListSize = demo_ListSize,
     rlp_IntSize = (\<lambda>n. if unat n < 128 then 1 else 1 + be_bytes (unat n)),
     rlp_Encode = (\<lambda>ss.
       if list_all (\<lambda>s. public_fields s = []) ss
       then Ok ((if length ss < 56 then 0xC0 + of_nat (length ss) else 0xFF) # replicate (length ss) 0xC0)
       else Err (NewError ''unsupported'')),
     rlp_Decode = (\<lambda>names d.
       if d \<noteq> [] \<and> (names = [] \<or> tl d = []) then Ok (map (\<lambda>_. []) (tl d)) else Err (NewError ''unsupported''))\<rparr>"

lemma be_bytes_bound: "n < 256 ^ k \<Longrightarrow> be_bytes n \<le> k"
proof (induction k arbitrary: n)
  case 0
  then show ?case by (simp add: be_bytes.simps)
next
  case (Suc k)
  have "n div 256 < 256 ^ k" using Suc.prems by (simp add: less_mult_imp_div_less mult.commute)
  then show ?case using Suc.IH by (subst be_bytes.simps) simp
qed

lemma demo_header: "rlp_list_header demo_codec"
  unfolding rlp_list_header_def
proof (intro conjI allI impI)
  show "rlp_ListSize demo_codec 0 = 1" by (simp add: demo_codec_def demo_ListSize_def)
  fix n :: uint64
  assume n: "unat n + 9 < 2 ^ 64"
  have b: "be_bytes (unat n) \<le> 8" using be_bytes_bound [of "unat n" 8] n by simp
  have "unat (1 :: uint64) = 1" by simp
  moreover have "unat (of_nat (be_bytes (unat n)) :: uint64) = be_bytes (unat n)"
    using b by (simp add: unat_of_nat)
  moreover have "unat (n + 1) = unat n + 1"
    using n unat_add_no_wrap [of n 1] by simp
  ultimately have "unat (n + 1 + of_nat (be_bytes (unat n))) = unat n + 1 + be_bytes (unat n)"
    using n b unat_add_no_wrap [of "n + 1" "of_nat (be_bytes (unat n))"] by simp
  with \<open>unat (n + 1) = unat n + 1\<close> show "unat n < unat (rlp_ListSize demo_codec n)"
    by (simp add: demo_codec_def demo_ListSize_def)
qed

definition demo_l2tx :: "uint8 \<Rightarrow> L2Tx" where
  "demo_l2tx x = \<lparr>l2tx_To = Some 7, l2tx_Data = [x, x], l2tx_Hash = 0\<rparr>"

definition demo_block :: "uint64 \<Rightarrow> L2Tx list \<Rightarrow> L2Block" where
  "demo_block n txs = \<lparr>block_NumberU64 = n, block_Hash = ucast n, block_ParentHash = ucast n - 1, block_Transactions = txs\<rparr>"

definition demo_blocks :: "(L2Block \<times> bool) list" where
  "demo_blocks = [(demo_block 5 [demo_l2tx 1], True), (demo_block 6 [demo_l2tx 2], False), (demo_block 7 [], False),
     (demo_block 8 [demo_l2tx 3, demo_l2tx 4], False)]"

definition demo_encoded :: BatchV0Encoder where
  "demo_encoded = \<lparr>enc_TargetBatchSize = 100,
     subBatches = [\<lparr>firstL2BlockNum = 0, txBlocks = [], contentSize = 0\<rparr>,
       \<lparr>firstL2BlockNum = 5, txBlocks = [[[1, 1]], [[2, 2]]], contentSize = 5\<rparr>,
       \<lparr>firstL2BlockNum = 8, txBlocks = [[[3, 3], [4, 4]]], contentSize = 5\<rparr>],
     runningLen = 7\<rparr>"

lemma demo_process: "process_all demo_codec demo_blocks (NewBatchV0Encoder 100) = Some demo_encoded"
  by code_simp

theorem encoder_keeps_every_block_witness:
  "derived demo_encoded = [(5, [[1, 1]]), (6, [[2, 2]]), (8, [[3, 3], [4, 4]])] \<and> runningLen demo_encoded = 7"
proof -
  have "consecutive 5 (map fst demo_blocks)" by code_simp
  moreover have "sum_list (map (block_bytes demo_codec \<circ> fst) demo_blocks) = 12" by code_simp
  ultimately have "derived demo_encoded = concat (map (accepted demo_codec \<circ> fst) demo_blocks) \<and>
      runningLen demo_encoded = sum_list (map (size_sub demo_codec) (butlast (subBatches demo_encoded)))"
    using encoder_keeps_every_block [OF demo_header _ _ demo_process, of 5] by simp
  moreover have "concat (map (accepted demo_codec \<circ> fst) demo_blocks) = [(5, [[1, 1]]), (6, [[2, 2]]), (8, [[3, 3], [4, 4]])]"
    by code_simp
  moreover have "sum_list (map (size_sub demo_codec) (butlast (subBatches demo_encoded))) = 7" by code_simp
  ultimately show ?thesis by simp
qed

section \<open>A full encoder\<close>

lemma ProcessBlock_V0_full_iff:
  assumes "subBatches e \<noteq> []"
  shows "fst (ProcessBlock_V0 lib b ep e) = Err (Sentinel errBatchFull) \<longleftrightarrow>
    enc_TargetBatchSize e < runningLen e + size_sub lib (last (subBatches e))"
proof -
  have "wrap_err m r \<noteq> Err (Sentinel k)" for m k and r :: "unit outcome" by (cases r) auto
  then show ?thesis
    using assms
    by (auto simp: ProcessBlock_V0_def op_defs Let_def split: if_splits outcome.splits prod.splits)
qed

text \<open>The state after \<open>errBatchFull\<close>, with room for \<open>k\<close> more closes before \<open>runningLen\<close> wraps.\<close>

definition enc_full :: "nat \<Rightarrow> BatchV0Encoder \<Rightarrow> bool" where
  "enc_full k e \<longleftrightarrow> subBatches e \<noteq> [] \<and> last (subBatches e) = newSubBatch \<and>
     enc_TargetBatchSize e < runningLen e \<and> unat (runningLen e) + k < 2 ^ 64"

lemma enc_full_closes:
  assumes "rlp_list_header lib" "enc_full (Suc k) e"
  shows "shouldCloseBatch lib e = Ok True"
    "closeSubBatch lib e = Ok (e\<lparr>runningLen := runningLen e + 1, subBatches := subBatches e @ [newSubBatch]\<rparr>)"
    "enc_full k (e\<lparr>runningLen := runningLen e + 1, subBatches := subBatches e @ [newSubBatch]\<rparr>)"
proof -
  have u: "unat (runningLen e + 1) = unat (runningLen e) + 1"
    using assms(2) unat_add_no_wrap [of "runningLen e" 1] by (simp add: enc_full_def)
  then have lt: "enc_TargetBatchSize e < runningLen e + 1"
    using assms(2) by (simp add: enc_full_def word_less_nat_alt)
  have sz: "size_sub lib newSubBatch = 1" using assms(1) by (simp add: size_sub_def rlp_list_header_def)
  show "shouldCloseBatch lib e = Ok True"
    "closeSubBatch lib e = Ok (e\<lparr>runningLen := runningLen e + 1, subBatches := subBatches e @ [newSubBatch]\<rparr>)"
    "enc_full k (e\<lparr>runningLen := runningLen e + 1, subBatches := subBatches e @ [newSubBatch]\<rparr>)"
    using assms(2) lt sz u by (auto simp: enc_full_def op_defs)
qed

datatype encoder_call = CallProcessBlock L2Block bool | CallGetBatch bool

fun encoder_after :: "codec \<Rightarrow> BatchV0Encoder \<Rightarrow> encoder_call \<Rightarrow> BatchV0Encoder" where
  "encoder_after lib e (CallProcessBlock b ep) = snd (ProcessBlock_V0 lib b ep e)"
| "encoder_after lib e (CallGetBatch force) = snd (GetBatch_V0 lib force e)"

lemma enc_full_mono: "enc_full (Suc k) e \<Longrightarrow> enc_full k e"
  by (simp add: enc_full_def)

lemma enc_full_call:
  assumes "rlp_list_header lib" "enc_full (Suc k) e"
  shows "enc_full k (encoder_after lib e c) \<and> derived (encoder_after lib e c) = derived e"
proof -
  note c = enc_full_closes [OF assms]
  obtain s where "currSubBatch e = Ok s" using assms(2) by (simp add: enc_full_def currSubBatch_def)
  then show ?thesis
    using c enc_full_mono [OF assms(2)]
    by (cases c) (simp_all add: ProcessBlock_V0_def GetBatch_V0_def Let_def derived_def)
qed

lemma enc_full_run:
  assumes "rlp_list_header lib" "enc_full (length cs + k) e"
  shows "enc_full k (foldl (encoder_after lib) e cs) \<and> derived (foldl (encoder_after lib) e cs) = derived e"
  using assms(2)
proof (induction cs arbitrary: e)
  case Nil
  then show ?case by simp
next
  case (Cons c cs)
  have "enc_full (length cs + k) (encoder_after lib e c) \<and> derived (encoder_after lib e c) = derived e"
    using enc_full_call [OF assms(1)] Cons.prems by simp
  then show ?case using Cons.IH by simp
qed

text \<open>
  A full encoder stays full. Once \<open>ProcessBlock\<close> has returned \<open>errBatchFull\<close>, every later
  \<open>ProcessBlock\<close> returns it again and takes nothing, whatever blocks are offered and however often
  \<open>GetBatch\<close> hands the batch out in between: only \<open>Reset\<close> empties it. (Each call grows
  \<open>runningLen\<close> by the one byte of an empty list, so the count of calls must fit 64 bits.)
\<close>

theorem full_encoder_takes_no_block:
  assumes lib: "rlp_list_header lib" and inv: "enc_inv lib e0" and fit: "open_size e0 + 9 < 2 ^ 64"
    and full: "ProcessBlock_V0 lib b0 ep0 e0 = (Err (Sentinel errBatchFull), e)"
    and room: "unat (runningLen e0) + unat (size_sub lib (last (subBatches e0))) + length calls + 1 < 2 ^ 64"
    and e': "e' = foldl (encoder_after lib) e calls"
  shows "fst (ProcessBlock_V0 lib b ep e') = Err (Sentinel errBatchFull) \<and> derived e' = derived e0"
proof -
  have ne: "subBatches e0 \<noteq> []" using inv by (simp add: enc_inv_def)
  then have gt: "enc_TargetBatchSize e0 < runningLen e0 + size_sub lib (last (subBatches e0))"
    using ProcessBlock_V0_full_iff [of e0 lib b0 ep0] full by simp
  have "rlp_ListSize lib (contentSize (last (subBatches e0))) \<noteq> 0"
    using rlp_list_header_nz [OF lib] fit by (simp add: open_size_def)
  then have e: "e = e0\<lparr>runningLen := runningLen e0 + size_sub lib (last (subBatches e0)), subBatches := subBatches e0 @ [newSubBatch]\<rparr>"
    using full ne gt by (auto simp: ProcessBlock_V0_def op_defs Let_def size_sub_def split: if_splits)
  have "unat (runningLen e) = unat (runningLen e0) + unat (size_sub lib (last (subBatches e0)))"
    using room unat_add_no_wrap [of "runningLen e0" "size_sub lib (last (subBatches e0))"] by (simp add: e)
  then have "enc_full (length calls + 1) e"
    using gt room by (simp add: e enc_full_def)
  from enc_full_run [OF lib this] have f: "enc_full (Suc 0) e'" "derived e' = derived e0"
    by (auto simp: e' e derived_def)
  then have "shouldCloseBatch lib e' = Ok True" "subBatches e' \<noteq> []"
    using enc_full_closes [OF lib f(1)] by (auto simp: enc_full_def)
  then show ?thesis
    using f(2) ProcessBlock_V0_full_iff [of e' lib b ep] by (auto simp: shouldCloseBatch_def currSubBatch_def)
qed

definition demo_small :: BatchV0Encoder where
  "demo_small = \<lparr>enc_TargetBatchSize = 2,
     subBatches = [\<lparr>firstL2BlockNum = 5, txBlocks = [[[1, 1]]], contentSize = 3\<rparr>], runningLen = 0\<rparr>"

definition demo_full :: BatchV0Encoder where
  "demo_full = snd (ProcessBlock_V0 demo_codec (demo_block 6 [demo_l2tx 2]) False demo_small)"

theorem full_encoder_takes_no_block_witness:
  "fst (ProcessBlock_V0 demo_codec (demo_block 6 [demo_l2tx 2]) False
      (foldl (encoder_after demo_codec) demo_full [CallGetBatch True, CallGetBatch False])) = Err (Sentinel errBatchFull)"
proof -
  have "enc_inv demo_codec demo_small" by code_simp
  moreover have "open_size demo_small = 3" by code_simp
  moreover have "ProcessBlock_V0 demo_codec (demo_block 6 [demo_l2tx 2]) False demo_small = (Err (Sentinel errBatchFull), demo_full)"
    by code_simp
  moreover have "unat (runningLen demo_small) + unat (size_sub demo_codec (last (subBatches demo_small))) = 4"
    by code_simp
  ultimately show ?thesis
    using full_encoder_takes_no_block [OF demo_header, of demo_small "demo_block 6 [demo_l2tx 2]" False demo_full
        "[CallGetBatch True, CallGetBatch False]" _ "demo_block 6 [demo_l2tx 2]" False] by simp
qed

section \<open>The batch that is handed out\<close>

text \<open>
  \<open>GetBatch\<close> refuses exactly when it is not forced and what it holds is below the target size;
  otherwise it returns the version byte followed by the encoding of the sub-batches that are closed
  by then, closing the current one first when the target is exceeded. It never drops a block.
\<close>

theorem GetBatch_V0_outcome:
  assumes inv: "enc_inv lib e"
  shows "(fst (GetBatch_V0 lib force e) = Err (Sentinel errBatchTooSmall) \<longleftrightarrow>
      \<not> force \<and> runningLen e + contentSize (last (subBatches e)) < enc_TargetBatchSize e) \<and>
    (\<forall>d. fst (GetBatch_V0 lib force e) = Ok d \<longleftrightarrow>
      (force \<or> enc_TargetBatchSize e \<le> runningLen e + contentSize (last (subBatches e))) \<and>
      (\<exists>enc. rlp_Encode lib (map subBatch_fields (butlast (subBatches (snd (GetBatch_V0 lib force e))))) = Ok enc \<and>
             d = V0 # enc)) \<and>
    derived (snd (GetBatch_V0 lib force e)) = derived e \<and> enc_inv lib (snd (GetBatch_V0 lib force e))"
proof -
  define c where "c \<longleftrightarrow> enc_TargetBatchSize e < runningLen e + size_sub lib (last (subBatches e))"
  have ne: "subBatches e \<noteq> []" using inv by (simp add: enc_inv_def)
  have "\<exists>e1. (if c then closeSubBatch lib e else Ok e) = Ok e1" using ne by (simp add: op_defs)
  then obtain e1 where e1: "(if c then closeSubBatch lib e else Ok e) = Ok e1" ..
  then have k: "enc_inv lib e1" "derived e1 = derived e"
    using inv closeSubBatch_Ok [OF inv, of e1] by (auto split: if_splits)
  have "GetBatch_V0 lib force e =
      (if \<not> force \<and> runningLen e + contentSize (last (subBatches e)) < enc_TargetBatchSize e
       then (Err (Sentinel errBatchTooSmall), e)
       else (bind_out (wrap_err ''failed to encode batch'' (rlp_Encode lib (map subBatch_fields (butlast (subBatches e1)))))
               (\<lambda>d. Ok (V0 # d)), e1))"
    using ne e1 by (simp add: GetBatch_V0_def shouldCloseBatch_def currSubBatch_def c_def Let_def getVersion_def split: if_splits)
  moreover have "bind_out (wrap_err m r) f = Err (Sentinel n) \<longleftrightarrow> False"
    if "\<And>x. is_Ok (f x)" for m n and r :: "bytes outcome" and f :: "bytes \<Rightarrow> bytes outcome"
    using that by (cases r) (auto simp: bind_out_def split: outcome.splits, metis is_Ok.simps(2))
  ultimately show ?thesis
    using k inv by (auto simp: not_less)
qed

theorem GetBatch_V0_outcome_witness:
  "fst (GetBatch_V0 demo_codec False demo_encoded) = Err (Sentinel errBatchTooSmall) \<and>
   fst (GetBatch_V0 demo_codec True demo_encoded) = Ok [0, 0xC2, 0xC0, 0xC0]"
proof -
  have inv: "enc_inv demo_codec demo_encoded" by code_simp
  have b: "butlast (subBatches (snd (GetBatch_V0 demo_codec True demo_encoded))) = butlast (subBatches demo_encoded)"
    by code_simp
  have "rlp_Encode demo_codec (map subBatch_fields (butlast (subBatches demo_encoded))) = Ok [0xC2, 0xC0, 0xC0]"
    by code_simp
  moreover have "runningLen demo_encoded + contentSize (last (subBatches demo_encoded)) < enc_TargetBatchSize demo_encoded"
    by code_simp
  ultimately show ?thesis
    using GetBatch_V0_outcome [OF inv, of False] GetBatch_V0_outcome [OF inv, of True] by (simp add: b V0_def)
qed

lemma public_fields_subBatch [simp]: "public_fields (subBatch_fields s) = []"
  by (simp add: public_fields_def subBatch_fields_def)

lemma GetBatch_V0_encodes:
  assumes "GetBatch_V0 lib g e = (Ok d, e')"
  shows "\<exists>enc. rlp_Encode lib (map subBatch_fields (butlast (subBatches e'))) = Ok enc \<and> d = V0 # enc"
  using assms by (auto simp: GetBatch_V0_def getVersion_def Let_def split: outcome.splits if_splits)

lemma GetBatch_V0_blank:
  assumes "rlp_inverse lib" "GetBatch_V0 lib f e = (Ok d, e')"
  shows "DecodeBatch lib d = Ok (replicate (length (subBatches e') - 1) newSubBatch)"
proof -
  obtain enc where e1: "rlp_Encode lib (map subBatch_fields (butlast (subBatches e'))) = Ok enc" and d: "d = V0 # enc"
    using GetBatch_V0_encodes [OF assms(2)] by blast
  have "rlp_Decode lib [] enc = Ok (map public_fields (map subBatch_fields (butlast (subBatches e'))))"
    by (rule assms(1) [unfolded rlp_inverse_def, rule_format, OF e1]) auto
  moreover have "fill_subBatch [] = newSubBatch" by (simp add: fill_subBatch_def newSubBatch_def)
  ultimately show ?thesis
    by (simp add: d DecodeBatch_def decodeV0_def map_replicate_const comp_def)
qed

text \<open>
  The transactions are not in the batch. \<open>subBatch\<close> has no exported field, and RLP encodes the
  exported fields of a struct only; so whatever the encoder holds, \<open>DecodeBatch\<close> of a batch it
  handed out gives as many blank sub-batches as were closed, and two encoders with the same number of
  closed sub-batches hand out the same bytes.
\<close>

theorem batch_content_is_lost:
  assumes "rlp_public_only lib" "rlp_inverse lib"
    and b1: "GetBatch_V0 lib f e = (Ok d, e')"
    and b2: "GetBatch_V0 lib f2 e2 = (Ok d2, e2')" "length (subBatches e2') = length (subBatches e')"
  shows "DecodeBatch lib d = Ok (replicate (length (subBatches e') - 1) newSubBatch) \<and> d2 = d"
proof -
  have same: "map public_fields (map subBatch_fields (butlast (subBatches e2'))) =
      map public_fields (map subBatch_fields (butlast (subBatches e')))"
    using b2(2) by (simp add: map_replicate_const comp_def)
  have "d2 = d"
    using GetBatch_V0_encodes [OF b1] GetBatch_V0_encodes [OF b2(1)] assms(1) [unfolded rlp_public_only_def, rule_format, OF same]
    by auto
  then show ?thesis using GetBatch_V0_blank [OF assms(2) b1] by simp
qed

lemma demo_codec_laws: "rlp_public_only demo_codec" "rlp_inverse demo_codec"
proof -
  have blank: "list_all (\<lambda>s. public_fields s = []) ss = list_all (\<lambda>x. x = []) (map public_fields ss)" for ss
    by (simp add: list.pred_map comp_def)
  have "length ss = length ts \<and> list_all (\<lambda>s. public_fields s = []) ss = list_all (\<lambda>s. public_fields s = []) ts"
    if "map public_fields ss = map public_fields ts" for ss ts
    unfolding blank that using map_eq_imp_length_eq [OF that] by blast
  then show "rlp_public_only demo_codec"
    unfolding rlp_public_only_def demo_codec_def codec.select_convs by metis
  show "rlp_inverse demo_codec"
    unfolding rlp_inverse_def
  proof (intro allI impI)
    fix ss names d
    assume e: "rlp_Encode demo_codec ss = Ok d" and n: "\<forall>s\<in>set ss. map fst (public_fields s) = names"
    have d: "d = (if length ss < 56 then 0xC0 + of_nat (length ss) else 0xFF) # replicate (length ss) 0xC0" and b: "\<forall>s\<in>set ss. public_fields s = []"
      using e unfolding demo_codec_def codec.select_convs list_all_iff by (simp_all split: if_splits)
    have "map public_fields ss = replicate (length ss) []" using b by (induction ss) auto
    moreover have "names = [] \<or> ss = []" using b n by (cases ss) auto
    ultimately show "rlp_Decode demo_codec names d = Ok (map public_fields ss)"
      unfolding demo_codec_def codec.select_convs d by auto
  qed
qed

theorem batch_content_is_lost_witness:
  "DecodeBatch demo_codec [0, 0xC2, 0xC0, 0xC0] = Ok [newSubBatch, newSubBatch]"
proof -
  have g: "GetBatch_V0 demo_codec True demo_encoded = (Ok [0, 0xC2, 0xC0, 0xC0], demo_encoded)" by code_simp
  have "length (subBatches demo_encoded) - 1 = 2" by code_simp
  then show ?thesis
    using batch_content_is_lost [OF demo_codec_laws g g refl] by (simp add: numeral_2_eq_2)
qed

end
