(* ===== verification/Send_State.thy ===== *)
theory Send_State
  imports Go_Prelude
begin

text \<open>
  \<^verbatim>\<open>rollup/rpc/eth/txmgr/send_state.go\<close>: what the transaction manager remembers of one logical
  transaction that it may publish at several gas prices. The clock reading is an argument; the
  message of go-ethereum's \<open>core.ErrNonceTooLow\<close> is the parameter \<open>tooLowMsg\<close>. The state is
  related to the history of reports it received, and the decision to give up is characterised by
  that history alone.
\<close>

section \<open>State and operations\<close>

record SendState =
  minedTxs :: "hash set"
  nonceTooLowCount :: uint64
  txInMempoolDeadline :: int
  successFullPublishCount :: uint64
  safeAbortNonceTooLowCount :: uint64

definition NewSendStateWithNow :: "uint64 \<Rightarrow> int \<Rightarrow> int \<Rightarrow> SendState outcome" where
  "NewSendStateWithNow safeAbort unableToSendTimeout now =
     (if safeAbort = 0 then Panic ''txmgr: safeAbortNonceTooLowCount cannot be zero''
      else Ok \<lparr>minedTxs = {}, nonceTooLowCount = 0, txInMempoolDeadline = now + unableToSendTimeout,
               successFullPublishCount = 0, safeAbortNonceTooLowCount = safeAbort\<rparr>)"

definition is_too_low :: "string \<Rightarrow> go_error \<Rightarrow> bool" where
  "is_too_low tooLowMsg err \<longleftrightarrow> str_contains (error_msg err) tooLowMsg"

definition ProcessSendError :: "string \<Rightarrow> go_error option \<Rightarrow> SendState \<Rightarrow> SendState" where
  "ProcessSendError tooLowMsg err s =
     (case err of
        None \<Rightarrow> s\<lparr>successFullPublishCount := successFullPublishCount s + 1\<rparr>
      | Some e \<Rightarrow>
          (if is_too_low tooLowMsg e then s\<lparr>nonceTooLowCount := nonceTooLowCount s + 1\<rparr> else s))"

definition TxMined :: "hash \<Rightarrow> SendState \<Rightarrow> SendState" where
  "TxMined txHash s = s\<lparr>minedTxs := insert txHash (minedTxs s)\<rparr>"

definition TxNotMined :: "hash \<Rightarrow> SendState \<Rightarrow> SendState" where
  "TxNotMined txHash s =
     (let wasMined = txHash \<in> minedTxs s;
          s' = s\<lparr>minedTxs := minedTxs s - {txHash}\<rparr>
      in if card (minedTxs s') = 0 \<and> wasMined then s'\<lparr>nonceTooLowCount := 0\<rparr> else s')"

definition ShouldAbortImmediately :: "SendState \<Rightarrow> int \<Rightarrow> bool" where
  "ShouldAbortImmediately s now =
     (if card (minedTxs s) > 0 then False
      else safeAbortNonceTooLowCount s \<le> nonceTooLowCount s \<or>
           (successFullPublishCount s = 0 \<and> now > txInMempoolDeadline s))"

definition IsWaitingForConfirmation :: "SendState \<Rightarrow> bool" where
  "IsWaitingForConfirmation s \<longleftrightarrow> card (minedTxs s) > 0"

lemmas send_state_defs =
  ProcessSendError_def TxMined_def TxNotMined_def ShouldAbortImmediately_def
  IsWaitingForConfirmation_def

section \<open>Histories\<close>

datatype send_event = SendResult "go_error option" | Mined hash | NotMined hash

fun send_step :: "string \<Rightarrow> SendState \<Rightarrow> send_event \<Rightarrow> SendState" where
  "send_step m s (SendResult err) = ProcessSendError m err s"
| "send_step m s (Mined h) = TxMined h s"
| "send_step m s (NotMined h) = TxNotMined h s"

text \<open>The hashes whose last report says that they are mined.\<close>

definition mined_spec :: "send_event list \<Rightarrow> hash set" where
  "mined_spec es = {h. \<exists>a b. es = a @ Mined h # b \<and> NotMined h \<notin> set b}"

text \<open>Report \<open>n\<close> takes away the last mined hash.\<close>

definition reorged_out_at :: "send_event list \<Rightarrow> nat \<Rightarrow> bool" where
  "reorged_out_at es n \<longleftrightarrow> (\<exists>h. es ! n = NotMined h \<and> mined_spec (take n es) = {h})"

definition too_low_event :: "string \<Rightarrow> send_event \<Rightarrow> bool" where
  "too_low_event m ev \<longleftrightarrow> (\<exists>e. ev = SendResult (Some e) \<and> is_too_low m e)"

definition low_positions :: "string \<Rightarrow> send_event list \<Rightarrow> nat set" where
  "low_positions m es =
     {i. i < length es \<and> too_low_event m (es ! i) \<and> (\<forall>n. i < n \<and> n < length es \<longrightarrow> \<not> reorged_out_at es n)}"

definition publish_positions :: "send_event list \<Rightarrow> nat set" where
  "publish_positions es = {i. i < length es \<and> es ! i = SendResult None}"

lemma mined_spec_Nil [simp]: "mined_spec [] = {}"
  by (simp add: mined_spec_def)

lemma mined_spec_snoc:
  "mined_spec (es @ [e]) =
     (case e of Mined h \<Rightarrow> insert h (mined_spec es) | NotMined h \<Rightarrow> mined_spec es - {h} | SendResult _ \<Rightarrow> mined_spec es)"
proof -
  have *: "h \<in> mined_spec (es @ [e]) \<longleftrightarrow> e = Mined h \<or> (h \<in> mined_spec es \<and> e \<noteq> NotMined h)" for h
  proof
    assume "h \<in> mined_spec (es @ [e])"
    then obtain a b where ab: "es @ [e] = a @ Mined h # b" "NotMined h \<notin> set b"
      by (auto simp: mined_spec_def)
    show "e = Mined h \<or> (h \<in> mined_spec es \<and> e \<noteq> NotMined h)"
    proof (cases b rule: rev_cases)
      case Nil
      with ab show ?thesis by simp
    next
      case (snoc b' e')
      with ab have "es = a @ Mined h # b'" "e = e'" by simp_all
      with ab snoc show ?thesis by (auto simp: mined_spec_def)
    qed
  next
    assume "e = Mined h \<or> (h \<in> mined_spec es \<and> e \<noteq> NotMined h)"
    then show "h \<in> mined_spec (es @ [e])"
    proof
      assume "e = Mined h"
      then have "es @ [e] = es @ Mined h # [] \<and> NotMined h \<notin> set []" by simp
      then show ?thesis unfolding mined_spec_def by blast
    next
      assume h: "h \<in> mined_spec es \<and> e \<noteq> NotMined h"
      then obtain a b where "es = a @ Mined h # b" "NotMined h \<notin> set b"
        by (auto simp: mined_spec_def)
      with h have "es @ [e] = a @ Mined h # (b @ [e]) \<and> NotMined h \<notin> set (b @ [e])" by auto
      then show ?thesis unfolding mined_spec_def by blast
    qed
  qed
  show ?thesis by (rule set_eqI, unfold *) (cases e; auto)
qed

lemma reorged_out_at_snoc: "n < length es \<Longrightarrow> reorged_out_at (es @ [e]) n = reorged_out_at es n"
  by (simp add: reorged_out_at_def nth_append)

lemma reorged_out_at_last: "reorged_out_at (es @ [e]) (length es) \<longleftrightarrow> (\<exists>h. e = NotMined h \<and> mined_spec es = {h})"
  by (simp add: reorged_out_at_def nth_append)

lemma low_positions_snoc:
  "low_positions m (es @ [e]) =
     (if \<exists>h. e = NotMined h \<and> mined_spec es = {h} then {}
      else if too_low_event m e then insert (length es) (low_positions m es) else low_positions m es)"
proof -
  have *: "i \<in> low_positions m (es @ [e]) \<longleftrightarrow>
      (i = length es \<and> too_low_event m e) \<or>
      (i \<in> low_positions m es \<and> \<not> (\<exists>h. e = NotMined h \<and> mined_spec es = {h}))" for i
    by (auto simp: low_positions_def nth_append less_Suc_eq reorged_out_at_snoc reorged_out_at_last
        split: if_splits)
  show ?thesis by (rule set_eqI, unfold *) (auto simp: too_low_event_def)
qed

lemma publish_positions_snoc:
  "publish_positions (es @ [e]) =
     (if e = SendResult None then insert (length es) (publish_positions es) else publish_positions es)"
  by (auto simp: publish_positions_def nth_append less_Suc_eq)

lemma positions_bound:
  "low_positions m es \<subseteq> {..<length es}" "publish_positions es \<subseteq> {..<length es}"
  by (auto simp: low_positions_def publish_positions_def)

lemma positions_finite [simp]:
  "finite (low_positions m es)" "finite (publish_positions es)"
  using positions_bound by (meson finite_lessThan finite_subset)+

lemma positions_fresh [simp]:
  "length es \<notin> low_positions m es" "length es \<notin> publish_positions es"
  by (auto simp: low_positions_def publish_positions_def)

lemma mined_spec_finite [simp]: "finite (mined_spec es)"
  by (induction es rule: rev_induct) (auto simp: mined_spec_snoc split: send_event.splits)

section \<open>The state is determined by the history\<close>

lemma send_state_history:
  assumes "minedTxs s = {}" "nonceTooLowCount s = 0" "successFullPublishCount s = 0"
  shows "minedTxs (foldl (send_step m) s es) = mined_spec es"
    and "nonceTooLowCount (foldl (send_step m) s es) = of_nat (card (low_positions m es))"
    and "successFullPublishCount (foldl (send_step m) s es) = of_nat (card (publish_positions es))"
proof -
  let ?r = "foldl (send_step m) s"
  have "minedTxs (?r es) = mined_spec es \<and>
    nonceTooLowCount (?r es) = of_nat (card (low_positions m es)) \<and>
    successFullPublishCount (?r es) = of_nat (card (publish_positions es))"
  proof (induction es rule: rev_induct)
    case Nil
    then show ?case using assms by (simp add: low_positions_def publish_positions_def)
  next
    case (snoc e es)
    have singleton: "h \<in> mined_spec es \<Longrightarrow> mined_spec es - {h} = {} \<longleftrightarrow> mined_spec es = {h}" for h
      by auto
    show ?case
    proof (cases e)
      case (SendResult r)
      with snoc show ?thesis
        by (auto simp: ProcessSendError_def mined_spec_snoc low_positions_snoc publish_positions_snoc
            too_low_event_def split: option.splits)
    next
      case (Mined h)
      with snoc show ?thesis
        by (simp add: TxMined_def mined_spec_snoc low_positions_snoc publish_positions_snoc too_low_event_def)
    next
      case (NotMined h)
      with snoc singleton [of h] show ?thesis
        by (auto simp: TxNotMined_def Let_def mined_spec_snoc low_positions_snoc publish_positions_snoc
            too_low_event_def)
    qed
  qed
  then show "minedTxs (?r es) = mined_spec es"
    and "nonceTooLowCount (?r es) = of_nat (card (low_positions m es))"
    and "successFullPublishCount (?r es) = of_nat (card (publish_positions es))"
    by simp_all
qed

lemma send_step_frame [simp]:
  "txInMempoolDeadline (send_step m s e) = txInMempoolDeadline s"
  "safeAbortNonceTooLowCount (send_step m s e) = safeAbortNonceTooLowCount s"
  by (cases e; simp add: send_state_defs Let_def split: option.splits)+

lemma send_run_frame [simp]:
  "txInMempoolDeadline (foldl (send_step m) s es) = txInMempoolDeadline s"
  "safeAbortNonceTooLowCount (foldl (send_step m) s es) = safeAbortNonceTooLowCount s"
  by (induction es arbitrary: s) simp_all

lemma unat_of_nat_positions:
  assumes "length es < 2 ^ 64"
  shows "unat (of_nat (card (low_positions m es)) :: uint64) = card (low_positions m es)"
    and "unat (of_nat (card (publish_positions es)) :: uint64) = card (publish_positions es)"
proof -
  have "card (low_positions m es) \<le> length es" "card (publish_positions es) \<le> length es"
    using card_mono [OF _ positions_bound(1) [of m es]] card_mono [OF _ positions_bound(2) [of es]]
    by simp_all
  with assms show "unat (of_nat (card (low_positions m es)) :: uint64) = card (low_positions m es)"
    and "unat (of_nat (card (publish_positions es)) :: uint64) = card (publish_positions es)"
    by (simp_all add: unat_of_nat)
qed

text \<open>
  C6: \<open>ShouldAbortImmediately\<close> over a history. Starting from \<open>NewSendStateWithNow\<close> and after any
  reports, the manager is told to give up exactly when no hash is currently reported mined and
  either the nonce-too-low errors seen since the last time all mined hashes were reorged out reach
  the configured count, or nothing was ever published and the deadline has passed.
\<close>

theorem abort_iff_history:
  assumes "NewSendStateWithNow safeAbort timeout start = Ok s" "length es < 2 ^ 64"
  shows "ShouldAbortImmediately (foldl (send_step m) s es) now \<longleftrightarrow>
    mined_spec es = {} \<and>
    (unat safeAbort \<le> card (low_positions m es) \<or>
     (publish_positions es = {} \<and> start + timeout < now))"
proof -
  from assms(1) have s: "minedTxs s = {}" "nonceTooLowCount s = 0" "successFullPublishCount s = 0"
    "txInMempoolDeadline s = start + timeout" "safeAbortNonceTooLowCount s = safeAbort"
    by (auto simp: NewSendStateWithNow_def split: if_splits)
  have "(of_nat (card (publish_positions es)) :: uint64) = 0 \<longleftrightarrow> publish_positions es = {}"
    using unat_of_nat_positions(2) [OF assms(2)] by (metis card_0_eq positions_finite(2) unat_0 unat_eq_zero)
  with s show ?thesis
    by (simp add: ShouldAbortImmediately_def send_state_history card_gt_0_iff word_le_nat_alt
        unat_of_nat_positions [OF assms(2)])
qed

theorem abort_iff_history_witness:
  "ShouldAbortImmediately (foldl (send_step ''nonce too low'')
      \<lparr>minedTxs = {}, nonceTooLowCount = 0, txInMempoolDeadline = 120,
       successFullPublishCount = 0, safeAbortNonceTooLowCount = 1\<rparr>
      [SendResult None, Mined 7, NotMined 7, SendResult (Some (NewError ''nonce too low''))]) 10
   \<longleftrightarrow> mined_spec [SendResult None, Mined 7, NotMined 7, SendResult (Some (NewError ''nonce too low''))] = {} \<and>
    (unat (1 :: uint64) \<le> card (low_positions ''nonce too low''
       [SendResult None, Mined 7, NotMined 7, SendResult (Some (NewError ''nonce too low''))]) \<or>
     (publish_positions [SendResult None, Mined 7, NotMined 7, SendResult (Some (NewError ''nonce too low''))] = {}
      \<and> (0::int) + 120 < 10))"
  by (rule abort_iff_history) (simp_all add: NewSendStateWithNow_def)

text \<open>
  As long as the last report on some hash says it is mined, the manager keeps waiting and is
  never told to give up, whatever errors the other publications met.
\<close>

theorem mined_never_aborts:
  assumes "NewSendStateWithNow safeAbort timeout start = Ok s" "NotMined h \<notin> set b"
  shows "IsWaitingForConfirmation (foldl (send_step m) s (a @ Mined h # b)) \<and>
    \<not> ShouldAbortImmediately (foldl (send_step m) s (a @ Mined h # b)) now"
proof -
  from assms(1) have s: "minedTxs s = {}" "nonceTooLowCount s = 0" "successFullPublishCount s = 0"
    by (auto simp: NewSendStateWithNow_def split: if_splits)
  have "h \<in> mined_spec (a @ Mined h # b)"
    using assms(2) by (auto simp: mined_spec_def)
  then have "card (mined_spec (a @ Mined h # b)) > 0"
    by (auto simp: card_gt_0_iff)
  then show ?thesis
    using send_state_history(1) [OF s, of m "a @ Mined h # b"]
    by (simp add: IsWaitingForConfirmation_def ShouldAbortImmediately_def)
qed

theorem mined_never_aborts_witness:
  "IsWaitingForConfirmation (foldl (send_step ''nonce too low'')
      \<lparr>minedTxs = {}, nonceTooLowCount = 0, txInMempoolDeadline = 120,
       successFullPublishCount = 0, safeAbortNonceTooLowCount = 1\<rparr>
      ([SendResult None] @ Mined 7 # [SendResult (Some (NewError ''nonce too low'')), NotMined 8])) \<and>
   \<not> ShouldAbortImmediately (foldl (send_step ''nonce too low'')
      \<lparr>minedTxs = {}, nonceTooLowCount = 0, txInMempoolDeadline = 120,
       successFullPublishCount = 0, safeAbortNonceTooLowCount = 1\<rparr>
      ([SendResult None] @ Mined 7 # [SendResult (Some (NewError ''nonce too low'')), NotMined 8])) 500"
  by (rule mined_never_aborts [where safeAbort = 1 and timeout = 120 and start = 0])
    (simp_all add: NewSendStateWithNow_def)

end
