(* ===== verification/Tx_Fees.thy ===== *)
theory Tx_Fees
  imports Go_Prelude
begin

text \<open>
  The fee arithmetic of \<^verbatim>\<open>rollup/rpc/eth/txmgr/tx_mgr.go\<close>: the recommended fee cap, the 10\% bump
  that go-ethereum asks of a replacement transaction, and the cap on runaway increases. Fees are
  \<open>big.Int\<close> values; \<open>big.Int.Div\<close> by a positive number is Euclidean division, which is \<open>div\<close>.
\<close>

definition priceBump :: int where "priceBump = 10"

definition feeLimitMultiplier :: int where "feeLimitMultiplier = 5"

definition priceBumpPercent :: big where "priceBumpPercent = 100 + priceBump"

definition oneHundred :: big where "oneHundred = 100"

definition calcThresholdValue :: "big \<Rightarrow> big" where
  "calcThresholdValue x = (priceBumpPercent * x) div oneHundred"

definition calcGasFeeCap :: "big \<Rightarrow> big \<Rightarrow> big" where
  "calcGasFeeCap baseFee gasTipCap = gasTipCap + baseFee * 2"

definition updateFees :: "big \<Rightarrow> big \<Rightarrow> big \<Rightarrow> big \<Rightarrow> big \<times> big" where
  "updateFees oldTip oldFeeCap newTip newBaseFee =
     (let newFeeCap = calcGasFeeCap newBaseFee newTip;
          thresholdTip = calcThresholdValue oldTip;
          thresholdFeeCap = calcThresholdValue oldFeeCap
      in if newTip \<ge> thresholdTip \<and> newFeeCap \<ge> thresholdFeeCap then (newTip, newFeeCap)
         else if newTip \<ge> thresholdTip \<and> newFeeCap < thresholdFeeCap then (newTip, thresholdFeeCap)
         else if newTip < thresholdTip \<and> newFeeCap \<ge> thresholdFeeCap
         then (thresholdTip, calcGasFeeCap newBaseFee thresholdTip)
         else (thresholdTip, thresholdFeeCap))"

text \<open>The two caps that \<open>increaseGasPrice\<close> applies to the bumped values.\<close>

definition capFees :: "big \<times> big \<Rightarrow> big \<Rightarrow> big \<Rightarrow> big \<times> big" where
  "capFees bumped tip basefee =
     (let maxTip = tip * feeLimitMultiplier;
          bumpedTip = (if fst bumped > maxTip then maxTip else fst bumped);
          maxFee = calcGasFeeCap (basefee * feeLimitMultiplier) maxTip;
          bumpedFee = (if snd bumped > maxFee then maxFee else snd bumped)
      in (bumpedTip, bumpedFee))"

definition bumpFees :: "big \<Rightarrow> big \<Rightarrow> big \<Rightarrow> big \<Rightarrow> big \<times> big" where
  "bumpFees oldTip oldFeeCap tip basefee = capFees (updateFees oldTip oldFeeCap tip basefee) tip basefee"

lemmas fee_defs [op_defs] =
  calcThresholdValue_def calcGasFeeCap_def priceBumpPercent_def priceBump_def oneHundred_def
  feeLimitMultiplier_def

lemma calcThresholdValue_mono: "x \<le> y \<Longrightarrow> calcThresholdValue x \<le> calcThresholdValue y"
  by (simp add: fee_defs zdiv_mono1)

lemma calcThresholdValue_ge: "0 \<le> x \<Longrightarrow> x \<le> calcThresholdValue x"
  by (simp add: fee_defs)

lemma updateFees_cases:
  obtains
    (both) "calcThresholdValue ot \<le> nt" "calcThresholdValue ofc \<le> calcGasFeeCap nb nt"
      "updateFees ot ofc nt nb = (nt, calcGasFeeCap nb nt)"
  | (tip) "calcThresholdValue ot \<le> nt" "calcGasFeeCap nb nt < calcThresholdValue ofc"
      "updateFees ot ofc nt nb = (nt, calcThresholdValue ofc)"
  | (fee) "nt < calcThresholdValue ot" "calcThresholdValue ofc \<le> calcGasFeeCap nb nt"
      "updateFees ot ofc nt nb = (calcThresholdValue ot, calcGasFeeCap nb (calcThresholdValue ot))"
  | (none) "nt < calcThresholdValue ot" "calcGasFeeCap nb nt < calcThresholdValue ofc"
      "updateFees ot ofc nt nb = (calcThresholdValue ot, calcThresholdValue ofc)"
  by (cases "calcThresholdValue ot \<le> nt"; cases "calcThresholdValue ofc \<le> calcGasFeeCap nb nt")
    (auto simp: updateFees_def Let_def)

text \<open>
  \<open>updateFees\<close> keeps the three promises of its comment for every input: both values meet
  go-ethereum's replacement threshold, the tip is no lower than the suggested one, and the fee cap
  is no lower than the fee cap of the suggestion.
\<close>

theorem updateFees_promises:
  "(let (tip, feeCap) = updateFees oldTip oldFeeCap newTip newBaseFee in
      calcThresholdValue oldTip \<le> tip \<and> calcThresholdValue oldFeeCap \<le> feeCap \<and>
      newTip \<le> tip \<and> calcGasFeeCap newBaseFee newTip \<le> feeCap)"
  by (cases rule: updateFees_cases [of oldTip newTip oldFeeCap newBaseFee])
    (auto simp: calcGasFeeCap_def)

lemma updateFees_tip_le_fee:
  assumes "oldTip \<le> oldFeeCap" "0 \<le> newBaseFee"
  shows "fst (updateFees oldTip oldFeeCap newTip newBaseFee) \<le> snd (updateFees oldTip oldFeeCap newTip newBaseFee)"
  using assms calcThresholdValue_mono [OF assms(1)]
  by (cases rule: updateFees_cases [of oldTip newTip oldFeeCap newBaseFee]) (auto simp: calcGasFeeCap_def)

lemma capFees_min:
  "capFees b tip basefee = (min (fst b) (tip * 5), min (snd b) (calcGasFeeCap (basefee * 5) (tip * 5)))"
  by (simp add: capFees_def Let_def feeLimitMultiplier_def min_def not_less)

text \<open>
  C37: a resubmission stays a valid dynamic-fee transaction and its fees stay bounded: the tip
  never exceeds the fee cap, the tip is at most five times the suggested tip and the fee cap at
  most the fee cap computed from five times the suggestions.
\<close>

theorem bumpFees_valid_and_capped:
  assumes "oldTip \<le> oldFeeCap" "0 \<le> tip" "0 \<le> basefee"
  shows "(let (tip', fee') = bumpFees oldTip oldFeeCap tip basefee in
    tip' \<le> fee' \<and> tip' \<le> 5 * tip \<and> fee' \<le> 5 * calcGasFeeCap basefee tip)"
  using updateFees_tip_le_fee [OF assms(1,3), of tip] assms(2,3)
  by (auto simp: bumpFees_def capFees_min Let_def calcGasFeeCap_def min_def)

theorem bumpFees_valid_and_capped_witness:
  "(let (tip', fee') = bumpFees 100 300 7 50 in
    tip' \<le> fee' \<and> tip' \<le> 5 * 7 \<and> fee' \<le> 5 * calcGasFeeCap 50 7)"
  by (rule bumpFees_valid_and_capped) simp_all

text \<open>
  Unless a cap cuts it, the bumped pair replaces the old transaction: each value is at least
  the old one, and it is strictly larger as soon as the old value is at least 10 wei. The caps do
  not cut while the old fees are at most four times the suggested ones.
\<close>

theorem bumpFees_replaces:
  assumes "0 \<le> tip" "0 \<le> basefee" "10 \<le> oldTip" "oldTip \<le> 4 * tip"
    and "10 \<le> oldFeeCap" "oldFeeCap \<le> 4 * calcGasFeeCap basefee tip"
  shows "oldTip < fst (bumpFees oldTip oldFeeCap tip basefee) \<and>
    oldFeeCap < snd (bumpFees oldTip oldFeeCap tip basefee)"
proof -
  have t: "oldTip < calcThresholdValue oldTip" "calcThresholdValue oldTip \<le> 5 * tip"
    using assms by (auto simp: fee_defs)
  have f: "oldFeeCap < calcThresholdValue oldFeeCap"
    "calcThresholdValue oldFeeCap \<le> calcGasFeeCap (basefee * 5) (tip * 5)"
    using assms by (auto simp: fee_defs)
  show ?thesis
    using t f assms(1,2)
    by (cases rule: updateFees_cases [of oldTip tip oldFeeCap basefee])
      (auto simp: bumpFees_def capFees_min calcGasFeeCap_def)
qed

theorem bumpFees_replaces_witness:
  "(100::int) < fst (bumpFees 100 300 50 80) \<and> 300 < snd (bumpFees 100 300 50 80)"
  by (rule bumpFees_replaces) (simp_all add: calcGasFeeCap_def)

text \<open>Below 10 wei the rounded threshold is the old value, so a bump may change nothing.\<close>

lemma small_tip_not_bumped: "0 \<le> x \<Longrightarrow> x < 10 \<Longrightarrow> calcThresholdValue x = x"
  by (simp add: fee_defs)

end
