(* ===== verification/Tx_Mgr.thy ===== *)
theory Tx_Mgr
  imports Retry Send_State Tx_Fees
begin

text \<open>
  \<^verbatim>\<open>rollup/rpc/eth/txmgr/tx_mgr.go\<close> and \<^verbatim>\<open>config.go\<close>: crafting a transaction, handing out nonces,
  waiting for a receipt, bumping the gas price, and the resubmission loop \<open>sendTx\<close> with the
  goroutines it starts, as a step relation. The L1 node (\<open>ETHBackend\<close>) and the signer are
  parameters; each call moves a world \<open>'w\<close>, so that two calls may answer differently.
\<close>

section \<open>Configuration, transactions, backend\<close>

record Config =
  ResubmissionTimeout :: int
  cfg_ChainID :: big
  TxSendTimeout :: int
  TxNotInMempoolTimeout :: int
  NetworkTimeout :: int
  ReceiptQueryInterval :: int
  NumConfirmations :: uint64
  SafeAbortNonceTooLowCount :: uint64
  cfg_From :: address

record TxCandidate =
  cand_TxData :: bytes
  cand_To :: "address option"
  cand_GasLimit :: uint64
  cand_Value :: "big option"

record DynamicFeeTx =
  tx_ChainID :: big
  tx_Nonce :: uint64
  tx_GasTipCap :: big
  tx_GasFeeCap :: big
  tx_Gas :: uint64
  tx_To :: "address option"
  tx_Value :: "big option"
  tx_Data :: bytes
  tx_AccessList :: "(address \<times> hash list) list"

text \<open>A signed transaction, through the accessors of go-ethereum's \<open>types.Transaction\<close>.\<close>

record Transaction =
  inner :: DynamicFeeTx
  tx_Hash :: hash

record CallMsg =
  msg_From :: address
  msg_To :: "address option"
  msg_GasFeeCap :: "big option"
  msg_GasTipCap :: "big option"
  msg_Data :: bytes
  msg_Value :: "big option"

record Receipt =
  rc_TxHash :: hash
  rc_BlockNumber :: big
  rc_Failed :: bool

record 'w ETHBackend =
  be_BlockNumber :: "('w, uint64) call"
  be_TransactionReceipt :: "hash \<Rightarrow> ('w, Receipt option) call"
  be_SendTransaction :: "Transaction \<Rightarrow> ('w, unit) call"
  be_HeadBaseFee :: "('w, big option) call"
  be_SuggestGasTipCap :: "('w, big option) call"
  be_NonceAt :: "address \<Rightarrow> ('w, uint64) call"
  be_EstimateGas :: "CallMsg \<Rightarrow> ('w, uint64) call"
  be_CallContract :: "CallMsg \<Rightarrow> big option \<Rightarrow> ('w, bytes) call"

type_synonym 'w SignerFn = "address \<Rightarrow> DynamicFeeTx \<Rightarrow> ('w, Transaction) call"

record 'w TxManager =
  cfg :: Config
  backend :: "'w ETHBackend"
  signer :: "'w SignerFn"

text \<open>The manager's own state is the nonce it handed out last, nil before the first one.\<close>

type_synonym 'w mgr_world = "uint64 option \<times> 'w"

definition NewTxManager :: "Config \<Rightarrow> 'w ETHBackend \<Rightarrow> 'w SignerFn \<Rightarrow> 'w TxManager" where
  "NewTxManager conf be sg = \<lparr>cfg = conf, backend = be, signer = sg\<rparr>"

definition mgr_From :: "'w TxManager \<Rightarrow> address" where
  "mgr_From m = cfg_From (cfg m)"

definition mgr_BlockNumber :: "'w TxManager \<Rightarrow> ('w, uint64) call" where
  "mgr_BlockNumber m = be_BlockNumber (backend m)"

definition mgr_Call :: "'w TxManager \<Rightarrow> CallMsg \<Rightarrow> big option \<Rightarrow> ('w, bytes) call" where
  "mgr_Call m msg blockNumber = be_CallContract (backend m) msg blockNumber"

section \<open>Nonces\<close>

definition nextNonce :: "'w TxManager \<Rightarrow> ('w mgr_world, uint64) call" where
  "nextNonce m sw =
     (case fst sw of
        None \<Rightarrow>
          (case be_NonceAt (backend m) (cfg_From (cfg m)) (snd sw) of
             (Ok n, w') \<Rightarrow> (Ok n, (Some n, w'))
           | (Err e, w') \<Rightarrow> (Err (Wrapped ''failed to get nonce'' e), (None, w'))
           | (Panic p, w') \<Rightarrow> (Panic p, (None, w')))
      | Some n \<Rightarrow> (Ok (n + 1), (Some (n + 1), snd sw)))"

definition resetNonce :: "'w mgr_world \<Rightarrow> 'w mgr_world" where
  "resetNonce sw = (None, snd sw)"

section \<open>Crafting\<close>

definition suggestGasPriceCaps :: "'w TxManager \<Rightarrow> ('w, big \<times> big) call" where
  "suggestGasPriceCaps m =
     bind_call (wrap_call ''failed to fetch the suggested gas tip cap'' (be_SuggestGasTipCap (backend m)))
       (\<lambda>tip. case tip of
          None \<Rightarrow> fail_call (NewError ''the suggested tip was nil'')
        | Some tip \<Rightarrow>
            bind_call (wrap_call ''failed to fetch the suggested basefee'' (be_HeadBaseFee (backend m)))
              (\<lambda>baseFee. case baseFee of
                 None \<Rightarrow> fail_call (NewError ''txmgr does not support pre-london blocks that do not have a basefee'')
               | Some baseFee \<Rightarrow> ret_call (tip, baseFee)))"

definition craftTx :: "'w TxManager \<Rightarrow> TxCandidate \<Rightarrow> ('w mgr_world, Transaction) call" where
  "craftTx m candidate =
     bind_call (lift_call (wrap_call ''failed to get gas price info'' (suggestGasPriceCaps m)))
       (\<lambda>(gasTipCap, basefee).
         let gasFeeCap = calcGasFeeCap basefee gasTipCap;
             msg = \<lparr>msg_From = cfg_From (cfg m), msg_To = cand_To candidate,
                    msg_GasFeeCap = Some gasFeeCap, msg_GasTipCap = Some gasTipCap,
                    msg_Data = cand_TxData candidate, msg_Value = cand_Value candidate\<rparr>
         in bind_call
              (if cand_GasLimit candidate \<noteq> 0 then ret_call (cand_GasLimit candidate)
               else lift_call (wrap_call ''failed to estimate gas'' (be_EstimateGas (backend m) msg)))
              (\<lambda>gas. bind_call (nextNonce m)
                (\<lambda>nonce. lift_call (signer m (cfg_From (cfg m))
                   \<lparr>tx_ChainID = cfg_ChainID (cfg m), tx_Nonce = nonce, tx_GasTipCap = gasTipCap,
                    tx_GasFeeCap = gasFeeCap, tx_Gas = gas, tx_To = cand_To candidate,
                    tx_Value = cand_Value candidate, tx_Data = cand_TxData candidate,
                    tx_AccessList = []\<rparr>))))"

section \<open>Bumping the price\<close>

definition bumpedTx :: "Transaction \<Rightarrow> big \<times> big \<Rightarrow> uint64 \<Rightarrow> DynamicFeeTx" where
  "bumpedTx tx fees gas =
     \<lparr>tx_ChainID = tx_ChainID (inner tx), tx_Nonce = tx_Nonce (inner tx),
      tx_GasTipCap = fst fees, tx_GasFeeCap = snd fees, tx_Gas = gas,
      tx_To = tx_To (inner tx), tx_Value = tx_Value (inner tx), tx_Data = tx_Data (inner tx),
      tx_AccessList = tx_AccessList (inner tx)\<rparr>"

text \<open>The call message of the re-estimation, with the fee fields as the source fills them in.\<close>

definition reestimateMsg :: "'w TxManager \<Rightarrow> Transaction \<Rightarrow> big \<times> big \<Rightarrow> CallMsg" where
  "reestimateMsg m tx fees =
     \<lparr>msg_From = cfg_From (cfg m), msg_To = tx_To (inner tx),
      msg_GasFeeCap = Some (fst fees), msg_GasTipCap = Some (snd fees),
      msg_Data = tx_Data (inner tx), msg_Value = None\<rparr>"

text \<open>The end of \<open>increaseGasPrice\<close>: when signing fails the old transaction is returned, without an error.\<close>

definition signBumped :: "'w TxManager \<Rightarrow> Transaction \<Rightarrow> DynamicFeeTx \<Rightarrow> ('w, Transaction) call" where
  "signBumped m tx rawTx w =
     (case signer m (cfg_From (cfg m)) rawTx w of
        (Ok newTx, w') \<Rightarrow> (Ok newTx, w')
      | (Err e, w') \<Rightarrow> (Ok tx, w')
      | (Panic p, w') \<Rightarrow> (Panic p, w'))"

definition increaseGasPrice :: "'w TxManager \<Rightarrow> Transaction \<Rightarrow> ('w, Transaction) call" where
  "increaseGasPrice m tx =
     bind_call (suggestGasPriceCaps m)
       (\<lambda>(tip, basefee).
         let fees = bumpFees (tx_GasTipCap (inner tx)) (tx_GasFeeCap (inner tx)) tip basefee
         in bind_call (be_EstimateGas (backend m) (reestimateMsg m tx fees))
              (\<lambda>gas. signBumped m tx (bumpedTx tx fees gas)))"

section \<open>Receipts\<close>

definition confirmed :: "Config \<Rightarrow> Receipt \<Rightarrow> uint64 \<Rightarrow> bool" where
  "confirmed c receipt tipHeight \<longleftrightarrow>
     (word_of_int (rc_BlockNumber receipt) :: uint64) + NumConfirmations c \<le> tipHeight + 1"

definition confsRemaining :: "Config \<Rightarrow> Receipt \<Rightarrow> uint64 \<Rightarrow> uint64" where
  "confsRemaining c receipt tipHeight =
     (word_of_int (rc_BlockNumber receipt) + NumConfirmations c) - (tipHeight + 1)"

text \<open>\<open>ethereum.NotFound\<close> is the sentinel with message \<open>not found\<close>.\<close>

definition queryReceipt ::
    "'w TxManager \<Rightarrow> hash \<Rightarrow> SendState \<Rightarrow> 'w \<Rightarrow> Receipt option outcome \<times> SendState \<times> 'w" where
  "queryReceipt m txHash sendState w =
     (case be_TransactionReceipt (backend m) txHash w of
        (Panic p, w1) \<Rightarrow> (Panic p, sendState, w1)
      | (Err e, w1) \<Rightarrow>
          if errors_Is e ''not found'' then (Ok None, TxNotMined txHash sendState, w1)
          else (Ok None, sendState, w1)
      | (Ok None, w1) \<Rightarrow> (Ok None, sendState, w1)
      | (Ok (Some receipt), w1) \<Rightarrow>
          (let sendState' = TxMined txHash sendState in
           case be_BlockNumber (backend m) w1 of
             (Panic p, w2) \<Rightarrow> (Panic p, sendState', w2)
           | (Err e, w2) \<Rightarrow> (Ok None, sendState', w2)
           | (Ok tipHeight, w2) \<Rightarrow>
               (Ok (if confirmed (cfg m) receipt tipHeight then Some receipt else None), sendState', w2)))"

section \<open>Sending\<close>

text \<open>
  A goroutine of \<open>sendTx\<close> runs \<open>publishAndWaitForTx\<close>: it publishes, then polls in \<open>waitMined\<close>,
  then offers the receipt to the channel.
\<close>

datatype goroutine =
    Publishing Transaction
  | Polling Transaction
  | Offering Transaction Receipt
  | Finished Transaction

fun goroutine_tx :: "goroutine \<Rightarrow> Transaction" where
  "goroutine_tx (Publishing tx) = tx"
| "goroutine_tx (Polling tx) = tx"
| "goroutine_tx (Offering tx r) = tx"
| "goroutine_tx (Finished tx) = tx"

text \<open>
  The state of one \<open>sendTx\<close>: the transaction sent last, the shared \<open>SendState\<close>, the buffer of
  \<open>receiptChan\<close> (capacity 1), the goroutines, the main loop's own position (\<open>Some newTx\<close> between
  the bump and the second check for a mined transaction), and the value returned.
\<close>

record 'w send_run =
  cur_tx :: Transaction
  sendState :: SendState
  receiptChan :: "Receipt option"
  goroutines :: "goroutine list"
  bumped :: "Transaction option"
  result :: "Receipt outcome option"
  world :: 'w

definition sendTx_init :: "'w TxManager \<Rightarrow> Transaction \<Rightarrow> int \<Rightarrow> 'w \<Rightarrow> 'w send_run outcome" where
  "sendTx_init m tx now w =
     (case NewSendStateWithNow (SafeAbortNonceTooLowCount (cfg m)) (TxNotInMempoolTimeout (cfg m)) now of
        Panic p \<Rightarrow> Panic p
      | Err e \<Rightarrow> Err e
      | Ok st \<Rightarrow> Ok \<lparr>cur_tx = tx, sendState = st, receiptChan = None, goroutines = [Publishing tx],
                     bumped = None, result = None, world = w\<rparr>)"

text \<open>
  One step. The rules with \<open>i\<close> move goroutine \<open>i\<close>; the others move the select loop. \<open>tooLow\<close> is
  the message of \<open>core.ErrNonceTooLow\<close>; the rule \<open>time\<close> lets the world change between calls.
\<close>

inductive sendTx_step :: "'w TxManager \<Rightarrow> string \<Rightarrow> 'w send_run \<Rightarrow> 'w send_run \<Rightarrow> bool"
  for m :: "'w TxManager" and tooLow :: string where
  time: "sendTx_step m tooLow s (s\<lparr>world := w'\<rparr>)"
| publish_ok:
    "i < length (goroutines s) \<Longrightarrow> goroutines s ! i = Publishing tx \<Longrightarrow>
     be_SendTransaction (backend m) tx (world s) = (Ok (), w') \<Longrightarrow>
     sendTx_step m tooLow s
       (s\<lparr>goroutines := (goroutines s)[i := Polling tx],
          sendState := ProcessSendError tooLow None (sendState s), world := w'\<rparr>)"
| publish_err:
    "i < length (goroutines s) \<Longrightarrow> goroutines s ! i = Publishing tx \<Longrightarrow>
     be_SendTransaction (backend m) tx (world s) = (Err e, w') \<Longrightarrow>
     sendTx_step m tooLow s
       (s\<lparr>goroutines := (goroutines s)[i := Finished tx],
          sendState := ProcessSendError tooLow (Some e) (sendState s), world := w'\<rparr>)"
| poll_none:
    "i < length (goroutines s) \<Longrightarrow> goroutines s ! i = Polling tx \<Longrightarrow>
     queryReceipt m (tx_Hash tx) (sendState s) (world s) = (Ok None, st, w') \<Longrightarrow>
     sendTx_step m tooLow s (s\<lparr>sendState := st, world := w'\<rparr>)"
| poll_receipt:
    "i < length (goroutines s) \<Longrightarrow> goroutines s ! i = Polling tx \<Longrightarrow>
     queryReceipt m (tx_Hash tx) (sendState s) (world s) = (Ok (Some r), st, w') \<Longrightarrow>
     sendTx_step m tooLow s
       (s\<lparr>goroutines := (goroutines s)[i := Offering tx r], sendState := st, world := w'\<rparr>)"
| poll_cancelled:
    "i < length (goroutines s) \<Longrightarrow> goroutines s ! i = Polling tx \<Longrightarrow>
     sendTx_step m tooLow s (s\<lparr>goroutines := (goroutines s)[i := Finished tx]\<rparr>)"
| offer:
    "i < length (goroutines s) \<Longrightarrow> goroutines s ! i = Offering tx r \<Longrightarrow>
     sendTx_step m tooLow s
       (s\<lparr>goroutines := (goroutines s)[i := Finished tx],
          receiptChan := (case receiptChan s of None \<Rightarrow> Some r | Some r' \<Rightarrow> Some r')\<rparr>)"
| tick_abort:
    "result s = None \<Longrightarrow> bumped s = None \<Longrightarrow>
     \<not> IsWaitingForConfirmation (sendState s) \<Longrightarrow> ShouldAbortImmediately (sendState s) now \<Longrightarrow>
     sendTx_step m tooLow s (s\<lparr>result := Some (Err (NewError ''aborted transaction sending''))\<rparr>)"
| tick_bump:
    "result s = None \<Longrightarrow> bumped s = None \<Longrightarrow>
     \<not> IsWaitingForConfirmation (sendState s) \<Longrightarrow> \<not> ShouldAbortImmediately (sendState s) now \<Longrightarrow>
     increaseGasPrice m (cur_tx s) (world s) = (Ok newTx, w') \<Longrightarrow>
     sendTx_step m tooLow s (s\<lparr>bumped := Some newTx, world := w'\<rparr>)"
| tick_bump_err:
    "result s = None \<Longrightarrow> bumped s = None \<Longrightarrow>
     \<not> IsWaitingForConfirmation (sendState s) \<Longrightarrow> \<not> ShouldAbortImmediately (sendState s) now \<Longrightarrow>
     increaseGasPrice m (cur_tx s) (world s) = (Err e, w') \<Longrightarrow>
     sendTx_step m tooLow s (s\<lparr>world := w'\<rparr>)"
| tick_skip:
    "result s = None \<Longrightarrow> bumped s = Some newTx \<Longrightarrow> IsWaitingForConfirmation (sendState s) \<Longrightarrow>
     sendTx_step m tooLow s (s\<lparr>bumped := None\<rparr>)"
| tick_resubmit:
    "result s = None \<Longrightarrow> bumped s = Some newTx \<Longrightarrow> \<not> IsWaitingForConfirmation (sendState s) \<Longrightarrow>
     sendTx_step m tooLow s
       (s\<lparr>bumped := None, cur_tx := newTx, goroutines := goroutines s @ [Publishing newTx]\<rparr>)"
| cancelled:
    "result s = None \<Longrightarrow> bumped s = None \<Longrightarrow>
     sendTx_step m tooLow s (s\<lparr>result := Some (Err ctxErr)\<rparr>)"
| received:
    "result s = None \<Longrightarrow> bumped s = None \<Longrightarrow> receiptChan s = Some r \<Longrightarrow>
     sendTx_step m tooLow s (s\<lparr>result := Some (Ok r), receiptChan := None\<rparr>)"

inductive sendTx_reachable :: "'w TxManager \<Rightarrow> string \<Rightarrow> Transaction \<Rightarrow> 'w send_run \<Rightarrow> bool"
  for m :: "'w TxManager" and tooLow :: string and tx :: Transaction where
  start: "sendTx_init m tx now w = Ok s \<Longrightarrow> sendTx_reachable m tooLow tx s"
| step: "sendTx_reachable m tooLow tx s \<Longrightarrow> sendTx_step m tooLow s s' \<Longrightarrow> sendTx_reachable m tooLow tx s'"

text \<open>
  \<open>send\<close> and \<open>Send\<close>: at most ten attempts to craft, two seconds apart, then \<open>sendTx\<close>; any error
  forgets the nonce. \<open>sendTx\<close> is an argument here, a call that ends as the step relation above may
  end; the retry environment gives the context and the clock.
\<close>

definition send :: "'w TxManager \<Rightarrow> 'w mgr_world retry_env \<Rightarrow> (Transaction \<Rightarrow> ('w, Receipt) call) \<Rightarrow>
    TxCandidate \<Rightarrow> ('w mgr_world, Receipt) call" where
  "send m env sendTx candidate =
     bind_call (wrap_call ''failed to create the tx'' (Do env 10 (craftTx m candidate)))
       (\<lambda>tx. lift_call (sendTx tx))"

definition Send :: "'w TxManager \<Rightarrow> 'w mgr_world retry_env \<Rightarrow> (Transaction \<Rightarrow> ('w, Receipt) call) \<Rightarrow>
    TxCandidate \<Rightarrow> ('w mgr_world, Receipt) call" where
  "Send m env sendTx candidate sw =
     (case send m env sendTx candidate sw of
        (Ok receipt, sw') \<Rightarrow> (Ok receipt, sw')
      | (Err e, sw') \<Rightarrow> (Err e, resetNonce sw')
      | (Panic p, sw') \<Rightarrow> (Panic p, sw'))"

definition errStringMatch :: "go_error option \<Rightarrow> go_error option \<Rightarrow> bool" where
  "errStringMatch err target =
     (case (err, target) of
        (None, None) \<Rightarrow> True
      | (Some e, Some t) \<Rightarrow> str_contains (error_msg e) (error_msg t)
      | _ \<Rightarrow> False)"

section \<open>Nonces: consecutive, and the gap after a failed signature\<close>

fun nonce_run :: "'w TxManager \<Rightarrow> nat \<Rightarrow> 'w mgr_world \<Rightarrow> uint64 outcome list" where
  "nonce_run m 0 sw = []"
| "nonce_run m (Suc k) sw = (case nextNonce m sw of (r, sw') \<Rightarrow> r # nonce_run m k sw')"

lemma nonce_run_known:
  "nonce_run m k (Some n, w) = map (\<lambda>i. Ok (n + 1 + of_nat i)) [0..<k]"
proof (induction k arbitrary: n)
  case 0
  then show ?case by simp
next
  case (Suc k)
  have "nonce_run m (Suc k) (Some n, w) = Ok (n + 1) # map (\<lambda>i. Ok (n + 1 + 1 + of_nat i)) [0..<k]"
    by (simp add: nextNonce_def Suc.IH)
  also have "\<dots> = map (\<lambda>i. Ok (n + 1 + of_nat i)) [0..<Suc k]"
    by (simp del: upt_Suc add: upt_conv_Cons map_Suc_upt [symmetric] ac_simps o_def)
  finally show ?case .
qed

lemma of_nat_uint64_inj: "inj_on (\<lambda>i. (n :: uint64) + of_nat i) {0..<2 ^ 64}"
proof (rule inj_onI)
  fix i j :: nat
  assume ij: "i \<in> {0..<2 ^ 64}" "j \<in> {0..<2 ^ 64}" and "n + of_nat i = n + of_nat j"
  then have "unat (of_nat i :: uint64) = unat (of_nat j :: uint64)" by simp
  with ij show "i = j" by (simp add: unat_of_nat)
qed

text \<open>
  After a reset, the nonces handed out by successive calls are the account's nonce on L1 and
  the numbers that follow it (with wrap-around at \<open>2 ^ 64\<close>); no two of them are equal.
\<close>

theorem nextNonce_consecutive:
  assumes "be_NonceAt (backend m) (cfg_From (cfg m)) w = (Ok n, w')" "k < 2 ^ 64"
  shows "nonce_run m (Suc k) (resetNonce (s, w)) = map (\<lambda>i. Ok (n + of_nat i)) [0..<Suc k] \<and>
    distinct (nonce_run m (Suc k) (resetNonce (s, w)))"
proof -
  have "nonce_run m (Suc k) (resetNonce (s, w)) = Ok n # map (\<lambda>i. Ok (n + 1 + of_nat i)) [0..<k]"
    using assms(1) by (simp add: nextNonce_def resetNonce_def nonce_run_known)
  also have "\<dots> = map (\<lambda>i. Ok (n + of_nat i)) [0..<Suc k]"
    by (simp del: upt_Suc add: upt_conv_Cons map_Suc_upt [symmetric] ac_simps o_def)
  finally have eq: "nonce_run m (Suc k) (resetNonce (s, w)) = map (\<lambda>i. Ok (n + of_nat i)) [0..<Suc k]" .
  have "{0..<Suc k} \<subseteq> {0..<2 ^ 64}" using assms(2) by (simp only: ivl_subset Suc_le_eq) blast
  then have "inj_on (\<lambda>i. n + of_nat i) {0..<Suc k}"
    by (rule inj_on_subset [OF of_nat_uint64_inj])
  then have "inj_on (\<lambda>i. Ok (n + of_nat i)) {0..<Suc k}"
    unfolding inj_on_def by blast
  then have "distinct (map (\<lambda>i. Ok (n + of_nat i)) [0..<Suc k])"
    by (simp only: distinct_map distinct_upt set_upt simp_thms)
  with eq show ?thesis by simp
qed

lemma craftTx_nonce:
  assumes "suggestGasPriceCaps m w = (Ok (tip, basefee), w1)" "cand_GasLimit c \<noteq> 0"
  shows "craftTx m c (Some n, w) =
    (case signer m (cfg_From (cfg m))
       \<lparr>tx_ChainID = cfg_ChainID (cfg m), tx_Nonce = n + 1, tx_GasTipCap = tip,
        tx_GasFeeCap = calcGasFeeCap basefee tip, tx_Gas = cand_GasLimit c, tx_To = cand_To c,
        tx_Value = cand_Value c, tx_Data = cand_TxData c, tx_AccessList = []\<rparr> w1 of
       (r, w2) \<Rightarrow> (r, (Some (n + 1), w2)))"
  using assms
  by (simp add: craftTx_def bind_call_def lift_call_def wrap_call_def Let_def ret_call_def nextNonce_def
      split: prod.splits)

section \<open>Confirmations\<close>

text \<open>
  Without wrap-around the receipt test is the documented one, \<open>txHeight + n - 1 <= tipHeight\<close>,
  and when it fails the number of remaining confirmations is computed without underflow.
\<close>

theorem confirmation_depth:
  assumes "0 \<le> rc_BlockNumber r" "rc_BlockNumber r + uint (NumConfirmations c) < 2 ^ 64"
    and "uint tipHeight + 1 < 2 ^ 64"
  shows "(confirmed c r tipHeight \<longleftrightarrow> rc_BlockNumber r + uint (NumConfirmations c) - 1 \<le> uint tipHeight) \<and>
    (\<not> confirmed c r tipHeight \<longrightarrow>
       uint (confsRemaining c r tipHeight) =
         rc_BlockNumber r + uint (NumConfirmations c) - 1 - uint tipHeight)"
proof -
  let ?h = "word_of_int (rc_BlockNumber r) :: uint64"
  have "rc_BlockNumber r < 2 ^ 64"
    using assms(2) uint_ge_0 [of "NumConfirmations c"] by linarith
  with assms(1) have h: "uint ?h = rc_BlockNumber r"
    by (simp add: uint_word_of_int)
  have lhs: "uint (?h + NumConfirmations c) = rc_BlockNumber r + uint (NumConfirmations c)"
    using assms(1,2) h by (simp add: uint_word_ariths)
  have rhs: "uint (tipHeight + 1) = uint tipHeight + 1"
    using assms(3) by (simp add: uint_word_ariths)
  have c: "confirmed c r tipHeight \<longleftrightarrow> rc_BlockNumber r + uint (NumConfirmations c) \<le> uint tipHeight + 1"
    by (simp add: confirmed_def word_le_def lhs rhs)
  have "uint (confsRemaining c r tipHeight) = rc_BlockNumber r + uint (NumConfirmations c) - (uint tipHeight + 1)"
    if "\<not> confirmed c r tipHeight"
  proof -
    have "tipHeight + 1 \<le> ?h + NumConfirmations c"
      using that by (simp add: confirmed_def)
    then show ?thesis
      by (simp add: confsRemaining_def uint_sub_lem [THEN iffD1] word_le_def lhs rhs)
  qed
  with c show ?thesis by auto
qed

section \<open>The resubmission loop\<close>

text \<open>
  What signing is documented to do: the signed transaction carries the fields it was given
  (\<open>types.NewTx\<close> stores a missing value as zero).
\<close>

definition stored :: "DynamicFeeTx \<Rightarrow> DynamicFeeTx" where
  "stored raw = raw\<lparr>tx_Value := Some (case tx_Value raw of None \<Rightarrow> 0 | Some v \<Rightarrow> v)\<rparr>"

definition signer_keeps :: "'w TxManager \<Rightarrow> bool" where
  "signer_keeps m \<longleftrightarrow> (\<forall>from raw w tx w'. signer m from raw w = (Ok tx, w') \<longrightarrow> inner tx = stored raw)"

text \<open>What a node is documented to suggest: a tip and a base fee that are not negative.\<close>

definition suggestions_nonneg :: "'w TxManager \<Rightarrow> bool" where
  "suggestions_nonneg m \<longleftrightarrow>
     (\<forall>w tip w'. be_SuggestGasTipCap (backend m) w = (Ok (Some tip), w') \<longrightarrow> 0 \<le> tip) \<and>
     (\<forall>w fee w'. be_HeadBaseFee (backend m) w = (Ok (Some fee), w') \<longrightarrow> 0 \<le> fee)"

text \<open>Everything of a transaction but its fees and its gas limit.\<close>

definition payload :: "DynamicFeeTx \<Rightarrow> big \<times> uint64 \<times> address option \<times> big \<times> bytes \<times> (address \<times> hash list) list" where
  "payload d = (tx_ChainID d, tx_Nonce d, tx_To d, (case tx_Value d of None \<Rightarrow> 0 | Some v \<Rightarrow> v), tx_Data d,
     tx_AccessList d)"

definition fees_valid :: "DynamicFeeTx \<Rightarrow> bool" where
  "fees_valid d \<longleftrightarrow> tx_GasTipCap d \<le> tx_GasFeeCap d"

lemma payload_stored [simp]: "payload (stored raw) = payload raw"
  by (simp add: payload_def stored_def split: option.splits)

lemma fees_valid_stored [simp]: "fees_valid (stored raw) = fees_valid raw"
  by (simp add: fees_valid_def stored_def)

lemma payload_bumpedTx [simp]: "payload (bumpedTx tx fees gas) = payload (inner tx)"
  by (simp add: payload_def bumpedTx_def)

lemma suggestGasPriceCaps_Ok:
  assumes "suggestGasPriceCaps m w = (Ok (tip, basefee), w')"
  obtains w1 where "be_SuggestGasTipCap (backend m) w = (Ok (Some tip), w1)"
    "be_HeadBaseFee (backend m) w1 = (Ok (Some basefee), w')"
  using assms by (auto simp: suggestGasPriceCaps_def split: option.splits)

lemma signer_keepsD: "signer_keeps m \<Longrightarrow> signer m from raw w = (Ok tx, w') \<Longrightarrow> inner tx = stored raw"
  unfolding signer_keeps_def by blast

lemma suggestions_nonnegD:
  assumes "suggestions_nonneg m" "suggestGasPriceCaps m w = (Ok (tip, basefee), w')"
  shows "0 \<le> tip" "0 \<le> basefee"
  using assms(2) assms(1) by (elim suggestGasPriceCaps_Ok; unfold suggestions_nonneg_def; blast)+

lemma signBumped_Ok:
  "signBumped m tx raw w = (Ok tx', w') \<Longrightarrow>
     tx' = tx \<or> signer m (cfg_From (cfg m)) raw w = (Ok tx', w')"
  by (auto simp: signBumped_def split: prod.splits outcome.splits)

lemma increaseGasPrice_Ok:
  assumes "increaseGasPrice m tx w = (Ok tx', w')"
  obtains (same) "tx' = tx"
  | (signed) tip basefee w1 w2 gas w3 where "suggestGasPriceCaps m w = (Ok (tip, basefee), w1)"
      "signer m (cfg_From (cfg m))
         (bumpedTx tx (bumpFees (tx_GasTipCap (inner tx)) (tx_GasFeeCap (inner tx)) tip basefee) gas) w2 = (Ok tx', w3)"
  using assms by (auto simp: increaseGasPrice_def Let_def dest!: signBumped_Ok)

lemma increaseGasPrice_payload:
  assumes "signer_keeps m" "increaseGasPrice m tx w = (Ok tx', w')"
  shows "payload (inner tx') = payload (inner tx)"
  using assms(2)
proof (cases rule: increaseGasPrice_Ok)
  case same
  then show ?thesis by simp
next
  case (signed tip basefee w1 w2 gas w3)
  with signer_keepsD [OF assms(1)] show ?thesis by simp
qed

lemma bumpFees_tip_le_fee:
  "oldTip \<le> oldFeeCap \<Longrightarrow> 0 \<le> tip \<Longrightarrow> 0 \<le> basefee \<Longrightarrow>
   fst (bumpFees oldTip oldFeeCap tip basefee) \<le> snd (bumpFees oldTip oldFeeCap tip basefee)"
  using updateFees_tip_le_fee [of oldTip oldFeeCap basefee tip]
  by (auto simp: bumpFees_def capFees_min calcGasFeeCap_def min_def)

lemma increaseGasPrice_fees_valid:
  assumes "signer_keeps m" "suggestions_nonneg m" "fees_valid (inner tx)"
    and "increaseGasPrice m tx w = (Ok tx', w')"
  shows "fees_valid (inner tx')"
  using assms(4)
proof (cases rule: increaseGasPrice_Ok)
  case same
  with assms(3) show ?thesis by simp
next
  case (signed tip basefee w1 w2 gas w3)
  from suggestions_nonnegD [OF assms(2) signed(1)] assms(3) have "fees_valid (bumpedTx tx
      (bumpFees (tx_GasTipCap (inner tx)) (tx_GasFeeCap (inner tx)) tip basefee) gas)"
    by (simp add: fees_valid_def bumpedTx_def bumpFees_tip_le_fee)
  with signer_keepsD [OF assms(1) signed(2)] show ?thesis by simp
qed

text \<open>Every transaction a run knows: the current one, the bumped one, those of the goroutines.\<close>

definition run_txs :: "'w send_run \<Rightarrow> Transaction set" where
  "run_txs s = {cur_tx s} \<union> set_option (bumped s) \<union> goroutine_tx ` set (goroutines s)"

lemma goroutine_txs_update:
  assumes "i < length gs" "goroutine_tx g' = goroutine_tx (gs ! i)"
  shows "goroutine_tx ` set (gs[i := g']) = goroutine_tx ` set gs"
proof -
  have "map goroutine_tx (gs[i := g']) = map goroutine_tx gs"
    using assms by (simp add: map_update) (metis list_update_id map_update nth_map)
  then show ?thesis by (metis list.set_map)
qed

text \<open>A step keeps its transactions or adds what \<open>increaseGasPrice\<close> made of the current one.\<close>

lemma sendTx_step_txs:
  assumes "sendTx_step m tooLow s s'" "t \<in> run_txs s'"
  shows "t \<in> run_txs s \<or> (\<exists>w w'. increaseGasPrice m (cur_tx s) w = (Ok t, w'))"
  using assms
proof (cases rule: sendTx_step.cases)
  case (publish_ok i tx w')
  with goroutine_txs_update [of i "goroutines s" "Polling tx"] assms(2) show ?thesis by (simp add: run_txs_def)
next
  case (publish_err i tx e w')
  with goroutine_txs_update [of i "goroutines s" "Finished tx"] assms(2) show ?thesis by (simp add: run_txs_def)
next
  case (poll_receipt i tx r st w')
  with goroutine_txs_update [of i "goroutines s" "Offering tx r"] assms(2) show ?thesis by (simp add: run_txs_def)
next
  case (poll_cancelled i tx)
  with goroutine_txs_update [of i "goroutines s" "Finished tx"] assms(2) show ?thesis by (simp add: run_txs_def)
next
  case (offer i tx r)
  with goroutine_txs_update [of i "goroutines s" "Finished tx"] assms(2) show ?thesis by (simp add: run_txs_def)
qed (use assms(2) in \<open>auto simp: run_txs_def\<close>)

lemma sendTx_init_Ok:
  "sendTx_init m tx now w = Ok s \<Longrightarrow> cur_tx s = tx \<and> goroutines s = [Publishing tx] \<and> bumped s = None \<and>
     receiptChan s = None \<and> result s = None"
  by (auto simp: sendTx_init_def split: outcome.splits)

lemma sendTx_txs_induct:
  assumes "sendTx_reachable m tooLow tx s" "P tx"
    and "\<And>t t' w w'. P t \<Longrightarrow> increaseGasPrice m t w = (Ok t', w') \<Longrightarrow> P t'"
  shows "\<forall>t\<in>run_txs s. P t"
  using assms(1)
proof (induction rule: sendTx_reachable.induct)
  case (start now w s)
  with assms(2) show ?case by (auto simp: run_txs_def dest!: sendTx_init_Ok)
next
  case (step s s')
  moreover have "cur_tx s \<in> run_txs s" by (simp add: run_txs_def)
  ultimately show ?case using assms(3) sendTx_step_txs [OF step.hyps(2)] by blast
qed

text \<open>
  C4: whatever the interleaving of the resubmission loop, its goroutines, the node and the
  clock, every transaction of one \<open>sendTx\<close> has the nonce, recipient, value, data and chain of the
  transaction it was called with, so at most one of them can be included; and each remains a valid
  dynamic-fee transaction (tip at most the fee cap).
\<close>

theorem sendTx_resubmits_same_payload:
  assumes "signer_keeps m" "suggestions_nonneg m" "fees_valid (inner tx)"
    and "sendTx_reachable m tooLow tx s" "t \<in> run_txs s"
  shows "payload (inner t) = payload (inner tx) \<and> fees_valid (inner t)"
proof -
  have "\<forall>t\<in>run_txs s. payload (inner t) = payload (inner tx) \<and> fees_valid (inner t)"
    using assms(4)
  proof (rule sendTx_txs_induct)
    show "payload (inner tx) = payload (inner tx) \<and> fees_valid (inner tx)" using assms(3) by simp
  next
    fix t t' w w'
    assume "payload (inner t) = payload (inner tx) \<and> fees_valid (inner t)"
      and "increaseGasPrice m t w = (Ok t', w')"
    then show "payload (inner t') = payload (inner tx) \<and> fees_valid (inner t')"
      using assms(1,2) increaseGasPrice_payload increaseGasPrice_fees_valid by metis
  qed
  with assms(5) show ?thesis by blast
qed

section \<open>What a returned receipt means\<close>

definition seen_confirmed :: "'w TxManager \<Rightarrow> Transaction \<Rightarrow> Receipt \<Rightarrow> bool" where
  "seen_confirmed m t r \<longleftrightarrow>
     (\<exists>w w1 tip w2. be_TransactionReceipt (backend m) (tx_Hash t) w = (Ok (Some r), w1) \<and>
        be_BlockNumber (backend m) w1 = (Ok tip, w2) \<and> confirmed (cfg m) r tip)"

lemma queryReceipt_Some:
  assumes "queryReceipt m (tx_Hash t) st w = (Ok (Some r), st', w')"
  shows "seen_confirmed m t r"
  using assms unfolding queryReceipt_def seen_confirmed_def
  by (fastforce simp: Let_def split: prod.splits outcome.splits option.splits if_splits)

definition receipts_ok :: "'w TxManager \<Rightarrow> 'w send_run \<Rightarrow> bool" where
  "receipts_ok m s \<longleftrightarrow>
     (\<forall>t r. Offering t r \<in> set (goroutines s) \<longrightarrow> seen_confirmed m t r) \<and>
     (\<forall>r. receiptChan s = Some r \<or> result s = Some (Ok r) \<longrightarrow>
        (\<exists>t \<in> goroutine_tx ` set (goroutines s). seen_confirmed m t r))"

lemma offering_update:
  "Offering t r \<in> set (gs[i := g]) \<Longrightarrow> Offering t r = g \<or> Offering t r \<in> set gs"
  using set_update_subset_insert [of gs i g] by blast

lemma sendTx_step_receipts_ok:
  assumes "sendTx_step m tooLow s s'" "receipts_ok m s"
  shows "receipts_ok m s'"
  using assms
proof (cases rule: sendTx_step.cases)
  case (publish_ok i tx w')
  with goroutine_txs_update [of i "goroutines s" "Polling tx"] assms(2) show ?thesis
    by (auto simp: receipts_ok_def dest!: offering_update)
next
  case (publish_err i tx e w')
  with goroutine_txs_update [of i "goroutines s" "Finished tx"] assms(2) show ?thesis
    by (auto simp: receipts_ok_def dest!: offering_update)
next
  case (poll_receipt i tx r st w')
  with goroutine_txs_update [of i "goroutines s" "Offering tx r"] assms(2) show ?thesis
    by (auto simp: receipts_ok_def dest!: offering_update intro: queryReceipt_Some)
next
  case (poll_cancelled i tx)
  with goroutine_txs_update [of i "goroutines s" "Finished tx"] assms(2) show ?thesis
    by (auto simp: receipts_ok_def dest!: offering_update)
next
  case (offer i tx r)
  then have "Offering tx r \<in> set (goroutines s)" by (metis nth_mem)
  then have "seen_confirmed m tx r" "tx \<in> goroutine_tx ` set (goroutines s)"
    using assms(2) by (force simp: receipts_ok_def)+
  with offer goroutine_txs_update [of i "goroutines s" "Finished tx"] assms(2) show ?thesis
    by (auto simp: receipts_ok_def dest!: offering_update split: option.splits)
qed (use assms(2) in \<open>auto simp: receipts_ok_def\<close>)

lemma sendTx_reachable_receipts_ok: "sendTx_reachable m tooLow tx s \<Longrightarrow> receipts_ok m s"
proof (induction rule: sendTx_reachable.induct)
  case (start now w s)
  then show ?case by (auto simp: receipts_ok_def dest!: sendTx_init_Ok)
next
  case (step s s')
  then show ?case by (blast intro: sendTx_step_receipts_ok)
qed

text \<open>
  C5: a receipt that \<open>sendTx\<close> returns was reported by the node for the hash of a transaction this
  call published, and at a moment when the node's head was deep enough for the configured number of
  confirmations.
\<close>

theorem sendTx_returns_confirmed:
  assumes "sendTx_reachable m tooLow tx s" "result s = Some (Ok r)"
  shows "\<exists>t \<in> goroutine_tx ` set (goroutines s). seen_confirmed m t r"
  using sendTx_reachable_receipts_ok [OF assms(1)] assms(2) by (simp add: receipts_ok_def)

text \<open>
  The loop never publishes another transaction while one is known to be mined: a step that
  starts a goroutine is taken in a state that is not waiting for confirmation, and before the loop
  has returned.
\<close>

theorem sendTx_no_resubmission_when_mined:
  assumes "sendTx_step m tooLow s s'" "length (goroutines s) < length (goroutines s')"
  shows "\<not> IsWaitingForConfirmation (sendState s) \<and> result s = None \<and>
    (\<exists>newTx. bumped s = Some newTx \<and> goroutines s' = goroutines s @ [Publishing newTx])"
  using assms by (cases rule: sendTx_step.cases) auto

section \<open>A concrete run\<close>

text \<open>
  A node that accepts everything and a signer that signs: the loop bumps once, the bumped
  transaction is mined at height 5 and returned at head 14 with ten confirmations.
\<close>

definition demo_cfg :: Config where
  "demo_cfg = \<lparr>ResubmissionTimeout = 48, cfg_ChainID = 1, TxSendTimeout = 0, TxNotInMempoolTimeout = 120,
     NetworkTimeout = 2, ReceiptQueryInterval = 12, NumConfirmations = 10, SafeAbortNonceTooLowCount = 3,
     cfg_From = 9\<rparr>"

definition demo_backend :: "nat ETHBackend" where
  "demo_backend = \<lparr>be_BlockNumber = (\<lambda>w. (Ok 14, w)),
     be_TransactionReceipt = (\<lambda>h w. (Ok (Some \<lparr>rc_TxHash = h, rc_BlockNumber = 5, rc_Failed = False\<rparr>), w)),
     be_SendTransaction = (\<lambda>t w. (Ok (), w)), be_HeadBaseFee = (\<lambda>w. (Ok (Some 50), w)),
     be_SuggestGasTipCap = (\<lambda>w. (Ok (Some 7), w)), be_NonceAt = (\<lambda>a w. (Ok 3, w)),
     be_EstimateGas = (\<lambda>c w. (Ok 21000, w)), be_CallContract = (\<lambda>c n w. (Ok [], w))\<rparr>"

text \<open>The demo signer fails in world 1 and answers in every other world; a call moves to the next world.\<close>

definition demo_signer :: "nat SignerFn" where
  "demo_signer from raw w =
     (if w = 1 then Err (NewError ''signer unavailable'')
      else Ok \<lparr>inner = stored raw, tx_Hash = word_of_int (tx_GasTipCap raw)\<rparr>, Suc w)"

definition demo_mgr :: "nat TxManager" where
  "demo_mgr = \<lparr>cfg = demo_cfg, backend = demo_backend, signer = demo_signer\<rparr>"

definition demo_raw :: "big \<Rightarrow> big \<Rightarrow> DynamicFeeTx" where
  "demo_raw tip fee = \<lparr>tx_ChainID = 1, tx_Nonce = 3, tx_GasTipCap = tip, tx_GasFeeCap = fee, tx_Gas = 21000,
     tx_To = Some 4, tx_Value = Some 0, tx_Data = [1, 2], tx_AccessList = []\<rparr>"

definition demo_tx :: Transaction where "demo_tx = \<lparr>inner = demo_raw 7 107, tx_Hash = 7\<rparr>"

definition demo_tx2 :: Transaction where "demo_tx2 = \<lparr>inner = demo_raw 7 117, tx_Hash = 7\<rparr>"

definition demo_receipt :: Receipt where
  "demo_receipt = \<lparr>rc_TxHash = 7, rc_BlockNumber = 5, rc_Failed = False\<rparr>"

definition demo_state :: "uint64 \<Rightarrow> hash set \<Rightarrow> SendState" where
  "demo_state published mined = \<lparr>minedTxs = mined, nonceTooLowCount = 0, txInMempoolDeadline = 120,
     successFullPublishCount = published, safeAbortNonceTooLowCount = 3\<rparr>"

definition demo_run :: "Transaction \<Rightarrow> SendState \<Rightarrow> Receipt option \<Rightarrow> goroutine list \<Rightarrow> Transaction option \<Rightarrow>
    Receipt outcome option \<Rightarrow> nat \<Rightarrow> nat send_run" where
  "demo_run t st ch gs b r w = \<lparr>cur_tx = t, sendState = st, receiptChan = ch, goroutines = gs, bumped = b,
     result = r, world = w\<rparr>"

lemmas demo_defs = demo_cfg_def demo_backend_def demo_mgr_def demo_tx_def demo_tx2_def demo_raw_def
  demo_receipt_def demo_state_def demo_run_def demo_signer_def

lemma demo_start:
  "sendTx_init demo_mgr demo_tx 0 5 = Ok (demo_run demo_tx (demo_state 0 {}) None [Publishing demo_tx] None None 5)"
  by (simp add: sendTx_init_def demo_defs NewSendStateWithNow_def)

lemma demo_bump: "increaseGasPrice demo_mgr demo_tx 5 = (Ok demo_tx2, 6)"
  by (simp add: increaseGasPrice_def suggestGasPriceCaps_def bind_call_def wrap_call_def ret_call_def
      signBumped_def bumpedTx_def stored_def demo_defs bumpFees_def capFees_def updateFees_def fee_defs)

lemma demo_step1:
  "sendTx_step demo_mgr ''nonce too low''
     (demo_run demo_tx (demo_state 0 {}) None [Publishing demo_tx] None None 5)
     (demo_run demo_tx (demo_state 0 {}) None [Publishing demo_tx] (Some demo_tx2) None 6)"
  using sendTx_step.tick_bump [of "demo_run demo_tx (demo_state 0 {}) None [Publishing demo_tx] None None 5"
      0 demo_mgr demo_tx2 6 "''nonce too low''"] demo_bump
  by (simp add: demo_run_def demo_state_def send_state_defs)

lemma demo_step2:
  "sendTx_step demo_mgr ''nonce too low''
     (demo_run demo_tx (demo_state 0 {}) None [Publishing demo_tx] (Some demo_tx2) None 6)
     (demo_run demo_tx2 (demo_state 0 {}) None [Publishing demo_tx, Publishing demo_tx2] None None 6)"
  using sendTx_step.tick_resubmit [of "demo_run demo_tx (demo_state 0 {}) None [Publishing demo_tx] (Some demo_tx2) None 6"
      demo_tx2 demo_mgr "''nonce too low''"]
  by (simp add: demo_run_def demo_state_def send_state_defs)

lemma demo_step3:
  "sendTx_step demo_mgr ''nonce too low''
     (demo_run demo_tx2 (demo_state 0 {}) None [Publishing demo_tx, Publishing demo_tx2] None None 6)
     (demo_run demo_tx2 (demo_state 1 {}) None [Publishing demo_tx, Polling demo_tx2] None None 6)"
  using sendTx_step.publish_ok [of 1 "demo_run demo_tx2 (demo_state 0 {}) None [Publishing demo_tx, Publishing demo_tx2] None None 6"
      demo_tx2 demo_mgr 6 "''nonce too low''"]
  by (simp add: demo_defs send_state_defs)

lemma demo_query:
  "queryReceipt demo_mgr (tx_Hash demo_tx2) (demo_state 1 {}) 6 = (Ok (Some demo_receipt), demo_state 1 {7}, 6)"
  by (simp add: queryReceipt_def demo_defs TxMined_def confirmed_def Let_def)

lemma demo_step4:
  "sendTx_step demo_mgr ''nonce too low''
     (demo_run demo_tx2 (demo_state 1 {}) None [Publishing demo_tx, Polling demo_tx2] None None 6)
     (demo_run demo_tx2 (demo_state 1 {7}) None [Publishing demo_tx, Offering demo_tx2 demo_receipt] None None 6)"
  using sendTx_step.poll_receipt [of 1 "demo_run demo_tx2 (demo_state 1 {}) None [Publishing demo_tx, Polling demo_tx2] None None 6"
      demo_tx2 demo_mgr demo_receipt "demo_state 1 {7}" 6 "''nonce too low''"] demo_query
  by (simp add: demo_run_def)

lemma demo_step5:
  "sendTx_step demo_mgr ''nonce too low''
     (demo_run demo_tx2 (demo_state 1 {7}) None [Publishing demo_tx, Offering demo_tx2 demo_receipt] None None 6)
     (demo_run demo_tx2 (demo_state 1 {7}) (Some demo_receipt) [Publishing demo_tx, Finished demo_tx2] None None 6)"
  using sendTx_step.offer [of 1 "demo_run demo_tx2 (demo_state 1 {7}) None [Publishing demo_tx, Offering demo_tx2 demo_receipt] None None 6"
      demo_tx2 demo_receipt demo_mgr "''nonce too low''"]
  by (simp add: demo_run_def)

lemma demo_step6:
  "sendTx_step demo_mgr ''nonce too low''
     (demo_run demo_tx2 (demo_state 1 {7}) (Some demo_receipt) [Publishing demo_tx, Finished demo_tx2] None None 6)
     (demo_run demo_tx2 (demo_state 1 {7}) None [Publishing demo_tx, Finished demo_tx2] None (Some (Ok demo_receipt)) 6)"
  using sendTx_step.received [of "demo_run demo_tx2 (demo_state 1 {7}) (Some demo_receipt) [Publishing demo_tx, Finished demo_tx2] None None 6"
      demo_receipt demo_mgr "''nonce too low''"]
  by (simp add: demo_run_def)

lemma demo_reachable:
  "sendTx_reachable demo_mgr ''nonce too low'' demo_tx
     (demo_run demo_tx2 (demo_state 1 {7}) None [Publishing demo_tx, Finished demo_tx2] None (Some (Ok demo_receipt)) 6)"
  by (rule sendTx_reachable.step [OF sendTx_reachable.step [OF sendTx_reachable.step [OF sendTx_reachable.step
        [OF sendTx_reachable.step [OF sendTx_reachable.step [OF sendTx_reachable.start [OF demo_start]
          demo_step1] demo_step2] demo_step3] demo_step4] demo_step5] demo_step6])

lemma demo_hypotheses: "signer_keeps demo_mgr" "suggestions_nonneg demo_mgr" "fees_valid (inner demo_tx)"
  by (auto simp: signer_keeps_def suggestions_nonneg_def fees_valid_def demo_defs split: if_splits)

theorem sendTx_resubmits_same_payload_witness:
  "payload (inner demo_tx2) = payload (inner demo_tx) \<and> fees_valid (inner demo_tx2)"
  by (rule sendTx_resubmits_same_payload [OF demo_hypotheses demo_reachable])
    (simp add: run_txs_def demo_run_def)

theorem sendTx_returns_confirmed_witness:
  "\<exists>t \<in> goroutine_tx ` set (goroutines (demo_run demo_tx2 (demo_state 1 {7}) None
       [Publishing demo_tx, Finished demo_tx2] None (Some (Ok demo_receipt)) 6)).
     seen_confirmed demo_mgr t demo_receipt"
  by (rule sendTx_returns_confirmed [OF demo_reachable]) (simp add: demo_run_def)

theorem sendTx_no_resubmission_when_mined_witness:
  "\<not> IsWaitingForConfirmation (sendState (demo_run demo_tx (demo_state 0 {}) None [Publishing demo_tx] (Some demo_tx2) None 6)) \<and>
    result (demo_run demo_tx (demo_state 0 {}) None [Publishing demo_tx] (Some demo_tx2) None 6) = None \<and>
    (\<exists>newTx. bumped (demo_run demo_tx (demo_state 0 {}) None [Publishing demo_tx] (Some demo_tx2) None 6) = Some newTx \<and>
       goroutines (demo_run demo_tx2 (demo_state 0 {}) None [Publishing demo_tx, Publishing demo_tx2] None None 6) =
       goroutines (demo_run demo_tx (demo_state 0 {}) None [Publishing demo_tx] (Some demo_tx2) None 6) @ [Publishing newTx])"
  by (rule sendTx_no_resubmission_when_mined [OF demo_step2]) (simp add: demo_run_def)

theorem nextNonce_consecutive_witness:
  "nonce_run demo_mgr (Suc 2) (resetNonce (Some 40, 0)) = map (\<lambda>i. Ok ((3 :: uint64) + of_nat i)) [0..<Suc 2] \<and>
    distinct (nonce_run demo_mgr (Suc 2) (resetNonce (Some 40, 0)))"
  by (rule nextNonce_consecutive [where w' = 0]) (simp_all add: demo_defs)

theorem confirmation_depth_witness:
  "\<not> confirmed demo_cfg demo_receipt 13 \<and> uint (confsRemaining demo_cfg demo_receipt 13) = 1 \<and>
   confirmed demo_cfg demo_receipt 14"
proof -
  have fits: "0 \<le> rc_BlockNumber demo_receipt" "rc_BlockNumber demo_receipt + uint (NumConfirmations demo_cfg) < 2 ^ 64"
    "uint (13 :: uint64) + 1 < 2 ^ 64" "uint (14 :: uint64) + 1 < 2 ^ 64"
    by (simp_all add: demo_defs)
  from confirmation_depth [OF fits(1,2,3)] confirmation_depth [OF fits(1,2,4)] show ?thesis
    by (simp add: demo_receipt_def demo_cfg_def)
qed

section \<open>A failed signature leaves a gap in the nonces\<close>

text \<open>
  \<open>craftTx\<close> takes its nonce before it signs, and the retry loop of \<open>send\<close> does not give it
  back: when the first signature fails and the second succeeds, the transaction that is sent has
  the nonce after the next one, and no transaction has the nonce in between.
\<close>

theorem failed_signature_skips_nonce:
  assumes "cand_GasLimit c \<noteq> 0"
    and "ctx_Err env (Some n, w) = None" "suggestGasPriceCaps m w = (Ok (tip, basefee), w1)"
    and "\<And>raw. signer m (cfg_From (cfg m)) raw w1 = (Err e, w2)"
    and "pause env 10 0 (Some (n + 1), w2) = (Some (n + 1), w3)"
    and "ctx_Err env (Some (n + 1), w3) = None" "suggestGasPriceCaps m w3 = (Ok (tip', basefee'), w4)"
    and "\<And>raw. signer m (cfg_From (cfg m)) raw w4 = (Ok (sign raw), w5)"
    and "\<And>raw. inner (sign raw) = stored raw"
  shows "\<exists>tx. Do env 10 (craftTx m c) (Some n, w) = (Ok tx, (Some (n + 2), w5)) \<and> tx_Nonce (inner tx) = n + 2"
proof -
  let ?op = "craftTx m c"
  have first: "?op (Some n, w) = (Err e, (Some (n + 1), w2))"
    using craftTx_nonce [OF assms(3,1)] assms(4) by simp
  obtain tx where second: "?op (Some (n + 1), w3) = (Ok tx, (Some (n + 2), w5))" "tx_Nonce (inner tx) = n + 2"
    using craftTx_nonce [OF assms(7,1), of "n + 1"] assms(8,9) by (simp add: stored_def add.assoc)
  have "Do env 10 ?op (Some n, w) = (Ok tx, (Some (n + 2), w5))"
    using first second assms(2,5,6)
      do_loop_skip [of 0 1 10 env ?op "(Some n, w)" "NewError []"]
    by (simp add: Do_def fails_at_0 do_loop_Ok)
  with second(2) show ?thesis by blast
qed

definition demo_env :: "nat mgr_world retry_env" where
  "demo_env = \<lparr>ctx_Err = (\<lambda>_. None), strategy_Duration = FixedStrategy_Duration 2,
     time_Sleep = (\<lambda>d sw. sw)\<rparr>"

definition demo_candidate :: TxCandidate where
  "demo_candidate = \<lparr>cand_TxData = [1], cand_To = Some 4, cand_GasLimit = 21000, cand_Value = None\<rparr>"

theorem failed_signature_skips_nonce_witness:
  "\<exists>tx. Do demo_env 10 (craftTx demo_mgr demo_candidate) (Some 3, 1) = (Ok tx, (Some (3 + 2), 3)) \<and>
     tx_Nonce (inner tx) = 3 + 2"
  by (rule failed_signature_skips_nonce
      [where tip = 7 and basefee = 50 and ?w1.0 = 1 and e = "NewError ''signer unavailable''" and ?w2.0 = 2 and
        ?w3.0 = 2 and tip' = 7 and basefee' = 50 and ?w4.0 = 2 and
        sign = "\<lambda>raw. \<lparr>inner = stored raw, tx_Hash = word_of_int (tx_GasTipCap raw)\<rparr>"])
    (simp_all add: demo_candidate_def demo_env_def demo_defs pause_def FixedStrategy_Duration_def
      suggestGasPriceCaps_def bind_call_def wrap_call_def ret_call_def)

section \<open>The re-estimation message\<close>

lemma updateFees_strict:
  assumes "oldTip < oldFeeCap" "0 < newBaseFee"
  shows "fst (updateFees oldTip oldFeeCap newTip newBaseFee) < snd (updateFees oldTip oldFeeCap newTip newBaseFee)"
proof -
  have "calcThresholdValue oldTip < calcThresholdValue oldFeeCap"
    using assms(1) by (simp add: fee_defs)
  then show ?thesis
    using assms by (cases rule: updateFees_cases [of oldTip newTip oldFeeCap newBaseFee]) (auto simp: calcGasFeeCap_def)
qed

text \<open>
  The gas re-estimation of \<open>increaseGasPrice\<close> is asked with the two fee fields exchanged: for
  every transaction with a tip below its fee cap, and any suggested tip and positive base fee, the
  message has a tip above its fee cap, which a node rejects.
\<close>

theorem reestimate_fees_inverted:
  assumes "tx_GasTipCap (inner tx) < tx_GasFeeCap (inner tx)" "0 \<le> tip" "0 < basefee"
  shows "\<exists>f t. msg_GasFeeCap (reestimateMsg m tx (bumpFees (tx_GasTipCap (inner tx)) (tx_GasFeeCap (inner tx)) tip basefee)) = Some f \<and>
    msg_GasTipCap (reestimateMsg m tx (bumpFees (tx_GasTipCap (inner tx)) (tx_GasFeeCap (inner tx)) tip basefee)) = Some t \<and> f < t"
  using updateFees_strict [OF assms(1,3), of tip] assms(2,3)
  by (auto simp: reestimateMsg_def bumpFees_def capFees_min calcGasFeeCap_def min_def)

theorem reestimate_fees_inverted_witness:
  "\<exists>f t. msg_GasFeeCap (reestimateMsg demo_mgr demo_tx (bumpFees (tx_GasTipCap (inner demo_tx)) (tx_GasFeeCap (inner demo_tx)) 7 50)) = Some f \<and>
    msg_GasTipCap (reestimateMsg demo_mgr demo_tx (bumpFees (tx_GasTipCap (inner demo_tx)) (tx_GasFeeCap (inner demo_tx)) 7 50)) = Some t \<and> f < t"
  by (rule reestimate_fees_inverted) (simp_all add: demo_defs)

end
