(* ===== verification/Bridge.thy ===== *)
theory Bridge
  imports Tx_Mgr
begin

text \<open>
  \<^verbatim>\<open>rollup/rpc/bridge\<close>: the packing and unpacking of contract calls (\<^verbatim>\<open>serialization.go\<close>) and the
  transaction manager that adds the contract methods to \<open>Send\<close> (\<^verbatim>\<open>tx_mgr.go\<close>). go-ethereum's ABI
  coder is a parameter: packing by method name, unpacking to a list of dynamically typed values.
  Type assertions and slice bounds panic as in Go.
\<close>

section \<open>The ABI coder\<close>

datatype abi_value = ABig big | AHash hash | ABytes bytes | AAddr address | AOther string

record abi =
  abi_Pack :: "string \<Rightarrow> abi_value list \<Rightarrow> bytes outcome"
  abi_Unpack :: "string \<Rightarrow> bytes \<Rightarrow> abi_value list outcome"
  abi_UnpackInputs :: "string \<Rightarrow> bytes \<Rightarrow> abi_value list outcome"

record bridgeSerializationUtil =
  inboxAbi :: abi
  rollupAbi :: abi
  challengeAbi :: abi
  l1OracleAbi :: abi

definition MethodNumBytes :: nat where "MethodNumBytes = 4"

text \<open>\<open>data[MethodNumBytes:]\<close>.\<close>

definition method_args :: "bytes \<Rightarrow> bytes outcome" where
  "method_args d = (if length d < MethodNumBytes then Panic ''slice bounds out of range'' else Ok (drop MethodNumBytes d))"

definition assert_big :: "abi_value list \<Rightarrow> nat \<Rightarrow> big outcome" where
  "assert_big vs i =
     (if length vs \<le> i then Panic ''index out of range''
      else case vs ! i of ABig n \<Rightarrow> Ok n | _ \<Rightarrow> Panic ''interface conversion'')"

definition assert_hash :: "abi_value list \<Rightarrow> nat \<Rightarrow> hash outcome" where
  "assert_hash vs i =
     (if length vs \<le> i then Panic ''index out of range''
      else case vs ! i of AHash h \<Rightarrow> Ok h | _ \<Rightarrow> Panic ''interface conversion'')"

section \<open>Packing and unpacking\<close>

definition UnpackAppendTxBatchInput :: "bridgeSerializationUtil \<Rightarrow> bytes \<Rightarrow> abi_value list outcome" where
  "UnpackAppendTxBatchInput u txData =
     bind_out (method_args txData) (abi_UnpackInputs (inboxAbi u) ''appendTxBatch'')"

definition packAppendTxBatchInput :: "bridgeSerializationUtil \<Rightarrow> bytes \<Rightarrow> bytes outcome" where
  "packAppendTxBatchInput u batch = abi_Pack (inboxAbi u) ''appendTxBatch'' [ABytes batch]"

definition UnpackCreateAssertionInput :: "bridgeSerializationUtil \<Rightarrow> bytes \<Rightarrow> (hash \<times> big) outcome" where
  "UnpackCreateAssertionInput u txData =
     bind_out (method_args txData) (\<lambda>d.
     bind_out (abi_Unpack (rollupAbi u) ''createAssertion'' d) (\<lambda>vals.
     bind_out (assert_hash vals 0) (\<lambda>vmHash.
     bind_out (assert_big vals 1) (\<lambda>inboxSize. Ok (vmHash, inboxSize)))))"

definition UnpackBisectExecutionInput :: "bridgeSerializationUtil \<Rightarrow> bytes \<Rightarrow> abi_value list outcome" where
  "UnpackBisectExecutionInput u txData =
     bind_out (method_args txData) (abi_UnpackInputs (challengeAbi u) ''bisectExecution'')"

definition packStakeInput :: "bridgeSerializationUtil \<Rightarrow> bytes outcome" where
  "packStakeInput u = abi_Pack (rollupAbi u) ''stake'' []"

definition packAdvanceStakeInput :: "bridgeSerializationUtil \<Rightarrow> big \<Rightarrow> bytes outcome" where
  "packAdvanceStakeInput u assertionID = abi_Pack (rollupAbi u) ''advanceStake'' [ABig assertionID]"

definition packCreateAssertionInput :: "bridgeSerializationUtil \<Rightarrow> hash \<Rightarrow> big \<Rightarrow> bytes outcome" where
  "packCreateAssertionInput u vmHash blockNum =
     abi_Pack (rollupAbi u) ''createAssertion'' [AHash vmHash, ABig blockNum]"

definition packConfirmFirstUnresolvedAssertionInput :: "bridgeSerializationUtil \<Rightarrow> bytes outcome" where
  "packConfirmFirstUnresolvedAssertionInput u = abi_Pack (rollupAbi u) ''confirmFirstUnresolvedAssertion'' []"

definition packRejectFirstUnresolvedAssertionInput :: "bridgeSerializationUtil \<Rightarrow> address \<Rightarrow> bytes outcome" where
  "packRejectFirstUnresolvedAssertionInput u stakerAddress =
     abi_Pack (rollupAbi u) ''rejectFirstUnresolvedAssertion'' [AAddr stakerAddress]"

definition UnpackL1OracleInput ::
    "bridgeSerializationUtil \<Rightarrow> bytes \<Rightarrow> (uint64 \<times> uint64 \<times> uint64 \<times> hash \<times> hash) outcome" where
  "UnpackL1OracleInput u txData =
     bind_out (method_args txData) (\<lambda>d.
     bind_out (abi_Unpack (l1OracleAbi u) ''setL1OracleValues'' d) (\<lambda>vals.
     bind_out (assert_big vals 0) (\<lambda>number.
     bind_out (assert_big vals 1) (\<lambda>timestamp.
     bind_out (assert_big vals 2) (\<lambda>baseFee.
     bind_out (assert_hash vals 3) (\<lambda>h.
     bind_out (assert_hash vals 4) (\<lambda>stateRoot.
       Ok (word_of_int number, word_of_int timestamp, word_of_int baseFee, h, stateRoot))))))))"

text \<open>
  The singleton \<open>serializationUtil\<close> is filled once; \<open>getAbis\<close> are the four \<open>GetAbi\<close> calls of the
  generated bindings, in order.
\<close>

definition ensureUtilInit ::
    "abi outcome \<times> abi outcome \<times> abi outcome \<times> abi outcome \<Rightarrow> bridgeSerializationUtil option \<Rightarrow>
     unit outcome \<times> bridgeSerializationUtil option" where
  "ensureUtilInit getAbis util =
     (case util of
        Some u \<Rightarrow> (Ok (), Some u)
      | None \<Rightarrow>
          (case getAbis of (i, r, c, l) \<Rightarrow>
             case bind_out (wrap_err ''failed to get ISequencerInbox ABI'' i) (\<lambda>inbox.
                  bind_out (wrap_err ''failed to get IRollup ABI'' r) (\<lambda>rollup.
                  bind_out (wrap_err ''failed to get ISymChallenge ABI'' c) (\<lambda>challenge.
                  bind_out (wrap_err ''failed to get IL1Oracle ABI'' l) (\<lambda>l1Oracle.
                    Ok \<lparr>inboxAbi = inbox, rollupAbi = rollup, challengeAbi = challenge, l1OracleAbi = l1Oracle\<rparr>)))) of
               Ok u \<Rightarrow> (Ok (), Some u)
             | Err e \<Rightarrow> (Err e, None)
             | Panic p \<Rightarrow> (Panic p, None)))"

section \<open>The contract methods\<close>

record bridgeConfig =
  SequencerInboxAddr :: address
  RollupAddr :: address

record 'w bridge_TxManager =
  EthTxManager_Send :: "TxCandidate \<Rightarrow> ('w, Receipt) call"
  bridge_cfg :: bridgeConfig
  bridge_util :: bridgeSerializationUtil

definition with_data :: "bytes outcome \<Rightarrow> (bytes \<Rightarrow> ('w, Receipt) call) \<Rightarrow> ('w, Receipt) call" where
  "with_data packed f w = (case packed of Ok d \<Rightarrow> f d w | Err e \<Rightarrow> (Err e, w) | Panic p \<Rightarrow> (Panic p, w))"

definition AppendTxBatch :: "'w bridge_TxManager \<Rightarrow> bytes \<Rightarrow> ('w, Receipt) call" where
  "AppendTxBatch m batch =
     with_data (packAppendTxBatchInput (bridge_util m) batch)
       (\<lambda>d. EthTxManager_Send m \<lparr>cand_TxData = d, cand_To = Some (SequencerInboxAddr (bridge_cfg m)),
                                  cand_GasLimit = 0, cand_Value = None\<rparr>)"

definition sendRollupTx :: "'w bridge_TxManager \<Rightarrow> bytes \<Rightarrow> uint64 \<Rightarrow> ('w, Receipt) call" where
  "sendRollupTx m d value =
     EthTxManager_Send m \<lparr>cand_TxData = d, cand_To = Some (RollupAddr (bridge_cfg m)), cand_GasLimit = 0,
                           cand_Value = Some (uint value)\<rparr>"

definition Stake :: "'w bridge_TxManager \<Rightarrow> big \<Rightarrow> ('w, Receipt) call" where
  "Stake m stakeAmount =
     with_data (packStakeInput (bridge_util m)) (\<lambda>d. sendRollupTx m d (word_of_int stakeAmount))"

definition AdvanceStake :: "'w bridge_TxManager \<Rightarrow> big \<Rightarrow> ('w, Receipt) call" where
  "AdvanceStake m assertionID =
     with_data (packAdvanceStakeInput (bridge_util m) assertionID) (\<lambda>d. sendRollupTx m d 0)"

definition CreateAssertion :: "'w bridge_TxManager \<Rightarrow> hash \<Rightarrow> big \<Rightarrow> ('w, Receipt) call" where
  "CreateAssertion m vmHash blockNum =
     with_data (packCreateAssertionInput (bridge_util m) vmHash blockNum) (\<lambda>d. sendRollupTx m d 0)"

definition ConfirmFirstUnresolvedAssertion :: "'w bridge_TxManager \<Rightarrow> ('w, Receipt) call" where
  "ConfirmFirstUnresolvedAssertion m =
     with_data (packConfirmFirstUnresolvedAssertionInput (bridge_util m)) (\<lambda>d. sendRollupTx m d 0)"

definition RejectFirstUnresolvedAssertion :: "'w bridge_TxManager \<Rightarrow> address \<Rightarrow> ('w, Receipt) call" where
  "RejectFirstUnresolvedAssertion m stakerAddress =
     with_data (packRejectFirstUnresolvedAssertionInput (bridge_util m) stakerAddress) (\<lambda>d. sendRollupTx m d 0)"

lemmas bridge_op_defs [op_defs] =
  with_data_def sendRollupTx_def Stake_def AdvanceStake_def CreateAssertion_def
  ConfirmFirstUnresolvedAssertion_def RejectFirstUnresolvedAssertion_def AppendTxBatch_def

section \<open>Properties\<close>

lemma Stake_sends:
  assumes "packStakeInput (bridge_util m) = Ok d"
  shows "Stake m amount = EthTxManager_Send m \<lparr>cand_TxData = d, cand_To = Some (RollupAddr (bridge_cfg m)),
    cand_GasLimit = 0, cand_Value = Some (amount mod 2 ^ 64)\<rparr>"
proof -
  have "uint (word_of_int amount :: uint64) = amount mod 2 ^ 64"
    by (simp add: uint_word_of_int)
  then show ?thesis using assms by (simp add: Stake_def with_data_def sendRollupTx_def fun_eq_iff)
qed

text \<open>
  \<open>Stake\<close> attaches the requested amount only if it fits 64 bits; from \<open>2 ^ 64\<close> wei (about
  18.4 ether) on it attaches the remainder, which is strictly less.
\<close>

theorem Stake_value:
  assumes "packStakeInput (bridge_util m) = Ok d" "0 \<le> amount"
  shows "\<exists>v. Stake m amount w =
       EthTxManager_Send m \<lparr>cand_TxData = d, cand_To = Some (RollupAddr (bridge_cfg m)), cand_GasLimit = 0,
                             cand_Value = Some v\<rparr> w \<and>
     (v = amount \<longleftrightarrow> amount < 2 ^ 64) \<and> v \<le> amount \<and> v = amount mod 2 ^ 64"
proof -
  have "amount mod 2 ^ 64 \<le> amount"
    using assms(2) by (simp add: zmod_le_nonneg_dividend)
  moreover have "amount mod 2 ^ 64 = amount \<longleftrightarrow> amount < 2 ^ 64"
    using assms(2) by (metis mod_pos_pos_trivial pos_mod_bound zero_less_numeral zero_less_power)
  ultimately show ?thesis
    using Stake_sends [OF assms(1)] by simp
qed

definition demo_util :: bridgeSerializationUtil where
  "demo_util = (let a = \<lparr>abi_Pack = (\<lambda>n vs. Ok [1, 2, 3, 4]), abi_Unpack = (\<lambda>n d. Ok []), abi_UnpackInputs = (\<lambda>n d. Ok [])\<rparr>
     in \<lparr>inboxAbi = a, rollupAbi = a, challengeAbi = a, l1OracleAbi = a\<rparr>)"

text \<open>A transaction manager whose world is the list of candidates it was given.\<close>

definition demo_bridge :: "TxCandidate list bridge_TxManager" where
  "demo_bridge = \<lparr>EthTxManager_Send = (\<lambda>c w. (Err (NewError ''not sent''), w @ [c])),
     bridge_cfg = \<lparr>SequencerInboxAddr = 1, RollupAddr = 2\<rparr>, bridge_util = demo_util\<rparr>"

theorem Stake_value_witness:
  "snd (Stake demo_bridge (20 * 10 ^ 18) []) =
     [\<lparr>cand_TxData = [1, 2, 3, 4], cand_To = Some 2, cand_GasLimit = 0, cand_Value = Some (20 * 10 ^ 18 - 2 ^ 64)\<rparr>]"
proof -
  have "packStakeInput (bridge_util demo_bridge) = Ok [1, 2, 3, 4]"
    by (simp add: packStakeInput_def demo_bridge_def demo_util_def Let_def)
  from Stake_value [OF this, of "20 * 10 ^ 18" "[]"] show ?thesis
    by (auto simp: demo_bridge_def)
qed

text \<open>
  The oracle transaction is never decoded. go-ethereum documents \<open>ABI.Unpack\<close> as decoding the
  \<^emph>\<open>outputs\<close> of a method, and \<open>setL1OracleValues\<close> has none, so \<open>Unpack\<close> fails or gives the empty
  list; \<open>UnpackL1OracleInput\<close> then ends in an error or in an index-out-of-range panic, whatever the
  transaction's data, and never returns an epoch. (\<open>UnpackAppendTxBatchInput\<close> and
  \<open>UnpackBisectExecutionInput\<close> go through the method's inputs instead.)
\<close>

theorem oracle_input_never_unpacked:
  assumes "\<forall>d. abi_Unpack (l1OracleAbi u) ''setL1OracleValues'' d \<in> range Err \<union> {Ok []}"
  shows "(\<exists>e. UnpackL1OracleInput u txData = Err e \<and> 4 \<le> length txData) \<or>
    UnpackL1OracleInput u txData = Panic ''index out of range'' \<or>
    (UnpackL1OracleInput u txData = Panic ''slice bounds out of range'' \<and> length txData < 4)"
proof (cases "length txData < 4")
  case True
  then show ?thesis by (simp add: UnpackL1OracleInput_def method_args_def MethodNumBytes_def bind_out_def)
next
  case False
  then have "method_args txData = Ok (drop 4 txData)" by (simp add: method_args_def MethodNumBytes_def)
  moreover have "abi_Unpack (l1OracleAbi u) ''setL1OracleValues'' (drop 4 txData) \<in> range Err \<union> {Ok []}"
    using assms by blast
  ultimately show ?thesis
    using False by (auto simp: UnpackL1OracleInput_def assert_big_def bind_out_def)
qed

theorem oracle_input_never_unpacked_witness:
  "UnpackL1OracleInput demo_util (replicate 164 0) = Panic ''index out of range''"
proof -
  have u: "abi_Unpack (l1OracleAbi demo_util) n d = Ok []" for n d by (simp add: demo_util_def Let_def)
  then have "\<not> (\<exists>e. UnpackL1OracleInput demo_util (replicate 164 0) = Err e)"
    by (simp add: UnpackL1OracleInput_def method_args_def MethodNumBytes_def assert_big_def bind_out_def)
  then show ?thesis
    using oracle_input_never_unpacked [of demo_util "replicate 164 0"] u by auto
qed

text \<open>
  An oracle call whose arguments decode to three numbers and two hashes is read back with the
  numbers cut to 64 bits.
\<close>

lemma UnpackL1OracleInput_Ok:
  assumes "abi_Unpack (l1OracleAbi u) ''setL1OracleValues'' args = Ok [ABig n, ABig t, ABig b, AHash h, AHash r]"
    and "length sel = 4"
  shows "UnpackL1OracleInput u (sel @ args) = Ok (word_of_int n, word_of_int t, word_of_int b, h, r)"
  using assms by (simp add: UnpackL1OracleInput_def method_args_def MethodNumBytes_def assert_big_def assert_hash_def)

lemma ensureUtilInit_idempotent:
  "ensureUtilInit as (Some u) = (Ok (), Some u)"
  "fst (ensureUtilInit as util) = Ok () \<Longrightarrow> snd (ensureUtilInit as util) \<noteq> None"
  by (auto simp: ensureUtilInit_def split: option.splits prod.splits outcome.splits)

end
