(* ===== verification/Eth_State.thy ===== *)
theory Eth_State
  imports Go_Prelude
begin

text \<open>
  \<^verbatim>\<open>rollup/types/block_id.go\<close>, \<^verbatim>\<open>utils/map.go\<close> and \<^verbatim>\<open>rollup/rpc/eth/eth_state.go\<close>: block
  identifiers, the typed wrapper of \<open>sync.Map\<close>, and the record of the latest, safe and finalized L1
  headers. The map's contract is a locale that \<open>EthState\<close> relies on; it is interpreted on the
  wrapper's own operations. \<open>OnSafe\<close> and \<open>OnFinalized\<close> are shown to move their header forward only,
  over any interleaving of callbacks.
\<close>

section \<open>Block identifiers\<close>

record Header =
  h_Number :: big
  h_Hash :: hash
  h_ParentHash :: hash

record BlockID =
  id_Number :: uint64
  id_Hash :: hash

definition NewBlockID :: "uint64 \<Rightarrow> hash \<Rightarrow> BlockID" where
  "NewBlockID number h = \<lparr>id_Number = number, id_Hash = h\<rparr>"

definition EmptyBlockID :: BlockID where
  "EmptyBlockID = \<lparr>id_Number = 0, id_Hash = 0\<rparr>"

definition NewBlockIDFromHeader :: "Header \<Rightarrow> BlockID" where
  "NewBlockIDFromHeader header = NewBlockID (word_of_int (h_Number header)) (h_Hash header)"

record BlockRef = BlockID +
  ref_ParentHash :: hash

definition NewBlockRef :: "uint64 \<Rightarrow> hash \<Rightarrow> hash \<Rightarrow> BlockRef" where
  "NewBlockRef number h parentHash = BlockID.extend (NewBlockID number h) \<lparr>ref_ParentHash = parentHash\<rparr>"

definition NewBlockRefFromHeader :: "Header \<Rightarrow> BlockRef" where
  "NewBlockRefFromHeader header = BlockID.extend (NewBlockIDFromHeader header) \<lparr>ref_ParentHash = h_ParentHash header\<rparr>"

lemma NewBlockID_sel [simp]:
  "id_Number (NewBlockID n h) = n" "id_Hash (NewBlockID n h) = h"
  "id_Number (NewBlockIDFromHeader hdr) = word_of_int (h_Number hdr)" "id_Hash (NewBlockIDFromHeader hdr) = h_Hash hdr"
  by (simp_all add: NewBlockID_def NewBlockIDFromHeader_def)

section \<open>The typed map\<close>

text \<open>Go returns the zero value \<open>zero\<close> of the value type for an absent key.\<close>

type_synonym ('k, 'v) syncmap = "'k \<Rightarrow> 'v option"

definition Map_Load :: "'v \<Rightarrow> ('k, 'v) syncmap \<Rightarrow> 'k \<Rightarrow> 'v" where
  "Map_Load zero m key = (case m key of None \<Rightarrow> zero | Some v \<Rightarrow> v)"

definition Map_Store :: "('k, 'v) syncmap \<Rightarrow> 'k \<Rightarrow> 'v \<Rightarrow> ('k, 'v) syncmap" where
  "Map_Store m key value = m(key \<mapsto> value)"

definition Map_LoadOrStore :: "('k, 'v) syncmap \<Rightarrow> 'k \<Rightarrow> 'v \<Rightarrow> 'v \<times> ('k, 'v) syncmap" where
  "Map_LoadOrStore m key value =
     (case m key of Some v \<Rightarrow> (v, m) | None \<Rightarrow> (value, Map_Store m key value))"

definition Map_LoadAndStore :: "'v \<Rightarrow> ('k, 'v) syncmap \<Rightarrow> 'k \<Rightarrow> 'v \<Rightarrow> 'v \<times> ('k, 'v) syncmap" where
  "Map_LoadAndStore zero m key value = (Map_Load zero m key, Map_Store m key value)"

definition Map_LoadAndDelete :: "'v \<Rightarrow> ('k, 'v) syncmap \<Rightarrow> 'k \<Rightarrow> 'v \<times> ('k, 'v) syncmap" where
  "Map_LoadAndDelete zero m key = (Map_Load zero m key, m(key := None))"

definition Map_Delete :: "('k, 'v) syncmap \<Rightarrow> 'k \<Rightarrow> ('k, 'v) syncmap" where
  "Map_Delete m key = m(key := None)"

text \<open>What a client of the map relies on.\<close>

locale keyed_store =
  fixes load :: "'m \<Rightarrow> 'k \<Rightarrow> 'v"
    and store :: "'m \<Rightarrow> 'k \<Rightarrow> 'v \<Rightarrow> 'm"
    and swap :: "'m \<Rightarrow> 'k \<Rightarrow> 'v \<Rightarrow> 'v \<times> 'm"
  assumes load_store: "load (store m k v) k' = (if k' = k then v else load m k')"
    and swap_load: "fst (swap m k v) = load m k"
    and swap_store: "snd (swap m k v) = store m k v"
begin

lemma load_store_same [simp]: "load (store m k v) k = v"
  by (simp add: load_store)

lemma load_store_other [simp]: "k' \<noteq> k \<Longrightarrow> load (store m k v) k' = load m k'"
  by (simp add: load_store)

lemma load_swap [simp]: "load (snd (swap m k v)) k' = (if k' = k then v else load m k')"
  by (simp add: swap_store load_store)

end

interpretation typed_map: keyed_store "Map_Load zero" Map_Store "Map_LoadAndStore zero"
  by unfold_locales (simp_all add: Map_Load_def Map_Store_def Map_LoadAndStore_def)

section \<open>The three L1 heads\<close>

datatype BlockTag = Latest | Safe | Finalized

type_synonym EthState = "(BlockTag, BlockID) syncmap"

definition NewEthState :: EthState where
  "NewEthState = Map.empty"

abbreviation load_head :: "EthState \<Rightarrow> BlockTag \<Rightarrow> BlockID" where
  "load_head \<equiv> Map_Load EmptyBlockID"

definition Head :: "EthState \<Rightarrow> BlockID" where "Head s = load_head s Latest"
definition SafeHead :: "EthState \<Rightarrow> BlockID" where "SafeHead s = load_head s Safe"
definition FinalizedHead :: "EthState \<Rightarrow> BlockID" where "FinalizedHead s = load_head s Finalized"

definition Tips :: "EthState \<Rightarrow> BlockID \<times> BlockID \<times> BlockID" where
  "Tips s = (Head s, SafeHead s, FinalizedHead s)"

definition OnLatest :: "EthState \<Rightarrow> Header \<Rightarrow> unit outcome \<times> EthState" where
  "OnLatest s header = (Ok (), snd (Map_LoadAndStore EmptyBlockID s Latest (NewBlockIDFromHeader header)))"

definition OnSafe :: "EthState \<Rightarrow> Header \<Rightarrow> unit outcome \<times> EthState" where
  "OnSafe s header =
     (let prev = SafeHead s; number = (word_of_int (h_Number header) :: uint64) in
      if number < id_Number prev then (Ok (), s)
      else if number = id_Number prev \<and> h_Hash header \<noteq> id_Hash prev
      then (Err (NewError ''received two safe headers for block_num''), s)
      else (Ok (), Map_Store s Safe (NewBlockIDFromHeader header)))"

definition OnFinalized :: "EthState \<Rightarrow> Header \<Rightarrow> unit outcome \<times> EthState" where
  "OnFinalized s header =
     (let prev = FinalizedHead s; number = (word_of_int (h_Number header) :: uint64) in
      if number < id_Number prev then (Ok (), s)
      else if number = id_Number prev \<and> h_Hash header \<noteq> id_Hash prev
      then (Err (NewError ''received two finalized headers for block_num''), s)
      else (Ok (), Map_Store s Finalized (NewBlockIDFromHeader header)))"

section \<open>Callbacks in any order\<close>

fun on_header :: "EthState \<Rightarrow> BlockTag \<times> Header \<Rightarrow> EthState" where
  "on_header s (Latest, h) = snd (OnLatest s h)"
| "on_header s (Safe, h) = snd (OnSafe s h)"
| "on_header s (Finalized, h) = snd (OnFinalized s h)"

lemmas head_defs = Head_def SafeHead_def FinalizedHead_def OnLatest_def OnSafe_def OnFinalized_def

lemma on_header_safe_mono: "id_Number (SafeHead s) \<le> id_Number (SafeHead (on_header s th))"
  by (cases "(s, th)" rule: on_header.cases) (auto simp: head_defs Let_def)

lemma on_header_final_mono: "id_Number (FinalizedHead s) \<le> id_Number (FinalizedHead (on_header s th))"
  by (cases "(s, th)" rule: on_header.cases) (auto simp: head_defs Let_def)

interpretation safe_head: monotone_component on_header "\<lambda>s. id_Number (SafeHead s)"
  by unfold_locales (rule on_header_safe_mono)

interpretation final_head: monotone_component on_header "\<lambda>s. id_Number (FinalizedHead s)"
  by unfold_locales (rule on_header_final_mono)

text \<open>
  Over any sequence of header callbacks the safe and the finalized block numbers never
  decrease.
\<close>

theorem heads_never_regress:
  "id_Number (SafeHead s) \<le> id_Number (SafeHead (foldl on_header s ths)) \<and>
   id_Number (FinalizedHead s) \<le> id_Number (FinalizedHead (foldl on_header s ths))"
  using safe_head.run_mono final_head.run_mono by blast

text \<open>The header a sequence of callbacks leaves under \<open>Latest\<close> is the last one received.\<close>

lemma on_header_head:
  "Head (on_header s th) = (if fst th = Latest then NewBlockIDFromHeader (snd th) else Head s)"
  by (cases "(s, th)" rule: on_header.cases) (auto simp: head_defs Let_def)

text \<open>One callback, per commitment level.\<close>

lemma on_header_safe:
  "SafeHead (on_header s th) =
     (if fst th = Safe \<and> (id_Number (SafeHead s) < word_of_int (h_Number (snd th)) \<or>
          NewBlockIDFromHeader (snd th) = SafeHead s)
      then NewBlockIDFromHeader (snd th) else SafeHead s)"
  by (cases "(s, th)" rule: on_header.cases)
    (auto simp: head_defs Let_def NewBlockIDFromHeader_def NewBlockID_def)

text \<open>
  Once a block is recorded as safe it is replaced by a block of a larger number only: two
  conflicting safe headers of one height are reported as an error and the first one is kept, over
  any sequence of callbacks.
\<close>

theorem safe_head_conflict_rejected:
  assumes "id_Number (SafeHead (foldl on_header s ths)) = id_Number (SafeHead s)"
  shows "SafeHead (foldl on_header s ths) = SafeHead s \<and>
    (\<forall>h. (word_of_int (h_Number h) :: uint64) = id_Number (SafeHead s) \<and> h_Hash h \<noteq> id_Hash (SafeHead s) \<longrightarrow>
       (\<exists>e. OnSafe (foldl on_header s ths) h = (Err e, foldl on_header s ths)))"
proof -
  have "SafeHead (foldl on_header s ths) = SafeHead s"
    using assms
  proof (induction ths arbitrary: s)
    case Nil
    then show ?case by simp
  next
    case (Cons th ths)
    let ?s = "on_header s th"
    have "id_Number (SafeHead s) \<le> id_Number (SafeHead ?s)" by (rule on_header_safe_mono)
    moreover have "id_Number (SafeHead ?s) \<le> id_Number (SafeHead (foldl on_header ?s ths))"
      by (rule safe_head.run_mono)
    ultimately have eq: "id_Number (SafeHead ?s) = id_Number (SafeHead s)"
      using Cons.prems by simp
    then have "SafeHead ?s = SafeHead s"
      using on_header_safe [of s th] by (auto split: if_splits)
    with Cons.IH [of ?s] Cons.prems show ?case by simp
  qed
  then show ?thesis by (auto simp: OnSafe_def Let_def)
qed

definition demo_header :: "big \<Rightarrow> hash \<Rightarrow> Header" where
  "demo_header n h = \<lparr>h_Number = n, h_Hash = h, h_ParentHash = 0\<rparr>"

definition demo_eth :: EthState where
  "demo_eth = on_header NewEthState (Safe, demo_header 5 1)"

theorem safe_head_conflict_rejected_witness:
  "id_Hash (SafeHead (foldl on_header demo_eth [(Safe, demo_header 5 2), (Latest, demo_header 9 3)])) = 1 \<and>
   (\<exists>e. OnSafe (foldl on_header demo_eth [(Safe, demo_header 5 2), (Latest, demo_header 9 3)]) (demo_header 5 4) =
     (Err e, foldl on_header demo_eth [(Safe, demo_header 5 2), (Latest, demo_header 9 3)]))"
proof -
  have n: "id_Number (SafeHead (foldl on_header demo_eth [(Safe, demo_header 5 2), (Latest, demo_header 9 3)])) = id_Number (SafeHead demo_eth)"
    and s: "SafeHead demo_eth = \<lparr>id_Number = 5, id_Hash = 1\<rparr>"
    by (simp_all add: demo_eth_def demo_header_def head_defs NewEthState_def Map_Load_def Map_Store_def EmptyBlockID_def
        Let_def Map_LoadAndStore_def NewBlockIDFromHeader_def)
  from safe_head_conflict_rejected [OF n] show ?thesis
    unfolding s by (auto simp: demo_header_def dest: spec [of _ "demo_header 5 4"])
qed

end
