(* ===== verification/Batch_Builder.thy ===== *)
theory Batch_Builder
  imports Batch_Encoder Bridge Eth_State
begin

text \<open>
  \<^verbatim>\<open>rollup/derivation/batch_builder.go\<close>: the queue of L2 blocks in front of an encoder. The encoder is
  reached through the interface \<open>VersionedDataEncoder\<close>: a record of its three methods, and the
  locale \<open>versioned_encoder\<close> of the laws the builder's correctness rests on, interpreted on the V0
  encoder. Oracle transactions are read with \<open>UnpackL1OracleInput\<close> of the bridge.
\<close>

section \<open>The encoder interface\<close>

record 'e VersionedDataEncoder =
  enc_GetBatch :: "bool \<Rightarrow> 'e \<Rightarrow> bytes outcome \<times> 'e"
  enc_ProcessBlock :: "L2Block \<Rightarrow> bool \<Rightarrow> 'e \<Rightarrow> unit outcome \<times> 'e"
  enc_Reset :: "'e \<Rightarrow> 'e"

definition V0_methods :: "codec \<Rightarrow> BatchV0Encoder VersionedDataEncoder" where
  "V0_methods lib = \<lparr>enc_GetBatch = GetBatch_V0 lib, enc_ProcessBlock = ProcessBlock_V0 lib, enc_Reset = Reset_V0\<rparr>"

section \<open>State\<close>

record derivationConfig =
  L1OracleAddr :: address
  SeqWindowSize :: uint64
  SubSafetyMargin :: uint64

record 'e batchBuilder =
  bb_cfg :: derivationConfig
  encoder :: 'e
  pendingBlocks :: "L2Block list"
  lastEnqueued :: BlockID
  lastBuilt :: "bytes option"
  timeout :: uint64

definition NewBatchBuilder :: "derivationConfig \<Rightarrow> 'e \<Rightarrow> 'e batchBuilder" where
  "NewBatchBuilder conf e =
     \<lparr>bb_cfg = conf, encoder = e, pendingBlocks = [], lastEnqueued = EmptyBlockID, lastBuilt = None, timeout = 0\<rparr>"

abbreviation io_EOF :: string where "io_EOF \<equiv> ''EOF''"

definition InvalidBlockError :: "string \<Rightarrow> go_error" where
  "InvalidBlockError m = Typed False ''InvalidBlockError'' m None"

section \<open>Operations\<close>

definition LastEnqueued :: "'e batchBuilder \<Rightarrow> BlockID" where
  "LastEnqueued b = lastEnqueued b"

definition Enqueue :: "L2Block \<Rightarrow> 'e batchBuilder \<Rightarrow> unit outcome \<times> 'e batchBuilder" where
  "Enqueue block b =
     (if id_Hash (lastEnqueued b) \<noteq> 0 \<and> block_ParentHash block \<noteq> id_Hash (lastEnqueued b)
      then (Err (InvalidBlockError ''Appended block is not a child of the last appended block''), b)
      else (Ok (), b\<lparr>pendingBlocks := pendingBlocks b @ [block],
                     lastEnqueued := NewBlockID (block_NumberU64 block) (block_Hash block)\<rparr>))"

definition Reset :: "'e VersionedDataEncoder \<Rightarrow> BlockID \<Rightarrow> 'e batchBuilder \<Rightarrow> 'e batchBuilder" where
  "Reset ops checkpoint b =
     b\<lparr>encoder := enc_Reset ops (encoder b), pendingBlocks := [], lastEnqueued := checkpoint, lastBuilt := None\<rparr>"

definition Advance :: "'e batchBuilder \<Rightarrow> 'e batchBuilder" where
  "Advance b = b\<lparr>lastBuilt := None\<rparr>"

definition updateTimeout :: "uint64 \<Rightarrow> 'e batchBuilder \<Rightarrow> 'e batchBuilder" where
  "updateTimeout epoch b =
     (let t = epoch + SeqWindowSize (bb_cfg b) - SubSafetyMargin (bb_cfg b)
      in if timeout b = 0 \<or> timeout b > t then b\<lparr>timeout := t\<rparr> else b)"

text \<open>The oracle part of \<open>processBlock\<close>: the epoch it finds (0 for none) and the new timeout.\<close>

definition processOracle :: "bridgeSerializationUtil \<Rightarrow> L2Block \<Rightarrow> 'e batchBuilder \<Rightarrow> uint64 outcome \<times> 'e batchBuilder" where
  "processOracle u block b =
     (case block_Transactions block of
        [] \<Rightarrow> (Ok 0, b)
      | firstTx # _ \<Rightarrow>
          (case l2tx_To firstTx of
             None \<Rightarrow> (Panic ''nil pointer dereference'', b)
           | Some to \<Rightarrow>
               if to = L1OracleAddr (bb_cfg b)
               then (case UnpackL1OracleInput u (l2tx_Data firstTx) of
                       Err e \<Rightarrow> (Err (Wrapped ''could not unpack oracle tx'' e), b)
                     | Panic p \<Rightarrow> (Panic p, b)
                     | Ok (epoch, _) \<Rightarrow> (Ok epoch, updateTimeout epoch b))
               else (Ok 0, b)))"

definition processBlock ::
    "'e VersionedDataEncoder \<Rightarrow> bridgeSerializationUtil \<Rightarrow> L2Block \<Rightarrow> 'e batchBuilder \<Rightarrow> unit outcome \<times> 'e batchBuilder" where
  "processBlock ops u block b =
     (case processOracle u block b of
        (Err e, b1) \<Rightarrow> (Err e, b1)
      | (Panic p, b1) \<Rightarrow> (Panic p, b1)
      | (Ok epoch, b1) \<Rightarrow>
          (case enc_ProcessBlock ops block (epoch \<noteq> 0) (encoder b1) of (r, e') \<Rightarrow> (r, b1\<lparr>encoder := e'\<rparr>)))"

text \<open>The loop of \<open>encodePending\<close>, over the blocks that were pending when it started.\<close>

fun encode_loop ::
    "'e VersionedDataEncoder \<Rightarrow> bridgeSerializationUtil \<Rightarrow> L2Block list \<Rightarrow> nat \<Rightarrow> 'e batchBuilder \<Rightarrow>
     nat outcome \<times> 'e batchBuilder" where
  "encode_loop ops u [] numProcessed b = (Ok numProcessed, b)"
| "encode_loop ops u (block # rest) numProcessed b =
     (case processBlock ops u block b of
        (Ok _, b1) \<Rightarrow> encode_loop ops u rest (numProcessed + 1) b1
      | (Err e, b1) \<Rightarrow>
          if errors_Is e errBatchFull then (Ok numProcessed, b1)
          else (Err (Wrapped ''failed to process block'' e), b1)
      | (Panic p, b1) \<Rightarrow> (Panic p, b1))"

definition encodePending ::
    "'e VersionedDataEncoder \<Rightarrow> bridgeSerializationUtil \<Rightarrow> 'e batchBuilder \<Rightarrow> unit outcome \<times> 'e batchBuilder" where
  "encodePending ops u b =
     (if length (pendingBlocks b) = 0 then (Err (Sentinel io_EOF), b)
      else case encode_loop ops u (pendingBlocks b) 0 b of
             (Ok numProcessed, b1) \<Rightarrow> (Ok (), b1\<lparr>pendingBlocks := drop numProcessed (pendingBlocks b1)\<rparr>)
           | (Err e, b1) \<Rightarrow> (Err e, b1)
           | (Panic p, b1) \<Rightarrow> (Panic p, b1))"

definition getBatch :: "'e VersionedDataEncoder \<Rightarrow> BlockID \<Rightarrow> 'e batchBuilder \<Rightarrow> bytes outcome \<times> 'e batchBuilder" where
  "getBatch ops l1Head b =
     (let force = (timeout b \<noteq> 0 \<and> timeout b \<le> id_Number l1Head)
      in case enc_GetBatch ops force (encoder b) of
           (Ok batch, e') \<Rightarrow> (Ok batch, b\<lparr>encoder := e', lastBuilt := Some batch\<rparr>)
         | (Err e, e') \<Rightarrow>
             (if errors_Is e errBatchTooSmall then Err (Sentinel io_EOF) else Err (Wrapped ''failed to get batch'' e),
              b\<lparr>encoder := e'\<rparr>)
         | (Panic p, e') \<Rightarrow> (Panic p, b\<lparr>encoder := e'\<rparr>))"

definition Build ::
    "'e VersionedDataEncoder \<Rightarrow> bridgeSerializationUtil \<Rightarrow> BlockID \<Rightarrow> 'e batchBuilder \<Rightarrow> bytes outcome \<times> 'e batchBuilder" where
  "Build ops u l1Head b =
     (case lastBuilt b of
        Some batch \<Rightarrow> (Ok batch, b)
      | None \<Rightarrow>
          (case encodePending ops u b of
             (Err e, b1) \<Rightarrow> (Err (Wrapped ''failed to encode pending blocks into a new batch'' e), b1)
           | (Panic p, b1) \<Rightarrow> (Panic p, b1)
           | (Ok _, b1) \<Rightarrow> getBatch ops l1Head b1))"

section \<open>What each operation touches\<close>

lemma updateTimeout_frame [simp]:
  "encoder (updateTimeout t b) = encoder b" "pendingBlocks (updateTimeout t b) = pendingBlocks b"
  "lastEnqueued (updateTimeout t b) = lastEnqueued b" "lastBuilt (updateTimeout t b) = lastBuilt b"
  "bb_cfg (updateTimeout t b) = bb_cfg b"
  by (simp_all add: updateTimeout_def Let_def)

lemma processOracle_frame:
  assumes "processOracle u block b = (r, b1)"
  shows "encoder b1 = encoder b \<and> pendingBlocks b1 = pendingBlocks b \<and> lastEnqueued b1 = lastEnqueued b \<and>
    lastBuilt b1 = lastBuilt b \<and> bb_cfg b1 = bb_cfg b"
  using assms by (auto simp: processOracle_def split: list.splits option.splits if_splits outcome.splits)

lemma processBlock_frame:
  assumes "processBlock ops u block b = (r, b1)"
  shows "pendingBlocks b1 = pendingBlocks b \<and> lastEnqueued b1 = lastEnqueued b \<and> lastBuilt b1 = lastBuilt b \<and>
    bb_cfg b1 = bb_cfg b"
  using assms processOracle_frame [of u block b]
  by (fastforce simp: processBlock_def split: prod.splits outcome.splits)

lemma encode_loop_frame:
  assumes "encode_loop ops u bs k b = (r, b1)"
  shows "pendingBlocks b1 = pendingBlocks b \<and> lastEnqueued b1 = lastEnqueued b \<and> lastBuilt b1 = lastBuilt b \<and>
    bb_cfg b1 = bb_cfg b"
  using assms
proof (induction bs arbitrary: k b)
  case Nil
  then show ?case by simp
next
  case (Cons block rest)
  obtain r' b' where pb: "processBlock ops u block b = (r', b')" by fastforce
  then show ?case
    using Cons processBlock_frame [OF pb] by (cases r') (auto split: if_splits)
qed

lemma encodePending_frame:
  assumes "encodePending ops u b = (r, b1)"
  shows "(\<exists>k. pendingBlocks b1 = drop k (pendingBlocks b)) \<and> lastEnqueued b1 = lastEnqueued b \<and>
    lastBuilt b1 = lastBuilt b \<and> bb_cfg b1 = bb_cfg b"
proof (cases "pendingBlocks b = []")
  case True
  then show ?thesis using assms by (auto simp: encodePending_def)
next
  case False
  obtain r' b' where el: "encode_loop ops u (pendingBlocks b) 0 b = (r', b')" by fastforce
  then show ?thesis
    using assms False encode_loop_frame [OF el]
    by (cases r') (auto simp: encodePending_def el intro: exI [of _ 0])
qed

lemma getBatch_frame:
  assumes "getBatch ops l1Head b = (r, b1)"
  shows "pendingBlocks b1 = pendingBlocks b \<and> lastEnqueued b1 = lastEnqueued b \<and> bb_cfg b1 = bb_cfg b \<and>
    timeout b1 = timeout b"
  using assms by (auto simp: getBatch_def Let_def split: prod.splits outcome.splits)

lemma Build_frame:
  assumes "Build ops u l1Head b = (r, b1)"
  shows "(\<exists>k. pendingBlocks b1 = drop k (pendingBlocks b)) \<and> lastEnqueued b1 = lastEnqueued b \<and> bb_cfg b1 = bb_cfg b"
proof (cases "lastBuilt b")
  case (Some x)
  then have "pendingBlocks b1 = drop 0 (pendingBlocks b)" "lastEnqueued b1 = lastEnqueued b" "bb_cfg b1 = bb_cfg b"
    using assms by (auto simp: Build_def)
  then show ?thesis by blast
next
  case None
  obtain r' b' where ep: "encodePending ops u b = (r', b')" by fastforce
  then show ?thesis
    using assms None encodePending_frame [OF ep] getBatch_frame [of ops l1Head b' r b1]
    by (cases r') (auto simp: Build_def)
qed

section \<open>The queue holds a chain\<close>

datatype builder_call = CallEnqueue L2Block | CallReset BlockID | CallBuild BlockID | CallAdvance

fun builder_after ::
    "'e VersionedDataEncoder \<Rightarrow> bridgeSerializationUtil \<Rightarrow> 'e batchBuilder \<Rightarrow> builder_call \<Rightarrow> 'e batchBuilder" where
  "builder_after ops u b (CallEnqueue block) = snd (Enqueue block b)"
| "builder_after ops u b (CallReset checkpoint) = Reset ops checkpoint b"
| "builder_after ops u b (CallBuild l1Head) = snd (Build ops u l1Head b)"
| "builder_after ops u b CallAdvance = Advance b"

fun linked :: "L2Block list \<Rightarrow> bool" where
  "linked (x # y # r) = ((block_Hash x = 0 \<or> block_ParentHash y = block_Hash x) \<and> linked (y # r))"
| "linked _ = True"

definition block_id :: "L2Block \<Rightarrow> BlockID" where
  "block_id x = NewBlockID (block_NumberU64 x) (block_Hash x)"

definition builder_inv :: "'e batchBuilder \<Rightarrow> bool" where
  "builder_inv b \<longleftrightarrow> linked (pendingBlocks b) \<and>
     (pendingBlocks b = [] \<or> lastEnqueued b = block_id (last (pendingBlocks b)))"

lemma linked_tl: "linked xs \<Longrightarrow> linked (tl xs)"
  by (induction xs rule: linked.induct) auto

lemma linked_drop: "linked xs \<Longrightarrow> linked (drop k xs)"
  by (induction k arbitrary: xs) (simp_all add: drop_Suc linked_tl)

lemma linked_snoc:
  "linked (xs @ [y]) \<longleftrightarrow> linked xs \<and> (xs = [] \<or> block_Hash (last xs) = 0 \<or> block_ParentHash y = block_Hash (last xs))"
  by (induction xs rule: linked.induct) auto

lemma builder_inv_Enqueue: "builder_inv b \<Longrightarrow> builder_inv (snd (Enqueue block b))"
  by (auto simp: builder_inv_def Enqueue_def linked_snoc block_id_def)

lemma builder_inv_Build: "builder_inv b \<Longrightarrow> builder_inv (snd (Build ops u l1Head b))"
proof -
  assume inv: "builder_inv b"
  obtain r b1 where B: "Build ops u l1Head b = (r, b1)" by fastforce
  from Build_frame [OF B] obtain k where "pendingBlocks b1 = drop k (pendingBlocks b)" "lastEnqueued b1 = lastEnqueued b"
    by blast
  then show ?thesis
    using inv B by (cases "k < length (pendingBlocks b)") (auto simp: builder_inv_def linked_drop)
qed

lemmas builder_inv_calls [inv_preserve] = builder_inv_Enqueue builder_inv_Build

interpretation builder_queue: event_component "builder_after ops u" builder_inv
  for ops :: "'e VersionedDataEncoder" and u
proof unfold_locales
  fix b :: "'e batchBuilder" and c
  assume "builder_inv b"
  then show "builder_inv (builder_after ops u b c)"
    by (cases c) (auto simp: inv_preserve, auto simp: builder_inv_def Reset_def Advance_def)
qed

text \<open>
  C20: the pending queue is always a chain of parent hashes ending in the block \<open>LastEnqueued\<close>
  reports, whatever sequence of \<open>Enqueue\<close>, \<open>Build\<close>, \<open>Advance\<close> and \<open>Reset\<close> calls was made and
  whatever the encoder does.
\<close>

theorem pending_blocks_form_chain:
  "let b = foldl (builder_after ops u) (NewBatchBuilder conf e) calls
   in linked (pendingBlocks b) \<and> (pendingBlocks b = [] \<or> LastEnqueued b = block_id (last (pendingBlocks b)))"
  using builder_queue.run_inv [of "NewBatchBuilder conf e" ops u calls]
  by (simp add: builder_inv_def NewBatchBuilder_def LastEnqueued_def Let_def)

text \<open>
  \<open>Build\<close> hands out the same batch, without touching the queue, until \<open>Advance\<close> or \<open>Reset\<close>,
  whatever blocks are enqueued and whatever L1 head it is given in between.
\<close>

lemma lastBuilt_Enqueue [simp]: "lastBuilt (snd (Enqueue block b)) = lastBuilt b"
  by (simp add: Enqueue_def)

theorem Build_is_stable:
  assumes "Build ops u l1Head b = (Ok batch, b1)"
    and "\<forall>c \<in> set calls. case c of CallEnqueue _ \<Rightarrow> True | CallBuild _ \<Rightarrow> True | CallReset _ \<Rightarrow> False | CallAdvance \<Rightarrow> False"
    and "b2 = foldl (builder_after ops u) b1 calls"
  shows "Build ops u l1Head' b2 = (Ok batch, b2) \<and> encoder b2 = encoder b1"
proof -
  have "lastBuilt b1 = Some batch"
    using assms(1) by (auto simp: Build_def getBatch_def Let_def split: option.splits prod.splits outcome.splits if_splits)
  then have "lastBuilt b2 = Some batch \<and> encoder b2 = encoder b1"
    using assms(2) unfolding assms(3)
  proof (induction calls arbitrary: b1)
    case Nil
    then show ?case by simp
  next
    case (Cons c cs)
    have "lastBuilt (builder_after ops u b1 c) = Some batch \<and> encoder (builder_after ops u b1 c) = encoder b1"
      using Cons.prems by (cases c) (auto simp: Build_def Enqueue_def)
    then show ?case using Cons.IH Cons.prems(2) by simp
  qed
  then show ?thesis by (simp add: Build_def)
qed

section \<open>The contract of an encoder\<close>

text \<open>
  What the builder relies on: \<open>content\<close> is the sequence of marshalled blocks the encoder holds, and
  \<open>raw\<close> what it makes of a block. \<open>ProcessBlock\<close> adds the block exactly when it returns no error,
  \<open>GetBatch\<close> keeps what is held, \<open>Reset\<close> drops it.
\<close>

locale versioned_encoder =
  fixes ops :: "'e VersionedDataEncoder"
    and ready :: "'e \<Rightarrow> bool"
    and content :: "'e \<Rightarrow> rawTxBlock list"
    and raw :: "L2Block \<Rightarrow> rawTxBlock list"
  assumes process_ready: "ready e \<Longrightarrow> enc_ProcessBlock ops blk ep e = (r, e') \<Longrightarrow> ready e'"
    and process_Ok: "ready e \<Longrightarrow> enc_ProcessBlock ops blk ep e = (Ok (), e') \<Longrightarrow> content e' = content e @ raw blk"
    and process_fail: "ready e \<Longrightarrow> enc_ProcessBlock ops blk ep e = (r, e') \<Longrightarrow> r \<noteq> Ok () \<Longrightarrow> content e' = content e"
    and get_ready: "ready e \<Longrightarrow> enc_GetBatch ops force e = (r', e') \<Longrightarrow> ready e' \<and> content e' = content e"
    and reset_ready: "ready (enc_Reset ops e)" and reset_content: "content (enc_Reset ops e) = []"
begin

definition ledger :: "'e batchBuilder \<Rightarrow> rawTxBlock list" where
  "ledger b = content (encoder b) @ concat (map raw (pendingBlocks b))"

lemma processBlock_content:
  assumes "ready (encoder b)" "processBlock ops u blk b = (r, b1)"
  shows "ready (encoder b1) \<and> content (encoder b1) = content (encoder b) @ (if r = Ok () then raw blk else [])"
proof -
  obtain ro bo where po: "processOracle u blk b = (ro, bo)" by fastforce
  have eo: "encoder bo = encoder b" using processOracle_frame [OF po] by simp
  show ?thesis
  proof (cases ro)
    case (Ok epoch)
    obtain r' e' where pe: "enc_ProcessBlock ops blk (epoch \<noteq> 0) (encoder b) = (r', e')" by fastforce
    have "b1 = bo\<lparr>encoder := e'\<rparr>" "r = r'" using assms(2) Ok po pe eo by (auto simp: processBlock_def)
    then show ?thesis
      using process_ready [OF assms(1) pe] process_Ok [OF assms(1)] process_fail [OF assms(1) pe] pe by auto
  qed (use assms po eo in \<open>auto simp: processBlock_def\<close>)
qed

lemma encode_loop_content:
  assumes "ready (encoder b)" "encode_loop ops u bs n b = (r, b1)"
  shows "\<exists>k \<le> length bs. ready (encoder b1) \<and> content (encoder b1) = content (encoder b) @ concat (map raw (take k bs)) \<and>
    (r = Ok (n + k) \<or> (k < length bs \<and> \<not> is_Ok r))"
  using assms
proof (induction bs arbitrary: n b)
  case Nil
  then show ?case by auto
next
  case (Cons blk bs)
  obtain r' b' where pb: "processBlock ops u blk b = (r', b')" by fastforce
  note pc = processBlock_content [OF Cons.prems(1) pb]
  show ?case
  proof (cases "r' = Ok ()")
    case True
    then have "encode_loop ops u bs (n + 1) b' = (r, b1)" using Cons.prems(2) pb by simp
    then obtain k where "k \<le> length bs" "ready (encoder b1)"
      "content (encoder b1) = content (encoder b') @ concat (map raw (take k bs))"
      "r = Ok (n + 1 + k) \<or> (k < length bs \<and> \<not> is_Ok r)"
      using Cons.IH [of b' "n + 1"] pc by blast
    then show ?thesis using pc True by (intro exI [of _ "Suc k"]) auto
  next
    case False
    then have "b1 = b' \<and> (r = Ok n \<or> \<not> is_Ok r)"
      using Cons.prems(2) pb by (cases r') (auto split: if_splits)
    then show ?thesis using pc False by (intro exI [of _ 0]) auto
  qed
qed

lemma encodePending_Ok:
  assumes "ready (encoder b)" "encodePending ops u b = (Ok (), b1)"
  shows "ready (encoder b1) \<and> ledger b1 = ledger b"
proof -
  obtain r b' where el: "encode_loop ops u (pendingBlocks b) 0 b = (r, b')" by fastforce
  obtain k where k: "r = Ok k" and b1: "b1 = b'\<lparr>pendingBlocks := drop k (pendingBlocks b')\<rparr>"
    using assms(2) by (auto simp: encodePending_def el split: if_splits outcome.splits)
  have "ready (encoder b')" "content (encoder b') = content (encoder b) @ concat (map raw (take k (pendingBlocks b)))"
    using encode_loop_content [OF assms(1) el] k by auto
  moreover have "concat (map raw (take k xs)) @ concat (map raw (drop k xs)) = concat (map raw xs)" for xs
    by (metis append_take_drop_id concat_append map_append)
  ultimately show ?thesis
    using encode_loop_frame [OF el] by (simp add: b1 ledger_def)
qed

lemma encodePending_fails:
  assumes "ready (encoder b)" "encodePending ops u b = (r, b1)" "\<not> is_Ok r" "pendingBlocks b \<noteq> []"
  shows "\<exists>k < length (pendingBlocks b). ready (encoder b1) \<and> pendingBlocks b1 = pendingBlocks b \<and>
    content (encoder b1) = content (encoder b) @ concat (map raw (take k (pendingBlocks b)))"
proof -
  obtain r' b' where el: "encode_loop ops u (pendingBlocks b) 0 b = (r', b')" by fastforce
  then have "b1 = b'" "\<not> is_Ok r'"
    using assms(2-4) by (cases r'; auto simp: encodePending_def)+
  then show ?thesis
    using encode_loop_content [OF assms(1) el] encode_loop_frame [OF el] by auto
qed

lemma Build_ledger:
  assumes "ready (encoder b)" "Build ops u l1Head b = (r, b1)"
    "lastBuilt b \<noteq> None \<or> pendingBlocks b = [] \<or> fst (encodePending ops u b) = Ok ()"
  shows "ready (encoder b1) \<and> ledger b1 = ledger b"
proof (cases "lastBuilt b = None \<and> pendingBlocks b \<noteq> []")
  case True
  then obtain b' where ep: "encodePending ops u b = (Ok (), b')" using assms(3) by (metis prod.collapse)
  obtain rg e' where g: "enc_GetBatch ops (timeout b' \<noteq> 0 \<and> timeout b' \<le> id_Number l1Head) (encoder b') = (rg, e')"
    by fastforce
  have "encoder b1 = e'" "pendingBlocks b1 = pendingBlocks b'"
    using assms(2) True ep g by (cases rg; auto simp: Build_def getBatch_def Let_def)+
  then show ?thesis
    using encodePending_Ok [OF assms(1) ep] get_ready [OF _ g] by (auto simp: ledger_def)
next
  case False
  then have "b1 = b" using assms(2) by (cases "lastBuilt b") (auto simp: Build_def encodePending_def)
  then show ?thesis using assms(1) by simp
qed

lemma Enqueue_ledger:
  "ledger (snd (Enqueue blk b)) = (if is_Ok (fst (Enqueue blk b)) then ledger b @ raw blk else ledger b)"
  by (auto simp: Enqueue_def ledger_def)

end

section \<open>The V0 encoder meets the contract\<close>

definition V0_ready :: "BatchV0Encoder \<Rightarrow> bool" where
  "V0_ready e \<longleftrightarrow> subBatches e \<noteq> []"

definition V0_content :: "BatchV0Encoder \<Rightarrow> rawTxBlock list" where
  "V0_content e = concat (map txBlocks (subBatches e))"

definition V0_raw :: "codec \<Rightarrow> L2Block \<Rightarrow> rawTxBlock list" where
  "V0_raw lib b = map snd (accepted lib b)"

lemma map_snd_number_from [simp]: "map snd (number_from n xs) = xs"
  by (induction xs arbitrary: n) auto

lemma V0_content_derived: "V0_content e = map snd (derived e)"
  by (simp add: V0_content_def derived_def map_concat comp_def sub_derived_def)

lemma closeSubBatch_V0:
  assumes "V0_ready e" "closeSubBatch lib e = Ok e1"
  shows "V0_ready e1 \<and> V0_content e1 = V0_content e"
  using assms by (auto simp: V0_ready_def V0_content_def op_defs split: if_splits)

lemma appendTxBlock_V0:
  assumes "appendTxBlock lib n txs s = (r, s')"
  shows "txBlocks s' = txBlocks s @ (if r = Ok () then (case marshallTxs lib txs of Ok (raw, k) \<Rightarrow> [raw] | _ \<Rightarrow> []) else [])"
  using assms by (auto simp: appendTxBlock_def Let_def split: outcome.splits prod.splits if_splits)

lemma ProcessBlock_V0_content:
  assumes "V0_ready e" "ProcessBlock_V0 lib b ep e = (r, e')"
  shows "V0_ready e' \<and> V0_content e' = V0_content e @ (if r = Ok () then V0_raw lib b else [])"
proof -
  define c where "c \<longleftrightarrow> enc_TargetBatchSize e < runningLen e + size_sub lib (last (subBatches e))"
  define cs where "cs \<longleftrightarrow> c \<or> block_Transactions b = [] \<or> ep"
  have "\<exists>e1. (if cs then closeSubBatch lib e else Ok e) = Ok e1"
    using assms(1) by (simp add: op_defs V0_ready_def)
  then obtain e1 where e1: "(if cs then closeSubBatch lib e else Ok e) = Ok e1" ..
  then have k: "V0_ready e1" "V0_content e1 = V0_content e"
    using closeSubBatch_V0 [OF assms(1), of lib e1] assms(1) by (auto split: if_splits)
  obtain ra s' where ap: "appendTxBlock lib (block_NumberU64 b) (block_Transactions b) (last (subBatches e1)) = (ra, s')"
    by fastforce
  have res: "(r, e') = (if c then (Err (Sentinel errBatchFull), e1) else if block_Transactions b = [] then (Ok (), e1)
      else (wrap_err ''could not append block of txs'' ra, set_currSubBatch s' e1))"
    using assms ap e1 k(1)
    by (auto simp: ProcessBlock_V0_def shouldCloseBatch_def currSubBatch_def c_def cs_def Let_def V0_ready_def split: if_splits)
  have "V0_content (set_currSubBatch s' e1) =
      V0_content e1 @ (if ra = Ok () then (case marshallTxs lib (block_Transactions b) of Ok (raw, k) \<Rightarrow> [raw] | _ \<Rightarrow> []) else [])"
    using k(1) appendTxBlock_V0 [OF ap] by (simp add: V0_content_def V0_ready_def set_currSubBatch_def append_last_split)
  moreover have "V0_ready (set_currSubBatch s' e1)" by (simp add: V0_ready_def set_currSubBatch_def)
  ultimately show ?thesis
    using res k by (cases ra) (auto simp: V0_raw_def accepted_def split: if_splits outcome.splits prod.splits)
qed

lemma GetBatch_V0_content:
  assumes "V0_ready e" "GetBatch_V0 lib force e = (r, e')"
  shows "V0_ready e' \<and> V0_content e' = V0_content e"
proof -
  obtain c where "shouldCloseBatch lib e = Ok c" using assms(1) by (auto simp: V0_ready_def op_defs)
  then show ?thesis
    using assms closeSubBatch_V0 [OF assms(1), of lib]
    by (auto simp: GetBatch_V0_def Let_def bind_out_def split: outcome.splits if_splits)
qed

interpretation v0: versioned_encoder "V0_methods lib" V0_ready V0_content "V0_raw lib" for lib
proof unfold_locales
  fix e blk ep r e'
  assume e: "V0_ready e" and pb: "enc_ProcessBlock (V0_methods lib) blk ep e = (r, e')"
  then have "ProcessBlock_V0 lib blk ep e = (r, e')" by (simp add: V0_methods_def)
  note pc = ProcessBlock_V0_content [OF e this]
  show "V0_ready e'" using pc by simp
  show "V0_content e' = V0_content e" if "r \<noteq> Ok ()" using pc that by simp
next
  fix e blk ep e'
  assume e: "V0_ready e" and pb: "enc_ProcessBlock (V0_methods lib) blk ep e = (Ok (), e')"
  then have "ProcessBlock_V0 lib blk ep e = (Ok (), e')" by (simp add: V0_methods_def)
  from ProcessBlock_V0_content [OF e this] show "V0_content e' = V0_content e @ V0_raw lib blk" by simp
next
  fix e force e' and r' :: "bytes outcome"
  assume "V0_ready e" "enc_GetBatch (V0_methods lib) force e = (r', e')"
  then show "V0_ready e' \<and> V0_content e' = V0_content e"
    using GetBatch_V0_content by (simp add: V0_methods_def)
next
  fix e
  show "V0_ready (enc_Reset (V0_methods lib) e)" "V0_content (enc_Reset (V0_methods lib) e) = []"
    by (simp_all add: V0_methods_def Reset_V0_def V0_ready_def V0_content_def)
qed

section \<open>Properties of the builder over the V0 encoder\<close>

text \<open>
  No block is lost or duplicated by \<open>Build\<close>. Unless a block fails to be processed, the blocks
  held by the encoder followed by those still pending are the same sequence before and after, whatever
  \<open>Build\<close> returns: a batch, the end-of-file of an empty queue, or the end-of-file of a batch too
  small to send.
\<close>

theorem Build_conserves_blocks:
  assumes "subBatches (encoder b) \<noteq> []" "Build (V0_methods lib) u l1Head b = (r, b1)"
    "lastBuilt b \<noteq> None \<or> pendingBlocks b = [] \<or> fst (encodePending (V0_methods lib) u b) = Ok ()"
  shows "V0_content (encoder b1) @ concat (map (V0_raw lib) (pendingBlocks b1)) =
    V0_content (encoder b) @ concat (map (V0_raw lib) (pendingBlocks b))"
  using v0.Build_ledger [OF _ assms(2,3)] assms(1) by (simp add: V0_ready_def v0.ledger_def)

text \<open>
  When a block fails to be processed, the blocks before it have been encoded but stay in the
  queue: the encoder has grown by a proper prefix of the pending blocks and the queue is the same, so
  the next \<open>Build\<close> encodes that prefix again.
\<close>

theorem failed_Build_keeps_encoded_blocks:
  assumes "subBatches (encoder b) \<noteq> []" "pendingBlocks b \<noteq> []"
    "encodePending (V0_methods lib) u b = (Err e, b1)"
  shows "\<exists>k < length (pendingBlocks b). pendingBlocks b1 = pendingBlocks b \<and>
    V0_content (encoder b1) = V0_content (encoder b) @ concat (map (V0_raw lib) (take k (pendingBlocks b)))"
  using v0.encodePending_fails [OF _ assms(3) _ assms(2)] assms(1) by (auto simp: V0_ready_def)

text \<open>A block whose first transaction, if any, is neither a contract creation nor an oracle call.\<close>

definition plain_block :: "derivationConfig \<Rightarrow> L2Block \<Rightarrow> bool" where
  "plain_block conf x \<longleftrightarrow>
     (case block_Transactions x of
        [] \<Rightarrow> True
      | tx # _ \<Rightarrow> (case l2tx_To tx of None \<Rightarrow> False | Some a \<Rightarrow> a \<noteq> L1OracleAddr conf))"

lemma processOracle_plain: "plain_block (bb_cfg b) x \<Longrightarrow> processOracle u x b = (Ok 0, b)"
  by (auto simp: plain_block_def processOracle_def split: list.splits option.splits)

lemma full_encodePending:
  assumes lib: "rlp_list_header lib" and full: "enc_full (Suc k) (encoder b)"
    and p: "pendingBlocks b = x # xs" "plain_block (bb_cfg b) x"
  shows "\<exists>e'. encodePending (V0_methods lib) u b = (Ok (), b\<lparr>encoder := e'\<rparr>) \<and> enc_full k e' \<and>
    V0_content e' = V0_content (encoder b)"
proof -
  note c = enc_full_closes [OF lib full]
  define e' where "e' = (encoder b)\<lparr>runningLen := runningLen (encoder b) + 1, subBatches := subBatches (encoder b) @ [newSubBatch]\<rparr>"
  have "ProcessBlock_V0 lib x False (encoder b) = (Err (Sentinel errBatchFull), e')"
    using c by (simp add: ProcessBlock_V0_def Let_def e'_def)
  then have "processBlock (V0_methods lib) u x b = (Err (Sentinel errBatchFull), b\<lparr>encoder := e'\<rparr>)"
    by (simp add: processBlock_def processOracle_plain p V0_methods_def)
  then have "encodePending (V0_methods lib) u b = (Ok (), b\<lparr>encoder := e'\<rparr>)"
    using p(1) by (simp add: encodePending_def)
  moreover have "V0_content e' = V0_content (encoder b)" by (simp add: e'_def V0_content_def)
  ultimately show ?thesis using c(3) by (auto simp: e'_def)
qed

lemma full_GetBatch:
  assumes lib: "rlp_list_header lib" and full: "enc_full (Suc k) e" and enc: "\<forall>sbs. is_Ok (rlp_Encode lib (map subBatch_fields sbs))"
  shows "\<exists>d e'. GetBatch_V0 lib force e = (Ok d, e') \<and> enc_full k e' \<and> V0_content e' = V0_content e"
proof -
  note c = enc_full_closes [OF lib full]
  have s: "currSubBatch e = Ok newSubBatch" "\<not> runningLen e < enc_TargetBatchSize e"
    using full by (auto simp: enc_full_def currSubBatch_def)
  obtain d where "rlp_Encode lib (map subBatch_fields (subBatches e)) = Ok d"
    using enc by (metis is_Ok_conv)
  then show ?thesis
    using c s by (auto simp: GetBatch_V0_def Let_def V0_content_def)
qed

text \<open>One round of the disseminator on the builder: \<open>Build\<close>, send the batch, \<open>Advance\<close>.\<close>

definition send_round :: "'e VersionedDataEncoder \<Rightarrow> bridgeSerializationUtil \<Rightarrow> BlockID \<Rightarrow> 'e batchBuilder \<Rightarrow> 'e batchBuilder" where
  "send_round ops u l1Head b = Advance (snd (Build ops u l1Head b))"

definition builder_stuck :: "nat \<Rightarrow> L2Block list \<Rightarrow> rawTxBlock list \<Rightarrow> BatchV0Encoder batchBuilder \<Rightarrow> bool" where
  "builder_stuck k blocks held b \<longleftrightarrow> enc_full k (encoder b) \<and> pendingBlocks b = blocks \<and>
     blocks \<noteq> [] \<and> plain_block (bb_cfg b) (hd blocks) \<and> V0_content (encoder b) = held"

lemma builder_stuck_round:
  assumes lib: "rlp_list_header lib" and enc: "\<forall>sbs. is_Ok (rlp_Encode lib (map subBatch_fields sbs))"
    and st: "builder_stuck (Suc (Suc k)) blocks held b"
  shows "is_Ok (fst (Build (V0_methods lib) u l1Head b)) \<and> builder_stuck k blocks held (send_round (V0_methods lib) u l1Head b)"
proof (cases "lastBuilt b")
  case (Some d)
  then have "Build (V0_methods lib) u l1Head b = (Ok d, b)" by (simp add: Build_def)
  then show ?thesis using st by (auto simp: builder_stuck_def send_round_def Advance_def enc_full_mono)
next
  case None
  obtain x xs where bl: "pendingBlocks b = x # xs" "plain_block (bb_cfg b) x" "enc_full (Suc (Suc k)) (encoder b)"
    using st by (cases blocks) (auto simp: builder_stuck_def)
  obtain e1 where e1: "encodePending (V0_methods lib) u b = (Ok (), b\<lparr>encoder := e1\<rparr>)" "enc_full (Suc k) e1"
    "V0_content e1 = V0_content (encoder b)"
    using full_encodePending [OF lib bl(3,1,2)] by blast
  obtain d e2 where e2: "GetBatch_V0 lib (timeout b \<noteq> 0 \<and> timeout b \<le> id_Number l1Head) e1 = (Ok d, e2)" "enc_full k e2"
    "V0_content e2 = V0_content e1"
    using full_GetBatch [OF lib e1(2) enc] by blast
  have "Build (V0_methods lib) u l1Head b = (Ok d, b\<lparr>encoder := e2, lastBuilt := Some d\<rparr>)"
    using None e1(1) e2(1) by (simp add: Build_def getBatch_def V0_methods_def)
  then show ?thesis
    using st e1(3) e2(2,3) by (auto simp: builder_stuck_def send_round_def Advance_def)
qed

lemma builder_stuck_rounds:
  assumes "rlp_list_header lib" "\<forall>sbs. is_Ok (rlp_Encode lib (map subBatch_fields sbs))"
    and "builder_stuck (2 * length heads + 2) blocks held b"
  shows "builder_stuck 2 blocks held (foldl (\<lambda>b l1Head. send_round (V0_methods lib) u l1Head b) b heads)"
  using assms(3)
proof (induction heads arbitrary: b)
  case (Cons l1Head heads)
  then have "builder_stuck (Suc (Suc (2 * length heads + 2))) blocks held b" by simp
  from builder_stuck_round [OF assms(1,2) this] Cons.IH show ?case by simp
qed (simp add: numeral_2_eq_2)

text \<open>
  C3: after the encoder has filled up, the builder never moves on. Let the first pending block be plain: empty, or with a first transaction that
  is neither a contract creation nor an oracle call; let the RLP encoder not fail on a batch and give a list a header of one byte at least; and let the encoder's
  64-bit length have room for two more bytes per round. Then round after round of \<open>Build\<close> and \<open>Advance\<close>, at whatever L1 heads, \<open>Build\<close> succeeds in handing out a batch, the
  encoder holds the same blocks and the pending queue stays as it is: the caller's loop is not ended by the end-of-file it waits for.
\<close>

theorem full_builder_repeats_batch:
  assumes "rlp_list_header lib" "\<forall>sbs. is_Ok (rlp_Encode lib (map subBatch_fields sbs))"
    and "enc_full (2 * length heads + 2) (encoder b)" "pendingBlocks b = x # xs" "plain_block (bb_cfg b) x"
    and "b' = foldl (\<lambda>b l1Head. send_round (V0_methods lib) u l1Head b) b heads"
  shows "is_Ok (fst (Build (V0_methods lib) u l1Head b')) \<and> pendingBlocks b' = pendingBlocks b \<and>
    V0_content (encoder b') = V0_content (encoder b)"
proof -
  have "builder_stuck (2 * length heads + 2) (x # xs) (V0_content (encoder b)) b"
    using assms by (simp add: builder_stuck_def)
  then have "builder_stuck 2 (x # xs) (V0_content (encoder b)) b'"
    unfolding assms(6) by (rule builder_stuck_rounds [OF assms(1,2)])
  moreover from this have "builder_stuck (Suc (Suc 0)) (x # xs) (V0_content (encoder b)) b'" by (simp add: numeral_2_eq_2)
  ultimately show ?thesis
    using builder_stuck_round [OF assms(1,2), of 0 "x # xs" _ b' u l1Head] assms(4) by (auto simp: builder_stuck_def)
qed

definition demo_conf :: derivationConfig where
  "demo_conf = \<lparr>L1OracleAddr = 99, SeqWindowSize = 10, SubSafetyMargin = 2\<rparr>"

definition demo_builder :: "BatchV0Encoder batchBuilder" where
  "demo_builder = \<lparr>bb_cfg = demo_conf, encoder = NewBatchV0Encoder 4,
     pendingBlocks = [demo_block 5 [demo_l2tx 1], demo_block 6 [demo_l2tx 2], demo_block 7 [demo_l2tx 3]],
     lastEnqueued = NewBlockID 7 7, lastBuilt = None, timeout = 0\<rparr>"

text \<open>The target of 4 bytes is passed by the first two blocks: \<open>Build\<close> leaves the third pending.\<close>

definition demo_built :: "BatchV0Encoder batchBuilder" where
  "demo_built = snd (Build (V0_methods demo_codec) demo_util EmptyBlockID demo_builder)"

theorem Build_conserves_blocks_witness:
  "V0_content (encoder demo_built) @ concat (map (V0_raw demo_codec) (pendingBlocks demo_built)) = [[[1, 1]], [[2, 2]], [[3, 3]]]"
proof -
  have "subBatches (encoder demo_builder) \<noteq> []" by code_simp
  moreover have "fst (encodePending (V0_methods demo_codec) demo_util demo_builder) = Ok ()" by code_simp
  moreover have "Build (V0_methods demo_codec) demo_util EmptyBlockID demo_builder =
      (fst (Build (V0_methods demo_codec) demo_util EmptyBlockID demo_builder), demo_built)" by (simp add: demo_built_def)
  moreover have "V0_content (encoder demo_builder) @ concat (map (V0_raw demo_codec) (pendingBlocks demo_builder)) =
      [[[1, 1]], [[2, 2]], [[3, 3]]]" by code_simp
  ultimately show ?thesis using Build_conserves_blocks by metis
qed

theorem Build_is_stable_witness:
  "fst (Build (V0_methods demo_codec) demo_util (NewBlockID 1000 1)
      (snd (Enqueue (demo_block 8 []) demo_built))) = Ok [0, 0xC2, 0xC0, 0xC0]"
proof -
  have "Build (V0_methods demo_codec) demo_util EmptyBlockID demo_builder = (Ok [0, 0xC2, 0xC0, 0xC0], demo_built)" by code_simp
  note s = Build_is_stable [OF this _ refl, where calls = "[CallEnqueue (demo_block 8 [])]" and l1Head' = "NewBlockID 1000 1"]
  have "Build (V0_methods demo_codec) demo_util (NewBlockID 1000 1) (snd (Enqueue (demo_block 8 []) demo_built)) =
      (Ok [0, 0xC2, 0xC0, 0xC0], snd (Enqueue (demo_block 8 []) demo_built))"
    using s by (simp only: foldl.simps builder_after.simps list.set ball_simps builder_call.case ball_empty simp_thms)
  then show ?thesis by (simp only: fst_conv)
qed

text \<open>An oracle transaction in the second block, and a coder that refuses it.\<close>

definition demo_oracle_block :: L2Block where
  "demo_oracle_block = demo_block 6 [\<lparr>l2tx_To = Some 99, l2tx_Data = [1, 2, 3, 4, 5], l2tx_Hash = 0\<rparr>]"

definition demo_bad_util :: bridgeSerializationUtil where
  "demo_bad_util = demo_util\<lparr>l1OracleAbi := (l1OracleAbi demo_util)\<lparr>abi_Unpack := (\<lambda>n d. Err (NewError ''abi''))\<rparr>\<rparr>"

definition demo_bad_builder :: "BatchV0Encoder batchBuilder" where
  "demo_bad_builder = \<lparr>bb_cfg = demo_conf, encoder = NewBatchV0Encoder 40,
     pendingBlocks = [demo_block 5 [demo_l2tx 1], demo_oracle_block], lastEnqueued = NewBlockID 6 6, lastBuilt = None, timeout = 0\<rparr>"

theorem failed_Build_keeps_encoded_blocks_witness:
  "\<exists>b1. snd (encodePending (V0_methods demo_codec) demo_bad_util demo_bad_builder) = b1 \<and>
     pendingBlocks b1 = pendingBlocks demo_bad_builder \<and> V0_content (encoder b1) = [[[1, 1]]]"
proof -
  have ne: "subBatches (encoder demo_bad_builder) \<noteq> []" "pendingBlocks demo_bad_builder \<noteq> []" by code_simp+
  have p: "fst (encodePending (V0_methods demo_codec) demo_bad_util demo_bad_builder) =
      Err (Wrapped ''failed to process block'' (Wrapped ''could not unpack oracle tx'' (NewError ''abi'')))"
    by code_simp
  have v: "V0_content (encoder (snd (encodePending (V0_methods demo_codec) demo_bad_util demo_bad_builder))) = [[[1, 1]]]"
    by code_simp
  show ?thesis
    using failed_Build_keeps_encoded_blocks [OF ne, of demo_codec demo_bad_util] p v by (metis prod.collapse)
qed

definition demo_stuck :: "BatchV0Encoder batchBuilder" where
  "demo_stuck = \<lparr>bb_cfg = demo_conf, encoder = demo_full, pendingBlocks = [demo_block 6 [demo_l2tx 2]],
     lastEnqueued = NewBlockID 6 6, lastBuilt = None, timeout = 0\<rparr>"

theorem full_builder_repeats_batch_witness:
  "is_Ok (fst (Build (V0_methods demo_codec) demo_util EmptyBlockID
      (foldl (\<lambda>b l1Head. send_round (V0_methods demo_codec) demo_util l1Head b) demo_stuck (replicate 1000000 (NewBlockID 9 9))))) \<and>
   pendingBlocks (foldl (\<lambda>b l1Head. send_round (V0_methods demo_codec) demo_util l1Head b) demo_stuck (replicate 1000000 (NewBlockID 9 9))) =
     [demo_block 6 [demo_l2tx 2]]"
proof -
  have enc: "\<forall>sbs. is_Ok (rlp_Encode demo_codec (map subBatch_fields sbs))"
    unfolding demo_codec_def codec.select_convs by (simp add: list_all_iff)
  have "unat (runningLen demo_full) = 4" "subBatches demo_full \<noteq> []" "last (subBatches demo_full) = newSubBatch"
    "enc_TargetBatchSize demo_full < runningLen demo_full" by code_simp+
  then have full: "enc_full (2 * length (replicate 1000000 (NewBlockID 9 9)) + 2) (encoder demo_stuck)"
    unfolding length_replicate by (simp add: enc_full_def demo_stuck_def)
  have pl: "plain_block (bb_cfg demo_stuck) (demo_block 6 [demo_l2tx 2])" by code_simp
  have p: "pendingBlocks demo_stuck = [demo_block 6 [demo_l2tx 2]]" by (simp add: demo_stuck_def)
  from full_builder_repeats_batch [OF demo_header enc full p pl refl] p show ?thesis by simp
qed

end
