(* ===== verification/Disseminator.thy ===== *)
theory Disseminator
  imports Batch_Builder "HOL-Library.While_Combinator"
begin

text \<open>
  \<^verbatim>\<open>rollup/services/disseminator/batch_disseminator.go\<close>: the service that pulls L2 blocks into the batch
  builder and sends batches to L1. It reaches the builder through the interface \<open>BatchBuilder\<close> (a
  record of methods; the laws it relies on are the locale \<open>batch_source\<close>, interpreted on
  \<open>batchBuilder\<close>), and the L2 client, the transaction manager, the L1 head and the context through
  calls on a world \<open>'w\<close>. Its two unbounded loops are \<open>while_option\<close>: \<open>None\<close> is not returning.
\<close>

section \<open>Interfaces\<close>

record 'b BatchBuilder =
  dis_Enqueue :: "L2Block \<Rightarrow> 'b \<Rightarrow> unit outcome \<times> 'b"
  dis_LastEnqueued :: "'b \<Rightarrow> BlockID"
  dis_Build :: "BlockID \<Rightarrow> 'b \<Rightarrow> bytes outcome \<times> 'b"
  dis_Advance :: "'b \<Rightarrow> 'b"
  dis_Reset :: "BlockID \<Rightarrow> 'b \<Rightarrow> 'b"

definition batchBuilder_methods :: "'e VersionedDataEncoder \<Rightarrow> bridgeSerializationUtil \<Rightarrow> 'e batchBuilder BatchBuilder" where
  "batchBuilder_methods ops u =
     \<lparr>dis_Enqueue = Enqueue, dis_LastEnqueued = LastEnqueued, dis_Build = Build ops u, dis_Advance = Advance,
      dis_Reset = Reset ops\<rparr>"

record 'w L2Client =
  l2_EnsureDialed :: "('w, unit) call"
  l2_BlockNumber :: "('w, uint64) call"
  l2_BlockByNumber :: "uint64 \<Rightarrow> ('w, L2Block) call"
  l2_HeaderByTag :: "BlockTag \<Rightarrow> ('w, Header) call"

record ('b, 'w) BatchDisseminator =
  batchBuilder_ops :: "'b BatchBuilder"
  l1TxMgr_AppendTxBatch :: "bytes \<Rightarrow> ('w, Receipt) call"
  l1State_Head :: "'w \<Rightarrow> BlockID"
  l2Client :: "'w L2Client"
  ctx_Done :: "'w \<Rightarrow> bool"

definition NewBatchDisseminator ::
    "'b BatchBuilder \<Rightarrow> (bytes \<Rightarrow> ('w, Receipt) call) \<Rightarrow> ('w \<Rightarrow> BlockID) \<Rightarrow> 'w L2Client \<Rightarrow> ('w \<Rightarrow> bool) \<Rightarrow> ('b, 'w) BatchDisseminator" where
  "NewBatchDisseminator builder appendTxBatch head client ctxDone =
     \<lparr>batchBuilder_ops = builder, l1TxMgr_AppendTxBatch = appendTxBatch, l1State_Head = head, l2Client = client, ctx_Done = ctxDone\<rparr>"

definition unexpectedSystemStateError :: "bool \<Rightarrow> string \<Rightarrow> go_error" where
  "unexpectedSystemStateError ptr m =
     Typed ptr ''unexpectedSystemStateError'' (''service entered unexpected state: '' @ m) None"

definition L2ReorgDetectedError :: "go_error \<Rightarrow> go_error" where
  "L2ReorgDetectedError e = Typed False ''L2ReorgDetectedError'' (error_msg e) None"

section \<open>Operations\<close>

definition rollback :: "('b, 'w) BatchDisseminator \<Rightarrow> ('b \<times> 'w, unit) call" where
  "rollback d =
     bind_call (wrap_call ''failed to get last safe header'' (lift_call (l2_HeaderByTag (l2Client d) Safe)))
       (\<lambda>head (b, w). (Ok (), (dis_Reset (batchBuilder_ops d) (NewBlockIDFromHeader head) b, w)))"

definition pendingL2BlockRange :: "('b, 'w) BatchDisseminator \<Rightarrow> 'b \<Rightarrow> ('w, uint64 \<times> uint64) call" where
  "pendingL2BlockRange d b =
     (let lastEnq = dis_LastEnqueued (batchBuilder_ops d) b in
      bind_call (wrap_call ''failed to get l2 safe header'' (l2_HeaderByTag (l2Client d) Safe)) (\<lambda>safe.
      bind_call
        (if lastEnq = EmptyBlockID then ret_call (word_of_int (h_Number safe) + 1)
         else if (word_of_int (h_Number safe) :: uint64) > id_Number lastEnq
         then fail_call (unexpectedSystemStateError True ''Safe header exceeds last appended header'')
         else ret_call (id_Number lastEnq + 1)) (\<lambda>start.
      bind_call (wrap_call ''failed to get most recent l2 block number'' (l2_BlockNumber (l2Client d))) (\<lambda>end'.
      ret_call (start, end')))))"

text \<open>One pass of the loop of \<open>appendToBuilder\<close>.\<close>

definition append_block :: "('b, 'w) BatchDisseminator \<Rightarrow> uint64 \<Rightarrow> ('b \<times> 'w, unit) call" where
  "append_block d i =
     bind_call (wrap_call ''failed to get block'' (lift_call (l2_BlockByNumber (l2Client d) i)))
       (\<lambda>block (b, w).
          case dis_Enqueue (batchBuilder_ops d) block b of
            (Ok _, b') \<Rightarrow> (Ok (), (b', w))
          | (Panic p, b') \<Rightarrow> (Panic p, (b', w))
          | (Err e, b') \<Rightarrow>
              if errors_As e False ''InvalidBlockError'' then (Err (L2ReorgDetectedError e), (b', w))
              else (Err (Wrapped (''failed to enqueue block (num='' @ show_nat (unat i) @ '')'') e), (b', w)))"

type_synonym ('b, 'w) append_state = "uint64 \<times> unit outcome option \<times> 'b \<times> 'w"

fun append_cond :: "uint64 \<Rightarrow> ('b, 'w) append_state \<Rightarrow> bool" where
  "append_cond end' (i, res, st) = (res = None \<and> i \<le> end')"

fun append_body :: "('b, 'w) BatchDisseminator \<Rightarrow> ('b, 'w) append_state \<Rightarrow> ('b, 'w) append_state" where
  "append_body d (i, res, st) =
     (case append_block d i st of
        (Ok _, st') \<Rightarrow> (i + 1, None, st')
      | (Err e, st') \<Rightarrow> (i, Some (Err e), st')
      | (Panic p, st') \<Rightarrow> (i, Some (Panic p), st'))"

fun append_result :: "('b, 'w) append_state \<Rightarrow> unit outcome \<times> 'b \<times> 'w" where
  "append_result (i, res, st) = (case res of None \<Rightarrow> Ok () | Some r \<Rightarrow> r, st)"

definition appendToBuilder :: "('b, 'w) BatchDisseminator \<Rightarrow> 'b \<times> 'w \<Rightarrow> (unit outcome \<times> 'b \<times> 'w) option" where
  "appendToBuilder d st =
     (case wrap_call ''failed to get l2 block number'' (pendingL2BlockRange d (fst st)) (snd st) of
        (Err e, w) \<Rightarrow> Some (Err e, (fst st, w))
      | (Panic p, w) \<Rightarrow> Some (Panic p, (fst st, w))
      | (Ok (start, end'), w) \<Rightarrow>
          if start > end' then Some (Ok (), (fst st, w))
          else map_option append_result (while_option (append_cond end') (append_body d) (start, None, (fst st, w))))"

definition disseminateBatch :: "('b, 'w) BatchDisseminator \<Rightarrow> ('b \<times> 'w, unit) call" where
  "disseminateBatch d st =
     (case dis_Build (batchBuilder_ops d) (l1State_Head d (snd st)) (fst st) of
        (Err e, b1) \<Rightarrow> (Err (Wrapped ''failed to build batch'' e), (b1, snd st))
      | (Panic p, b1) \<Rightarrow> (Panic p, (b1, snd st))
      | (Ok data, b1) \<Rightarrow>
          (case l1TxMgr_AppendTxBatch d data (snd st) of
             (Err e, w1) \<Rightarrow> (Err (Wrapped ''failed to send batch transaction'' e), (b1, w1))
           | (Panic p, w1) \<Rightarrow> (Panic p, (b1, w1))
           | (Ok receipt, w1) \<Rightarrow> (Ok (), (dis_Advance (batchBuilder_ops d) b1, w1))))"

fun batches_cond :: "unit outcome option \<times> 'b \<times> 'w \<Rightarrow> bool" where
  "batches_cond (res, st) = (res = None)"

fun batches_body :: "('b, 'w) BatchDisseminator \<Rightarrow> unit outcome option \<times> 'b \<times> 'w \<Rightarrow> unit outcome option \<times> 'b \<times> 'w" where
  "batches_body d (res, st) =
     (if ctx_Done d (snd st) then (Some (Ok ()), st)
      else case disseminateBatch d st of
             (Ok _, st') \<Rightarrow> (None, st')
           | (Panic p, st') \<Rightarrow> (Some (Panic p), st')
           | (Err e, st') \<Rightarrow>
               if errors_Is e io_EOF then (Some (Ok ()), st')
               else (Some (Err (Wrapped ''failed to sequence batch'' e)), st'))"

definition disseminateBatches :: "('b, 'w) BatchDisseminator \<Rightarrow> 'b \<times> 'w \<Rightarrow> (unit outcome \<times> 'b \<times> 'w) option" where
  "disseminateBatches d st =
     map_option (\<lambda>(res, st'). (case res of None \<Rightarrow> Ok () | Some r \<Rightarrow> r, st'))
       (while_option batches_cond (batches_body d) (None, st))"

definition step :: "('b, 'w) BatchDisseminator \<Rightarrow> 'b \<times> 'w \<Rightarrow> (unit outcome \<times> 'b \<times> 'w) option" where
  "step d st =
     (case appendToBuilder d st of
        None \<Rightarrow> None
      | Some (Panic p, st1) \<Rightarrow> Some (Panic p, st1)
      | Some (Err e, st1) \<Rightarrow>
          (case (if errors_As e False ''L2ReorgDetectedError'' then rollback d st1 else (Ok (), st1)) of
             (Panic p, st2) \<Rightarrow> Some (Panic p, st2)
           | (Ok _, st2) \<Rightarrow> Some (Err (Wrapped ''failed to append to batch builder'' e), st2)
           | (Err _, st2) \<Rightarrow> Some (Err (Wrapped ''failed to append to batch builder'' e), st2))
      | Some (Ok _, st1) \<Rightarrow>
          map_option (\<lambda>(r, st2). (wrap_err ''failed to sequence batches'' r, st2)) (disseminateBatches d st1))"

text \<open>
  \<open>start\<close> over the events its \<open>select\<close> receives: \<open>Running\<close> when the events end first, \<open>Returned\<close>
  when it returns. A panic ends it too. The validator's loop is the same function.
\<close>

datatype service_event = Tick | CtxDone

datatype 's service = Running 's | Returned "unit outcome" 's

fun service_loop :: "('s \<Rightarrow> (unit outcome \<times> 's) option) \<Rightarrow> service_event list \<Rightarrow> 's \<Rightarrow> 's service option" where
  "service_loop stp [] st = Some (Running st)"
| "service_loop stp (CtxDone # evs) st = Some (Returned (Ok ()) st)"
| "service_loop stp (Tick # evs) st =
     (case stp st of
        None \<Rightarrow> None
      | Some (Ok _, st1) \<Rightarrow> service_loop stp evs st1
      | Some (Panic p, st1) \<Rightarrow> Some (Returned (Panic p) st1)
      | Some (Err e, st1) \<Rightarrow>
          if errors_As e False ''unexpectedSystemStateError'' then Some (Returned (Err (Wrapped ''aborting'' e)) st1)
          else service_loop stp evs st1)"

definition start :: "('b, 'w) BatchDisseminator \<Rightarrow> service_event list \<Rightarrow> 'b \<times> 'w \<Rightarrow> ('b \<times> 'w) service option" where
  "start d evs st =
     (case rollback d st of
        (Panic p, st1) \<Rightarrow> Some (Returned (Panic p) st1)
      | (Ok _, st1) \<Rightarrow> service_loop (step d) evs st1
      | (Err e, st1) \<Rightarrow> service_loop (step d) evs st1)"

definition Start :: "('b, 'w) BatchDisseminator \<Rightarrow> ('b \<times> 'w, unit) call" where
  "Start d = wrap_call ''failed to create L2 client'' (lift_call (l2_EnsureDialed (l2Client d)))"

section \<open>The contract of a batch builder\<close>

locale batch_source =
  fixes ops :: "'b BatchBuilder"
    and pending :: "'b \<Rightarrow> L2Block list"
  assumes enqueue_Ok: "dis_Enqueue ops blk b = (Ok (), b') \<Longrightarrow>
      pending b' = pending b @ [blk] \<and> dis_LastEnqueued ops b' = block_id blk"
    and enqueue_fail: "dis_Enqueue ops blk b = (r, b') \<Longrightarrow> r \<noteq> Ok () \<Longrightarrow> b' = b"
    and build_stable: "dis_Build ops h b = (Ok batch, b') \<Longrightarrow> dis_Build ops h' b' = (Ok batch, b')"
    and reset_last: "dis_LastEnqueued ops (dis_Reset ops i b) = i" and reset_pending: "pending (dis_Reset ops i b) = []"

text \<open>The blocks a client returns for the numbers from \<open>i\<close> on, asked one after the other.\<close>

fun fetched :: "'w L2Client \<Rightarrow> uint64 \<Rightarrow> L2Block list \<Rightarrow> 'w \<Rightarrow> 'w \<Rightarrow> bool" where
  "fetched c i [] w w' = (w' = w)"
| "fetched c i (x # xs) w w' =
     (case l2_BlockByNumber c i w of
        (Ok y, w1) \<Rightarrow> y = x \<and> fetched c (i + 1) xs w1 w'
      | (Err _, w1) \<Rightarrow> False
      | (Panic _, w1) \<Rightarrow> False)"

context batch_source
begin

lemma append_block_Ok:
  assumes "batchBuilder_ops d = ops" "append_block d i (b, w) = (Ok (), (b', w'))"
  obtains blk where "l2_BlockByNumber (l2Client d) i w = (Ok blk, w')" "pending b' = pending b @ [blk]"
    "dis_LastEnqueued ops b' = block_id blk"
proof -
  obtain blk w1 r b1 where "l2_BlockByNumber (l2Client d) i w = (Ok blk, w1)" "dis_Enqueue ops blk b = (r, b1)"
    using assms by (auto simp: append_block_def) (metis prod.exhaust)
  then show thesis
    using assms that enqueue_Ok [of blk b b1]
    by (cases r) (auto simp: append_block_def split: if_splits)
qed

lemma append_block_fails:
  assumes "batchBuilder_ops d = ops" "append_block d i (b, w) = (r, (b', w'))" "r \<noteq> Ok ()"
  shows "b' = b"
proof -
  obtain rb w1 where f: "l2_BlockByNumber (l2Client d) i w = (rb, w1)" by fastforce
  show ?thesis
  proof (cases rb)
    case (Ok blk)
    obtain re b1 where e: "dis_Enqueue ops blk b = (re, b1)" by fastforce
    then show ?thesis
      using assms f Ok enqueue_fail [OF e]
      by (cases re) (auto simp: append_block_def bind_call_def wrap_call_def lift_call_def split: if_splits)
  qed (use assms f in \<open>auto simp: append_block_def bind_call_def wrap_call_def lift_call_def\<close>)
qed

text \<open>
  The loop from number \<open>i\<close>, with \<open>n\<close> numbers to go: it ends after all of them, or in the first one whose pass fails.
\<close>

lemma append_loop:
  assumes "batchBuilder_ops d = ops" "end' \<noteq> - 1" "unat end' + 1 - unat i = n"
  shows "\<exists>j res b' w' w2 blocks.
    while_option (append_cond end') (append_body d) (i, None, (b, w)) = Some (j, res, (b', w')) \<and>
    pending b' = pending b @ blocks \<and> fetched (l2Client d) i blocks w w2 \<and>
    dis_LastEnqueued ops b' = (if blocks = [] then dis_LastEnqueued ops b else block_id (last blocks)) \<and>
    (case res of None \<Rightarrow> length blocks = n \<and> w' = w2
     | Some r \<Rightarrow> length blocks < n \<and> r \<noteq> Ok () \<and> append_block d (i + of_nat (length blocks)) (b', w2) = (r, (b', w')))"
  using assms(3)
proof (induction n arbitrary: i b w)
  case 0
  then have "\<not> i \<le> end'" by (simp add: word_le_nat_alt)
  then have "while_option (append_cond end') (append_body d) (i, None, (b, w)) = Some (i, None, (b, w))"
    by (subst while_option_unfold) simp
  then show ?case by (intro exI [of _ i] exI [of _ None] exI [of _ b] exI [of _ w] exI [of _ w] exI [of _ "[]"]) simp
next
  case (Suc n)
  then have le: "i \<le> end'" by (simp add: word_le_nat_alt)
  have "unat end' \<noteq> unat (- 1 :: uint64)" using assms(2) by (metis word_unat_eq_iff)
  then have "unat i + 1 < 2 ^ 64"
    using le unsigned_less [of end', where ?'a = nat]
    by (simp add: unsigned_minus_1_eq_mask mask_eq_exp_minus_1 word_le_nat_alt)
  then have u: "unat (i + 1) = unat i + 1" using unat_add_no_wrap [of i 1] by simp
  obtain r b1 w1 where ab: "append_block d i (b, w) = (r, (b1, w1))" by (metis prod.exhaust)
  have unf: "while_option (append_cond end') (append_body d) (i, None, (b, w)) =
      while_option (append_cond end') (append_body d) (append_body d (i, None, (b, w)))"
    using le by (subst while_option_unfold) simp
  show ?case
  proof (cases "r = Ok ()")
    case True
    obtain blk where blk: "l2_BlockByNumber (l2Client d) i w = (Ok blk, w1)" "pending b1 = pending b @ [blk]"
      "dis_LastEnqueued ops b1 = block_id blk"
      using append_block_Ok [OF assms(1)] ab True by metis
    have "unat end' + 1 - unat (i + 1) = n" using Suc.prems u by simp
    from Suc.IH [OF this, of b1 w1] obtain j res b' w' w2 blocks where IH:
      "while_option (append_cond end') (append_body d) (i + 1, None, (b1, w1)) = Some (j, res, (b', w'))"
      "pending b' = pending b1 @ blocks" "fetched (l2Client d) (i + 1) blocks w1 w2"
      "dis_LastEnqueued ops b' = (if blocks = [] then dis_LastEnqueued ops b1 else block_id (last blocks))"
      "case res of None \<Rightarrow> length blocks = n \<and> w' = w2
       | Some r \<Rightarrow> length blocks < n \<and> r \<noteq> Ok () \<and> append_block d (i + 1 + of_nat (length blocks)) (b', w2) = (r, (b', w'))" by blast
    show ?thesis
      using IH blk unf ab True
      by (intro exI [of _ j] exI [of _ res] exI [of _ b'] exI [of _ w'] exI [of _ w2] exI [of _ "blk # blocks"])
        (auto simp: add.assoc split: option.splits)
  next
    case False
    have b1: "b1 = b" by (rule append_block_fails [OF assms(1) ab False])
    then have "append_body d (i, None, (b, w)) = (i, Some r, (b, w1))" using ab False by (cases r) auto
    then have "while_option (append_cond end') (append_body d) (i, None, (b, w)) = Some (i, Some r, (b, w1))"
      using unf by (simp add: while_option_unfold [of _ _ "(i, Some r, _)"])
    then show ?thesis
      using False ab b1 by (intro exI [of _ i] exI [of _ "Some r"] exI [of _ b] exI [of _ w1] exI [of _ w] exI [of _ "[]"]) simp
  qed
qed

end

interpretation builder_source: batch_source "batchBuilder_methods ops u" pendingBlocks for ops u
proof unfold_locales
  fix blk r h batch h' i and b b' :: "'a batchBuilder"
  show "pendingBlocks b' = pendingBlocks b @ [blk] \<and> dis_LastEnqueued (batchBuilder_methods ops u) b' = block_id blk"
    if "dis_Enqueue (batchBuilder_methods ops u) blk b = (Ok (), b')"
    using that by (auto simp: batchBuilder_methods_def Enqueue_def LastEnqueued_def block_id_def split: if_splits)
  show "b' = b" if "dis_Enqueue (batchBuilder_methods ops u) blk b = (r, b')" "r \<noteq> Ok ()"
    using that by (auto simp: batchBuilder_methods_def Enqueue_def split: if_splits)
  show "dis_Build (batchBuilder_methods ops u) h' b' = (Ok batch, b')"
    if "dis_Build (batchBuilder_methods ops u) h b = (Ok batch, b')"
    using that
    by (auto simp: batchBuilder_methods_def Build_def getBatch_def Let_def split: option.splits prod.splits outcome.splits if_splits)
  show "dis_LastEnqueued (batchBuilder_methods ops u) (dis_Reset (batchBuilder_methods ops u) i b) = i"
    "pendingBlocks (dis_Reset (batchBuilder_methods ops u) i b) = []"
    by (simp_all add: batchBuilder_methods_def LastEnqueued_def Reset_def)
qed

section \<open>Properties\<close>

text \<open>
  C36: \<open>appendToBuilder\<close> returns, and what it appends to the queue is what the client returned for the numbers from \<open>start\<close> on, asked one after
  the other, whether it ends with an error or not. Without an error these are all the numbers up to \<open>end\<close>, none when \<open>start\<close> is past it;
  with an error it stopped at the first number whose block could not be fetched or was refused by \<open>Enqueue\<close>, and returned the error of that pass. The
  block enqueued last is the last one appended. This holds for every \<open>end\<close> but the largest \<open>uint64\<close>, at which the loop's counter would wrap.
\<close>

theorem appendToBuilder_fetches_range:
  assumes "batchBuilder_ops d = batchBuilder_methods ops u" "pendingL2BlockRange d b w = (Ok (s, e), w1)" "e \<noteq> - 1"
  shows "\<exists>r b' w' w2 blocks. appendToBuilder d (b, w) = Some (r, (b', w')) \<and>
    pendingBlocks b' = pendingBlocks b @ blocks \<and> fetched (l2Client d) s blocks w1 w2 \<and>
    LastEnqueued b' = (if blocks = [] then LastEnqueued b else block_id (last blocks)) \<and>
    (if r = Ok () then length blocks = unat e + 1 - unat s \<and> w' = w2
     else length blocks < unat e + 1 - unat s \<and> append_block d (s + of_nat (length blocks)) (b', w2) = (r, (b', w')))"
proof (cases "s \<le> e")
  case True
  obtain j res b' w' w2 blocks where l:
    "while_option (append_cond e) (append_body d) (s, None, (b, w1)) = Some (j, res, (b', w'))"
    "pendingBlocks b' = pendingBlocks b @ blocks" "fetched (l2Client d) s blocks w1 w2"
    "dis_LastEnqueued (batchBuilder_methods ops u) b' =
       (if blocks = [] then dis_LastEnqueued (batchBuilder_methods ops u) b else block_id (last blocks))"
    "case res of None \<Rightarrow> length blocks = unat e + 1 - unat s \<and> w' = w2
     | Some r \<Rightarrow> length blocks < unat e + 1 - unat s \<and> r \<noteq> Ok () \<and> append_block d (s + of_nat (length blocks)) (b', w2) = (r, (b', w'))"
    using builder_source.append_loop [OF assms(1,3) refl] by blast
  have "appendToBuilder d (b, w) = Some (case res of None \<Rightarrow> Ok () | Some r \<Rightarrow> r, (b', w'))"
    using assms(2) leD [OF True] l(1) by (simp add: appendToBuilder_def wrap_call_def)
  moreover have "LastEnqueued b' = (if blocks = [] then LastEnqueued b else block_id (last blocks))"
    using l(4) by (simp add: batchBuilder_methods_def)
  ultimately show ?thesis
    using l(2,3,5)
    by (intro exI [of _ "case res of None \<Rightarrow> Ok () | Some r \<Rightarrow> r"] exI [of _ b'] exI [of _ w'] exI [of _ w2] exI [of _ blocks])
      (cases res; simp)
next
  case False
  then have "appendToBuilder d (b, w) = Some (Ok (), (b, w1))" "unat e + 1 - unat s = 0"
    using assms(2) by (auto simp: appendToBuilder_def wrap_call_def not_le word_less_nat_alt)
  then show ?thesis by (intro exI [of _ "Ok ()"] exI [of _ b] exI [of _ w1] exI [of _ w1] exI [of _ "[]"]) simp
qed

text \<open>
  A batch whose transaction failed is sent again, byte for byte. When \<open>AppendTxBatch\<close> returns an
  error the builder is not advanced, and the next \<open>disseminateBatch\<close>, at any L1 head, passes the same
  data to \<open>AppendTxBatch\<close>; it advances the builder exactly when that succeeds.
\<close>

theorem failed_batch_is_resent:
  assumes "batchBuilder_ops d = batchBuilder_methods ops u"
    and "Build ops u (l1State_Head d w) b = (Ok batch, b1)" "l1TxMgr_AppendTxBatch d batch w = (Err e, w1)"
  shows "disseminateBatch d (b, w) = (Err (Wrapped ''failed to send batch transaction'' e), (b1, w1)) \<and>
    disseminateBatch d (b1, w2) =
      (case l1TxMgr_AppendTxBatch d batch w2 of
         (Err e', w3) \<Rightarrow> (Err (Wrapped ''failed to send batch transaction'' e'), (b1, w3))
       | (Panic p, w3) \<Rightarrow> (Panic p, (b1, w3))
       | (Ok receipt, w3) \<Rightarrow> (Ok (), (Advance b1, w3)))"
proof -
  have "dis_Build (batchBuilder_methods ops u) (l1State_Head d w) b = (Ok batch, b1)"
    using assms(2) by (simp add: batchBuilder_methods_def)
  note s = this builder_source.build_stable [OF this]
  have "dis_Advance (batchBuilder_methods ops u) = Advance" by (simp add: batchBuilder_methods_def)
  then show ?thesis using assms(1,3) s by (simp add: disseminateBatch_def split: prod.split outcome.split)
qed

text \<open>
  A reorganisation of L2 is noticed and answered by a rollback. If the first new block is not a
  child of the block enqueued last, \<open>step\<close> drops everything that was pending or built and restarts
  from the safe head.
\<close>

theorem reorg_rolls_back:
  assumes ops: "batchBuilder_ops d = batchBuilder_methods ops u"
    and range: "pendingL2BlockRange d b w = (Ok (s, e), w1)" "s \<le> e"
    and blk: "l2_BlockByNumber (l2Client d) s w1 = (Ok blk, w2)"
    and fork: "id_Hash (LastEnqueued b) \<noteq> 0" "block_ParentHash blk \<noteq> id_Hash (LastEnqueued b)"
    and safe: "l2_HeaderByTag (l2Client d) Safe w2 = (Ok head, w3)"
  shows "\<exists>er b'. step d (b, w) = Some (Err er, (b', w3)) \<and> LastEnqueued b' = NewBlockIDFromHeader head \<and>
    pendingBlocks b' = [] \<and> lastBuilt b' = None \<and> encoder b' = enc_Reset ops (encoder b)"
proof -
  define ie where "ie = InvalidBlockError ''Appended block is not a child of the last appended block''"
  have "dis_Enqueue (batchBuilder_ops d) blk b = (Err ie, b)"
    using fork by (simp add: ops batchBuilder_methods_def Enqueue_def LastEnqueued_def ie_def)
  then have "append_block d s (b, w1) = (Err (L2ReorgDetectedError ie), (b, w2))"
    using blk by (simp add: append_block_def bind_call_def wrap_call_def lift_call_def ie_def InvalidBlockError_def)
  then have "append_body d (s, None, (b, w1)) = (s, Some (Err (L2ReorgDetectedError ie)), (b, w2))" by simp
  then have "while_option (append_cond e) (append_body d) (s, None, (b, w1)) = Some (s, Some (Err (L2ReorgDetectedError ie)), (b, w2))"
    using range(2) by (simp add: while_option_unfold [of _ _ "(s, None, _)"] while_option_unfold [of _ _ "(s, Some _, _)"]
        del: append_body.simps)
  then have "appendToBuilder d (b, w) = Some (Err (L2ReorgDetectedError ie), (b, w2))"
    using range by (simp add: appendToBuilder_def wrap_call_def not_less)
  moreover have "rollback d (b, w2) = (Ok (), (Reset ops (NewBlockIDFromHeader head) b, w3))"
    using safe by (simp add: rollback_def ops batchBuilder_methods_def bind_call_def wrap_call_def lift_call_def)
  ultimately show ?thesis
    by (simp add: step_def L2ReorgDetectedError_def LastEnqueued_def Reset_def)
qed

text \<open>
  The abort that \<open>start\<close> makes for an unexpected system state never happens. When the safe head
  has passed the last enqueued block, \<open>pendingL2BlockRange\<close> returns a \<^emph>\<open>pointer\<close> to
  \<open>unexpectedSystemStateError\<close>, while \<open>start\<close> tests for the value type: the error is logged, the
  builder is left as it is, and the loop goes on to the next tick.
\<close>

theorem unexpected_state_does_not_abort:
  assumes "batchBuilder_ops d = batchBuilder_methods ops u" "LastEnqueued b \<noteq> EmptyBlockID"
    and "l2_HeaderByTag (l2Client d) Safe w = (Ok safe, w1)" "id_Number (LastEnqueued b) < word_of_int (h_Number safe)"
  shows "(\<exists>e. step d (b, w) = Some (Err e, (b, w1)) \<and> errors_As e True ''unexpectedSystemStateError'') \<and>
    service_loop (step d) (Tick # evs) (b, w) = service_loop (step d) evs (b, w1)"
proof -
  have "pendingL2BlockRange d b w =
      (Err (unexpectedSystemStateError True ''Safe header exceeds last appended header''), w1)"
    using assms by (simp add: pendingL2BlockRange_def batchBuilder_methods_def Let_def bind_call_def wrap_call_def fail_call_def)
  then have "step d (b, w) = Some (Err (Wrapped ''failed to append to batch builder'' (Wrapped ''failed to get l2 block number''
      (unexpectedSystemStateError True ''Safe header exceeds last appended header''))), (b, w1))"
    by (simp add: step_def appendToBuilder_def wrap_call_def unexpectedSystemStateError_def)
  then show ?thesis by (simp add: unexpectedSystemStateError_def)
qed

text \<open>A world that records the batches sent; the L2 chain is at block 7 with safe head 5.\<close>

definition demo_l2 :: "bytes list L2Client" where
  "demo_l2 = \<lparr>l2_EnsureDialed = ret_call (), l2_BlockNumber = ret_call 7,
     l2_BlockByNumber = (\<lambda>i. ret_call (demo_block i [demo_l2tx (ucast i)])),
     l2_HeaderByTag = (\<lambda>t. ret_call \<lparr>h_Number = 5, h_Hash = 5, h_ParentHash = 4\<rparr>)\<rparr>"

definition demo_dis :: "(BatchV0Encoder batchBuilder, bytes list) BatchDisseminator" where
  "demo_dis = \<lparr>batchBuilder_ops = batchBuilder_methods (V0_methods demo_codec) demo_util,
     l1TxMgr_AppendTxBatch = (\<lambda>batch w. (Err (NewError ''reverted''), w @ [batch])), l1State_Head = (\<lambda>w. EmptyBlockID),
     l2Client = demo_l2, ctx_Done = (\<lambda>w. False)\<rparr>"

definition demo_fresh :: "BlockID \<Rightarrow> BatchV0Encoder batchBuilder" where
  "demo_fresh i = (NewBatchBuilder demo_conf (NewBatchV0Encoder 4))\<lparr>lastEnqueued := i\<rparr>"

lemma demo_dis_ops: "batchBuilder_ops demo_dis = batchBuilder_methods (V0_methods demo_codec) demo_util"
  by (simp add: demo_dis_def)

text \<open>A client that has only block 6: the second pass fails, and block 6 stays enqueued.\<close>

definition demo_short :: "(BatchV0Encoder batchBuilder, bytes list) BatchDisseminator" where
  "demo_short = demo_dis\<lparr>l2Client := demo_l2\<lparr>l2_BlockByNumber := (\<lambda>i. if i = 6 then ret_call (demo_block 6 [demo_l2tx 6])
     else fail_call (NewError ''not found''))\<rparr>\<rparr>"

theorem appendToBuilder_fetches_range_witness:
  "(\<exists>b' w'. appendToBuilder demo_dis (demo_fresh (NewBlockID 5 5), []) = Some (Ok (), (b', w')) \<and>
     pendingBlocks b' = [demo_block 6 [demo_l2tx 6], demo_block 7 [demo_l2tx 7]]) \<and>
   (\<exists>e b' w'. appendToBuilder demo_short (demo_fresh (NewBlockID 5 5), []) = Some (Err e, (b', w')) \<and>
     pendingBlocks b' = [demo_block 6 [demo_l2tx 6]])"
proof
  let ?b = "demo_fresh (NewBlockID 5 5)"
  have b: "pendingBlocks ?b = []" "LastEnqueued ?b = NewBlockID 5 5" by code_simp+
  have n: "unat (7 :: uint64) + 1 - unat (6 :: uint64) = 2" "(7 :: uint64) \<noteq> - 1" by simp_all
  have two: "length xs = 2 \<longleftrightarrow> (\<exists>x y. xs = [x, y])" for xs :: "L2Block list" by (auto simp: numeral_2_eq_2 length_Suc_conv)
  have "pendingL2BlockRange demo_dis ?b [] = (Ok (6, 7), [])" "map_option fst (appendToBuilder demo_dis (?b, [])) = Some (Ok ())" by code_simp+
  with appendToBuilder_fetches_range [OF demo_dis_ops _ n(2), of ?b "[]" 6 "[]"]
  show "\<exists>b' w'. appendToBuilder demo_dis (?b, []) = Some (Ok (), (b', w')) \<and>
      pendingBlocks b' = [demo_block 6 [demo_l2tx 6], demo_block 7 [demo_l2tx 7]]"
    unfolding n(1) by (auto simp: two b demo_dis_def demo_l2_def ret_call_def)
  have ops: "batchBuilder_ops demo_short = batchBuilder_methods (V0_methods demo_codec) demo_util" by (simp add: demo_short_def demo_dis_ops)
  have "pendingL2BlockRange demo_short ?b [] = (Ok (6, 7), [])"
    "(case appendToBuilder demo_short (?b, []) of Some (Err e, st) \<Rightarrow> True | _ \<Rightarrow> False)" by code_simp+
  then obtain e b' w' w2 blocks where r: "appendToBuilder demo_short (?b, []) = Some (Err e, (b', w'))" "pendingBlocks b' = blocks"
    "fetched (l2Client demo_short) 6 blocks [] w2" "length blocks < 2" "LastEnqueued b' = (if blocks = [] then NewBlockID 5 5 else block_id (last blocks))"
    "append_block demo_short (6 + of_nat (length blocks)) (b', w2) = (Err e, (b', w'))"
    using appendToBuilder_fetches_range [OF ops _ n(2), of ?b "[]" 6 "[]"] unfolding n(1) by (auto simp: b split: option.splits outcome.splits)
  have "blocks \<noteq> []"
    using r(5,6) by (auto simp: append_block_def demo_dis_ops demo_short_def demo_l2_def batchBuilder_methods_def Enqueue_def LastEnqueued_def ret_call_def
        bind_call_def wrap_call_def lift_call_def demo_block_def NewBlockID_def split: if_splits)
  then have "blocks = [demo_block 6 [demo_l2tx 6]]"
    using r(3,4) by (cases blocks) (auto simp: demo_short_def ret_call_def)
  with r(1,2) show "\<exists>e b' w'. appendToBuilder demo_short (?b, []) = Some (Err e, (b', w')) \<and> pendingBlocks b' = [demo_block 6 [demo_l2tx 6]]" by blast
qed

theorem failed_batch_is_resent_witness:
  "snd (snd (disseminateBatch demo_dis (demo_built, [[0, 0xC2, 0xC0, 0xC0]]))) = [[0, 0xC2, 0xC0, 0xC0], [0, 0xC2, 0xC0, 0xC0]]"
proof -
  have "Build (V0_methods demo_codec) demo_util (l1State_Head demo_dis []) demo_builder = (Ok [0, 0xC2, 0xC0, 0xC0], demo_built)"
    by code_simp
  moreover have a: "l1TxMgr_AppendTxBatch demo_dis batch w = (Err (NewError ''reverted''), w @ [batch])" for batch w
    by (simp add: demo_dis_def)
  ultimately show ?thesis
    using failed_batch_is_resent [OF demo_dis_ops, of "[]" demo_builder "[0, 0xC2, 0xC0, 0xC0]" demo_built _ _ "[[0, 0xC2, 0xC0, 0xC0]]"]
    by simp
qed

theorem reorg_rolls_back_witness:
  "\<exists>er b'. step demo_dis (demo_fresh (NewBlockID 5 77), []) = Some (Err er, (b', [])) \<and> LastEnqueued b' = NewBlockID 5 5"
proof -
  let ?b = "demo_fresh (NewBlockID 5 77)"
  have "pendingL2BlockRange demo_dis ?b [] = (Ok (6, 7), [])" by code_simp
  moreover have "l2_BlockByNumber (l2Client demo_dis) 6 [] = (Ok (demo_block 6 [demo_l2tx 6]), [])" by code_simp
  moreover have "id_Hash (LastEnqueued ?b) \<noteq> 0" "block_ParentHash (demo_block 6 [demo_l2tx 6]) \<noteq> id_Hash (LastEnqueued ?b)"
    by code_simp+
  moreover have "l2_HeaderByTag (l2Client demo_dis) Safe [] = (Ok \<lparr>h_Number = 5, h_Hash = 5, h_ParentHash = 4\<rparr>, [])"
    by code_simp
  moreover have "NewBlockIDFromHeader \<lparr>h_Number = 5, h_Hash = 5, h_ParentHash = 4\<rparr> = NewBlockID 5 5" by code_simp
  ultimately show ?thesis
    using reorg_rolls_back [OF demo_dis_ops, of ?b "[]" 6 7 "[]"] by fastforce
qed

theorem unexpected_state_does_not_abort_witness:
  "service_loop (step demo_dis) [Tick, Tick, CtxDone] (demo_fresh (NewBlockID 3 3), []) =
     Some (Returned (Ok ()) (demo_fresh (NewBlockID 3 3), []))"
proof -
  let ?b = "demo_fresh (NewBlockID 3 3)"
  have "LastEnqueued ?b \<noteq> EmptyBlockID" "id_Number (LastEnqueued ?b) < word_of_int 5" by code_simp+
  moreover have "l2_HeaderByTag (l2Client demo_dis) Safe [] = (Ok \<lparr>h_Number = 5, h_Hash = 5, h_ParentHash = 4\<rparr>, [])"
    by code_simp
  ultimately have "service_loop (step demo_dis) (Tick # evs) (?b, []) = service_loop (step demo_dis) evs (?b, [])" for evs
    using unexpected_state_does_not_abort [OF demo_dis_ops, of ?b "[]"] by simp
  then show ?thesis by (simp only: service_loop.simps(2))
qed

end
