(* ===== verification/Data_Path.thy ===== *)
theory Data_Path
  imports Disseminator
begin

text \<open>
  What the sequencer's data path promises, from the L2 blocks the execution client serves to the batches that are posted
  on L1: an abstract queue (\<open>path\<close>) with its steps, the batch builder over any encoder that meets its contract as an
  implementation of it, and the disseminator as a driver that only takes steps of it.
\<close>

section \<open>The abstract queue\<close>

text \<open>
  \<open>held\<close> are the blocks inside the batch under construction, \<open>waiting\<close> those not encoded yet, \<open>newest\<close> the last one
  that was accepted and \<open>outgoing\<close> a batch that has been built and not been let go.
\<close>

record path =
  held :: "rawTxBlock list"
  waiting :: "L2Block list"
  newest :: BlockID
  outgoing :: "bytes option"

datatype path_out = Done | Refused | Batch bytes | NoBatch | Stumbled

text \<open>
  A block is accepted when it is a child of the newest one. Building moves a prefix of the waiting blocks into
  the batch and may give out a batch, the same one until it is let go. A build that stumbles over a block has the
  blocks before it in the batch but does not take them out of the queue.
\<close>

inductive path_step :: "(L2Block \<Rightarrow> rawTxBlock list) \<Rightarrow> builder_call \<Rightarrow> path_out \<Rightarrow> path \<Rightarrow> path \<Rightarrow> bool" for raw where
  path_accept: "id_Hash (newest s) = 0 \<or> block_ParentHash x = id_Hash (newest s) \<Longrightarrow>
     path_step raw (CallEnqueue x) Done s (s\<lparr>waiting := waiting s @ [x], newest := block_id x\<rparr>)"
| path_refuse: "id_Hash (newest s) \<noteq> 0 \<Longrightarrow> block_ParentHash x \<noteq> id_Hash (newest s) \<Longrightarrow> path_step raw (CallEnqueue x) Refused s s"
| path_again: "outgoing s = Some d \<Longrightarrow> path_step raw (CallBuild h) (Batch d) s s"
| path_idle: "outgoing s = None \<Longrightarrow> waiting s = [] \<Longrightarrow> path_step raw (CallBuild h) NoBatch s s"
| path_build: "outgoing s = None \<Longrightarrow> waiting s = taken @ rest \<Longrightarrow> waiting s \<noteq> [] \<Longrightarrow>
     path_step raw (CallBuild h) (case out of None \<Rightarrow> NoBatch | Some d \<Rightarrow> Batch d) s
       (s\<lparr>held := held s @ concat (map raw taken), waiting := rest, outgoing := out\<rparr>)"
| path_stumble: "outgoing s = None \<Longrightarrow> waiting s = taken @ bad # rest \<Longrightarrow>
     path_step raw (CallBuild h) Stumbled s (s\<lparr>held := held s @ concat (map raw taken)\<rparr>)"
| path_let_go: "path_step raw CallAdvance Done s (s\<lparr>outgoing := None\<rparr>)"
| path_restart: "path_step raw (CallReset i) Done s \<lparr>held = [], waiting = [], newest = i, outgoing = None\<rparr>"

inductive_cases path_step_cases: "path_step raw c out s s'"

text \<open>What was accepted since the last restart.\<close>

fun accepted_since :: "L2Block list \<Rightarrow> builder_call list \<Rightarrow> path_out list \<Rightarrow> L2Block list" where
  "accepted_since acc (CallEnqueue x # cs) (out # outs) = accepted_since (if out = Done then acc @ [x] else acc) cs outs"
| "accepted_since acc (CallReset i # cs) (out # outs) = accepted_since [] cs outs"
| "accepted_since acc (c # cs) (out # outs) = accepted_since acc cs outs"
| "accepted_since acc _ _ = acc"

definition contents :: "(L2Block \<Rightarrow> rawTxBlock list) \<Rightarrow> path \<Rightarrow> rawTxBlock list" where
  "contents raw s = held s @ concat (map raw (waiting s))"

lemma path_conserves:
  assumes "spec_run (path_step raw) calls outs s s'" "Stumbled \<notin> set outs" "contents raw s = concat (map raw acc)"
  shows "contents raw s' = concat (map raw (accepted_since acc calls outs))"
  using assms
proof (induction arbitrary: acc rule: spec_run.induct)
  case (spec_run_Cons c out s s1 calls outs s2)
  have out: "out \<noteq> Stumbled" "Stumbled \<notin> set outs" using spec_run_Cons.prems(1) by auto
  note c = spec_run_Cons.prems(2)
  from spec_run_Cons.hyps(1) show ?case
  proof (cases rule: path_step.cases)
    case (path_accept x)
    then have "contents raw s1 = concat (map raw (acc @ [x]))" using c by (simp add: contents_def)
    from spec_run_Cons.IH [OF out(2) this] path_accept show ?thesis by simp
  next
    case (path_build taken rest out h)
    then have "contents raw s1 = concat (map raw acc)" using c by (simp add: contents_def)
    from spec_run_Cons.IH [OF out(2) this] path_build show ?thesis by simp
  next
    case (path_restart i)
    then have "contents raw s1 = concat (map raw [])" by (simp add: contents_def)
    from spec_run_Cons.IH [OF out(2) this] path_restart show ?thesis by simp
  next
    case path_let_go
    then have "contents raw s1 = concat (map raw acc)" using c by (simp add: contents_def)
    from spec_run_Cons.IH [OF out(2) this] path_let_go show ?thesis by simp
  qed (use out c spec_run_Cons.IH [OF out(2), of acc] in \<open>simp_all add: contents_def\<close>)
qed simp

section \<open>The builder implements it\<close>

text \<open>The outcome of \<open>Build\<close>; a panic ends the program.\<close>

fun build_out :: "bytes outcome \<Rightarrow> path_out option" where
  "build_out (Ok d) = Some (Batch d)"
| "build_out (Panic p) = None"
| "build_out (Err (Wrapped m (Wrapped m' e))) =
     Some (if m = ''failed to encode pending blocks into a new batch'' then Stumbled else NoBatch)"
| "build_out (Err e) = Some NoBatch"

definition builder_step ::
    "'e VersionedDataEncoder \<Rightarrow> bridgeSerializationUtil \<Rightarrow> builder_call \<Rightarrow> 'e batchBuilder \<Rightarrow> (path_out \<times> 'e batchBuilder) option" where
  "builder_step ops u c b =
     (case c of
        CallEnqueue x \<Rightarrow> (case Enqueue x b of (r, b1) \<Rightarrow> Some (if is_Ok r then Done else Refused, b1))
      | CallReset i \<Rightarrow> Some (Done, Reset ops i b)
      | CallAdvance \<Rightarrow> Some (Done, Advance b)
      | CallBuild h \<Rightarrow> (case Build ops u h b of (r, b1) \<Rightarrow> map_option (\<lambda>out. (out, b1)) (build_out r)))"

definition path_abs :: "('e \<Rightarrow> rawTxBlock list) \<Rightarrow> 'e batchBuilder \<Rightarrow> path" where
  "path_abs content b = \<lparr>held = content (encoder b), waiting = pendingBlocks b, newest = lastEnqueued b, outgoing = lastBuilt b\<rparr>"

lemma encodePending_Err:
  assumes "encodePending ops u b = (Err e, b1)" "pendingBlocks b \<noteq> []"
  shows "\<exists>e'. e = Wrapped ''failed to process block'' e'"
proof -
  have "encode_loop ops u bs n b = (Err e, b1) \<Longrightarrow> \<exists>e'. e = Wrapped ''failed to process block'' e'" for bs n b
    by (induction bs arbitrary: n b) (auto split: prod.splits outcome.splits if_splits)
  then show ?thesis using assms by (auto simp: encodePending_def split: prod.splits outcome.splits)
qed

lemma build_out_Err:
  "build_out (Err (Wrapped m e)) =
     Some (if m = ''failed to encode pending blocks into a new batch'' \<and> (\<exists>m' e'. e = Wrapped m' e') then Stumbled else NoBatch)"
  by (cases e) simp_all

lemma build_out_get:
  assumes "getBatch ops h b = (r, b1)" "build_out r = Some out"
  shows "out = (case r of Ok d \<Rightarrow> Batch d | _ \<Rightarrow> NoBatch)"
proof -
  have "r = Err (Sentinel io_EOF) \<or> (\<exists>e. r = Err (Wrapped ''failed to get batch'' e)) \<or> (\<exists>d. r = Ok d) \<or> (\<exists>p. r = Panic p)"
    using assms(1) by (auto simp: getBatch_def Let_def split: prod.splits outcome.splits if_splits)
  with assms(2) show ?thesis by (auto simp: build_out_Err)
qed

lemma getBatch_built: "getBatch ops h b = (r, b1) \<Longrightarrow> lastBuilt b = None \<Longrightarrow> lastBuilt b1 = (case r of Ok d \<Rightarrow> Some d | _ \<Rightarrow> None)"
  by (auto simp: getBatch_def Let_def split: prod.splits outcome.splits if_splits)

context versioned_encoder
begin

lemma encodePending_path:
  assumes "ready (encoder b)" "encodePending ops u b = (Ok (), b1)"
  shows "\<exists>k. ready (encoder b1) \<and> content (encoder b1) = content (encoder b) @ concat (map raw (take k (pendingBlocks b))) \<and>
    pendingBlocks b1 = drop k (pendingBlocks b)"
proof -
  obtain r b' where el: "encode_loop ops u (pendingBlocks b) 0 b = (r, b')" by fastforce
  obtain k where k: "r = Ok k" and b1: "b1 = b'\<lparr>pendingBlocks := drop k (pendingBlocks b')\<rparr>"
    using assms(2) by (auto simp: encodePending_def el split: if_splits outcome.splits)
  with encode_loop_content [OF assms(1) el] encode_loop_frame [OF el] show ?thesis by (intro exI [of _ k]) auto
qed

lemma Build_path:
  assumes "ready (encoder b)" "Build ops u h b = (r, b1)" "build_out r = Some out"
  shows "ready (encoder b1) \<and> path_step raw (CallBuild h) out (path_abs content b) (path_abs content b1)"
proof (cases "lastBuilt b")
  case (Some d)
  then have "r = Ok d" "b1 = b" using assms(2) by (auto simp: Build_def)
  then show ?thesis using assms(1,3) Some path_again [of "path_abs content b" d raw h] by (simp add: path_abs_def)
next
  case None
  obtain re b' where ep: "encodePending ops u b = (re, b')" by fastforce
  note fr = encodePending_frame [OF ep]
  consider "pendingBlocks b = []" | "pendingBlocks b \<noteq> []" "re = Ok ()" | e where "pendingBlocks b \<noteq> []" "re = Err e"
    using assms(2,3) None ep by (cases re) (auto simp: Build_def)
  then show ?thesis
  proof cases
    case 1
    then have "b1 = b" "out = NoBatch" using assms(2,3) None by (auto simp: Build_def encodePending_def)
    then show ?thesis using assms(1) None 1 path_idle [of "path_abs content b" raw h] by (simp add: path_abs_def)
  next
    case 2
    then have g: "getBatch ops h b' = (r, b1)" using assms(2) None ep by (simp add: Build_def)
    obtain k where k: "ready (encoder b')" "content (encoder b') = content (encoder b) @ concat (map raw (take k (pendingBlocks b)))"
      "pendingBlocks b' = drop k (pendingBlocks b)" using encodePending_path [OF assms(1)] ep 2 by blast
    have e: "ready (encoder b1)" "content (encoder b1) = content (encoder b')"
      using get_ready [OF k(1)] g by (auto simp: getBatch_def Let_def split: prod.splits outcome.splits)
    have o: "out = (case lastBuilt b1 of None \<Rightarrow> NoBatch | Some d \<Rightarrow> Batch d)"
      using build_out_get [OF g assms(3)] getBatch_built [OF g] fr None by (cases r) auto
    have "path_abs content b1 = (path_abs content b)\<lparr>held := held (path_abs content b) @ concat (map raw (take k (pendingBlocks b))),
        waiting := drop k (pendingBlocks b), outgoing := lastBuilt b1\<rparr>"
      using k(2,3) e(2) fr getBatch_frame [OF g] by (simp add: path_abs_def)
    moreover have "path_step raw (CallBuild h) out (path_abs content b) \<dots>"
      unfolding o by (rule path_build) (use None 2 in \<open>simp_all add: path_abs_def\<close>)
    ultimately show ?thesis using e(1) by simp
  next
    case 3
    then have b1: "b1 = b'" "r = Err (Wrapped ''failed to encode pending blocks into a new batch'' e)" using assms(2) None ep by (auto simp: Build_def)
    obtain k where k: "k < length (pendingBlocks b)" "ready (encoder b')" "pendingBlocks b' = pendingBlocks b"
      "content (encoder b') = content (encoder b) @ concat (map raw (take k (pendingBlocks b)))"
      using encodePending_fails [OF assms(1) ep] 3 by auto
    have o: "out = Stumbled" using encodePending_Err [of ops u b e b'] 3 ep b1 assms(3) by (auto simp: build_out_Err)
    have "path_abs content b1 = (path_abs content b)\<lparr>held := held (path_abs content b) @ concat (map raw (take k (pendingBlocks b)))\<rparr>"
      using k fr b1(1) by (simp add: path_abs_def)
    moreover have "path_step raw (CallBuild h) out (path_abs content b) \<dots>"
      unfolding o by (rule path_stumble) (use None id_take_nth_drop [OF k(1)] in \<open>simp_all add: path_abs_def\<close>)
    ultimately show ?thesis using k(2) b1(1) by simp
  qed
qed

lemma builder_step_path:
  assumes "ready (encoder b)" "builder_step ops u c b = Some (out, b1)"
  shows "ready (encoder b1) \<and> path_step raw c out (path_abs content b) (path_abs content b1)"
proof (cases c)
  case (CallEnqueue x)
  have "ready (encoder b1)" using assms CallEnqueue by (auto simp: builder_step_def Enqueue_def split: if_splits)
  moreover have "path_step raw c out (path_abs content b) (path_abs content b1)"
    using assms(2) CallEnqueue path_accept [of "path_abs content b" x raw] path_refuse [of "path_abs content b" x raw]
    by (auto simp: builder_step_def Enqueue_def path_abs_def block_id_def split: if_splits)
  ultimately show ?thesis by blast
next
  case (CallReset i)
  then have "out = Done" "b1 = Reset ops i b" using assms(2) by (simp_all add: builder_step_def)
  then show ?thesis using reset_ready reset_content path_restart [of raw i "path_abs content b"] CallReset by (simp add: path_abs_def Reset_def)
next
  case (CallBuild h)
  then obtain r where "Build ops u h b = (r, b1)" "build_out r = Some out"
    using assms(2) by (auto simp: builder_step_def split: prod.splits)
  from Build_path [OF assms(1) this] CallBuild show ?thesis by simp
next
  case CallAdvance
  then have "out = Done" "b1 = Advance b" using assms(2) by (simp_all add: builder_step_def)
  then show ?thesis using assms(1) path_let_go [of raw "path_abs content b"] CallAdvance by (simp add: path_abs_def Advance_def)
qed

end

sublocale versioned_encoder < data_path: implements "builder_step ops u" "\<lambda>b. ready (encoder b)" "path_abs content" "path_step raw" for u
  using builder_step_path by unfold_locales blast+

section \<open>The disseminator drives it\<close>

definition l2_served :: "('b, 'w) BatchDisseminator \<Rightarrow> L2Block \<Rightarrow> bool" where
  "l2_served d x \<longleftrightarrow> (\<exists>i w w'. l2_BlockByNumber (l2Client d) i w = (Ok x, w'))"

definition posted :: "('b, 'w) BatchDisseminator \<Rightarrow> bytes \<Rightarrow> bool" where
  "posted d data \<longleftrightarrow> (\<exists>w w' receipt. l1TxMgr_AppendTxBatch d data w = (Ok receipt, w'))"

definition safe_head :: "('b, 'w) BatchDisseminator \<Rightarrow> BlockID \<Rightarrow> bool" where
  "safe_head d i \<longleftrightarrow> (\<exists>w w' header. l2_HeaderByTag (l2Client d) Safe w = (Ok header, w') \<and> i = NewBlockIDFromHeader header)"

text \<open>
  What the service may do with the queue: offer a block that the execution client served, ask for a batch, let a batch go
  after it was posted, or restart from a safe head.
\<close>

inductive service_path :: "(L2Block \<Rightarrow> rawTxBlock list) \<Rightarrow> ('b, 'w) BatchDisseminator \<Rightarrow> path \<Rightarrow> path \<Rightarrow> bool" for raw d where
  service_pull: "l2_served d x \<Longrightarrow> path_step raw (CallEnqueue x) out s s' \<Longrightarrow> service_path raw d s s'"
| service_try: "path_step raw (CallBuild h) out s s' \<Longrightarrow> service_path raw d s s'"
| service_post: "path_step raw (CallBuild h) (Batch data) s s1 \<Longrightarrow> posted d data \<Longrightarrow> path_step raw CallAdvance Done s1 s' \<Longrightarrow>
     service_path raw d s s'"
| service_rollback: "safe_head d i \<Longrightarrow> path_step raw (CallReset i) Done s s' \<Longrightarrow> service_path raw d s s'"

definition no_panic :: "'a outcome \<Rightarrow> bool" where
  "no_panic r \<longleftrightarrow> (\<nexists>p. r = Panic p)"

lemma no_panic_simps [simp]: "no_panic (Ok x)" "no_panic (Err e)" "\<not> no_panic (Panic p)" "no_panic (wrap_err m r) \<longleftrightarrow> no_panic r"
  by (cases r; simp add: no_panic_def)+

lemma build_out_Some: "build_out r \<noteq> None \<longleftrightarrow> no_panic r"
proof (cases r)
  case (Err e)
  then show ?thesis by (cases e) (simp_all add: build_out_Err)
qed simp_all

context versioned_encoder
begin

lemma append_block_path:
  assumes "batchBuilder_ops d = batchBuilder_methods ops u" "ready (encoder b)"
    and "append_block d i (b, w) = (r, (b', w'))" "no_panic r"
  shows "ready (encoder b') \<and> (service_path raw d)\<^sup>*\<^sup>* (path_abs content b) (path_abs content b')"
proof (cases "\<exists>blk w1. l2_BlockByNumber (l2Client d) i w = (Ok blk, w1)")
  case True
  then obtain blk w1 where f: "l2_BlockByNumber (l2Client d) i w = (Ok blk, w1)" by blast
  obtain re b1 where e: "Enqueue blk b = (re, b1)" by fastforce
  have "b' = b1" using assms f e
    by (cases re) (auto simp: append_block_def bind_call_def wrap_call_def lift_call_def batchBuilder_methods_def split: if_splits)
  moreover have "builder_step ops u (CallEnqueue blk) b = Some (if is_Ok re then Done else Refused, b1)" by (simp add: builder_step_def e)
  ultimately show ?thesis
    using builder_step_path [OF assms(2)] f unfolding l2_served_def [symmetric]
    by (metis l2_served_def service_pull r_into_rtranclp)
next
  case False
  obtain rb w1 where f: "l2_BlockByNumber (l2Client d) i w = (rb, w1)" by fastforce
  then have "b' = b" using False assms by (cases rb) (auto simp: append_block_def bind_call_def wrap_call_def lift_call_def)
  then show ?thesis using assms(2) by simp
qed

lemma append_loop_path:
  fixes w :: 'w
  assumes "batchBuilder_ops d = batchBuilder_methods ops u" "ready (encoder b)"
    and "while_option (append_cond e) (append_body d) (i, None, (b, w)) = Some (j, res, (b', w'))" "case res of None \<Rightarrow> True | Some r \<Rightarrow> no_panic r"
  shows "ready (encoder b') \<and> (service_path raw d)\<^sup>*\<^sup>* (path_abs content b) (path_abs content b')"
proof -
  let ?P = "\<lambda>(j :: uint64, res, b1, w1 :: 'w). (case res of None \<Rightarrow> True | Some r \<Rightarrow> no_panic r) \<longrightarrow>
    ready (encoder b1) \<and> (service_path raw d)\<^sup>*\<^sup>* (path_abs content b) (path_abs content b1)"
  have "?P (j, res, (b', w'))"
  proof (rule while_option_rule [where P = ?P, OF _ assms(3)])
    fix s assume P: "?P s" and c: "append_cond e s"
    obtain k b1 w1 where s: "s = (k, None, (b1, w1))" using c by (cases s) auto
    obtain r b2 w2 where a: "append_block d k (b1, w1) = (r, (b2, w2))" by (metis prod.exhaust)
    from P s append_block_path [OF assms(1) _ a] show "?P (append_body d s)"
      by (cases r) (auto simp: a)
  qed (simp add: assms(2))
  with assms(4) show ?thesis by simp
qed

lemma appendToBuilder_path:
  assumes "batchBuilder_ops d = batchBuilder_methods ops u" "ready (encoder b)"
    and "appendToBuilder d (b, w) = Some (r, (b', w'))" "no_panic r"
  shows "ready (encoder b') \<and> (service_path raw d)\<^sup>*\<^sup>* (path_abs content b) (path_abs content b')"
proof -
  obtain rr w1 where p: "wrap_call ''failed to get l2 block number'' (pendingL2BlockRange d b) w = (rr, w1)" by fastforce
  consider "b' = b" | s e j res where "while_option (append_cond e) (append_body d) (s, None, (b, w1)) = Some (j, res, (b', w'))"
      "r = (case res of None \<Rightarrow> Ok () | Some r \<Rightarrow> r)"
    using assms(3) p by (cases rr) (auto simp: appendToBuilder_def split: if_splits)
  then show ?thesis
  proof cases
    case 2
    with append_loop_path [OF assms(1,2) 2(1)] assms(4) show ?thesis by (cases res) auto
  qed (simp add: assms(2))
qed

lemma disseminateBatch_path:
  assumes "batchBuilder_ops d = batchBuilder_methods ops u" "ready (encoder b)"
    and "disseminateBatch d (b, w) = (r, (b', w'))" "no_panic r"
  shows "ready (encoder b') \<and> service_path raw d (path_abs content b) (path_abs content b')"
proof -
  obtain rb b1 where B: "Build ops u (l1State_Head d w) b = (rb, b1)" by fastforce
  then have "no_panic rb" using assms by (cases rb) (auto simp: disseminateBatch_def batchBuilder_methods_def)
  then obtain out where out: "build_out rb = Some out" using build_out_Some by blast
  note bp = Build_path [OF assms(2) B out]
  consider "b' = b1" | data receipt w1 where "rb = Ok data" "l1TxMgr_AppendTxBatch d data w = (Ok receipt, w1)" "b' = Advance b1"
    using assms(1,3,4) B by (cases rb) (auto simp: disseminateBatch_def batchBuilder_methods_def split: prod.splits outcome.splits)
  then show ?thesis
  proof cases
    case 1
    then show ?thesis using bp service_try by fast
  next
    case 2
    then have "posted d data" by (auto simp: posted_def)
    moreover have "builder_step ops u CallAdvance b1 = Some (Done, b')" using 2 by (simp add: builder_step_def)
    moreover have "path_step raw (CallBuild (l1State_Head d w)) (Batch data) (path_abs content b) (path_abs content b1)" using bp out 2 by simp
    ultimately show ?thesis using bp builder_step_path service_post by metis
  qed
qed

lemma disseminateBatches_path:
  fixes w :: 'w
  assumes "batchBuilder_ops d = batchBuilder_methods ops u" "ready (encoder b)"
    and "disseminateBatches d (b, w) = Some (r, (b', w'))" "no_panic r"
  shows "ready (encoder b') \<and> (service_path raw d)\<^sup>*\<^sup>* (path_abs content b) (path_abs content b')"
proof -
  obtain res where w: "while_option batches_cond (batches_body d) (None, (b, w)) = Some (res, (b', w'))"
    and r: "r = (case res of None \<Rightarrow> Ok () | Some r \<Rightarrow> r)" using assms(3) by (auto simp: disseminateBatches_def)
  let ?P = "\<lambda>(res, b1, w1 :: 'w). (case res of None \<Rightarrow> True | Some r \<Rightarrow> no_panic r) \<longrightarrow>
    ready (encoder b1) \<and> (service_path raw d)\<^sup>*\<^sup>* (path_abs content b) (path_abs content b1)"
  have "?P (res, (b', w'))"
  proof (rule while_option_rule [where P = ?P, OF _ w])
    fix s assume P: "?P s" and c: "batches_cond s"
    obtain b1 w1 where s: "s = (None, (b1, w1))" using c by (cases s) auto
    obtain q b2 w2 where a: "disseminateBatch d (b1, w1) = (q, (b2, w2))" by (metis prod.exhaust)
    from P s disseminateBatch_path [OF assms(1) _ a] show "?P (batches_body d s)"
      by (cases q) (auto simp: a intro: rtranclp.rtrancl_into_rtrancl)
  qed (simp add: assms(2))
  with assms(4) r show ?thesis by (cases res) auto
qed

lemma rollback_path:
  assumes "batchBuilder_ops d = batchBuilder_methods ops u" "ready (encoder b)" "rollback d (b, w) = (r, (b', w'))"
  shows "ready (encoder b') \<and> (service_path raw d)\<^sup>*\<^sup>* (path_abs content b) (path_abs content b')"
proof (cases "\<exists>header w1. l2_HeaderByTag (l2Client d) Safe w = (Ok header, w1)")
  case True
  then obtain header w1 where h: "l2_HeaderByTag (l2Client d) Safe w = (Ok header, w1)" by blast
  then have "safe_head d (NewBlockIDFromHeader header)" unfolding safe_head_def by blast
  moreover have "builder_step ops u (CallReset (NewBlockIDFromHeader header)) b = Some (Done, b')"
    using h assms(1,3) by (auto simp: rollback_def bind_call_def wrap_call_def lift_call_def builder_step_def batchBuilder_methods_def)
  ultimately show ?thesis using builder_step_path [OF assms(2)] by (metis service_rollback r_into_rtranclp)
next
  case False
  obtain rh w1 where h: "l2_HeaderByTag (l2Client d) Safe w = (rh, w1)" by fastforce
  then have "b' = b" using False assms(3) by (cases rh) (auto simp: rollback_def bind_call_def wrap_call_def lift_call_def)
  then show ?thesis using assms(2) by simp
qed

lemma step_path:
  assumes "batchBuilder_ops d = batchBuilder_methods ops u" "ready (encoder b)" "step d (b, w) = Some (r, (b', w'))" "no_panic r"
  shows "ready (encoder b') \<and> (service_path raw d)\<^sup>*\<^sup>* (path_abs content b) (path_abs content b')"
proof -
  obtain ra b1 w1 where a: "appendToBuilder d (b, w) = Some (ra, (b1, w1))"
    using assms(3) by (cases "appendToBuilder d (b, w)") (auto simp: step_def)
  have "no_panic ra" using a assms(3,4) by (cases ra) (auto simp: step_def)
  note ap = appendToBuilder_path [OF assms(1,2) a this]
  consider "b' = b1" | rr where "rollback d (b1, w1) = (rr, (b', w'))" | rd where "disseminateBatches d (b1, w1) = Some (rd, (b', w'))" "no_panic rd"
    using a assms(3,4) by (cases ra) (auto simp: step_def split: if_splits prod.splits outcome.splits)
  then show ?thesis
  proof cases
    case 2
    with ap rollback_path [OF assms(1) _ 2] show ?thesis by (auto intro: rtranclp_trans)
  next
    case 3
    with ap disseminateBatches_path [OF assms(1) _ 3] show ?thesis by (auto intro: rtranclp_trans)
  qed (simp add: ap)
qed

lemma service_loop_path:
  assumes "batchBuilder_ops d = batchBuilder_methods ops u" "ready (encoder b)" "service_loop (step d) evs (b, w) = Some out"
    and "out = Running (b', w') \<or> (\<exists>r. out = Returned r (b', w') \<and> no_panic r)"
  shows "(service_path raw d)\<^sup>*\<^sup>* (path_abs content b) (path_abs content b')"
  using assms(2,3)
proof (induction evs arbitrary: b w)
  case Nil
  then show ?case using assms(4) by auto
next
  case (Cons ev evs)
  show ?case
  proof (cases ev)
    case Tick
    obtain r b1 w1 where s: "step d (b, w) = Some (r, (b1, w1))" using Cons.prems(2) Tick by (cases "step d (b, w)") auto
    have "no_panic r" using Cons.prems(2) Tick s assms(4) by (cases r) auto
    note sp = step_path [OF assms(1) Cons.prems(1) s this]
    consider "b' = b1" | "service_loop (step d) evs (b1, w1) = Some out"
      using Cons.prems(2) Tick s assms(4) \<open>no_panic r\<close> by (cases r) (auto split: if_splits)
    then show ?thesis
    proof cases
      case 2
      with Cons.IH sp show ?thesis by (blast intro: rtranclp_trans)
    qed (simp add: sp)
  next
    case CtxDone
    then show ?thesis using Cons.prems(2) assms(4) by auto
  qed
qed

lemma start_path:
  assumes "batchBuilder_ops d = batchBuilder_methods ops u" "ready (encoder b)" "start d evs (b, w) = Some out"
    and "out = Running (b', w') \<or> (\<exists>r. out = Returned r (b', w') \<and> no_panic r)"
  shows "(service_path raw d)\<^sup>*\<^sup>* (path_abs content b) (path_abs content b')"
proof -
  obtain r b1 w1 where rb: "rollback d (b, w) = (r, (b1, w1))" by (metis prod.exhaust)
  then have "service_loop (step d) evs (b1, w1) = Some out" using assms(3,4) by (cases r) (auto simp: start_def)
  with rollback_path [OF assms(1,2) rb] service_loop_path [OF assms(1) _ _ assms(4)] show ?thesis by (blast intro: rtranclp_trans)
qed

end

section \<open>Properties\<close>

text \<open>
  C10: the batch builder is a queue of blocks. Over any sequence of \<open>Enqueue\<close>, \<open>Build\<close>, \<open>Advance\<close> and \<open>Reset\<close> calls
  that does not panic, the builder over the V0 encoder takes the steps of the abstract queue and gives its answers:
  it accepts exactly the children of the newest block, moves waiting blocks into the batch in order, gives the same
  batch until it is let go, and forgets everything on a reset.
\<close>

theorem builder_refines_path:
  assumes "subBatches (encoder b) \<noteq> []" "exec_run (builder_step (V0_methods lib) u) calls b = Some (outs, b')"
  shows "spec_run (path_step (V0_raw lib)) calls outs (path_abs V0_content b) (path_abs V0_content b')"
  using v0.data_path.run_simulates [OF _ assms(2)] assms(1) by (simp add: V0_ready_def)

text \<open>
  C8: no block is lost or duplicated over the life of a builder. From a fresh builder, after any sequence of calls without a
  panic in which no \<open>Build\<close> stumbled over a block, the blocks in the batch followed by the waiting ones are exactly
  the blocks accepted since the last reset, in order.
\<close>

theorem builder_keeps_accepted_blocks:
  assumes "exec_run (builder_step (V0_methods lib) u) calls (NewBatchBuilder conf (NewBatchV0Encoder target)) = Some (outs, b)"
    and "Stumbled \<notin> set outs"
  shows "V0_content (encoder b) @ concat (map (V0_raw lib) (pendingBlocks b)) = concat (map (V0_raw lib) (accepted_since [] calls outs))"
proof -
  let ?b = "NewBatchBuilder conf (NewBatchV0Encoder target)"
  have "contents (V0_raw lib) (path_abs V0_content ?b) = concat (map (V0_raw lib) [])" "V0_ready (encoder ?b)"
    by (simp_all add: contents_def path_abs_def NewBatchBuilder_def NewBatchV0Encoder_def V0_content_def V0_ready_def newSubBatch_def)
  from path_conserves [OF v0.data_path.run_simulates [OF this(2) assms(1)] assms(2) this(1)] show ?thesis
    by (simp add: contents_def path_abs_def)
qed

text \<open>
  C9: the disseminator keeps to the data path. Whatever the ticks, the answers of the clients and the errors, as long as
  nothing panics the service over the V0 builder only offers blocks that the execution client served, asks for
  batches, lets a batch go after it was posted on L1, and restarts from a safe head.
\<close>

theorem disseminator_follows_path:
  assumes "batchBuilder_ops d = batchBuilder_methods (V0_methods lib) u" "subBatches (encoder b) \<noteq> []"
    and "start d evs (b, w) = Some out" "out = Running (b', w') \<or> (\<exists>r. out = Returned r (b', w') \<and> no_panic r)"
  shows "(service_path (V0_raw lib) d)\<^sup>*\<^sup>* (path_abs V0_content b) (path_abs V0_content b')"
  using v0.start_path [OF assms(1) _ assms(3,4)] assms(2) by (simp add: V0_ready_def)

section \<open>A run\<close>

definition demo_calls :: "builder_call list" where
  "demo_calls = [CallEnqueue (demo_block 5 [demo_l2tx 1]), CallEnqueue (demo_block 7 [demo_l2tx 3]), CallEnqueue (demo_block 6 [demo_l2tx 2]),
     CallBuild EmptyBlockID, CallAdvance]"

definition demo_outs :: "path_out list" where
  "demo_outs = [Done, Refused, Done, NoBatch, Done]"

lemma demo_path_run:
  "\<exists>b. exec_run (builder_step (V0_methods demo_codec) demo_util) demo_calls (NewBatchBuilder demo_conf (NewBatchV0Encoder 40)) = Some (demo_outs, b)"
proof -
  have "map_option fst (exec_run (builder_step (V0_methods demo_codec) demo_util) demo_calls (NewBatchBuilder demo_conf (NewBatchV0Encoder 40))) =
      Some demo_outs" by code_simp
  then show ?thesis by auto
qed

theorem builder_refines_path_witness:
  "\<exists>s. spec_run (path_step (V0_raw demo_codec)) demo_calls [Done, Refused, Done, NoBatch, Done]
     (path_abs V0_content (NewBatchBuilder demo_conf (NewBatchV0Encoder 40))) s"
proof -
  obtain b where b: "exec_run (builder_step (V0_methods demo_codec) demo_util) demo_calls (NewBatchBuilder demo_conf (NewBatchV0Encoder 40)) =
      Some (demo_outs, b)" using demo_path_run by blast
  have "subBatches (encoder (NewBatchBuilder demo_conf (NewBatchV0Encoder 40))) \<noteq> []" by code_simp
  from builder_refines_path [OF this b] show ?thesis unfolding demo_outs_def by blast
qed

theorem builder_keeps_accepted_blocks_witness:
  "\<exists>b. exec_run (builder_step (V0_methods demo_codec) demo_util) demo_calls (NewBatchBuilder demo_conf (NewBatchV0Encoder 40)) =
       Some ([Done, Refused, Done, NoBatch, Done], b) \<and>
     V0_content (encoder b) @ concat (map (V0_raw demo_codec) (pendingBlocks b)) = [[[1, 1]], [[2, 2]]]"
proof -
  obtain b where b: "exec_run (builder_step (V0_methods demo_codec) demo_util) demo_calls (NewBatchBuilder demo_conf (NewBatchV0Encoder 40)) =
      Some (demo_outs, b)" using demo_path_run by blast
  have "Stumbled \<notin> set demo_outs" by (simp add: demo_outs_def)
  moreover have "concat (map (V0_raw demo_codec) (accepted_since [] demo_calls demo_outs)) = [[[1, 1]], [[2, 2]]]" by code_simp
  ultimately show ?thesis using builder_keeps_accepted_blocks [OF b] b unfolding demo_outs_def by auto
qed

theorem disseminator_follows_path_witness:
  "\<exists>b' w'. start demo_dis [Tick, CtxDone] (demo_fresh EmptyBlockID, []) = Some (Returned (Ok ()) (b', w')) \<and>
     (service_path (V0_raw demo_codec) demo_dis)\<^sup>*\<^sup>* (path_abs V0_content (demo_fresh EmptyBlockID)) (path_abs V0_content b')"
proof -
  have "case start demo_dis [Tick, CtxDone] (demo_fresh EmptyBlockID, []) of Some (Returned (Ok _) st) \<Rightarrow> True | _ \<Rightarrow> False" by code_simp
  then obtain b' w' where s: "start demo_dis [Tick, CtxDone] (demo_fresh EmptyBlockID, []) = Some (Returned (Ok ()) (b', w'))"
    by (auto split: option.splits service.splits outcome.splits)
  have "subBatches (encoder (demo_fresh EmptyBlockID)) \<noteq> []" by code_simp
  from disseminator_follows_path [OF demo_dis_ops this s] s show ?thesis by auto
qed

end
