(* ===== verification/Inbox_Contract.thy ===== *)
theory Inbox_Contract
  imports Go_Prelude
begin

text \<open>
  \<^verbatim>\<open>contracts/src/SequencerInbox.sol\<close>: the contract on L1 that the batches are posted to, and \<^verbatim>\<open>libraries/DeserializationLib.sol\<close>, which reads its
  inclusion proofs. \<open>keccak256\<close> and OpenZeppelin's pausing are parameters. Shown here: which batches are accepted, and that no inclusion proof is.
\<close>

section \<open>Storage and errors\<close>

record inbox =
  accumulators :: "hash list"
  sequencerAddress :: address

datatype inbox_error =
    NotSequencer address address | TxBatchDataUnderflow | TxBatchVersionIncorrect | ProofVerificationFailed | ZeroSequencer
  | TooShort | IndexOutOfBounds | InboxOverflow | InboxPaused

definition currentTxBatchVersion :: uint8 where "currentTxBatchVersion = 0"

definition inbox_initialize :: "address \<Rightarrow> inbox_error + inbox" where
  "inbox_initialize s = (if s = 0 then Inl ZeroSequencer else Inr \<lparr>accumulators = [], sequencerAddress = s\<rparr>)"

section \<open>Appending a batch\<close>

definition inbox_appendTxBatch :: "bool \<Rightarrow> address \<Rightarrow> bytes \<Rightarrow> inbox \<Rightarrow> inbox_error + inbox" where
  "inbox_appendTxBatch paused sender txBatchData s =
     (if paused then Inl InboxPaused
      else if sender \<noteq> sequencerAddress s then Inl (NotSequencer sender (sequencerAddress s))
      else case txBatchData of
             [] \<Rightarrow> Inl TxBatchDataUnderflow
           | txBatchVersion # _ \<Rightarrow> if txBatchVersion \<noteq> currentTxBatchVersion then Inl TxBatchVersionIncorrect else Inr s)"

section \<open>Inclusion proofs\<close>

definition deserializeWord :: "bytes \<Rightarrow> nat \<Rightarrow> inbox_error + nat \<times> 256 word" where
  "deserializeWord data startOffset =
     (if startOffset + 32 \<le> length data
      then Inr (startOffset + 32, word_of_int (dec_be (take 32 (drop startOffset data))))
      else Inl TooShort)"

text \<open>
  The loop over the transactions after the one to verify; \<open>keccak4\<close> is \<open>keccak256(abi.encodePacked(...))\<close> of the four words. The counter of
  the source is \<open>numTxsAfterInBatch\<close>, and every round reads 64 bytes.
\<close>

fun accumulate :: "(hash \<Rightarrow> 256 word \<Rightarrow> hash \<Rightarrow> hash \<Rightarrow> hash) \<Rightarrow> bytes \<Rightarrow> nat \<Rightarrow> nat \<Rightarrow> hash \<Rightarrow> 256 word \<Rightarrow> inbox_error + hash" where
  "accumulate keccak4 proof 0 offset acc numTxs = Inr acc"
| "accumulate keccak4 proof (Suc k) offset acc numTxs =
     (case deserializeWord proof offset of
        Inl e \<Rightarrow> Inl e
      | Inr (offset1, txContextHash) \<Rightarrow>
          (case deserializeWord proof offset1 of
             Inl e \<Rightarrow> Inl e
           | Inr (offset2, txDataHash) \<Rightarrow>
               if numTxs = - 1 then Inl InboxOverflow
               else accumulate keccak4 proof k offset2 (keccak4 acc numTxs txContextHash txDataHash) (numTxs + 1)))"

definition verifyTxInclusion ::
    "(bytes \<Rightarrow> hash) \<Rightarrow> (hash \<Rightarrow> 256 word \<Rightarrow> hash \<Rightarrow> hash \<Rightarrow> hash) \<Rightarrow> bytes \<Rightarrow> bytes \<Rightarrow> inbox \<Rightarrow> inbox_error + unit" where
  "verifyTxInclusion keccak keccak4 encodedTx proof s =
     (case deserializeWord proof 0 of Inl e \<Rightarrow> Inl e | Inr (o1, txContextHash) \<Rightarrow>
     (case deserializeWord proof o1 of Inl e \<Rightarrow> Inl e | Inr (o2, batchNum) \<Rightarrow>
     (case deserializeWord proof o2 of Inl e \<Rightarrow> Inl e | Inr (o3, numTxs) \<Rightarrow>
     (case deserializeWord proof o3 of Inl e \<Rightarrow> Inl e | Inr (o4, numTxsAfterInBatch) \<Rightarrow>
     (case deserializeWord proof o4 of Inl e \<Rightarrow> Inl e | Inr (o5, acc) \<Rightarrow>
        if numTxs = - 1 then Inl InboxOverflow
        else case accumulate keccak4 proof (unat numTxsAfterInBatch) o5 (keccak4 acc numTxs txContextHash (keccak encodedTx)) (numTxs + 1) of
               Inl e \<Rightarrow> Inl e
             | Inr final \<Rightarrow>
                 if unat batchNum < length (accumulators s)
                 then if final = accumulators s ! unat batchNum then Inr () else Inl ProofVerificationFailed
                 else Inl IndexOutOfBounds)))))"

section \<open>Properties\<close>

lemma inbox_appendTxBatch_iff:
  "inbox_appendTxBatch paused sender d s = Inr s' \<longleftrightarrow>
     \<not> paused \<and> sender = sequencerAddress s \<and> (\<exists>rest. d = 0 # rest) \<and> s' = s"
  by (auto simp: inbox_appendTxBatch_def currentTxBatchVersion_def split: list.splits)

definition inbox_after :: "inbox \<Rightarrow> bool \<times> address \<times> bytes \<Rightarrow> inbox" where
  "inbox_after s t = (case inbox_appendTxBatch (fst t) (fst (snd t)) (snd (snd t)) s of Inl e \<Rightarrow> s | Inr s' \<Rightarrow> s')"

interpretation inbox_unchanged: event_component inbox_after "\<lambda>s. s = s0" for s0
  by unfold_locales (auto simp: inbox_after_def inbox_appendTxBatch_iff split: sum.splits)

text \<open>
  No inclusion proof is ever accepted. The accumulators that a proof is compared with are never written, so after any batches
  the verification of a transaction fails, whatever the hash function and the proof.
\<close>

theorem no_inclusion_proof_verifies:
  assumes "inbox_initialize sequencer = Inr s0"
  shows "verifyTxInclusion keccak keccak4 encodedTx proof (foldl inbox_after s0 batches) \<noteq> Inr ()"
proof -
  have "foldl inbox_after s0 batches = s0" by (rule inbox_unchanged.run_inv) simp
  moreover have "accumulators s0 = []" using assms by (auto simp: inbox_initialize_def split: if_splits)
  ultimately show ?thesis by (auto simp: verifyTxInclusion_def split: sum.splits prod.splits if_splits)
qed

theorem no_inclusion_proof_verifies_witness:
  "verifyTxInclusion (\<lambda>_. 0) (\<lambda>_ _ _ _. 0) [1] (replicate 160 0) (foldl inbox_after \<lparr>accumulators = [], sequencerAddress = 3\<rparr> [(False, 3, [0, 7])]) \<noteq> Inr ()"
  by (rule no_inclusion_proof_verifies [of 3]) (simp add: inbox_initialize_def)

end
