(* ===== verification/Batch_Delivery.thy ===== *)
theory Batch_Delivery
  imports Data_Path Inbox_Contract
begin

text \<open>
  The way of a batch through all components: built by the builder over the V0 encoder, packed by the bridge, crafted and signed by the transaction
  manager, resubmitted by \<open>sendTx\<close> until a receipt is deep enough, and executed by the sequencer inbox.
\<close>

section \<open>What Send gives back\<close>

text \<open>A call that ends as the step relation of \<open>sendTx\<close> may end; the rest of \<open>Send\<close> takes it as an argument.\<close>

definition sendTx_call :: "'w TxManager \<Rightarrow> string \<Rightarrow> (Transaction \<Rightarrow> ('w, Receipt) call) \<Rightarrow> bool" where
  "sendTx_call m tooLow sendTx \<longleftrightarrow>
     (\<forall>tx w receipt w'. sendTx tx w = (Ok receipt, w') \<longrightarrow> (\<exists>s. sendTx_reachable m tooLow tx s \<and> result s = Some (Ok receipt)))"

lemma do_loop_returns: "do_loop env n op i err w = (Ok x, w') \<Longrightarrow> \<exists>w1. op w1 = (Ok x, w')"
proof (induction env n op i err w rule: do_loop.induct)
  case (1 env n op i err w)
  show ?case
  proof (cases "i < n \<and> ctx_Err env w = None")
    case True
    obtain r w1 where op: "op w = (r, w1)" by fastforce
    show ?thesis
    proof (cases r)
      case (Err e)
      with 1 True op show ?thesis by (simp add: do_loop.simps [of env n op i err w])
    qed (use 1 True op in \<open>auto simp: do_loop.simps [of env n op i err w]\<close>)
  next
    case False
    with 1(2) show ?thesis by (subst (asm) do_loop.simps) (auto split: if_splits option.splits)
  qed
qed

lemma Do_returns: "Do env n op w = (Ok x, w') \<Longrightarrow> \<exists>w1. op w1 = (Ok x, w')"
  by (auto simp: Do_def split: if_splits dest: do_loop_returns)

lemma craftTx_payload:
  assumes "signer_keeps m" "craftTx m cand sw = (Ok tx, sw')"
  shows "tx_To (inner tx) = cand_To cand \<and> tx_Data (inner tx) = cand_TxData cand \<and>
    tx_Value (inner tx) = Some (case cand_Value cand of None \<Rightarrow> 0 | Some x \<Rightarrow> x) \<and> tx_ChainID (inner tx) = cfg_ChainID (cfg m)"
proof -
  obtain raw w w' where "signer m (cfg_From (cfg m)) raw w = (Ok tx, w')" "tx_To raw = cand_To cand" "tx_Data raw = cand_TxData cand"
    "tx_Value raw = cand_Value cand" "tx_ChainID raw = cfg_ChainID (cfg m)"
    using assms(2) by (auto simp: craftTx_def Let_def split: prod.splits)
  with signer_keepsD [OF assms(1) this(1)] show ?thesis by (simp add: stored_def)
qed

definition signed_by :: "'w TxManager \<Rightarrow> Transaction \<Rightarrow> bool" where
  "signed_by m t \<longleftrightarrow> (\<exists>raw w w'. signer m (cfg_From (cfg m)) raw w = (Ok t, w'))"

lemma craftTx_signed: "craftTx m cand sw = (Ok tx, sw') \<Longrightarrow> signed_by m tx"
  by (auto simp: craftTx_def signed_by_def Let_def split: prod.splits)

lemma run_txs_signed:
  assumes "signer_keeps m" "signed_by m tx" "sendTx_reachable m tooLow tx s" "t \<in> run_txs s"
  shows "signed_by m t \<and> payload (inner t) = payload (inner tx)"
proof -
  have "\<forall>t\<in>run_txs s. signed_by m t \<and> payload (inner t) = payload (inner tx)"
    using assms(3)
  proof (rule sendTx_txs_induct)
    fix t t' w w'
    assume t: "signed_by m t \<and> payload (inner t) = payload (inner tx)" and i: "increaseGasPrice m t w = (Ok t', w')"
    from i have "t' = t \<or> signed_by m t'" by (cases rule: increaseGasPrice_Ok) (auto simp: signed_by_def)
    with t increaseGasPrice_payload [OF assms(1) i] show "signed_by m t' \<and> payload (inner t') = payload (inner tx)" by auto
  qed (simp add: assms(2))
  with assms(4) show ?thesis by blast
qed

text \<open>What a receipt from \<open>Send\<close> stands for.\<close>

definition delivered :: "'w TxManager \<Rightarrow> TxCandidate \<Rightarrow> Receipt \<Rightarrow> bool" where
  "delivered m cand receipt \<longleftrightarrow>
     (\<exists>t. signed_by m t \<and> seen_confirmed m t receipt \<and> tx_To (inner t) = cand_To cand \<and> tx_Data (inner t) = cand_TxData cand \<and>
        (case tx_Value (inner t) of None \<Rightarrow> 0 | Some x \<Rightarrow> x) = (case cand_Value cand of None \<Rightarrow> 0 | Some x \<Rightarrow> x) \<and>
        tx_ChainID (inner t) = cfg_ChainID (cfg m))"

lemma Send_delivers:
  assumes "signer_keeps m" "sendTx_call m tooLow sendTx" "Send m env sendTx cand sw = (Ok receipt, sw')"
  shows "delivered m cand receipt"
proof -
  have "send m env sendTx cand sw = (Ok receipt, sw')" using assms(3) by (auto simp: Send_def split: prod.splits outcome.splits)
  then obtain tx sw1 w where d: "Do env 10 (craftTx m cand) sw = (Ok tx, sw1)" and s: "sendTx tx (snd sw1) = (Ok receipt, w)"
    by (auto simp: send_def)
  obtain sw0 where "craftTx m cand sw0 = (Ok tx, sw1)" using Do_returns [OF d] by blast
  note p = craftTx_payload [OF assms(1) this] and sg = craftTx_signed [OF this]
  obtain r where r: "sendTx_reachable m tooLow tx r" "result r = Some (Ok receipt)" using assms(2) s unfolding sendTx_call_def by blast
  obtain t where t: "t \<in> goroutine_tx ` set (goroutines r)" "seen_confirmed m t receipt"
    using sendTx_reachable_receipts_ok [OF r(1)] r(2) unfolding receipts_ok_def by blast
  have st: "signed_by m t" "payload (inner t) = payload (inner tx)"
    using run_txs_signed [OF assms(1) sg r(1), of t] t(1) by (simp_all add: run_txs_def)
  from st(2) have "tx_ChainID (inner t) = tx_ChainID (inner tx)" "tx_To (inner t) = tx_To (inner tx)" "tx_Data (inner t) = tx_Data (inner tx)"
    "(case tx_Value (inner t) of None \<Rightarrow> 0 | Some x \<Rightarrow> x) = (case tx_Value (inner tx) of None \<Rightarrow> 0 | Some x \<Rightarrow> x)"
    by (simp_all add: payload_def)
  then show ?thesis unfolding delivered_def using t(2) p st(1) by (intro exI [of _ t]) simp
qed

lemma AppendTxBatch_delivers:
  assumes "signer_keeps m" "sendTx_call m tooLow sendTx" "EthTxManager_Send bm = Send m env sendTx" "AppendTxBatch bm batch sw = (Ok receipt, sw')"
  shows "\<exists>d. packAppendTxBatchInput (bridge_util bm) batch = Ok d \<and>
    delivered m \<lparr>cand_TxData = d, cand_To = Some (SequencerInboxAddr (bridge_cfg bm)), cand_GasLimit = 0, cand_Value = None\<rparr> receipt"
proof -
  obtain d where "packAppendTxBatchInput (bridge_util bm) batch = Ok d"
    "Send m env sendTx \<lparr>cand_TxData = d, cand_To = Some (SequencerInboxAddr (bridge_cfg bm)), cand_GasLimit = 0, cand_Value = None\<rparr> sw = (Ok receipt, sw')"
    using assms(3,4) by (auto simp: AppendTxBatch_def with_data_def split: outcome.splits)
  with Send_delivers [OF assms(1,2)] show ?thesis by blast
qed

section \<open>Properties\<close>

text \<open>
  C7: a batch is let go only after it is on L1. When \<open>disseminateBatch\<close> succeeds over the V0 builder with a newly built batch, the bridge and the transaction manager, then the
  node reported, deep enough, a receipt for a transaction that the transaction manager signed, on the configured chain, to the sequencer
  inbox, without value, whose data is the packing of exactly the batch that was built; and the inbox takes this
  batch from the sequencer unless it is paused.
\<close>

theorem batch_let_go_is_delivered:
  assumes "signer_keeps m" "sendTx_call m tooLow sendTx" "EthTxManager_Send bm = Send m env sendTx"
    and "l1TxMgr_AppendTxBatch d = AppendTxBatch bm" "batchBuilder_ops d = batchBuilder_methods (V0_methods lib) u"
    and "lastBuilt b = None" "disseminateBatch d (b, sw) = (Ok (), (b', sw'))"
  shows "\<exists>batch b1 dat t receipt. Build (V0_methods lib) u (l1State_Head d sw) b = (Ok batch, b1) \<and> b' = Advance b1 \<and>
    packAppendTxBatchInput (bridge_util bm) batch = Ok dat \<and> signed_by m t \<and> seen_confirmed m t receipt \<and>
    tx_To (inner t) = Some (SequencerInboxAddr (bridge_cfg bm)) \<and> tx_Data (inner t) = dat \<and>
    (case tx_Value (inner t) of None \<Rightarrow> 0 | Some x \<Rightarrow> x) = 0 \<and> tx_ChainID (inner t) = cfg_ChainID (cfg m) \<and>
    inbox_appendTxBatch False (sequencerAddress inbox) batch inbox = Inr inbox"
proof -
  obtain rb b1 where b1: "Build (V0_methods lib) u (l1State_Head d sw) b = (rb, b1)" by fastforce
  obtain batch where rb: "rb = Ok batch"
    using assms(5,7) b1 by (cases rb) (auto simp: disseminateBatch_def batchBuilder_methods_def)
  obtain ra sw1 where ra: "AppendTxBatch bm batch sw = (ra, sw1)" by (metis surj_pair)
  obtain receipt where rr: "ra = Ok receipt" "sw1 = sw'" "b' = Advance b1"
    using assms(4,5,7) b1 rb ra by (cases ra) (auto simp: disseminateBatch_def batchBuilder_methods_def)
  obtain f e e' where "GetBatch_V0 lib f e = (Ok batch, e')"
    using b1 rb assms(6) by (auto simp: Build_def getBatch_def Let_def V0_methods_def split: prod.splits outcome.splits if_splits)
  then have "inbox_appendTxBatch False (sequencerAddress inbox) batch inbox = Inr inbox"
    using GetBatch_V0_encodes by (fastforce simp: inbox_appendTxBatch_iff V0_def)
  moreover obtain dat t where "packAppendTxBatchInput (bridge_util bm) batch = Ok dat" "signed_by m t" "seen_confirmed m t receipt"
    "tx_To (inner t) = Some (SequencerInboxAddr (bridge_cfg bm))" "tx_Data (inner t) = dat" "(case tx_Value (inner t) of None \<Rightarrow> 0 | Some x \<Rightarrow> x) = 0"
    "tx_ChainID (inner t) = cfg_ChainID (cfg m)"
    using AppendTxBatch_delivers [OF assms(1-3)] ra rr(1) unfolding delivered_def by fastforce
  ultimately show ?thesis using b1 rb rr(3) by blast
qed

text \<open>
  The receipt's status is not looked at: a batch whose transaction reverted is let go like any other, and the builder forgets it.
\<close>

theorem reverted_batch_is_let_go:
  assumes "dis_Build (batchBuilder_ops d) (l1State_Head d w) b = (Ok batch, b1)" "l1TxMgr_AppendTxBatch d batch w = (Ok receipt, w')" "rc_Failed receipt"
  shows "disseminateBatch d (b, w) = (Ok (), (dis_Advance (batchBuilder_ops d) b1, w'))"
  using assms by (simp add: disseminateBatch_def)

section \<open>A run\<close>

text \<open>A node that accepts everything: the first transaction is published, found in block 5 at head 14, offered and returned.\<close>

definition node_receipt :: "Transaction \<Rightarrow> Receipt" where
  "node_receipt tx = \<lparr>rc_TxHash = tx_Hash tx, rc_BlockNumber = 5, rc_Failed = False\<rparr>"

definition demo_sendTx :: "Transaction \<Rightarrow> (nat, Receipt) call" where
  "demo_sendTx tx w = (Ok (node_receipt tx), w)"

lemma demo_init: "sendTx_init demo_mgr tx 0 5 = Ok (demo_run tx (demo_state 0 {}) None [Publishing tx] None None 5)"
  by (simp add: sendTx_init_def demo_defs NewSendStateWithNow_def)

lemma demo_published:
  "sendTx_step demo_mgr ''nonce too low'' (demo_run tx (demo_state 0 {}) None [Publishing tx] None None 5)
     (demo_run tx (demo_state 1 {}) None [Polling tx] None None 5)"
  using sendTx_step.publish_ok [of 0 "demo_run tx (demo_state 0 {}) None [Publishing tx] None None 5" tx demo_mgr 5 "''nonce too low''"]
  by (simp add: demo_defs send_state_defs)

lemma demo_polled:
  "sendTx_step demo_mgr ''nonce too low'' (demo_run tx (demo_state 1 {}) None [Polling tx] None None 5)
     (demo_run tx (demo_state 1 {tx_Hash tx}) None [Offering tx (node_receipt tx)] None None 5)"
proof -
  have "queryReceipt demo_mgr (tx_Hash tx) (demo_state 1 {}) 5 = (Ok (Some (node_receipt tx)), demo_state 1 {tx_Hash tx}, 5)"
    by (simp add: queryReceipt_def demo_defs node_receipt_def TxMined_def confirmed_def Let_def)
  then show ?thesis
    using sendTx_step.poll_receipt [of 0 "demo_run tx (demo_state 1 {}) None [Polling tx] None None 5" tx demo_mgr "node_receipt tx"
        "demo_state 1 {tx_Hash tx}" 5 "''nonce too low''"]
    by (simp add: demo_run_def)
qed

lemma demo_offered:
  "sendTx_step demo_mgr ''nonce too low'' (demo_run tx st None [Offering tx r] None None 5) (demo_run tx st (Some r) [Finished tx] None None 5)"
  using sendTx_step.offer [of 0 "demo_run tx st None [Offering tx r] None None 5" tx r demo_mgr "''nonce too low''"]
  by (simp add: demo_run_def)

lemma demo_received:
  "sendTx_step demo_mgr ''nonce too low'' (demo_run tx st (Some r) [Finished tx] None None 5) (demo_run tx st None [Finished tx] None (Some (Ok r)) 5)"
  using sendTx_step.received [of "demo_run tx st (Some r) [Finished tx] None None 5" r demo_mgr "''nonce too low''"]
  by (simp add: demo_run_def)

lemma demo_sendTx_call: "sendTx_call demo_mgr ''nonce too low'' demo_sendTx"
proof -
  have "\<exists>s. sendTx_reachable demo_mgr ''nonce too low'' tx s \<and> result s = Some (Ok (node_receipt tx))" for tx
  proof (intro exI conjI)
    show "sendTx_reachable demo_mgr ''nonce too low'' tx
        (demo_run tx (demo_state 1 {tx_Hash tx}) None [Finished tx] None (Some (Ok (node_receipt tx))) 5)"
      by (rule sendTx_reachable.step [OF sendTx_reachable.step [OF sendTx_reachable.step [OF sendTx_reachable.step
            [OF sendTx_reachable.start [OF demo_init] demo_published] demo_polled] demo_offered] demo_received])
  qed (simp add: demo_run_def)
  then show ?thesis by (auto simp: sendTx_call_def demo_sendTx_def)
qed

definition demo_manager :: "nat mgr_world bridge_TxManager" where
  "demo_manager = \<lparr>EthTxManager_Send = Send demo_mgr demo_env demo_sendTx, bridge_cfg = \<lparr>SequencerInboxAddr = 4, RollupAddr = 5\<rparr>, bridge_util = demo_util\<rparr>"

definition demo_sequencer :: "(BatchV0Encoder batchBuilder, nat mgr_world) BatchDisseminator" where
  "demo_sequencer = \<lparr>batchBuilder_ops = batchBuilder_methods (V0_methods demo_codec) demo_util,
     l1TxMgr_AppendTxBatch = AppendTxBatch demo_manager, l1State_Head = (\<lambda>w. EmptyBlockID),
     l2Client = \<lparr>l2_EnsureDialed = ret_call (), l2_BlockNumber = ret_call 7, l2_BlockByNumber = (\<lambda>i. ret_call (demo_block i [])),
       l2_HeaderByTag = (\<lambda>t. ret_call \<lparr>h_Number = 5, h_Hash = 5, h_ParentHash = 4\<rparr>)\<rparr>,
     ctx_Done = (\<lambda>w. False)\<rparr>"

theorem batch_let_go_is_delivered_witness:
  "\<exists>t receipt. signed_by demo_mgr t \<and> seen_confirmed demo_mgr t receipt \<and> tx_To (inner t) = Some 4 \<and> tx_Data (inner t) = [1, 2, 3, 4]"
proof -
  have fields: "EthTxManager_Send demo_manager = Send demo_mgr demo_env demo_sendTx" "l1TxMgr_AppendTxBatch demo_sequencer = AppendTxBatch demo_manager"
    "batchBuilder_ops demo_sequencer = batchBuilder_methods (V0_methods demo_codec) demo_util" "lastBuilt demo_builder = None"
    by (simp_all add: demo_manager_def demo_sequencer_def demo_builder_def)
  have "fst (disseminateBatch demo_sequencer (demo_builder, (None, 5))) = Ok ()" by code_simp
  then obtain b' sw' where d: "disseminateBatch demo_sequencer (demo_builder, (None, 5)) = (Ok (), (b', sw'))" by (metis prod.collapse)
  from batch_let_go_is_delivered [OF demo_hypotheses(1) demo_sendTx_call fields d, of undefined]
  show ?thesis by (auto simp: demo_manager_def packAppendTxBatchInput_def demo_util_def Let_def)
qed

theorem reverted_batch_is_let_go_witness:
  "disseminateBatch (demo_dis\<lparr>l1TxMgr_AppendTxBatch := (\<lambda>batch w. (Ok \<lparr>rc_TxHash = 1, rc_BlockNumber = 1, rc_Failed = True\<rparr>, w @ [batch]))\<rparr>)
     (demo_builder, []) = (Ok (), (Advance demo_built, [[0, 0xC2, 0xC0, 0xC0]]))"
proof -
  let ?d = "demo_dis\<lparr>l1TxMgr_AppendTxBatch := (\<lambda>batch w. (Ok \<lparr>rc_TxHash = 1, rc_BlockNumber = 1, rc_Failed = True\<rparr>, w @ [batch]))\<rparr>"
  have "Build (V0_methods demo_codec) demo_util EmptyBlockID demo_builder = (Ok [0, 0xC2, 0xC0, 0xC0], demo_built)" by code_simp
  then have "dis_Build (batchBuilder_ops ?d) (l1State_Head ?d []) demo_builder = (Ok [0, 0xC2, 0xC0, 0xC0], demo_built)"
    by (simp add: demo_dis_def batchBuilder_methods_def)
  from reverted_batch_is_let_go [OF this, of "\<lparr>rc_TxHash = 1, rc_BlockNumber = 1, rc_Failed = True\<rparr>"] show ?thesis
    by (simp add: demo_dis_def batchBuilder_methods_def)
qed

end
