(* ===== verification/Validator.thy ===== *)
theory Validator
  imports Disseminator
begin

text \<open>
  \<^verbatim>\<open>rollup/services/validator/validator.go\<close>: the service that asserts the L2 state on L1 and confirms
  assertions. Its own state is \<open>lastCreatedAssertionAttrs\<close>; the bridge client, the transaction manager
  and the L2 client are calls on a world \<open>'w\<close>. The event loop is the disseminator's \<open>service_loop\<close>.
\<close>

section \<open>State and interfaces\<close>

record IRollupStaker =
  IsStaked :: bool
  AssertionID :: big

record IRollupAssertion =
  StateHash :: hash
  BlockNum :: big

record 'w BridgeClient =
  br_GetRequiredStakeAmount :: "('w, big) call"
  br_GetStaker :: "address \<Rightarrow> ('w, IRollupStaker) call"
  br_GetAssertion :: "big \<Rightarrow> ('w, IRollupAssertion) call"
  br_RequireFirstUnresolvedAssertionIsConfirmable :: "('w, unit) call"

record 'w ValidatorTxManager =
  vt_Stake :: "big \<Rightarrow> ('w, Receipt) call"
  vt_CreateAssertion :: "hash \<Rightarrow> big \<Rightarrow> ('w, Receipt) call"
  vt_ConfirmFirstUnresolvedAssertion :: "('w, Receipt) call"

text \<open>The transaction manager the validator runs with is the bridge's.\<close>

definition bridge_methods :: "'w bridge_TxManager \<Rightarrow> 'w ValidatorTxManager" where
  "bridge_methods m = \<lparr>vt_Stake = Stake m, vt_CreateAssertion = CreateAssertion m,
     vt_ConfirmFirstUnresolvedAssertion = ConfirmFirstUnresolvedAssertion m\<rparr>"

text \<open>
  The client of \<^verbatim>\<open>rpc/bridge/bridge_client.go\<close> over the generated bindings of the rollup contract: every query is made on the latest block,
  with \<open>Pending\<close> false, which is the first argument of a binding.
\<close>

record 'w rollup_bindings =
  rb_RequireFirstUnresolvedAssertionIsConfirmable :: "bool \<Rightarrow> ('w, unit) call"
  rb_GetStaker :: "bool \<Rightarrow> address \<Rightarrow> ('w, IRollupStaker) call"
  rb_GetAssertion :: "bool \<Rightarrow> big \<Rightarrow> ('w, IRollupAssertion) call"
  rb_CurrentRequiredStake :: "bool \<Rightarrow> ('w, big) call"
  rb_GetLastConfirmedAssertionID :: "bool \<Rightarrow> ('w, big) call"

definition bc_GetStaker :: "'w rollup_bindings \<Rightarrow> address \<Rightarrow> ('w, IRollupStaker) call" where
  "bc_GetStaker r addr = rb_GetStaker r False addr"

definition bc_GetAssertion :: "'w rollup_bindings \<Rightarrow> big \<Rightarrow> ('w, IRollupAssertion) call" where
  "bc_GetAssertion r assertionID = rb_GetAssertion r False assertionID"

definition bc_GetLastConfirmedAssertionID :: "'w rollup_bindings \<Rightarrow> ('w, big) call" where
  "bc_GetLastConfirmedAssertionID r = rb_GetLastConfirmedAssertionID r False"

definition bc_GetRequiredStakeAmount :: "'w rollup_bindings \<Rightarrow> ('w, big) call" where
  "bc_GetRequiredStakeAmount r = rb_CurrentRequiredStake r False"

definition bc_RequireFirstUnresolvedAssertionIsConfirmable :: "'w rollup_bindings \<Rightarrow> ('w, unit) call" where
  "bc_RequireFirstUnresolvedAssertionIsConfirmable r = rb_RequireFirstUnresolvedAssertionIsConfirmable r False"

definition NewBridgeClient ::
    "(address \<Rightarrow> unit outcome) \<Rightarrow> (address \<Rightarrow> 'w rollup_bindings outcome) \<Rightarrow> bridgeConfig \<Rightarrow> 'w BridgeClient outcome" where
  "NewBridgeClient NewISequencerInbox NewIRollup conf =
     bind_out (NewISequencerInbox (SequencerInboxAddr conf)) (\<lambda>_.
     bind_out (NewIRollup (RollupAddr conf)) (\<lambda>r.
       Ok \<lparr>br_GetRequiredStakeAmount = bc_GetRequiredStakeAmount r, br_GetStaker = bc_GetStaker r, br_GetAssertion = bc_GetAssertion r,
           br_RequireFirstUnresolvedAssertionIsConfirmable = bc_RequireFirstUnresolvedAssertionIsConfirmable r\<rparr>))"

record 'w Validator =
  AccountAddr :: address
  v_l1TxMgr :: "'w ValidatorTxManager"
  l1BridgeClient :: "'w BridgeClient"
  v_l2Client :: "'w L2Client"

definition NewValidator :: "address \<Rightarrow> 'w ValidatorTxManager \<Rightarrow> 'w BridgeClient \<Rightarrow> 'w L2Client \<Rightarrow> 'w Validator" where
  "NewValidator addr txMgr bridgeClient client =
     \<lparr>AccountAddr = addr, v_l1TxMgr = txMgr, l1BridgeClient = bridgeClient, v_l2Client = client\<rparr>"

record assertionAttributes =
  l2BlockNum :: uint64
  l2VMHash :: hash

definition NoUnresolvedAssertionErr :: string where
  "NoUnresolvedAssertionErr =
     ''Error: VM Exception while processing transaction: reverted with custom error '' @ [CHR 0x27] @ ''NoUnresolvedAssertion()'' @ [CHR 0x27]"

definition ConfirmationPeriodPendingErr :: string where
  "ConfirmationPeriodPendingErr =
     ''Error: VM Exception while processing transaction: reverted with custom error '' @ [CHR 0x27] @ ''ConfirmationPeriodPending()'' @ [CHR 0x27]"

type_synonym 'w val_state = "assertionAttributes \<times> 'w"

section \<open>Operations\<close>

definition computeVmHash :: "Header \<Rightarrow> hash" where
  "computeVmHash header = h_Hash header"

definition getNextAssertionAttrs :: "'w Validator \<Rightarrow> ('w, assertionAttributes) call" where
  "getNextAssertionAttrs v =
     bind_call (wrap_call ''failed to get finalized assertion attrs'' (l2_HeaderByTag (v_l2Client v) Safe))
       (\<lambda>header. ret_call \<lparr>l2BlockNum = word_of_int (h_Number header), l2VMHash = computeVmHash header\<rparr>)"

definition createAssertion :: "'w Validator \<Rightarrow> ('w val_state, unit) call" where
  "createAssertion v =
     bind_call (wrap_call ''failed to get next assertion attrs'' (lift_call (getNextAssertionAttrs v))) (\<lambda>attrs st.
       if l2BlockNum attrs \<le> l2BlockNum (fst st) then (Ok (), st)
       else bind_call (lift_call (vt_CreateAssertion (v_l1TxMgr v) (l2VMHash attrs) (uint (l2BlockNum attrs))))
              (\<lambda>receipt (last', w). (Ok (), (if rc_Failed receipt then last' else attrs, w))) st)"

definition resolveFirstUnresolvedAssertion :: "'w Validator \<Rightarrow> ('w, unit) call" where
  "resolveFirstUnresolvedAssertion v w =
     (case br_RequireFirstUnresolvedAssertionIsConfirmable (l1BridgeClient v) w of
        (Err e, w1) \<Rightarrow>
          if error_msg e = NoUnresolvedAssertionErr \<or> error_msg e = ConfirmationPeriodPendingErr then (Ok (), w1)
          else (Err (unexpectedSystemStateError True
                  (''failed to validate assertion (breaks current assumptions): '' @ error_msg e)), w1)
      | (Panic p, w1) \<Rightarrow> (Panic p, w1)
      | (Ok _, w1) \<Rightarrow>
          bind_call (wrap_call ''failed to confirm assertion'' (vt_ConfirmFirstUnresolvedAssertion (v_l1TxMgr v)))
            (\<lambda>_. ret_call ()) w1)"

definition validator_rollback :: "'w Validator \<Rightarrow> ('w val_state, unit) call" where
  "validator_rollback v =
     bind_call (wrap_call ''failed to get staker'' (lift_call (br_GetStaker (l1BridgeClient v) (AccountAddr v)))) (\<lambda>staker.
     bind_call (wrap_call ''failed to get assertion'' (lift_call (br_GetAssertion (l1BridgeClient v) (AssertionID staker)))) (\<lambda>assertion (last', w).
       (Ok (), (\<lparr>l2BlockNum = word_of_int (BlockNum assertion), l2VMHash = StateHash assertion\<rparr>, w))))"

definition ensureStaked :: "'w Validator \<Rightarrow> ('w, unit) call" where
  "ensureStaked v =
     bind_call (wrap_call ''failed to get staker'' (br_GetStaker (l1BridgeClient v) (AccountAddr v))) (\<lambda>staker.
       if IsStaked staker then ret_call ()
       else bind_call (wrap_call ''failed to get stake amount'' (br_GetRequiredStakeAmount (l1BridgeClient v))) (\<lambda>amount.
            bind_call (wrap_call ''failed to stake'' (vt_Stake (v_l1TxMgr v) amount)) (\<lambda>_. ret_call ())))"

definition validateGenesis :: "'w Validator \<Rightarrow> ('w, unit) call" where
  "validateGenesis v =
     bind_call (wrap_call ''failed to get genesis assertion'' (br_GetAssertion (l1BridgeClient v) 0)) (\<lambda>assertion.
     bind_call (wrap_call ''failed to get L2 genesis block'' (l2_BlockByNumber (v_l2Client v) 0)) (\<lambda>genesisBlock.
       if StateHash assertion \<noteq> block_Hash genesisBlock
       then fail_call (NewError (''mismatching genesis on L1='' @ show_hash (StateHash assertion) @ '' vs L2='' @ show_hash (block_Hash genesisBlock)))
       else ret_call ()))"

definition validator_step :: "'w Validator \<Rightarrow> ('w val_state, unit) call" where
  "validator_step v =
     bind_call (wrap_call ''failed to create assertion'' (createAssertion v)) (\<lambda>_.
     bind_call (wrap_call ''failed to resolve assertion'' (lift_call (resolveFirstUnresolvedAssertion v))) (\<lambda>_. ret_call ()))"

definition validator_init :: "'w Validator \<Rightarrow> ('w val_state, unit) call" where
  "validator_init v =
     bind_call (wrap_call ''failed to validate genesis'' (lift_call (validateGenesis v))) (\<lambda>_.
     bind_call (wrap_call ''failed to ensure validator is staked'' (lift_call (ensureStaked v))) (\<lambda>_.
     wrap_call ''failed to initialize state'' (validator_rollback v)))"

definition validator_start :: "'w Validator \<Rightarrow> service_event list \<Rightarrow> 'w val_state \<Rightarrow> 'w val_state service option" where
  "validator_start v evs st =
     (case validator_init v st of
        (Err e, st1) \<Rightarrow> Some (Returned (Err e) st1)
      | (Panic p, st1) \<Rightarrow> Some (Returned (Panic p) st1)
      | (Ok _, st1) \<Rightarrow> service_loop (\<lambda>st. Some (validator_step v st)) evs st1)"

definition validator_Start :: "'w Validator \<Rightarrow> ('w val_state, unit) call" where
  "validator_Start v = wrap_call ''failed to create L2 client'' (lift_call (l2_EnsureDialed (v_l2Client v)))"

section \<open>Progress of the assertions\<close>

lemma createAssertion_last:
  assumes "createAssertion v (a, w) = (r, (a', w'))"
  shows "a' = a \<or> (\<exists>w1 receipt. vt_CreateAssertion (v_l1TxMgr v) (l2VMHash a') (uint (l2BlockNum a')) w1 = (Ok receipt, w') \<and>
    \<not> rc_Failed receipt \<and> l2BlockNum a < l2BlockNum a' \<and> r = Ok ())"
proof -
  obtain rn w1 where n: "getNextAssertionAttrs v w = (rn, w1)" by fastforce
  show ?thesis
  proof (cases rn)
    case (Ok attrs)
    obtain rc w2 where c: "vt_CreateAssertion (v_l1TxMgr v) (l2VMHash attrs) (uint (l2BlockNum attrs)) w1 = (rc, w2)" by fastforce
    show ?thesis
    proof (cases rc)
      case (Ok receipt)
      then show ?thesis
        using assms n \<open>rn = Ok attrs\<close> c
        by (auto simp: createAssertion_def bind_call_def wrap_call_def lift_call_def not_le split: if_splits)
    qed (use assms n \<open>rn = Ok attrs\<close> c in
        \<open>auto simp: createAssertion_def bind_call_def wrap_call_def lift_call_def split: if_splits\<close>)
  qed (use assms n in \<open>auto simp: createAssertion_def bind_call_def wrap_call_def lift_call_def\<close>)
qed

lemma validator_step_last:
  "fst (snd (validator_step v st)) = fst (snd (createAssertion v st))"
proof -
  obtain a w where st: "st = (a, w)" by fastforce
  obtain r a' w' where c: "createAssertion v (a, w) = (r, (a', w'))" by (metis prod.exhaust)
  have "fst (snd (bind_call (wrap_call m (lift_call f)) (\<lambda>_. ret_call ()) (a', w'))) = a'" for m and f :: "('a, unit) call"
    by (cases "f w'"; cases "fst (f w')") (auto simp: bind_call_def wrap_call_def lift_call_def ret_call_def)
  then show ?thesis
    using c by (cases r) (auto simp: st validator_step_def bind_call_def [of "wrap_call _ (createAssertion v)"] wrap_call_def [of _ "createAssertion v"])
qed

lemma validator_step_mono: "l2BlockNum (fst st) \<le> l2BlockNum (fst (snd (validator_step v st)))"
proof -
  obtain a w where st: "st = (a, w)" by fastforce
  obtain r a' w' where c: "createAssertion v (a, w) = (r, (a', w'))" by (metis prod.exhaust)
  from createAssertion_last [OF c] show ?thesis by (auto simp: validator_step_last st c)
qed

interpretation assertion_progress:
  monotone_component "\<lambda>st (_ :: unit). snd (validator_step v st)" "\<lambda>st. l2BlockNum (fst st)" for v
  by unfold_locales (rule validator_step_mono)

section \<open>Properties\<close>

text \<open>
  C21: assertions only go forward. Over any number of ticks the block number of the last created
  assertion does not decrease; and a tick that changes the record has published exactly the recorded
  block number and hash in a \<open>CreateAssertion\<close> transaction that did not revert, for a block later than
  the one recorded before.
\<close>

theorem assertions_only_advance:
  "l2BlockNum (fst st) \<le> l2BlockNum (fst (foldl (\<lambda>s (_ :: unit). snd (validator_step v s)) st ticks)) \<and>
   (fst (snd (validator_step v st)) = fst st \<or>
    (\<exists>a w1 w2 receipt. fst (snd (validator_step v st)) = a \<and> l2BlockNum (fst st) < l2BlockNum a \<and>
       vt_CreateAssertion (v_l1TxMgr v) (l2VMHash a) (uint (l2BlockNum a)) w1 = (Ok receipt, w2) \<and> \<not> rc_Failed receipt))"
proof
  show "l2BlockNum (fst st) \<le> l2BlockNum (fst (foldl (\<lambda>s (_ :: unit). snd (validator_step v s)) st ticks))"
    by (rule assertion_progress.run_mono)
  obtain a w where st: "st = (a, w)" by fastforce
  obtain r a' w' where c: "createAssertion v (a, w) = (r, (a', w'))" by (metis prod.exhaust)
  show "fst (snd (validator_step v st)) = fst st \<or>
    (\<exists>a w1 w2 receipt. fst (snd (validator_step v st)) = a \<and> l2BlockNum (fst st) < l2BlockNum a \<and>
       vt_CreateAssertion (v_l1TxMgr v) (l2VMHash a) (uint (l2BlockNum a)) w1 = (Ok receipt, w2) \<and> \<not> rc_Failed receipt)"
    using createAssertion_last [OF c] by (auto simp: validator_step_last st c)
qed

text \<open>
  A genesis that differs from the one asserted on L1 stops the validator before it does
  anything: \<open>start\<close> returns an error after the two reads, with no stake, no assertion and its state
  untouched, whatever events follow.
\<close>

theorem genesis_mismatch_stops_validator:
  assumes "br_GetAssertion (l1BridgeClient v) 0 w = (Ok a, w1)" "l2_BlockByNumber (v_l2Client v) 0 w1 = (Ok g, w2)"
    and "StateHash a \<noteq> block_Hash g"
  shows "\<exists>e. validator_start v evs (l, w) = Some (Returned (Err e) (l, w2))"
proof -
  have "\<exists>e. validateGenesis v w = (Err e, w2)"
    using assms by (simp add: validateGenesis_def bind_call_def wrap_call_def fail_call_def)
  then obtain e where "validateGenesis v w = (Err e, w2)" ..
  then show ?thesis
    by (simp add: validator_start_def validator_init_def bind_call_def wrap_call_def lift_call_def)
qed

text \<open>
  An assertion that cannot be confirmed for an unforeseen reason does not abort the validator. The
  error is returned as a pointer to \<open>unexpectedSystemStateError\<close>, \<open>start\<close> tests for the value type,
  and the loop goes on; the abort was meant for exactly this case.
\<close>

theorem unconfirmable_assertion_does_not_abort:
  assumes "createAssertion v st = (Ok (), (a, w1))"
    and "br_RequireFirstUnresolvedAssertionIsConfirmable (l1BridgeClient v) w1 = (Err e, w2)"
    and "error_msg e \<noteq> NoUnresolvedAssertionErr" "error_msg e \<noteq> ConfirmationPeriodPendingErr"
  shows "(\<exists>er. validator_step v st = (Err er, (a, w2)) \<and> errors_As er True ''unexpectedSystemStateError'') \<and>
    service_loop (\<lambda>s. Some (validator_step v s)) (Tick # evs) st =
    service_loop (\<lambda>s. Some (validator_step v s)) evs (a, w2)"
proof -
  have "resolveFirstUnresolvedAssertion v w1 = (Err (unexpectedSystemStateError True
      (''failed to validate assertion (breaks current assumptions): '' @ error_msg e)), w2)"
    using assms by (simp add: resolveFirstUnresolvedAssertion_def)
  then have "validator_step v st = (Err (Wrapped ''failed to resolve assertion'' (unexpectedSystemStateError True
      (''failed to validate assertion (breaks current assumptions): '' @ error_msg e))), (a, w2))"
    using assms(1) by (simp add: validator_step_def bind_call_def wrap_call_def lift_call_def)
  then show ?thesis by (simp add: unexpectedSystemStateError_def)
qed

definition demo_validator :: "unit Validator" where
  "demo_validator = \<lparr>AccountAddr = 1,
     v_l1TxMgr = \<lparr>vt_Stake = (\<lambda>a. fail_call (NewError ''no'')),
        vt_CreateAssertion = (\<lambda>h n. ret_call \<lparr>rc_TxHash = 9, rc_BlockNumber = 1, rc_Failed = False\<rparr>),
        vt_ConfirmFirstUnresolvedAssertion = fail_call (NewError ''no'')\<rparr>,
     l1BridgeClient = \<lparr>br_GetRequiredStakeAmount = ret_call 1,
        br_GetStaker = (\<lambda>a. ret_call \<lparr>IsStaked = True, AssertionID = 3\<rparr>),
        br_GetAssertion = (\<lambda>i. ret_call \<lparr>StateHash = 7, BlockNum = 2\<rparr>),
        br_RequireFirstUnresolvedAssertionIsConfirmable = fail_call (NewError ''reverted'')\<rparr>,
     v_l2Client = \<lparr>l2_EnsureDialed = ret_call (), l2_BlockNumber = ret_call 7,
        l2_BlockByNumber = (\<lambda>i. ret_call (demo_block 6 [])),
        l2_HeaderByTag = (\<lambda>t. ret_call \<lparr>h_Number = 5, h_Hash = 5, h_ParentHash = 4\<rparr>)\<rparr>\<rparr>"

theorem genesis_mismatch_stops_validator_witness:
  "\<exists>e. validator_start demo_validator [Tick] (\<lparr>l2BlockNum = 0, l2VMHash = 0\<rparr>, ()) =
     Some (Returned (Err e) (\<lparr>l2BlockNum = 0, l2VMHash = 0\<rparr>, ()))"
  by (rule genesis_mismatch_stops_validator [where a = "\<lparr>StateHash = 7, BlockNum = 2\<rparr>" and g = "demo_block 6 []" and ?w1.0 = "()"])
     code_simp+

theorem unconfirmable_assertion_does_not_abort_witness:
  "service_loop (\<lambda>s. Some (validator_step demo_validator s)) [Tick, CtxDone] (\<lparr>l2BlockNum = 2, l2VMHash = 0\<rparr>, ()) =
     Some (Returned (Ok ()) (\<lparr>l2BlockNum = 5, l2VMHash = 5\<rparr>, ()))"
proof -
  have "createAssertion demo_validator (\<lparr>l2BlockNum = 2, l2VMHash = 0\<rparr>, ()) = (Ok (), (\<lparr>l2BlockNum = 5, l2VMHash = 5\<rparr>, ()))"
    "br_RequireFirstUnresolvedAssertionIsConfirmable (l1BridgeClient demo_validator) () = (Err (NewError ''reverted''), ())"
    "error_msg (NewError ''reverted'') \<noteq> NoUnresolvedAssertionErr" "error_msg (NewError ''reverted'') \<noteq> ConfirmationPeriodPendingErr"
    by code_simp+
  from unconfirmable_assertion_does_not_abort [OF this, of "[CtxDone]"] show ?thesis by (simp only: service_loop.simps(2))
qed

end
