(* ===== verification/Rollup_Contract.thy ===== *)
theory Rollup_Contract
  imports Go_Prelude
begin

text \<open>
  \<^verbatim>\<open>contracts/src/Rollup.sol\<close>: the contract on L1 that the validator stakes in and asserts to. Its storage is a record, a mapping a
  function that is zero where nothing was written, and a transaction that reverts leaves the storage as it was. Arithmetic is checked, as in
  Solidity 0.8. OpenZeppelin's access control and pausing are parameters: every message carries their answers (\<open>is_validator\<close>, \<open>is_admin\<close>,
  \<open>when_not_paused\<close>), as it carries whether a callee accepts a payment. A payment is the last action of its function, so what the callee does in turn is a
  later transaction.
\<close>

section \<open>Storage\<close>

type_synonym uint256 = "256 word"

record ro_Staker =
  s_isStaked :: bool
  s_amountStaked :: uint256
  s_assertionID :: uint256
  s_currentChallenge :: address

record ro_Assertion =
  a_stateHash :: hash
  a_blockNum :: uint256
  a_parent :: uint256
  a_deadline :: uint256
  a_proposalTime :: uint256
  a_numStakers :: uint256
  a_childBlockNum :: uint256

record ro_Zombie =
  z_stakerAddress :: address
  z_lastAssertionID :: uint256

definition no_staker :: ro_Staker where
  "no_staker = \<lparr>s_isStaked = False, s_amountStaked = 0, s_assertionID = 0, s_currentChallenge = 0\<rparr>"

definition no_assertion :: ro_Assertion where
  "no_assertion = \<lparr>a_stateHash = 0, a_blockNum = 0, a_parent = 0, a_deadline = 0, a_proposalTime = 0, a_numStakers = 0, a_childBlockNum = 0\<rparr>"

text \<open>\<open>eth\<close> is \<open>address(this).balance\<close>; \<open>assertion_stakers\<close> and \<open>childStateHashes\<close> are the two mappings of \<open>AssertionState\<close>.\<close>

record rollup =
  confirmationPeriod :: uint256
  challengePeriod :: uint256
  minimumAssertionPeriod :: uint256
  baseStakeAmount :: uint256
  ro_vault :: address
  ro_daProvider :: address
  ro_verifier :: address
  lastResolvedAssertionID :: uint256
  lastConfirmedAssertionID :: uint256
  lastCreatedAssertionID :: uint256
  assertions :: "uint256 \<Rightarrow> ro_Assertion"
  assertion_stakers :: "uint256 \<Rightarrow> address \<Rightarrow> bool"
  childStateHashes :: "uint256 \<Rightarrow> hash \<Rightarrow> bool"
  numStakers :: uint256
  stakers :: "address \<Rightarrow> ro_Staker"
  withdrawableFunds :: "address \<Rightarrow> uint256"
  zombies :: "ro_Zombie list"
  eth :: nat

datatype rollup_error =
    InvalidConfigChange | InvalidInboxSize | DuplicateAssertion | NotStaked | InsufficientStake | StakedOnUnconfirmedAssertion
  | TransferFailed | AssertionOutOfRange | ParentAssertionUnstaked | MinimumAssertionPeriodNotPassed | EmptyAssertion | WrongOrder
  | UnproposedAssertion | AssertionAlreadyResolved | NoUnresolvedAssertion | ConfirmationPeriodPending | NotSiblings | InvalidParent
  | NotInChallenge | InDifferentChallenge address address | ChallengedStaker | NotAllStaked | StakerStakedOnTarget | StakersPresent
  | NoStaker | NotChallengeManager address address | ZeroAddress | MissingRole | EnforcedPause | ArithmeticPanic | ChallengeReverted

record msg_env =
  msg_sender :: address
  msg_value :: uint256
  block_number :: uint256
  is_validator :: bool
  is_admin :: bool
  when_not_paused :: bool
  callee_accepts :: "address \<Rightarrow> bool"
  new_challenge :: address
  challenge_initialized :: bool

section \<open>Reverts and checked arithmetic\<close>

definition bind_r :: "'e + 'a \<Rightarrow> ('a \<Rightarrow> 'e + 'b) \<Rightarrow> 'e + 'b" where
  "bind_r r f = (case r of Inl e \<Rightarrow> Inl e | Inr x \<Rightarrow> f x)"

lemma bind_r_Inr [simp]: "bind_r r f = Inr y \<longleftrightarrow> (\<exists>x. r = Inr x \<and> f x = Inr y)"
  by (cases r) (auto simp: bind_r_def)

lemma bind_r_left [simp]: "bind_r (Inr x) f = f x" "bind_r (Inl e) f = Inl e"
  by (simp_all add: bind_r_def)

definition req :: "bool \<Rightarrow> rollup_error \<Rightarrow> rollup_error + unit" where
  "req b e = (if b then Inr () else Inl e)"

lemma req_Inr [simp]: "req b e = Inr u \<longleftrightarrow> b"
  by (simp add: req_def)

definition add_u :: "uint256 \<Rightarrow> uint256 \<Rightarrow> rollup_error + uint256" where
  "add_u a b = (if uint a + uint b < 2 ^ 256 then Inr (a + b) else Inl ArithmeticPanic)"

definition sub_u :: "uint256 \<Rightarrow> uint256 \<Rightarrow> rollup_error + uint256" where
  "sub_u a b = (if b \<le> a then Inr (a - b) else Inl ArithmeticPanic)"

lemma add_u_Inr [simp]: "add_u a b = Inr c \<longleftrightarrow> unat a + unat b < 2 ^ 256 \<and> c = a + b"
proof -
  have "uint a + uint b < 2 ^ 256 \<longleftrightarrow> int (unat a + unat b) < int (2 ^ 256)" by simp
  then have "uint a + uint b < 2 ^ 256 \<longleftrightarrow> unat a + unat b < 2 ^ 256" by (simp only: of_nat_less_iff)
  then show ?thesis by (auto simp: add_u_def)
qed

lemma sub_u_Inr [simp]: "sub_u a b = Inr c \<longleftrightarrow> b \<le> a \<and> c = a - b"
  by (auto simp: sub_u_def)

text \<open>\<open>addr.call{value: n}("")\<close>, with the revert that follows a failure.\<close>

definition pay :: "msg_env \<Rightarrow> address \<Rightarrow> uint256 \<Rightarrow> rollup \<Rightarrow> rollup_error + rollup" where
  "pay env a n c =
     (if callee_accepts env a \<and> unat n \<le> eth c then Inr (c\<lparr>eth := eth c - unat n\<rparr>) else Inl TransferFailed)"

section \<open>Internal functions\<close>

definition ro_isStaked :: "rollup \<Rightarrow> address \<Rightarrow> bool" where
  "ro_isStaked c a = s_isStaked (stakers c a)"

definition requireStaked :: "rollup \<Rightarrow> address \<Rightarrow> rollup_error + unit" where
  "requireStaked c a = req (ro_isStaked c a) NotStaked"

definition requireUnchallengedStaker :: "rollup \<Rightarrow> address \<Rightarrow> rollup_error + unit" where
  "requireUnchallengedStaker c a =
     bind_r (requireStaked c a) (\<lambda>_. req (s_currentChallenge (stakers c a) = 0) ChallengedStaker)"

definition stakeOnAssertion :: "address \<Rightarrow> uint256 \<Rightarrow> rollup \<Rightarrow> rollup_error + rollup" where
  "stakeOnAssertion a i c =
     bind_r (add_u (a_numStakers (assertions c i)) 1) (\<lambda>n.
       Inr (c\<lparr>stakers := (stakers c)(a := (stakers c a)\<lparr>s_assertionID := i\<rparr>),
              assertions := (assertions c)(i := (assertions c i)\<lparr>a_numStakers := n\<rparr>),
              assertion_stakers := (assertion_stakers c)(i := (assertion_stakers c i)(a := True))\<rparr>))"

definition createAssertionHelper ::
    "msg_env \<Rightarrow> uint256 \<Rightarrow> hash \<Rightarrow> uint256 \<Rightarrow> uint256 \<Rightarrow> uint256 \<Rightarrow> rollup \<Rightarrow> rollup_error + rollup" where
  "createAssertionHelper env assertionID stateHash blockNum parentID deadline c =
     (let parentBlockNum = a_blockNum (assertions c parentID) in
      bind_r
        (if parentBlockNum = 0
         then Inr (c\<lparr>assertions := (assertions c)(parentID := (assertions c parentID)\<lparr>a_blockNum := blockNum\<rparr>)\<rparr>)
         else if blockNum \<noteq> parentBlockNum then Inl InvalidInboxSize
         else if childStateHashes c parentID stateHash then Inl DuplicateAssertion
         else Inr c) (\<lambda>c1.
      Inr (c1\<lparr>childStateHashes := (childStateHashes c1)(parentID := (childStateHashes c1 parentID)(stateHash := True)),
              assertions := (assertions c1)(assertionID :=
                \<lparr>a_stateHash = stateHash, a_blockNum = blockNum, a_parent = parentID, a_deadline = deadline,
                 a_proposalTime = block_number env, a_numStakers = 0, a_childBlockNum = 0\<rparr>)\<rparr>)))"

definition deleteStaker :: "address \<Rightarrow> rollup \<Rightarrow> rollup_error + rollup" where
  "deleteStaker a c =
     bind_r (sub_u (numStakers c) 1) (\<lambda>n. Inr (c\<lparr>numStakers := n, stakers := (stakers c)(a := no_staker)\<rparr>))"

definition getChallenge :: "rollup \<Rightarrow> address \<Rightarrow> address \<Rightarrow> rollup_error + address" where
  "getChallenge c a b =
     (let challenge = s_currentChallenge (stakers c a) in
      bind_r (req (challenge \<noteq> 0) NotInChallenge) (\<lambda>_.
      bind_r (req (challenge = s_currentChallenge (stakers c b)) (InDifferentChallenge challenge (s_currentChallenge (stakers c b)))) (\<lambda>_.
        Inr challenge)))"

definition newAssertionDeadline :: "msg_env \<Rightarrow> rollup \<Rightarrow> rollup_error + uint256" where
  "newAssertionDeadline env c = add_u (block_number env) (confirmationPeriod c)"

fun count_zombies :: "(address \<Rightarrow> bool) \<Rightarrow> ro_Zombie list \<Rightarrow> uint256 \<Rightarrow> rollup_error + uint256" where
  "count_zombies on [] n = Inr n"
| "count_zombies on (z # zs) n =
     (if on (z_stakerAddress z) then bind_r (add_u n 1) (count_zombies on zs) else count_zombies on zs n)"

definition countStakedZombies :: "rollup \<Rightarrow> uint256 \<Rightarrow> rollup_error + uint256" where
  "countStakedZombies c i = count_zombies (assertion_stakers c i) (zombies c) 0"

section \<open>Views\<close>

definition currentRequiredStake :: "rollup \<Rightarrow> uint256" where
  "currentRequiredStake c = baseStakeAmount c"

definition confirmedBlockNum :: "rollup \<Rightarrow> uint256" where
  "confirmedBlockNum c = a_blockNum (assertions c (lastConfirmedAssertionID c))"

definition ro_getStaker :: "rollup \<Rightarrow> address \<Rightarrow> ro_Staker" where
  "ro_getStaker c a = stakers c a"

definition ro_getAssertion :: "rollup \<Rightarrow> uint256 \<Rightarrow> ro_Assertion" where
  "ro_getAssertion c i = assertions c i"

definition isStakedOnAssertion :: "rollup \<Rightarrow> uint256 \<Rightarrow> address \<Rightarrow> bool" where
  "isStakedOnAssertion c i a = assertion_stakers c i a"

definition requireFirstUnresolvedAssertionIsConfirmable :: "msg_env \<Rightarrow> rollup \<Rightarrow> rollup_error + unit" where
  "requireFirstUnresolvedAssertionIsConfirmable env c =
     bind_r (req (lastResolvedAssertionID c < lastCreatedAssertionID c) NoUnresolvedAssertion) (\<lambda>_.
     bind_r (req (0 < numStakers c) NoStaker) (\<lambda>_.
     bind_r (add_u (lastResolvedAssertionID c) 1) (\<lambda>firstUnresolvedID.
     bind_r (req (a_deadline (assertions c firstUnresolvedID) \<le> block_number env) ConfirmationPeriodPending) (\<lambda>_.
     bind_r (req (a_parent (assertions c firstUnresolvedID) = lastConfirmedAssertionID c) InvalidParent) (\<lambda>_.
     bind_r (countStakedZombies c firstUnresolvedID) (\<lambda>z.
     bind_r (add_u z (numStakers c)) (\<lambda>n.
       req (a_numStakers (assertions c firstUnresolvedID) = n) NotAllStaked)))))))"

definition requireFirstUnresolvedAssertionIsRejectable :: "msg_env \<Rightarrow> address \<Rightarrow> rollup \<Rightarrow> rollup_error + unit" where
  "requireFirstUnresolvedAssertionIsRejectable env stakerAddress c =
     bind_r (req (lastResolvedAssertionID c < lastCreatedAssertionID c) NoUnresolvedAssertion) (\<lambda>_.
     bind_r (add_u (lastResolvedAssertionID c) 1) (\<lambda>first.
       if a_parent (assertions c first) = lastConfirmedAssertionID c then
         bind_r (req (a_deadline (assertions c first) \<le> block_number env) ConfirmationPeriodPending) (\<lambda>_.
         bind_r (req (s_isStaked (stakers c stakerAddress)) NotStaked) (\<lambda>_.
         bind_r (req (first \<le> s_assertionID (stakers c stakerAddress)) AssertionAlreadyResolved) (\<lambda>_.
         bind_r (req (\<not> assertion_stakers c first stakerAddress) StakerStakedOnTarget) (\<lambda>_.
         bind_r (countStakedZombies c first) (\<lambda>z.
           req (a_numStakers (assertions c first) = z) StakersPresent)))))
       else Inr ()))"

section \<open>Transactions\<close>

record ro_init_args =
  init_vault :: address
  init_daProvider :: address
  init_verifier :: address
  init_confirmationPeriod :: uint256
  init_challengePeriod :: uint256
  init_minimumAssertionPeriod :: uint256
  init_baseStakeAmount :: uint256
  init_assertionID :: uint256
  init_blockNum :: uint256
  init_vmHash :: hash

text \<open>The storage before \<open>initialize\<close>; it runs once, on this storage.\<close>

definition ro_blank :: rollup where
  "ro_blank = \<lparr>confirmationPeriod = 0, challengePeriod = 0, minimumAssertionPeriod = 0, baseStakeAmount = 0, ro_vault = 0,
     ro_daProvider = 0, ro_verifier = 0, lastResolvedAssertionID = 0, lastConfirmedAssertionID = 0, lastCreatedAssertionID = 0,
     assertions = (\<lambda>_. no_assertion), assertion_stakers = (\<lambda>_ _. False), childStateHashes = (\<lambda>_ _. False), numStakers = 0,
     stakers = (\<lambda>_. no_staker), withdrawableFunds = (\<lambda>_. 0), zombies = [], eth = 0\<rparr>"

definition ro_initialize :: "msg_env \<Rightarrow> ro_init_args \<Rightarrow> rollup_error + rollup" where
  "ro_initialize env args =
     bind_r (req (init_vault args \<noteq> 0 \<and> init_daProvider args \<noteq> 0 \<and> init_verifier args \<noteq> 0) ZeroAddress) (\<lambda>_.
       createAssertionHelper env (init_assertionID args) (init_vmHash args) (init_blockNum args) (init_assertionID args) (block_number env)
         (ro_blank\<lparr>ro_vault := init_vault args, ro_daProvider := init_daProvider args, ro_verifier := init_verifier args,
            confirmationPeriod := init_confirmationPeriod args, challengePeriod := init_challengePeriod args,
            minimumAssertionPeriod := init_minimumAssertionPeriod args, baseStakeAmount := init_baseStakeAmount args,
            lastResolvedAssertionID := init_assertionID args, lastConfirmedAssertionID := init_assertionID args,
            lastCreatedAssertionID := init_assertionID args\<rparr>))"

definition set_config :: "msg_env \<Rightarrow> bool \<Rightarrow> (rollup \<Rightarrow> rollup) \<Rightarrow> rollup \<Rightarrow> rollup_error + rollup" where
  "set_config env ok f c =
     bind_r (req (is_admin env) MissingRole) (\<lambda>_. bind_r (req ok InvalidConfigChange) (\<lambda>_. Inr (f c)))"

definition setDAProvider :: "msg_env \<Rightarrow> address \<Rightarrow> rollup \<Rightarrow> rollup_error + rollup" where
  "setDAProvider env p c = set_config env (lastCreatedAssertionID c \<le> lastResolvedAssertionID c) (ro_daProvider_update (\<lambda>_. p)) c"

definition setConfirmationPeriod :: "msg_env \<Rightarrow> uint256 \<Rightarrow> rollup \<Rightarrow> rollup_error + rollup" where
  "setConfirmationPeriod env p c = set_config env (lastCreatedAssertionID c \<le> lastResolvedAssertionID c) (confirmationPeriod_update (\<lambda>_. p)) c"

definition setChallengePeriod :: "msg_env \<Rightarrow> uint256 \<Rightarrow> rollup \<Rightarrow> rollup_error + rollup" where
  "setChallengePeriod env p c = set_config env (lastCreatedAssertionID c \<le> lastResolvedAssertionID c) (challengePeriod_update (\<lambda>_. p)) c"

definition setMinimumAssertionPeriod :: "msg_env \<Rightarrow> uint256 \<Rightarrow> rollup \<Rightarrow> rollup_error + rollup" where
  "setMinimumAssertionPeriod env p c =
     set_config env (lastCreatedAssertionID c \<le> lastResolvedAssertionID c) (minimumAssertionPeriod_update (\<lambda>_. p)) c"

definition setBaseStakeAmount :: "msg_env \<Rightarrow> uint256 \<Rightarrow> rollup \<Rightarrow> rollup_error + rollup" where
  "setBaseStakeAmount env n c =
     set_config env (lastCreatedAssertionID c = lastResolvedAssertionID c \<and> n \<le> baseStakeAmount c) (baseStakeAmount_update (\<lambda>_. n)) c"

definition ro_stake :: "msg_env \<Rightarrow> rollup \<Rightarrow> rollup_error + rollup" where
  "ro_stake env c =
     bind_r (req (is_validator env) MissingRole) (\<lambda>_.
       let a = msg_sender env; c0 = c\<lparr>eth := eth c + unat (msg_value env)\<rparr> in
       if ro_isStaked c0 a then
         bind_r (add_u (s_amountStaked (stakers c0 a)) (msg_value env)) (\<lambda>n.
           Inr (c0\<lparr>stakers := (stakers c0)(a := (stakers c0 a)\<lparr>s_amountStaked := n\<rparr>)\<rparr>))
       else
         bind_r (req (baseStakeAmount c0 \<le> msg_value env) InsufficientStake) (\<lambda>_.
         bind_r (add_u (numStakers c0) 1) (\<lambda>n.
           stakeOnAssertion a (lastConfirmedAssertionID c0)
             (c0\<lparr>stakers := (stakers c0)(a := \<lparr>s_isStaked = True, s_amountStaked = msg_value env, s_assertionID = 0, s_currentChallenge = 0\<rparr>),
                 numStakers := n\<rparr>))))"

definition ro_unstake :: "msg_env \<Rightarrow> uint256 \<Rightarrow> rollup \<Rightarrow> rollup_error + rollup" where
  "ro_unstake env stakeAmount c =
     (let a = msg_sender env; st = stakers c a in
      bind_r (requireStaked c a) (\<lambda>_.
      bind_r (req (s_assertionID st \<le> lastConfirmedAssertionID c) StakedOnUnconfirmedAssertion) (\<lambda>_.
      bind_r (sub_u (s_amountStaked st) (currentRequiredStake c)) (\<lambda>free.
      bind_r (req (stakeAmount \<le> free) InsufficientStake) (\<lambda>_.
      bind_r (sub_u (s_amountStaked st) stakeAmount) (\<lambda>rest.
        pay env a stakeAmount (c\<lparr>stakers := (stakers c)(a := st\<lparr>s_amountStaked := rest\<rparr>)\<rparr>)))))))"

definition ro_removeStake :: "msg_env \<Rightarrow> address \<Rightarrow> rollup \<Rightarrow> rollup_error + rollup" where
  "ro_removeStake env a c =
     bind_r (req (is_validator env) MissingRole) (\<lambda>_.
     bind_r (requireStaked c a) (\<lambda>_.
     bind_r (req (s_assertionID (stakers c a) \<le> lastConfirmedAssertionID c) StakedOnUnconfirmedAssertion) (\<lambda>_.
     bind_r (deleteStaker a c) (\<lambda>c1. pay env a (s_amountStaked (stakers c a)) c1))))"

definition ro_advanceStake :: "msg_env \<Rightarrow> uint256 \<Rightarrow> rollup \<Rightarrow> rollup_error + rollup" where
  "ro_advanceStake env i c =
     (let a = msg_sender env in
      bind_r (requireStaked c a) (\<lambda>_.
      bind_r (req (when_not_paused env) EnforcedPause) (\<lambda>_.
      bind_r (req (is_validator env) MissingRole) (\<lambda>_.
      bind_r (req (s_assertionID (stakers c a) < i \<and> i \<le> lastCreatedAssertionID c) AssertionOutOfRange) (\<lambda>_.
      bind_r (req (s_assertionID (stakers c a) = a_parent (assertions c i)) ParentAssertionUnstaked) (\<lambda>_.
        stakeOnAssertion a i c))))))"

definition ro_withdraw :: "msg_env \<Rightarrow> rollup \<Rightarrow> rollup_error + rollup" where
  "ro_withdraw env c =
     (let a = msg_sender env in pay env a (withdrawableFunds c a) (c\<lparr>withdrawableFunds := (withdrawableFunds c)(a := 0)\<rparr>))"

definition ro_createAssertion :: "msg_env \<Rightarrow> hash \<Rightarrow> uint256 \<Rightarrow> rollup \<Rightarrow> rollup_error + rollup" where
  "ro_createAssertion env vmHash blockNum c =
     (let a = msg_sender env; parentID = s_assertionID (stakers c a) in
      bind_r (requireStaked c a) (\<lambda>_.
      bind_r (req (when_not_paused env) EnforcedPause) (\<lambda>_.
      bind_r (req (is_validator env) MissingRole) (\<lambda>_.
      bind_r (sub_u (block_number env) (a_proposalTime (assertions c parentID))) (\<lambda>age.
      bind_r (req (minimumAssertionPeriod c \<le> age) MinimumAssertionPeriodNotPassed) (\<lambda>_.
      bind_r (req (a_blockNum (assertions c parentID) < blockNum) EmptyAssertion) (\<lambda>_.
      bind_r (add_u (lastCreatedAssertionID c) 1) (\<lambda>i.
      bind_r (newAssertionDeadline env c) (\<lambda>deadline.
      bind_r (createAssertionHelper env i vmHash blockNum parentID deadline (c\<lparr>lastCreatedAssertionID := i\<rparr>)) (\<lambda>c1.
        stakeOnAssertion a i c1))))))))))"

definition ro_challengeAssertion :: "msg_env \<Rightarrow> address \<times> address \<Rightarrow> uint256 \<times> uint256 \<Rightarrow> rollup \<Rightarrow> rollup_error + rollup" where
  "ro_challengeAssertion env players ids c =
     (let (defender, challenger) = players; (defenderID, challengerID) = ids; parentID = a_parent (assertions c defenderID) in
      bind_r (req (is_validator env) MissingRole) (\<lambda>_.
      bind_r (req (defenderID < challengerID) WrongOrder) (\<lambda>_.
      bind_r (req (challengerID \<le> lastCreatedAssertionID c) UnproposedAssertion) (\<lambda>_.
      bind_r (req (lastConfirmedAssertionID c < defenderID) AssertionAlreadyResolved) (\<lambda>_.
      bind_r (req (parentID = a_parent (assertions c challengerID)) NotSiblings) (\<lambda>_.
      bind_r (requireUnchallengedStaker c defender) (\<lambda>_.
      bind_r (requireUnchallengedStaker c challenger) (\<lambda>_.
        let st1 = (stakers c)(challenger := (stakers c challenger)\<lparr>s_currentChallenge := new_challenge env\<rparr>);
            st2 = st1(defender := (st1 defender)\<lparr>s_currentChallenge := new_challenge env\<rparr>) in
        bind_r (req (challenge_initialized env) ChallengeReverted) (\<lambda>_. Inr (c\<lparr>stakers := st2\<rparr>))))))))))"

definition ro_confirmFirstUnresolvedAssertion :: "msg_env \<Rightarrow> rollup \<Rightarrow> rollup_error + rollup" where
  "ro_confirmFirstUnresolvedAssertion env c =
     bind_r (req (is_validator env) MissingRole) (\<lambda>_.
     bind_r (requireFirstUnresolvedAssertionIsConfirmable env c) (\<lambda>_.
     bind_r (add_u (lastResolvedAssertionID c) 1) (\<lambda>i.
       Inr (c\<lparr>lastResolvedAssertionID := i, lastConfirmedAssertionID := i\<rparr>))))"

definition ro_rejectFirstUnresolvedAssertion :: "msg_env \<Rightarrow> address \<Rightarrow> rollup \<Rightarrow> rollup_error + rollup" where
  "ro_rejectFirstUnresolvedAssertion env a c =
     bind_r (req (is_validator env) MissingRole) (\<lambda>_.
     bind_r (requireFirstUnresolvedAssertionIsRejectable env a c) (\<lambda>_.
     bind_r (add_u (lastResolvedAssertionID c) 1) (\<lambda>i.
       Inr (c\<lparr>lastResolvedAssertionID := i, assertions := (assertions c)(i := no_assertion)\<rparr>))))"

text \<open>The first half of \<open>completeChallenge\<close>: a larger stake of the loser is cut to the winner's and the difference refunded.\<close>

definition cut_stake :: "address \<Rightarrow> address \<Rightarrow> rollup \<Rightarrow> rollup_error + rollup" where
  "cut_stake winner loser c =
     (let remaining = s_amountStaked (stakers c loser); winnerStake = s_amountStaked (stakers c winner) in
      if winnerStake < remaining then
        bind_r (add_u (withdrawableFunds c loser) (remaining - winnerStake)) (\<lambda>f.
          Inr (c\<lparr>stakers := (stakers c)(loser := (stakers c loser)\<lparr>s_amountStaked := winnerStake\<rparr>),
                 withdrawableFunds := (withdrawableFunds c)(loser := f)\<rparr>))
      else Inr c)"

definition ro_completeChallenge :: "msg_env \<Rightarrow> address \<Rightarrow> address \<Rightarrow> rollup \<Rightarrow> rollup_error + rollup" where
  "ro_completeChallenge env winner loser c =
     bind_r (getChallenge c winner loser) (\<lambda>challenge.
     bind_r (req (msg_sender env = challenge) (NotChallengeManager (msg_sender env) challenge)) (\<lambda>_.
     bind_r (cut_stake winner loser c) (\<lambda>c1.
       let remaining = s_amountStaked (stakers c1 loser); amountWon = remaining div 2 in
       bind_r (add_u (s_amountStaked (stakers c1 winner)) amountWon) (\<lambda>won.
       let c2 = c1\<lparr>stakers := (stakers c1)(winner := (stakers c1 winner)\<lparr>s_amountStaked := won, s_currentChallenge := 0\<rparr>)\<rparr> in
       bind_r (add_u (withdrawableFunds c2 (ro_vault c2)) (remaining - amountWon)) (\<lambda>f.
       let c3 = c2\<lparr>withdrawableFunds := (withdrawableFunds c2)(ro_vault c2 := f)\<rparr> in
       bind_r (deleteStaker loser c3) (\<lambda>c4.
         Inr (c4\<lparr>zombies := zombies c4 @ [\<lparr>z_stakerAddress = loser, z_lastAssertionID = s_assertionID (stakers c3 loser)\<rparr>]\<rparr>)))))))"

datatype ro_tx =
    TxStake | TxUnstake uint256 | TxRemoveStake address | TxAdvanceStake uint256 | TxWithdraw | TxCreateAssertion hash uint256
  | TxChallenge "address \<times> address" "uint256 \<times> uint256" | TxConfirm | TxReject address | TxCompleteChallenge address address
  | TxSetDAProvider address | TxSetConfirmationPeriod uint256 | TxSetChallengePeriod uint256 | TxSetMinimumAssertionPeriod uint256
  | TxSetBaseStakeAmount uint256

fun ro_exec :: "msg_env \<Rightarrow> ro_tx \<Rightarrow> rollup \<Rightarrow> rollup_error + rollup" where
  "ro_exec env TxStake c = ro_stake env c"
| "ro_exec env (TxUnstake n) c = ro_unstake env n c"
| "ro_exec env (TxRemoveStake a) c = ro_removeStake env a c"
| "ro_exec env (TxAdvanceStake i) c = ro_advanceStake env i c"
| "ro_exec env TxWithdraw c = ro_withdraw env c"
| "ro_exec env (TxCreateAssertion h n) c = ro_createAssertion env h n c"
| "ro_exec env (TxChallenge ps ids) c = ro_challengeAssertion env ps ids c"
| "ro_exec env TxConfirm c = ro_confirmFirstUnresolvedAssertion env c"
| "ro_exec env (TxReject a) c = ro_rejectFirstUnresolvedAssertion env a c"
| "ro_exec env (TxCompleteChallenge w l) c = ro_completeChallenge env w l c"
| "ro_exec env (TxSetDAProvider p) c = setDAProvider env p c"
| "ro_exec env (TxSetConfirmationPeriod p) c = setConfirmationPeriod env p c"
| "ro_exec env (TxSetChallengePeriod p) c = setChallengePeriod env p c"
| "ro_exec env (TxSetMinimumAssertionPeriod p) c = setMinimumAssertionPeriod env p c"
| "ro_exec env (TxSetBaseStakeAmount n) c = setBaseStakeAmount env n c"

text \<open>A transaction that reverts changes nothing.\<close>

definition ro_apply :: "rollup \<Rightarrow> msg_env \<times> ro_tx \<Rightarrow> rollup" where
  "ro_apply c t = (case ro_exec (fst t) (snd t) c of Inl e \<Rightarrow> c | Inr c' \<Rightarrow> c')"

end
