(* ===== verification/Rollup_Invariants.thy ===== *)
theory Rollup_Invariants
  imports Rollup_Contract
begin

text \<open>
  What holds of the rollup contract after any sequence of transactions, each as an instance of \<open>event_component\<close>: it can always pay what it owes, it counts
  its stakers, and it accepts a single assertion in its life.
\<close>

section \<open>What the contract owes\<close>

definition owed :: "rollup \<Rightarrow> nat" where
  "owed c = (\<Sum>a\<in>UNIV. unat (s_amountStaked (stakers c a))) + (\<Sum>a\<in>UNIV. unat (withdrawableFunds c a))"

definition solvent :: "rollup \<Rightarrow> bool" where
  "solvent c \<longleftrightarrow> owed c \<le> eth c"

lemma sum_fun_upd:
  fixes f :: "'b \<Rightarrow> nat" and g :: "'a::finite \<Rightarrow> 'b"
  shows "(\<Sum>a\<in>UNIV. f ((g(x := v)) a)) + f (g x) = (\<Sum>a\<in>UNIV. f (g a)) + f v"
proof -
  have "(\<Sum>a\<in>UNIV. f ((g(x := v)) a)) = f v + (\<Sum>a\<in>UNIV - {x}. f ((g(x := v)) a))"
    by (subst sum.remove [of UNIV x]) simp_all
  moreover have "(\<Sum>a\<in>UNIV - {x}. f ((g(x := v)) a)) = (\<Sum>a\<in>UNIV - {x}. f (g a))"
    by (rule sum.cong) auto
  moreover have "(\<Sum>a\<in>UNIV. f (g a)) = f (g x) + (\<Sum>a\<in>UNIV - {x}. f (g a))"
    by (subst sum.remove [of UNIV x]) simp_all
  ultimately show ?thesis by simp
qed

abbreviation stake_sum :: "(address \<Rightarrow> ro_Staker) \<Rightarrow> nat" where
  "stake_sum st \<equiv> \<Sum>a\<in>UNIV. unat (s_amountStaked (st a))"

abbreviation fund_sum :: "(address \<Rightarrow> uint256) \<Rightarrow> nat" where
  "fund_sum f \<equiv> \<Sum>a\<in>UNIV. unat (f a)"

lemma stake_sum_upd: "stake_sum (st(a := s)) + unat (s_amountStaked (st a)) = stake_sum st + unat (s_amountStaked s)"
  using sum_fun_upd [of "\<lambda>s. unat (s_amountStaked s)" st a s] by simp

lemma fund_sum_upd: "fund_sum (f(a := n)) + unat (f a) = fund_sum f + unat n"
  by (rule sum_fun_upd)

lemma stake_sum_same: "s_amountStaked s = s_amountStaked (st a) \<Longrightarrow> stake_sum (st(a := s)) = stake_sum st"
  using stake_sum_upd [of st a s] by simp

lemma stakeOnAssertion_owed: "stakeOnAssertion a i c = Inr c' \<Longrightarrow> owed c' = owed c \<and> eth c' = eth c"
  by (auto simp: stakeOnAssertion_def owed_def stake_sum_same simp del: fun_upd_apply)

lemma createAssertionHelper_owed: "createAssertionHelper env i h n p d c = Inr c' \<Longrightarrow> owed c' = owed c \<and> eth c' = eth c"
  by (auto simp: createAssertionHelper_def owed_def Let_def split: if_splits)

lemma deleteStaker_owed: "deleteStaker a c = Inr c' \<Longrightarrow> owed c' + unat (s_amountStaked (stakers c a)) = owed c \<and> eth c' = eth c"
  using stake_sum_upd [of "stakers c" a no_staker] by (auto simp: deleteStaker_def owed_def no_staker_def simp del: fun_upd_apply)

lemma pay_owed: "pay env a n c = Inr c' \<Longrightarrow> owed c' = owed c \<and> eth c' + unat n = eth c"
  by (auto simp: pay_def owed_def split: if_splits)

lemma stake_solvent:
  assumes "solvent c" "ro_stake env c = Inr c'"
  shows "solvent c'"
proof (cases "s_isStaked (stakers c (msg_sender env))")
  case True
  let ?a = "msg_sender env"
  have n: "unat (s_amountStaked (stakers c ?a) + msg_value env) = unat (s_amountStaked (stakers c ?a)) + unat (msg_value env)"
    using assms(2) True by (intro unat_add_no_wrap) (auto simp: ro_stake_def ro_isStaked_def Let_def)
  from assms True stake_sum_upd [of "stakers c" ?a "(stakers c ?a)\<lparr>s_amountStaked := s_amountStaked (stakers c ?a) + msg_value env\<rparr>"] n
  show ?thesis by (auto simp: ro_stake_def ro_isStaked_def Let_def solvent_def owed_def simp del: fun_upd_apply)
next
  case False
  let ?a = "msg_sender env" and ?s = "\<lparr>s_isStaked = True, s_amountStaked = msg_value env, s_assertionID = 0, s_currentChallenge = 0\<rparr>"
  obtain n where "stakeOnAssertion ?a (lastConfirmedAssertionID c)
      (c\<lparr>eth := eth c + unat (msg_value env), stakers := (stakers c)(?a := ?s), numStakers := n\<rparr>) = Inr c'"
    using assms(2) False by (auto simp: ro_stake_def ro_isStaked_def Let_def)
  from stakeOnAssertion_owed [OF this] stake_sum_upd [of "stakers c" ?a ?s] assms(1) show ?thesis
    by (auto simp: solvent_def owed_def simp del: fun_upd_apply)
qed

lemma unstake_solvent:
  assumes "solvent c" "ro_unstake env n c = Inr c'"
  shows "solvent c'"
proof -
  let ?a = "msg_sender env" let ?s = "s_amountStaked (stakers c ?a)"
  have le: "n \<le> ?s" and p: "pay env ?a n (c\<lparr>stakers := (stakers c)(?a := (stakers c ?a)\<lparr>s_amountStaked := ?s - n\<rparr>)\<rparr>) = Inr c'"
    using assms(2) by (auto simp: ro_unstake_def Let_def)
  from pay_owed [OF p] stake_sum_upd [of "stakers c" ?a "(stakers c ?a)\<lparr>s_amountStaked := ?s - n\<rparr>"] assms(1) le show ?thesis
    by (auto simp: solvent_def owed_def unat_sub_no_wrap word_le_nat_alt simp del: fun_upd_apply)
qed

lemma removeStake_solvent:
  assumes "solvent c" "ro_removeStake env a c = Inr c'"
  shows "solvent c'"
proof -
  obtain c1 where "deleteStaker a c = Inr c1" "pay env a (s_amountStaked (stakers c a)) c1 = Inr c'"
    using assms(2) by (auto simp: ro_removeStake_def)
  from deleteStaker_owed [OF this(1)] pay_owed [OF this(2)] assms(1) show ?thesis by (simp add: solvent_def)
qed

lemma withdraw_solvent:
  assumes "solvent c" "ro_withdraw env c = Inr c'"
  shows "solvent c'"
proof -
  let ?a = "msg_sender env"
  have "pay env ?a (withdrawableFunds c ?a) (c\<lparr>withdrawableFunds := (withdrawableFunds c)(?a := 0)\<rparr>) = Inr c'"
    using assms(2) by (simp add: ro_withdraw_def Let_def)
  from pay_owed [OF this] fund_sum_upd [of "withdrawableFunds c" ?a 0] assms(1) show ?thesis
    by (simp add: solvent_def owed_def del: fun_upd_apply)
qed

lemma createAssertion_owed:
  assumes "ro_createAssertion env h n c = Inr c'"
  shows "owed c' = owed c \<and> eth c' = eth c"
proof -
  obtain i d c1 where "createAssertionHelper env i h n (s_assertionID (stakers c (msg_sender env))) d (c\<lparr>lastCreatedAssertionID := i\<rparr>) = Inr c1"
    "stakeOnAssertion (msg_sender env) i c1 = Inr c'" using assms by (auto simp: ro_createAssertion_def Let_def)
  from createAssertionHelper_owed [OF this(1)] stakeOnAssertion_owed [OF this(2)] show ?thesis by (simp add: owed_def)
qed

lemma challengeAssertion_owed:
  assumes "ro_challengeAssertion env ps ids c = Inr c'"
  shows "owed c' = owed c \<and> eth c' = eth c"
proof -
  obtain d ch where ps: "ps = (d, ch)" by fastforce
  let ?st = "(stakers c)(ch := (stakers c ch)\<lparr>s_currentChallenge := new_challenge env\<rparr>)"
  have "c' = c\<lparr>stakers := ?st(d := (?st d)\<lparr>s_currentChallenge := new_challenge env\<rparr>)\<rparr>"
    using assms by (auto simp: ps ro_challengeAssertion_def Let_def split: prod.splits)
  moreover have "stake_sum (?st(d := (?st d)\<lparr>s_currentChallenge := new_challenge env\<rparr>)) = stake_sum ?st"
    by (rule stake_sum_same) simp
  moreover have "stake_sum ?st = stake_sum (stakers c)" by (rule stake_sum_same) simp
  ultimately show ?thesis by (simp add: owed_def del: fun_upd_apply)
qed

lemma cut_stake_owed:
  assumes "cut_stake winner loser c = Inr c'"
  shows "owed c' = owed c \<and> eth c' = eth c"
proof (cases "s_amountStaked (stakers c winner) < s_amountStaked (stakers c loser)")
  case True
  let ?w = "s_amountStaked (stakers c winner)" and ?l = "s_amountStaked (stakers c loser)"
  have c': "c' = c\<lparr>stakers := (stakers c)(loser := (stakers c loser)\<lparr>s_amountStaked := ?w\<rparr>),
      withdrawableFunds := (withdrawableFunds c)(loser := withdrawableFunds c loser + (?l - ?w))\<rparr>"
    and fits: "unat (withdrawableFunds c loser) + unat (?l - ?w) < 2 ^ 256"
    using assms True by (auto simp: cut_stake_def Let_def)
  have "unat (?l - ?w) = unat ?l - unat ?w" "unat ?w \<le> unat ?l" using True by (simp_all add: unat_sub_no_wrap word_le_nat_alt less_imp_le word_less_nat_alt)
  with stake_sum_upd [of "stakers c" loser "(stakers c loser)\<lparr>s_amountStaked := ?w\<rparr>"]
    fund_sum_upd [of "withdrawableFunds c" loser "withdrawableFunds c loser + (?l - ?w)"] unat_add_no_wrap [of "withdrawableFunds c loser" "?l - ?w"] fits
  show ?thesis by (simp add: c' owed_def del: fun_upd_apply)
qed (use assms in \<open>auto simp: cut_stake_def Let_def\<close>)

lemma unat_half: "unat ((w :: uint256) div 2) + unat (w - w div 2) = unat w"
proof -
  have "w div 2 \<le> w" by (simp add: word_le_nat_alt unat_div)
  then show ?thesis by (simp add: unat_sub_no_wrap word_le_nat_alt)
qed

text \<open>The state of \<open>completeChallenge\<close> after the rewards, before the loser is deleted.\<close>

definition rewarded :: "address \<Rightarrow> address \<Rightarrow> rollup \<Rightarrow> rollup" where
  "rewarded winner loser c =
     (let r = s_amountStaked (stakers c loser) in
      c\<lparr>stakers := (stakers c)(winner := (stakers c winner)\<lparr>s_amountStaked := s_amountStaked (stakers c winner) + r div 2, s_currentChallenge := 0\<rparr>),
        withdrawableFunds := (withdrawableFunds c)(ro_vault c := withdrawableFunds c (ro_vault c) + (r - r div 2))\<rparr>)"

lemma completeChallengeE:
  assumes "ro_completeChallenge env winner loser c = Inr c'"
  obtains c1 c2 z where "s_currentChallenge (stakers c winner) \<noteq> 0" "s_currentChallenge (stakers c loser) = s_currentChallenge (stakers c winner)"
    "cut_stake winner loser c = Inr c1" "unat (s_amountStaked (stakers c1 winner)) + unat (s_amountStaked (stakers c1 loser) div 2) < 2 ^ 256"
    "unat (withdrawableFunds c1 (ro_vault c1)) + unat (s_amountStaked (stakers c1 loser) - s_amountStaked (stakers c1 loser) div 2) < 2 ^ 256"
    "deleteStaker loser (rewarded winner loser c1) = Inr c2" "c' = c2\<lparr>zombies := z\<rparr>"
proof -
  from assms obtain ch c1 where ch: "getChallenge c winner loser = Inr ch" and c1: "cut_stake winner loser c = Inr c1"
    unfolding ro_completeChallenge_def bind_r_Inr by blast
  let ?r = "s_amountStaked (stakers c1 loser)" and ?c3 = "rewarded winner loser c1"
  have "bind_r (add_u (s_amountStaked (stakers c1 winner)) (?r div 2)) (\<lambda>won.
      bind_r (add_u (withdrawableFunds c1 (ro_vault c1)) (?r - ?r div 2)) (\<lambda>f.
      let c3 = c1\<lparr>stakers := (stakers c1)(winner := (stakers c1 winner)\<lparr>s_amountStaked := won, s_currentChallenge := 0\<rparr>),
            withdrawableFunds := (withdrawableFunds c1)(ro_vault c1 := f)\<rparr> in
      bind_r (deleteStaker loser c3) (\<lambda>c4.
        Inr (c4\<lparr>zombies := zombies c4 @ [\<lparr>z_stakerAddress = loser, z_lastAssertionID = s_assertionID (stakers c3 loser)\<rparr>]\<rparr>)))) = Inr c'"
    using assms ch c1 by (cases "msg_sender env = ch") (simp_all add: ro_completeChallenge_def Let_def req_def del: bind_r_Inr)
  then obtain c2 z where "unat (s_amountStaked (stakers c1 winner)) + unat (?r div 2) < 2 ^ 256"
    "unat (withdrawableFunds c1 (ro_vault c1)) + unat (?r - ?r div 2) < 2 ^ 256" "deleteStaker loser ?c3 = Inr c2" "c' = c2\<lparr>zombies := z\<rparr>"
    unfolding bind_r_Inr add_u_Inr Let_def rewarded_def sum.inject by blast
  moreover have "s_currentChallenge (stakers c winner) \<noteq> 0" "s_currentChallenge (stakers c loser) = s_currentChallenge (stakers c winner)"
    using ch by (auto simp: getChallenge_def Let_def)
  ultimately show thesis using that c1 by blast
qed

lemma completeChallenge_solvent:
  assumes "solvent c" "ro_completeChallenge env winner loser c = Inr c'"
  shows "solvent c'"
  using assms(2)
proof (cases rule: completeChallengeE)
  case (1 c1 c2 z)
  let ?r = "s_amountStaked (stakers c1 loser)" let ?w = "s_amountStaked (stakers c1 winner)"
  let ?s = "(stakers c1 winner)\<lparr>s_amountStaked := ?w + ?r div 2, s_currentChallenge := 0\<rparr>"
  let ?f = "withdrawableFunds c1 (ro_vault c1) + (?r - ?r div 2)"
  have "owed (rewarded winner loser c1) = owed c1 + unat ?r" "eth (rewarded winner loser c1) = eth c1"
    using stake_sum_upd [of "stakers c1" winner ?s] fund_sum_upd [of "withdrawableFunds c1" "ro_vault c1" ?f] unat_half [of ?r]
      unat_add_no_wrap [of ?w "?r div 2"] unat_add_no_wrap [of "withdrawableFunds c1 (ro_vault c1)" "?r - ?r div 2"] 1(4,5)
    by (simp_all add: owed_def rewarded_def Let_def del: fun_upd_apply)
  moreover have "unat ?r \<le> unat (s_amountStaked (stakers (rewarded winner loser c1) loser))"
    using unat_add_no_wrap [of ?w "?r div 2"] 1(4) by (cases "loser = winner") (simp_all add: rewarded_def Let_def)
  moreover have "owed c' = owed c2" "eth c' = eth c2" by (simp_all add: 1(7) owed_def)
  ultimately show ?thesis using deleteStaker_owed [OF 1(6)] cut_stake_owed [OF 1(3)] assms(1) by (simp add: solvent_def)
qed

lemmas config_defs = setDAProvider_def setConfirmationPeriod_def setChallengePeriod_def setMinimumAssertionPeriod_def setBaseStakeAmount_def
  set_config_def

lemma config_owed:
  "setDAProvider env a c = Inr c' \<Longrightarrow> owed c' = owed c \<and> eth c' = eth c"
  "setConfirmationPeriod env p c = Inr c' \<Longrightarrow> owed c' = owed c \<and> eth c' = eth c"
  "setChallengePeriod env p c = Inr c' \<Longrightarrow> owed c' = owed c \<and> eth c' = eth c"
  "setMinimumAssertionPeriod env p c = Inr c' \<Longrightarrow> owed c' = owed c \<and> eth c' = eth c"
  "setBaseStakeAmount env p c = Inr c' \<Longrightarrow> owed c' = owed c \<and> eth c' = eth c"
  by (auto simp: config_defs owed_def)

lemma confirm_owed: "ro_confirmFirstUnresolvedAssertion env c = Inr c' \<Longrightarrow> owed c' = owed c \<and> eth c' = eth c"
  by (auto simp: ro_confirmFirstUnresolvedAssertion_def owed_def)

lemma reject_owed: "ro_rejectFirstUnresolvedAssertion env a c = Inr c' \<Longrightarrow> owed c' = owed c \<and> eth c' = eth c"
  by (auto simp: ro_rejectFirstUnresolvedAssertion_def owed_def)

lemma advanceStake_owed: "ro_advanceStake env i c = Inr c' \<Longrightarrow> owed c' = owed c \<and> eth c' = eth c"
  by (auto simp: ro_advanceStake_def Let_def dest: stakeOnAssertion_owed)

lemma ro_exec_solvent:
  assumes "solvent c" "ro_exec env t c = Inr c'"
  shows "solvent c'"
proof -
  have keep: "owed c' = owed c \<and> eth c' = eth c \<Longrightarrow> solvent c'" using assms(1) by (simp add: solvent_def)
  show ?thesis
  proof (cases t)
    case TxStake
    with assms stake_solvent show ?thesis by simp
  next
    case (TxUnstake n)
    with assms unstake_solvent show ?thesis by simp
  next
    case (TxRemoveStake a)
    with assms removeStake_solvent show ?thesis by simp
  next
    case TxWithdraw
    with assms withdraw_solvent show ?thesis by simp
  next
    case (TxCompleteChallenge w l)
    with assms completeChallenge_solvent show ?thesis by simp
  qed (use assms(2) in \<open>simp_all add: keep createAssertion_owed challengeAssertion_owed confirm_owed reject_owed advanceStake_owed config_owed\<close>)
qed

interpretation solvency: event_component ro_apply solvent
  by unfold_locales (auto simp: ro_apply_def intro: ro_exec_solvent split: sum.splits)

section \<open>Stakers are counted\<close>

definition counted :: "rollup \<Rightarrow> bool" where
  "counted c \<longleftrightarrow> unat (numStakers c) = card {a. s_isStaked (stakers c a)} \<and>
     (\<forall>a. \<not> s_isStaked (stakers c a) \<longrightarrow> stakers c a = no_staker) \<and>
     lastConfirmedAssertionID c \<le> lastResolvedAssertionID c \<and> lastResolvedAssertionID c \<le> lastCreatedAssertionID c"

lemma staked_upd:
  "{a. s_isStaked ((st(x := s)) a)} = (if s_isStaked s then insert x {a. s_isStaked (st a)} else {a. s_isStaked (st a)} - {x})"
  by (auto split: if_splits)

lemma counted_cong:
  assumes "counted c" "numStakers c' = numStakers c" "\<And>a. s_isStaked (stakers c' a) = s_isStaked (stakers c a)"
    and "\<And>a. \<not> s_isStaked (stakers c a) \<Longrightarrow> stakers c' a = stakers c a"
    and "lastConfirmedAssertionID c' \<le> lastResolvedAssertionID c'" "lastResolvedAssertionID c' \<le> lastCreatedAssertionID c'"
  shows "counted c'"
  using assms by (simp add: counted_def)

lemma le_plus_1: "unat (w :: uint256) + 1 < 2 ^ 256 \<Longrightarrow> w \<le> w + 1 \<and> w < w + 1"
  using unat_add_no_wrap [of w 1] by (simp add: word_le_nat_alt word_less_nat_alt)

lemma less_plus_1: "(w :: uint256) < v \<Longrightarrow> w + 1 \<le> v"
  by (metis inc_le)

lemma deleteStaker_counted:
  assumes "counted c" "s_isStaked (stakers c a)" "deleteStaker a c = Inr c'"
  shows "counted c'"
proof -
  have "card ({b. s_isStaked (stakers c b)} - {a}) = card {b. s_isStaked (stakers c b)} - 1"
    using assms(2) by (simp add: card_Diff_singleton)
  then show ?thesis
    using assms by (auto simp: counted_def deleteStaker_def staked_upd no_staker_def unat_sub_no_wrap simp del: fun_upd_apply)
       (simp_all add: no_staker_def split: if_splits)
qed

lemma stakeOnAssertion_counted:
  assumes "counted c" "s_isStaked (stakers c a)" "stakeOnAssertion a i c = Inr c'"
  shows "counted c'"
proof (rule counted_cong [OF assms(1)])
  show "lastConfirmedAssertionID c' \<le> lastResolvedAssertionID c'" "lastResolvedAssertionID c' \<le> lastCreatedAssertionID c'"
    using assms by (auto simp: stakeOnAssertion_def counted_def)
qed (use assms in \<open>auto simp: stakeOnAssertion_def split: if_splits\<close>)

lemma stake_counted:
  assumes "counted c" "ro_stake env c = Inr c'"
  shows "counted c'"
proof (cases "s_isStaked (stakers c (msg_sender env))")
  case True
  show ?thesis
    using assms True by (intro counted_cong [OF assms(1)]) (auto simp: ro_stake_def ro_isStaked_def Let_def counted_def split: if_splits)
next
  case False
  let ?a = "msg_sender env" and ?s = "\<lparr>s_isStaked = True, s_amountStaked = msg_value env, s_assertionID = 0, s_currentChallenge = 0\<rparr>"
  let ?c = "c\<lparr>eth := eth c + unat (msg_value env), stakers := (stakers c)(?a := ?s), numStakers := numStakers c + 1\<rparr>"
  have s: "stakeOnAssertion ?a (lastConfirmedAssertionID c) ?c = Inr c'" and fits: "unat (numStakers c) + 1 < 2 ^ 256"
    using assms(2) False by (auto simp: ro_stake_def ro_isStaked_def Let_def)
  have "unat (numStakers c + 1) = unat (numStakers c) + 1" using unat_add_no_wrap [of "numStakers c" 1] fits by simp
  then have "counted ?c" using assms(1) False by (auto simp: counted_def staked_upd simp del: fun_upd_apply) (simp_all split: if_splits)
  from stakeOnAssertion_counted [OF this _ s] show ?thesis by simp
qed

lemma createAssertion_counted:
  assumes "counted c" "ro_createAssertion env h n c = Inr c'"
  shows "counted c'"
proof -
  let ?i = "lastCreatedAssertionID c + 1" and ?a = "msg_sender env"
  obtain d c1 where st: "s_isStaked (stakers c ?a)" and fits: "unat (lastCreatedAssertionID c) + 1 < 2 ^ 256"
    and h: "createAssertionHelper env ?i h n (s_assertionID (stakers c ?a)) d (c\<lparr>lastCreatedAssertionID := ?i\<rparr>) = Inr c1"
    and s: "stakeOnAssertion ?a ?i c1 = Inr c'"
    using assms(2) by (auto simp: ro_createAssertion_def Let_def requireStaked_def ro_isStaked_def)
  have c1: "stakers c1 = stakers c" "numStakers c1 = numStakers c" "lastCreatedAssertionID c1 = ?i"
    "lastConfirmedAssertionID c1 = lastConfirmedAssertionID c" "lastResolvedAssertionID c1 = lastResolvedAssertionID c"
    using h by (auto simp: createAssertionHelper_def Let_def split: if_splits)
  have "lastResolvedAssertionID c \<le> ?i" using assms(1) le_plus_1 [OF fits] by (auto simp: counted_def)
  then have "counted c1" using assms(1) by (intro counted_cong [OF assms(1)]) (simp_all add: c1 counted_def)
  from stakeOnAssertion_counted [OF this _ s] st show ?thesis by (simp add: c1)
qed

lemma cut_stake_counted:
  assumes "counted c" "s_isStaked (stakers c loser)" "cut_stake winner loser c = Inr c'"
  shows "counted c' \<and> (\<forall>a. s_isStaked (stakers c' a) = s_isStaked (stakers c a))"
proof -
  have "s_isStaked (stakers c' a) = s_isStaked (stakers c a)" for a
    using assms(3) by (auto simp: cut_stake_def Let_def split: if_splits)
  moreover have "counted c'"
    using assms by (intro counted_cong [OF assms(1)]) (auto simp: cut_stake_def Let_def counted_def split: if_splits)
  ultimately show ?thesis by blast
qed

lemma completeChallenge_counted:
  assumes "counted c" "ro_completeChallenge env winner loser c = Inr c'"
  shows "counted c'"
  using assms(2)
proof (cases rule: completeChallengeE)
  case (1 c1 c2 z)
  have st: "s_isStaked (stakers c winner)" "s_isStaked (stakers c loser)"
    using assms(1) 1(1,2) by (auto simp: counted_def no_staker_def)
  note cut = cut_stake_counted [OF assms(1) st(2) 1(3)]
  have r: "s_isStaked (stakers (rewarded winner loser c1) a) = s_isStaked (stakers c1 a)" for a by (simp add: rewarded_def Let_def)
  have "counted (rewarded winner loser c1)"
    by (rule counted_cong [of c1]) (use cut st(1) r in \<open>auto simp: counted_def rewarded_def Let_def\<close>)
  from deleteStaker_counted [OF this _ 1(6)] cut st r have "counted c2" by simp
  with 1(7) show ?thesis by (simp add: counted_def)
qed

lemma challengeAssertion_counted:
  assumes "counted c" "ro_challengeAssertion env ps ids c = Inr c'"
  shows "counted c'"
  using assms by (intro counted_cong [OF assms(1)])
    (auto simp: ro_challengeAssertion_def requireUnchallengedStaker_def requireStaked_def ro_isStaked_def Let_def counted_def split: prod.splits if_splits)

lemma pay_counted: "counted c \<Longrightarrow> pay env a n c = Inr c' \<Longrightarrow> counted c'"
  by (auto simp: pay_def counted_def split: if_splits)

lemma unstake_counted:
  assumes "counted c" "ro_unstake env n c = Inr c'"
  shows "counted c'"
proof -
  let ?a = "msg_sender env"
  obtain s where p: "pay env ?a n (c\<lparr>stakers := (stakers c)(?a := (stakers c ?a)\<lparr>s_amountStaked := s\<rparr>)\<rparr>) = Inr c'" and "s_isStaked (stakers c ?a)"
    using assms(2) by (auto simp: ro_unstake_def Let_def requireStaked_def ro_isStaked_def)
  then have "counted (c\<lparr>stakers := (stakers c)(?a := (stakers c ?a)\<lparr>s_amountStaked := s\<rparr>)\<rparr>)"
    using assms(1) by (intro counted_cong [OF assms(1)]) (auto simp: counted_def)
  from pay_counted [OF this p] show ?thesis .
qed

lemma removeStake_counted:
  assumes "counted c" "ro_removeStake env a c = Inr c'"
  shows "counted c'"
proof -
  obtain c1 where "s_isStaked (stakers c a)" "deleteStaker a c = Inr c1" "pay env a (s_amountStaked (stakers c a)) c1 = Inr c'"
    using assms(2) by (auto simp: ro_removeStake_def requireStaked_def ro_isStaked_def)
  with deleteStaker_counted [OF assms(1)] pay_counted show ?thesis by blast
qed

lemma confirm_counted:
  assumes "counted c" "ro_confirmFirstUnresolvedAssertion env c = Inr c'"
  shows "counted c'"
proof -
  have "lastResolvedAssertionID c < lastCreatedAssertionID c"
    using assms(2) by (auto simp: ro_confirmFirstUnresolvedAssertion_def requireFirstUnresolvedAssertionIsConfirmable_def)
  from less_plus_1 [OF this] assms show ?thesis by (auto simp: ro_confirmFirstUnresolvedAssertion_def counted_def)
qed

lemma reject_counted:
  assumes "counted c" "ro_rejectFirstUnresolvedAssertion env a c = Inr c'"
  shows "counted c'"
proof -
  have "lastResolvedAssertionID c < lastCreatedAssertionID c" "unat (lastResolvedAssertionID c) + 1 < 2 ^ 256"
    using assms(2) by (auto simp: ro_rejectFirstUnresolvedAssertion_def requireFirstUnresolvedAssertionIsRejectable_def)
  from less_plus_1 [OF this(1)] le_plus_1 [OF this(2)] assms show ?thesis
    by (auto simp: ro_rejectFirstUnresolvedAssertion_def counted_def)
qed

lemma config_counted:
  "counted c \<Longrightarrow> setDAProvider env a c = Inr c' \<Longrightarrow> counted c'"
  "counted c \<Longrightarrow> setConfirmationPeriod env p c = Inr c' \<Longrightarrow> counted c'"
  "counted c \<Longrightarrow> setChallengePeriod env p c = Inr c' \<Longrightarrow> counted c'"
  "counted c \<Longrightarrow> setMinimumAssertionPeriod env p c = Inr c' \<Longrightarrow> counted c'"
  "counted c \<Longrightarrow> setBaseStakeAmount env p c = Inr c' \<Longrightarrow> counted c'"
  by (auto simp: config_defs counted_def)

lemma withdraw_counted: "counted c \<Longrightarrow> ro_withdraw env c = Inr c' \<Longrightarrow> counted c'"
  by (auto simp: ro_withdraw_def Let_def pay_def counted_def split: if_splits)

lemma advanceStake_counted: "counted c \<Longrightarrow> ro_advanceStake env i c = Inr c' \<Longrightarrow> counted c'"
  by (auto simp: ro_advanceStake_def Let_def requireStaked_def ro_isStaked_def dest: stakeOnAssertion_counted)

lemma ro_exec_counted:
  assumes "counted c" "ro_exec env t c = Inr c'"
  shows "counted c'"
  using assms(2) by (cases t) (auto dest: stake_counted [OF assms(1)] unstake_counted [OF assms(1)] removeStake_counted [OF assms(1)]
    advanceStake_counted [OF assms(1)] withdraw_counted [OF assms(1)] createAssertion_counted [OF assms(1)] challengeAssertion_counted [OF assms(1)]
    confirm_counted [OF assms(1)] reject_counted [OF assms(1)] completeChallenge_counted [OF assms(1)] config_counted [OF assms(1)])

interpretation counting: event_component ro_apply counted
  by unfold_locales (auto simp: ro_apply_def intro: ro_exec_counted split: sum.splits)

section \<open>Only one assertion\<close>

text \<open>
  Everyone is staked on the first assertion \<open>i\<close> or on its only child, and once there is a child both carry a block number. The child is
  never rejected, because whoever is staked late enough is staked on it.
\<close>

definition on_chain :: "uint256 \<Rightarrow> rollup \<Rightarrow> bool" where
  "on_chain i c \<longleftrightarrow> (\<forall>a. s_isStaked (stakers c a) \<longrightarrow>
     s_assertionID (stakers c a) = i \<or> s_assertionID (stakers c a) = lastCreatedAssertionID c \<and> assertion_stakers c (lastCreatedAssertionID c) a)"

definition single_child :: "uint256 \<Rightarrow> rollup \<Rightarrow> bool" where
  "single_child i c \<longleftrightarrow> on_chain i c \<and> lastResolvedAssertionID c = lastConfirmedAssertionID c \<and>
     lastConfirmedAssertionID c \<in> {i, lastCreatedAssertionID c} \<and>
     (lastCreatedAssertionID c = i \<or>
      lastCreatedAssertionID c = i + 1 \<and> i < i + 1 \<and> a_blockNum (assertions c i) \<noteq> 0 \<and> a_blockNum (assertions c (i + 1)) \<noteq> 0 \<and>
      a_parent (assertions c (i + 1)) = i)"

text \<open>An assertion that carries a block number has no successor: its child would have to be at a later block and at the same one.\<close>

lemma createAssertion_needs_blank_parent:
  assumes "a_blockNum (assertions c (s_assertionID (stakers c (msg_sender env)))) \<noteq> 0"
  shows "ro_createAssertion env h n c \<noteq> Inr c'"
  using assms by (auto simp: ro_createAssertion_def createAssertionHelper_def Let_def)

lemma createAssertion_single:
  assumes "single_child i c" "ro_createAssertion env h n c = Inr c'"
  shows "single_child i c'"
proof -
  let ?a = "msg_sender env" and ?j = "lastCreatedAssertionID c + 1"
  have st: "s_isStaked (stakers c ?a)" using assms(2) by (auto simp: ro_createAssertion_def Let_def requireStaked_def ro_isStaked_def)
  have blank: "a_blockNum (assertions c (s_assertionID (stakers c ?a))) = 0"
    using createAssertion_needs_blank_parent assms(2) by blast
  then have created: "lastCreatedAssertionID c = i" and p: "s_assertionID (stakers c ?a) = i"
    using assms(1) st by (auto simp: single_child_def on_chain_def)
  obtain d where n: "0 < n" and fits: "unat i + 1 < 2 ^ 256"
    and s: "bind_r (createAssertionHelper env (i + 1) h n i d (c\<lparr>lastCreatedAssertionID := i + 1\<rparr>)) (stakeOnAssertion ?a (i + 1)) = Inr c'"
    using assms(2) blank by (auto simp: ro_createAssertion_def Let_def p created)
  have "i \<noteq> i + 1" by simp
  then have c': "lastCreatedAssertionID c' = i + 1" "lastConfirmedAssertionID c' = lastConfirmedAssertionID c"
    "lastResolvedAssertionID c' = lastResolvedAssertionID c" "stakers c' = (stakers c)(?a := (stakers c ?a)\<lparr>s_assertionID := i + 1\<rparr>)"
    "assertion_stakers c' (i + 1) ?a" "a_blockNum (assertions c' i) = n" "a_blockNum (assertions c' (i + 1)) = n"
    "a_parent (assertions c' (i + 1)) = i"
    using s blank p by (auto simp: createAssertionHelper_def stakeOnAssertion_def Let_def)
  have "on_chain i c'" using assms(1) created c'(1,4,5) by (auto simp: single_child_def on_chain_def)
  then show ?thesis using assms(1) created n le_plus_1 [OF fits] c' by (auto simp: single_child_def)
qed

lemma stakeOnAssertion_single:
  assumes "single_child i c" "j = i \<or> j = lastCreatedAssertionID c" "stakeOnAssertion a j c = Inr c'"
  shows "single_child i c'"
proof -
  have c': "stakers c' = (stakers c)(a := (stakers c a)\<lparr>s_assertionID := j\<rparr>)"
    "assertion_stakers c' = (assertion_stakers c)(j := (assertion_stakers c j)(a := True))"
    "lastCreatedAssertionID c' = lastCreatedAssertionID c" "lastConfirmedAssertionID c' = lastConfirmedAssertionID c"
    "lastResolvedAssertionID c' = lastResolvedAssertionID c" "\<And>k. a_blockNum (assertions c' k) = a_blockNum (assertions c k)"
    "\<And>k. a_parent (assertions c' k) = a_parent (assertions c k)"
    using assms(3) by (auto simp: stakeOnAssertion_def)
  have "on_chain i c" using assms(1) by (simp add: single_child_def)
  then have "on_chain i c'" using assms(2) c' by (auto simp: on_chain_def split: if_splits)
  then show ?thesis using assms(1) c' by (simp add: single_child_def)
qed

lemma single_cong:
  assumes "single_child i c" "\<And>a. s_isStaked (stakers c' a) \<Longrightarrow> s_isStaked (stakers c a) \<and> s_assertionID (stakers c' a) = s_assertionID (stakers c a)"
    and "lastCreatedAssertionID c' = lastCreatedAssertionID c" "lastConfirmedAssertionID c' = lastConfirmedAssertionID c"
    and "lastResolvedAssertionID c' = lastResolvedAssertionID c" "assertions c' = assertions c" "assertion_stakers c' = assertion_stakers c"
  shows "single_child i c'"
  using assms unfolding single_child_def on_chain_def by metis

lemma stake_single:
  assumes "single_child i c" "ro_stake env c = Inr c'"
  shows "single_child i c'"
proof (cases "s_isStaked (stakers c (msg_sender env))")
  case True
  show ?thesis
    by (rule single_cong [OF assms(1)]) (use assms(2) True in \<open>auto simp: ro_stake_def ro_isStaked_def Let_def split: if_splits\<close>)
next
  case False
  let ?a = "msg_sender env" and ?j = "lastConfirmedAssertionID c"
  have j: "?j = i \<or> ?j = lastCreatedAssertionID c" using assms(1) by (auto simp: single_child_def)
  have "stakers c' = (stakers c)(?a := \<lparr>s_isStaked = True, s_amountStaked = msg_value env, s_assertionID = ?j, s_currentChallenge = 0\<rparr>)"
    "assertion_stakers c' = (assertion_stakers c)(?j := (assertion_stakers c ?j)(?a := True))"
    and c': "lastCreatedAssertionID c' = lastCreatedAssertionID c" "lastConfirmedAssertionID c' = ?j" "lastResolvedAssertionID c' = lastResolvedAssertionID c"
    "\<And>k. a_blockNum (assertions c' k) = a_blockNum (assertions c k)" "\<And>k. a_parent (assertions c' k) = a_parent (assertions c k)"
    using assms(2) False by (auto simp: ro_stake_def ro_isStaked_def Let_def stakeOnAssertion_def)
  then have "on_chain i c'" using assms(1) j by (auto simp: single_child_def on_chain_def)
  then show ?thesis using assms(1) c' by (auto simp: single_child_def)
qed

lemma advanceStake_single:
  assumes "single_child i c" "ro_advanceStake env j c = Inr c'"
  shows "single_child i c'"
proof -
  let ?s = "s_assertionID (stakers c (msg_sender env))"
  have s: "s_isStaked (stakers c (msg_sender env))" "?s < j" "j \<le> lastCreatedAssertionID c" "stakeOnAssertion (msg_sender env) j c = Inr c'"
    using assms(2) by (auto simp: ro_advanceStake_def Let_def requireStaked_def ro_isStaked_def)
  have "j = lastCreatedAssertionID c"
  proof (cases "lastCreatedAssertionID c = i + 1")
    case True
    then have "?s = i" using assms(1) s by (auto simp: single_child_def on_chain_def)
    then show ?thesis using s(2,3) True less_plus_1 [of i j] by simp
  next
    case False
    then have "lastCreatedAssertionID c = i" "?s = i" using assms(1) s(1) by (auto simp: single_child_def on_chain_def)
    then show ?thesis using s(2,3) by simp
  qed
  with stakeOnAssertion_single [OF assms(1)] s(4) show ?thesis by blast
qed

lemma confirm_single:
  assumes "single_child i c" "ro_confirmFirstUnresolvedAssertion env c = Inr c'"
  shows "single_child i c'"
proof -
  have l: "lastResolvedAssertionID c < lastCreatedAssertionID c"
    and c': "c' = c\<lparr>lastResolvedAssertionID := lastResolvedAssertionID c + 1, lastConfirmedAssertionID := lastResolvedAssertionID c + 1\<rparr>"
    using assms(2) by (auto simp: ro_confirmFirstUnresolvedAssertion_def requireFirstUnresolvedAssertionIsConfirmable_def)
  have "lastCreatedAssertionID c = i + 1" "lastResolvedAssertionID c = i" using assms(1) l by (auto simp: single_child_def)
  then show ?thesis using assms(1) by (auto simp: c' single_child_def on_chain_def)
qed

lemma reject_single:
  assumes "single_child i c"
  shows "ro_rejectFirstUnresolvedAssertion env a c \<noteq> Inr c'"
proof
  assume r: "ro_rejectFirstUnresolvedAssertion env a c = Inr c'"
  then have "lastResolvedAssertionID c < lastCreatedAssertionID c"
    by (auto simp: ro_rejectFirstUnresolvedAssertion_def requireFirstUnresolvedAssertionIsRejectable_def)
  then have ids: "lastCreatedAssertionID c = i + 1" "lastResolvedAssertionID c = i" "lastConfirmedAssertionID c = i"
    "a_parent (assertions c (i + 1)) = i" "i < i + 1" using assms by (auto simp: single_child_def)
  then have "s_isStaked (stakers c a)" "i + 1 \<le> s_assertionID (stakers c a)" "\<not> assertion_stakers c (i + 1) a"
    using r by (auto simp: ro_rejectFirstUnresolvedAssertion_def requireFirstUnresolvedAssertionIsRejectable_def)
  then show False using assms ids by (auto simp: single_child_def on_chain_def)
qed

lemma deleteStaker_single:
  assumes "single_child i c" "deleteStaker a c = Inr c'"
  shows "single_child i c'"
  by (rule single_cong [OF assms(1)]) (use assms(2) in \<open>auto simp: deleteStaker_def no_staker_def split: if_splits\<close>)

lemma pay_single: "single_child i c \<Longrightarrow> pay env a n c = Inr c' \<Longrightarrow> single_child i c'"
  by (auto simp: pay_def single_child_def on_chain_def split: if_splits)

lemma unstake_single:
  assumes "single_child i c" "ro_unstake env n c = Inr c'"
  shows "single_child i c'"
proof -
  let ?a = "msg_sender env"
  obtain s where p: "pay env ?a n (c\<lparr>stakers := (stakers c)(?a := (stakers c ?a)\<lparr>s_amountStaked := s\<rparr>)\<rparr>) = Inr c'"
    using assms(2) by (auto simp: ro_unstake_def Let_def)
  have "single_child i (c\<lparr>stakers := (stakers c)(?a := (stakers c ?a)\<lparr>s_amountStaked := s\<rparr>)\<rparr>)"
    by (rule single_cong [OF assms(1)]) (auto split: if_splits)
  from pay_single [OF this p] show ?thesis .
qed

lemma removeStake_single: "single_child i c \<Longrightarrow> ro_removeStake env a c = Inr c' \<Longrightarrow> single_child i c'"
  by (auto simp: ro_removeStake_def intro: pay_single deleteStaker_single)

lemma withdraw_single: "single_child i c \<Longrightarrow> ro_withdraw env c = Inr c' \<Longrightarrow> single_child i c'"
  by (auto simp: ro_withdraw_def Let_def pay_def single_child_def on_chain_def split: if_splits)

lemma challengeAssertion_single:
  assumes "single_child i c" "ro_challengeAssertion env ps ids c = Inr c'"
  shows "single_child i c'"
  by (rule single_cong [OF assms(1)]) (use assms(2) in \<open>auto simp: ro_challengeAssertion_def Let_def split: prod.splits if_splits\<close>)

lemma completeChallenge_single:
  assumes "single_child i c" "ro_completeChallenge env winner loser c = Inr c'"
  shows "single_child i c'"
  using assms(2)
proof (cases rule: completeChallengeE)
  case (1 c1 c2 z)
  have "single_child i c1"
    by (rule single_cong [OF assms(1)]) (use 1(3) in \<open>auto simp: cut_stake_def Let_def split: if_splits\<close>)
  then have "single_child i (rewarded winner loser c1)"
    by (rule single_cong) (auto simp: rewarded_def Let_def split: if_splits)
  from deleteStaker_single [OF this 1(6)] 1(7) show ?thesis by (simp add: single_child_def on_chain_def)
qed

lemma config_single:
  "single_child i c \<Longrightarrow> setDAProvider env a c = Inr c' \<Longrightarrow> single_child i c'"
  "single_child i c \<Longrightarrow> setConfirmationPeriod env p c = Inr c' \<Longrightarrow> single_child i c'"
  "single_child i c \<Longrightarrow> setChallengePeriod env p c = Inr c' \<Longrightarrow> single_child i c'"
  "single_child i c \<Longrightarrow> setMinimumAssertionPeriod env p c = Inr c' \<Longrightarrow> single_child i c'"
  "single_child i c \<Longrightarrow> setBaseStakeAmount env p c = Inr c' \<Longrightarrow> single_child i c'"
  by (auto simp: config_defs single_child_def on_chain_def)

lemma ro_exec_single:
  assumes "single_child i c" "ro_exec env t c = Inr c'"
  shows "single_child i c'"
  using assms(2) by (cases t) (auto simp: reject_single [OF assms(1)] dest: stake_single [OF assms(1)] unstake_single [OF assms(1)]
    removeStake_single [OF assms(1)] advanceStake_single [OF assms(1)] withdraw_single [OF assms(1)] createAssertion_single [OF assms(1)]
    challengeAssertion_single [OF assms(1)] confirm_single [OF assms(1)] completeChallenge_single [OF assms(1)] config_single [OF assms(1)])

interpretation single: event_component ro_apply "single_child i" for i
  by unfold_locales (auto simp: ro_apply_def intro: ro_exec_single split: sum.splits)

lemma completeChallenge_created:
  "ro_completeChallenge env winner loser c = Inr c' \<Longrightarrow> lastCreatedAssertionID c' = lastCreatedAssertionID c"
  by (elim completeChallengeE) (auto simp: deleteStaker_def rewarded_def cut_stake_def Let_def split: if_splits)

lemma ro_exec_created:
  assumes "ro_exec env t c = Inr c'" "\<And>h n. t \<noteq> TxCreateAssertion h n"
  shows "lastCreatedAssertionID c' = lastCreatedAssertionID c"
proof (cases t)
  case TxStake
  with assms(1) show ?thesis by (auto simp: ro_stake_def stakeOnAssertion_def Let_def split: if_splits)
next
  case (TxUnstake n)
  with assms(1) show ?thesis by (auto simp: ro_unstake_def pay_def Let_def split: if_splits)
next
  case (TxRemoveStake a)
  with assms(1) show ?thesis by (auto simp: ro_removeStake_def deleteStaker_def pay_def split: if_splits)
next
  case (TxAdvanceStake i)
  with assms(1) show ?thesis by (auto simp: ro_advanceStake_def stakeOnAssertion_def Let_def)
next
  case TxWithdraw
  with assms(1) show ?thesis by (auto simp: ro_withdraw_def pay_def Let_def split: if_splits)
next
  case (TxChallenge ps ids)
  with assms(1) show ?thesis by (auto simp: ro_challengeAssertion_def Let_def split: prod.splits)
next
  case TxConfirm
  with assms(1) show ?thesis by (auto simp: ro_confirmFirstUnresolvedAssertion_def)
next
  case (TxReject a)
  with assms(1) show ?thesis by (auto simp: ro_rejectFirstUnresolvedAssertion_def)
next
  case (TxCompleteChallenge w l)
  with assms(1) completeChallenge_created show ?thesis by simp
qed (use assms in \<open>auto simp: config_defs\<close>)

text \<open>Once the child is there, nobody creates another one.\<close>

definition has_child :: "uint256 \<Rightarrow> rollup \<Rightarrow> bool" where
  "has_child i c \<longleftrightarrow> single_child i c \<and> lastCreatedAssertionID c \<noteq> i"

lemma has_child_blocks:
  assumes "has_child i c"
  shows "ro_createAssertion env h n c \<noteq> Inr c'"
proof (cases "s_isStaked (stakers c (msg_sender env))")
  case True
  then have "a_blockNum (assertions c (s_assertionID (stakers c (msg_sender env)))) \<noteq> 0"
    using assms by (auto simp: has_child_def single_child_def on_chain_def)
  then show ?thesis by (rule createAssertion_needs_blank_parent)
qed (auto simp: ro_createAssertion_def Let_def requireStaked_def ro_isStaked_def)

lemma createAssertion_child:
  assumes "single_child i c" "ro_createAssertion env h n c = Inr c'"
  shows "lastCreatedAssertionID c = i \<and> has_child i c'"
proof -
  have c: "lastCreatedAssertionID c = i" using has_child_blocks [of i c] assms by (auto simp: has_child_def)
  have "lastCreatedAssertionID c' = i + 1"
    using assms(2) c by (auto simp: ro_createAssertion_def createAssertionHelper_def stakeOnAssertion_def Let_def split: if_splits)
  with c createAssertion_single [OF assms] show ?thesis by (simp add: has_child_def)
qed

lemma ro_exec_child:
  assumes "has_child i c" "ro_exec env t c = Inr c'"
  shows "has_child i c'"
proof (cases "\<exists>h n. t = TxCreateAssertion h n")
  case True
  with assms has_child_blocks [OF assms(1)] show ?thesis by auto
next
  case False
  then have "lastCreatedAssertionID c' = lastCreatedAssertionID c" using ro_exec_created [OF assms(2)] by blast
  then show ?thesis using assms ro_exec_single by (auto simp: has_child_def)
qed

interpretation child: event_component ro_apply "has_child i" for i
  by unfold_locales (auto simp: ro_apply_def intro: ro_exec_child split: sum.splits)

section \<open>Properties\<close>

lemma ro_initialize_state:
  assumes "ro_initialize env args = Inr c"
  shows "lastCreatedAssertionID c = init_assertionID args" "lastConfirmedAssertionID c = init_assertionID args"
    "lastResolvedAssertionID c = init_assertionID args" "stakers c = (\<lambda>_. no_staker)" "numStakers c = 0" "withdrawableFunds c = (\<lambda>_. 0)"
    "a_blockNum (assertions c (init_assertionID args)) = init_blockNum args"
  using assms by (auto simp: ro_initialize_def createAssertionHelper_def Let_def ro_blank_def no_assertion_def)

lemma initialize_invariants:
  assumes "ro_initialize env args = Inr c"
  shows "solvent c" "counted c" "single_child (init_assertionID args) c"
  using ro_initialize_state [OF assms]
  by (simp_all add: solvent_def owed_def counted_def single_child_def on_chain_def no_staker_def)

lemma funds_le_owed: "unat (withdrawableFunds c a) \<le> owed c"
proof -
  have "unat (withdrawableFunds c a) \<le> fund_sum (withdrawableFunds c)"
    by (rule member_le_sum) simp_all
  then show ?thesis by (simp add: owed_def)
qed

text \<open>
  C15: the rollup contract can always pay what it owes. After its initialization and any sequence of transactions, reverted or not, its ether covers all
  stakes and all withdrawable funds together, so a withdrawal never fails for lack of ether: whoever accepts the payment gets all their funds.
\<close>

theorem rollup_stays_solvent:
  assumes "ro_initialize env0 args = Inr c0" "c = foldl ro_apply c0 txs"
  shows "(\<Sum>a\<in>UNIV. unat (s_amountStaked (stakers c a))) + (\<Sum>a\<in>UNIV. unat (withdrawableFunds c a)) \<le> eth c \<and>
    (callee_accepts env (msg_sender env) \<longrightarrow>
       (\<exists>c'. ro_withdraw env c = Inr c' \<and> eth c = eth c' + unat (withdrawableFunds c (msg_sender env)) \<and> withdrawableFunds c' (msg_sender env) = 0))"
proof -
  have s: "solvent c" unfolding assms(2) by (rule solvency.run_inv [OF initialize_invariants(1) [OF assms(1)]])
  then have "unat (withdrawableFunds c (msg_sender env)) \<le> eth c"
    using funds_le_owed [of c "msg_sender env"] by (simp add: solvent_def)
  with s show ?thesis by (simp add: solvent_def owed_def ro_withdraw_def pay_def Let_def)
qed

text \<open>
  The counter of stakers is exact and the assertions are resolved in order. After its initialization and any sequence of transactions,
  \<open>numStakers\<close> is the number of accounts that are staked, whoever is not staked has no stake and no challenge, and the
  last confirmed assertion is not after the last resolved one, nor that one after the last created one.
\<close>

theorem stakers_are_counted:
  assumes "ro_initialize env0 args = Inr c0" "c = foldl ro_apply c0 txs"
  shows "unat (numStakers c) = card {a. s_isStaked (stakers c a)} \<and>
    (\<forall>a. s_isStaked (stakers c a) \<or> s_amountStaked (stakers c a) = 0 \<and> s_currentChallenge (stakers c a) = 0) \<and>
    lastConfirmedAssertionID c \<le> lastResolvedAssertionID c \<and> lastResolvedAssertionID c \<le> lastCreatedAssertionID c"
proof -
  have "counted c" unfolding assms(2) by (rule counting.run_inv [OF initialize_invariants(2) [OF assms(1)]])
  then show ?thesis by (auto simp: counted_def no_staker_def)
qed

text \<open>
  C14: the contract accepts at most one assertion in its life. Its helper compares the block number of a new assertion with the one of the parent,
  where it means the number the parent records for its children, and writes it into the parent when that is zero; its caller requires it to be
  later than the parent's. After any sequence of transactions at most one assertion was created after the first one, and once
  there is one, every further call reverts, whoever sends it and whatever it asserts.
\<close>

theorem at_most_one_assertion:
  assumes "ro_initialize env0 args = Inr c0" "c = foldl ro_apply c0 txs"
  shows "(lastCreatedAssertionID c = init_assertionID args \<or> lastCreatedAssertionID c = init_assertionID args + 1) \<and>
    (lastCreatedAssertionID c \<noteq> init_assertionID args \<longrightarrow> (\<forall>env h n. \<exists>e. ro_createAssertion env h n c = Inl e))"
proof -
  let ?i = "init_assertionID args"
  have s: "single_child ?i c" unfolding assms(2) by (rule single.run_inv [OF initialize_invariants(3) [OF assms(1)]])
  have "ro_createAssertion env h n c \<noteq> Inr c'" if "lastCreatedAssertionID c \<noteq> ?i" for env h n c'
    using s that by (intro has_child_blocks [of ?i]) (simp add: has_child_def)
  then have "\<exists>e. ro_createAssertion env h n c = Inl e" if "lastCreatedAssertionID c \<noteq> ?i" for env h n
    using that by (metis sum.exhaust)
  then show ?thesis using s by (auto simp: single_child_def)
qed

section \<open>A run of the deployed contract\<close>

definition demo_args :: ro_init_args where
  "demo_args = \<lparr>init_vault = 7, init_daProvider = 8, init_verifier = 9, init_confirmationPeriod = 5, init_challengePeriod = 0,
     init_minimumAssertionPeriod = 0, init_baseStakeAmount = 100, init_assertionID = 0, init_blockNum = 0, init_vmHash = 11\<rparr>"

definition sent_by :: "address \<Rightarrow> uint256 \<Rightarrow> uint256 \<Rightarrow> msg_env" where
  "sent_by a v b = \<lparr>msg_sender = a, msg_value = v, block_number = b, is_validator = True, is_admin = False, when_not_paused = True,
     callee_accepts = (\<lambda>_. True), new_challenge = 50, challenge_initialized = True\<rparr>"

definition demo_contract :: rollup where
  "demo_contract = (case ro_initialize (sent_by 1 0 1) demo_args of Inr c \<Rightarrow> c | Inl e \<Rightarrow> ro_blank)"

definition demo_txs :: "(msg_env \<times> ro_tx) list" where
  "demo_txs = [(sent_by 1 150 2, TxStake), (sent_by 2 120 2, TxStake), (sent_by 1 0 3, TxCreateAssertion 21 5), (sent_by 1 0 4, TxCreateAssertion 22 9),
     (sent_by 2 0 5, TxAdvanceStake 1), (sent_by 1 0 20, TxConfirm), (sent_by 1 0 21, TxUnstake 50), (sent_by 2 0 22, TxCreateAssertion 23 9)]"

lemma demo_contract_initialized: "ro_initialize (sent_by 1 0 1) demo_args = Inr demo_contract"
proof -
  have "case ro_initialize (sent_by 1 0 1) demo_args of Inr c \<Rightarrow> True | Inl e \<Rightarrow> False" by code_simp
  then show ?thesis by (auto simp: demo_contract_def split: sum.splits)
qed

theorem rollup_stays_solvent_witness:
  "(\<Sum>a\<in>UNIV. unat (s_amountStaked (stakers (foldl ro_apply demo_contract demo_txs) a))) +
     (\<Sum>a\<in>UNIV. unat (withdrawableFunds (foldl ro_apply demo_contract demo_txs) a)) \<le> 220"
proof -
  have "eth (foldl ro_apply demo_contract demo_txs) = 220" by code_simp
  with rollup_stays_solvent [OF demo_contract_initialized refl, of demo_txs] show ?thesis by simp
qed

theorem stakers_are_counted_witness:
  "card {a. s_isStaked (stakers (foldl ro_apply demo_contract demo_txs) a)} = 2 \<and> lastConfirmedAssertionID (foldl ro_apply demo_contract demo_txs) = 1"
proof -
  have "unat (numStakers (foldl ro_apply demo_contract demo_txs)) = 2" "lastConfirmedAssertionID (foldl ro_apply demo_contract demo_txs) = 1" by code_simp+
  with stakers_are_counted [OF demo_contract_initialized refl, of demo_txs] show ?thesis by simp
qed

theorem at_most_one_assertion_witness:
  "lastCreatedAssertionID (foldl ro_apply demo_contract demo_txs) = 1 \<and>
   (\<exists>e. ro_createAssertion (sent_by 1 0 30) 24 12 (foldl ro_apply demo_contract demo_txs) = Inl e)"
proof -
  have "lastCreatedAssertionID (foldl ro_apply demo_contract demo_txs) = 1" "init_assertionID demo_args = 0" by code_simp+
  with at_most_one_assertion [OF demo_contract_initialized refl, of demo_txs] show ?thesis by simp
qed

end
