(* ===== verification/Assertion_Path.thy ===== *)
theory Assertion_Path
  imports Validator Rollup_Invariants Batch_Delivery
begin

text \<open>
  The validator and the rollup contract together. The locale \<open>rollup_l1\<close> is what the validator relies on of L1: whatever it calls, the contract only
  moves by transactions, and a \<open>CreateAssertion\<close> with a receipt that did not revert was executed by the contract. The validator as the sidecar wires it, over the
  bridge's packing, the transaction manager's \<open>Send\<close> and a node, gives it: the locale \<open>l1_node\<close> states what a node is documented to do, in particular that an
  estimate of the gas of a call that reverts fails, and \<open>sending_node\<close> adds what happens to a transaction that is sent.
\<close>

section \<open>What the validator relies on\<close>

definition history :: "rollup \<Rightarrow> rollup \<Rightarrow> bool" where
  "history c c' \<longleftrightarrow> (\<exists>txs. c' = foldl ro_apply c txs)"

lemma history_refl [simp]: "history c c"
  unfolding history_def by (metis foldl_Nil)

lemma history_trans: "history c c1 \<Longrightarrow> history c1 c2 \<Longrightarrow> history c c2"
  unfolding history_def by (metis foldl_append)

lemma history_exec: "ro_exec env t c = Inr c' \<Longrightarrow> history c c'"
  unfolding history_def by (rule exI [of _ "[(env, t)]"]) (simp add: ro_apply_def)

lemma history_single: "history c c' \<Longrightarrow> single_child i c \<Longrightarrow> single_child i c'"
  unfolding history_def using single.run_inv by blast

lemma history_child: "history c c' \<Longrightarrow> has_child i c \<Longrightarrow> has_child i c'"
  unfolding history_def using child.run_inv by blast

definition moves_by :: "('w \<Rightarrow> rollup) \<Rightarrow> ('w, 'a) call \<Rightarrow> bool" where
  "moves_by contract f \<longleftrightarrow> (\<forall>w. history (contract w) (contract (snd (f w))))"

lemma moves_byD: "moves_by contract f \<Longrightarrow> f w = (r, w') \<Longrightarrow> history (contract w) (contract w')"
  unfolding moves_by_def by (metis snd_conv)

lemma moves_by_ret [simp]: "moves_by contract (ret_call x)" and moves_by_fail [simp]: "moves_by contract (fail_call e)"
  by (simp_all add: moves_by_def ret_call_def fail_call_def)

lemma moves_by_wrap [simp]: "moves_by contract (wrap_call m f) = moves_by contract f"
proof -
  have "snd (wrap_call m f w) = snd (f w)" for w by (simp add: wrap_call_def split: prod.splits)
  then show ?thesis by (simp add: moves_by_def)
qed

lemma moves_by_bind:
  assumes "moves_by contract f" "\<And>x. moves_by contract (g x)"
  shows "moves_by contract (bind_call f g)"
  unfolding moves_by_def
proof
  fix w
  obtain r w1 where f: "f w = (r, w1)" by fastforce
  show "history (contract w) (contract (snd (bind_call f g w)))"
  proof (cases r)
    case (Ok x)
    with f assms show ?thesis by (auto simp: bind_call_def moves_by_def intro: history_trans dest: moves_byD)
  qed (use f assms(1) in \<open>auto simp: bind_call_def dest: moves_byD\<close>)
qed

lemma bind_call_rest:
  assumes "f w = (r, w')" "\<And>x. moves_by contract (g x)"
  shows "history (contract w') (contract (snd (bind_call f g w)))"
  using assms by (cases r) (auto simp: bind_call_def moves_by_def)

lemma moves_by_lift: "moves_by contract f \<Longrightarrow> moves_by (\<lambda>st. contract (snd st)) (lift_call f)"
  by (simp add: moves_by_def lift_call_def split: prod.splits) (metis snd_conv)

locale rollup_l1 =
  fixes v :: "'w Validator" and contract :: "'w \<Rightarrow> rollup"
  assumes confirmable_moves: "moves_by contract (br_RequireFirstUnresolvedAssertionIsConfirmable (l1BridgeClient v))"
    and confirm_moves: "moves_by contract (vt_ConfirmFirstUnresolvedAssertion (v_l1TxMgr v))"
    and header_moves: "moves_by contract (l2_HeaderByTag (v_l2Client v) tag)"
    and create_moves: "moves_by contract (vt_CreateAssertion (v_l1TxMgr v) h n)"
    and create_executed: "vt_CreateAssertion (v_l1TxMgr v) h n w = (Ok receipt, w') \<Longrightarrow> \<not> rc_Failed receipt \<Longrightarrow>
      \<exists>env c1 c2. history (contract w) c1 \<and> ro_createAssertion env h (word_of_int n) c1 = Inr c2 \<and> history c2 (contract w')"
begin

abbreviation ticks_run :: "'w val_state \<Rightarrow> unit list \<Rightarrow> 'w val_state" where
  "ticks_run \<equiv> foldl (\<lambda>s (_ :: unit). snd (validator_step v s))"

lemma createAssertion_moves: "moves_by (\<lambda>st. contract (snd st)) (createAssertion v)"
proof -
  have next_moves: "moves_by contract (getNextAssertionAttrs v)"
    unfolding getNextAssertionAttrs_def by (intro moves_by_bind) (simp_all add: header_moves)
  have "moves_by (\<lambda>st. contract (snd st)) (\<lambda>st :: 'w val_state. if l2BlockNum attrs \<le> l2BlockNum (fst st) then (Ok (), st)
      else bind_call (lift_call (vt_CreateAssertion (v_l1TxMgr v) (l2VMHash attrs) (uint (l2BlockNum attrs))))
        (\<lambda>receipt (last', w). (Ok (), (if rc_Failed receipt then last' else attrs, w))) st)" (is "moves_by _ (\<lambda>st. if _ then _ else ?create st)") for attrs
  proof -
    have "moves_by (\<lambda>st :: 'w val_state. contract (snd st)) ?create"
      by (intro moves_by_bind moves_by_lift create_moves) (simp add: moves_by_def split: prod.splits)
    then show ?thesis by (simp add: moves_by_def)
  qed
  then show ?thesis
    unfolding createAssertion_def by (intro moves_by_bind) (simp_all add: moves_by_lift [OF next_moves])
qed

lemma resolve_moves: "moves_by contract (resolveFirstUnresolvedAssertion v)"
  unfolding moves_by_def
proof
  fix w
  obtain r w1 where q: "br_RequireFirstUnresolvedAssertionIsConfirmable (l1BridgeClient v) w = (r, w1)" by fastforce
  note h = moves_byD [OF confirmable_moves q]
  have "moves_by contract (bind_call (wrap_call ''failed to confirm assertion'' (vt_ConfirmFirstUnresolvedAssertion (v_l1TxMgr v))) (\<lambda>_. ret_call ()))"
    by (intro moves_by_bind) (simp_all add: confirm_moves)
  then show "history (contract w) (contract (snd (resolveFirstUnresolvedAssertion v w)))"
    using q h by (cases r) (auto simp: resolveFirstUnresolvedAssertion_def moves_by_def intro: history_trans)
qed

lemma step_moves: "moves_by (\<lambda>st. contract (snd st)) (validator_step v)"
  unfolding validator_step_def by (intro moves_by_bind) (simp_all add: createAssertion_moves moves_by_lift resolve_moves)

lemma ticks_move: "history (contract (snd st)) (contract (snd (ticks_run st ticks)))"
proof (induction ticks arbitrary: st)
  case (Cons t ticks)
  have "history (contract (snd st)) (contract (snd (snd (validator_step v st))))" using step_moves unfolding moves_by_def by blast
  with Cons.IH [of "snd (validator_step v st)"] show ?case by (simp add: history_trans)
qed simp

text \<open>A step that changes the record has had its assertion executed, and before it there was none.\<close>

lemma createAssertion_executed:
  assumes "createAssertion v (a, w) = (r, (a', w'))" "a' \<noteq> a"
  obtains env n c1 c2 where "history (contract w) c1" "ro_createAssertion env (l2VMHash a') n c1 = Inr c2" "history c2 (contract w')"
proof -
  obtain header w1 where h: "l2_HeaderByTag (v_l2Client v) Safe w = (Ok header, w1)"
    using assms by (cases "l2_HeaderByTag (v_l2Client v) Safe w"; cases "fst (l2_HeaderByTag (v_l2Client v) Safe w)")
      (auto simp: createAssertion_def getNextAssertionAttrs_def bind_call_def wrap_call_def lift_call_def)
  then obtain receipt where "vt_CreateAssertion (v_l1TxMgr v) (l2VMHash a') (uint (l2BlockNum a')) w1 = (Ok receipt, w')" "\<not> rc_Failed receipt"
    using assms by (auto simp: createAssertion_def getNextAssertionAttrs_def bind_call_def wrap_call_def lift_call_def ret_call_def
        split: prod.splits outcome.splits if_splits)
  from create_executed [OF this] moves_byD [OF header_moves h] that show thesis by (blast intro: history_trans)
qed

lemma step_executed:
  assumes "single_child i (contract (snd st))" "fst (snd (validator_step v st)) \<noteq> fst st"
  shows "lastCreatedAssertionID (contract (snd st)) = i \<and> has_child i (contract (snd (snd (validator_step v st))))"
proof -
  obtain a w where st: "st = (a, w)" by fastforce
  obtain r a' w' where c: "createAssertion v (a, w) = (r, (a', w'))" by (metis prod.exhaust)
  have "a' \<noteq> a" using assms(2) by (simp add: validator_step_last st c)
  then obtain env n c1 c2 where
    e: "history (contract w) c1" "ro_createAssertion env (l2VMHash a') n c1 = Inr c2" "history c2 (contract w')"
    by (rule createAssertion_executed [OF c])
  have wc: "wrap_call m (createAssertion v) st = (wrap_err m r, (a', w'))" for m by (simp add: wrap_call_def c st)
  have rest: "moves_by (\<lambda>st. contract (snd st)) (bind_call (wrap_call m (lift_call (resolveFirstUnresolvedAssertion v))) (\<lambda>_. ret_call ()))" for m
    by (intro moves_by_bind) (simp_all add: moves_by_lift resolve_moves)
  have h: "history (contract w') (contract (snd (snd (validator_step v st))))"
    unfolding validator_step_def
    by (rule bind_call_rest [where contract = "\<lambda>st. contract (snd st)" and w' = "(a', w')", unfolded snd_conv]) (rule wc rest)+
  have "single_child i c1" using assms(1) e(1) history_single by (simp add: st)
  note child = createAssertion_child [OF this e(2)]
  have "has_child i (contract (snd (snd (validator_step v st))))"
    using child history_child [OF e(3)] history_child [OF h] by simp
  moreover have "lastCreatedAssertionID (contract w) = i"
  proof (rule ccontr)
    assume "lastCreatedAssertionID (contract w) \<noteq> i"
    then have "has_child i c1" using assms(1) e(1) history_child by (auto simp: st has_child_def)
    with child show False by (simp add: has_child_def)
  qed
  ultimately show ?thesis by (simp add: st)
qed

lemma ticks_after_child:
  assumes "has_child i (contract (snd st))"
  shows "fst (ticks_run st ticks) = fst st"
  using assms
proof (induction ticks arbitrary: st)
  case (Cons t ticks)
  have "fst (snd (validator_step v st)) = fst st"
    using step_executed [of i st] Cons.prems by (auto simp: has_child_def)
  moreover have "has_child i (contract (snd (snd (validator_step v st))))"
    using step_moves Cons.prems history_child unfolding moves_by_def by blast
  ultimately show ?case using Cons.IH by simp
qed simp

lemma asserts_once:
  assumes "single_child i (contract (snd st))" "fst (ticks_run st ticks) \<noteq> fst st"
  shows "fst (ticks_run st (ticks @ ticks2)) = fst (ticks_run st ticks)"
  using assms
proof (induction ticks arbitrary: st)
  case (Cons t ticks)
  let ?st = "snd (validator_step v st)"
  show ?case
  proof (cases "fst ?st = fst st")
    case True
    have "single_child i (contract (snd ?st))" using step_moves Cons.prems(1) history_single unfolding moves_by_def by blast
    with Cons.IH [of ?st] Cons.prems(2) True show ?thesis by simp
  next
    case False
    with step_executed Cons.prems(1) have "has_child i (contract (snd ?st))" by blast
    from ticks_after_child [OF this, of ticks] ticks_after_child [OF this, of "ticks @ ticks2"] show ?thesis by simp
  qed
qed simp

end

section \<open>The validator over the transaction manager\<close>

text \<open>The validator of \<open>createValidator\<close> in \<^verbatim>\<open>cmd/sidecar/main.go\<close>, its clients and the transaction manager's configuration given.\<close>

definition sidecar_validator ::
    "address \<Rightarrow> 'w TxManager \<Rightarrow> 'w mgr_world retry_env \<Rightarrow> (Transaction \<Rightarrow> ('w, Receipt) call) \<Rightarrow> bridgeConfig \<Rightarrow> bridgeSerializationUtil \<Rightarrow>
     'w mgr_world BridgeClient \<Rightarrow> 'w mgr_world L2Client \<Rightarrow> 'w mgr_world Validator" where
  "sidecar_validator addr m env sendTx conf u client l2 =
     NewValidator addr (bridge_methods \<lparr>EthTxManager_Send = Send m env sendTx, bridge_cfg = conf, bridge_util = u\<rparr>) client l2"

definition after_ticks :: "'w Validator \<Rightarrow> nat \<Rightarrow> 'w val_state \<Rightarrow> 'w val_state" where
  "after_ticks v n = (\<lambda>st. snd (validator_step v st)) ^^ n"

text \<open>What every attempt of a retry loop keeps, and what every answer of it has, the errors of the loop itself included.\<close>

lemma do_loop_inv:
  assumes "\<And>w. P w \<Longrightarrow> Q (fst (op w)) \<and> P (snd (op w))" "\<And>w i. P w \<Longrightarrow> P (pause env n i w)" "\<And>e. Q (Err e)" "P w"
  shows "Q (fst (do_loop env n op i err w)) \<and> P (snd (do_loop env n op i err w))"
  using assms(4)
proof (induction "nat (n - i)" arbitrary: i err w rule: less_induct)
  case less
  show ?case
  proof (cases "i < n \<and> ctx_Err env w = None")
    case True
    obtain r w1 where op: "op w = (r, w1)" by fastforce
    have r: "Q r" "P w1" using assms(1) [OF less.prems] op by simp_all
    show ?thesis
    proof (cases r)
      case (Err e)
      have "P (pause env n i w1)" by (rule assms(2) [OF r(2)])
      moreover have "nat (n - (i + 1)) < nat (n - i)" using True by simp
      ultimately show ?thesis using less.hyps True op Err by (simp add: do_loop.simps [of env n op i])
    qed (use True op r in \<open>simp_all add: do_loop.simps [of env n op i]\<close>)
  next
    case False
    then show ?thesis using less.prems assms(3) by (auto simp: do_loop.simps [of env n op i] split: option.splits)
  qed
qed

locale l1_node =
  fixes m :: "'w TxManager" and env :: "'w mgr_world retry_env" and u :: bridgeSerializationUtil and conf :: bridgeConfig
    and decode :: "bytes \<Rightarrow> ro_tx option" and contract :: "'w \<Rightarrow> rollup"
  assumes tip_moves: "moves_by contract (be_SuggestGasTipCap (backend m))"
    and basefee_moves: "moves_by contract (be_HeadBaseFee (backend m))"
    and estimate_moves: "moves_by contract (be_EstimateGas (backend m) msg)"
    and nonce_moves: "moves_by contract (be_NonceAt (backend m) a)"
    and signer_moves: "moves_by contract (signer m a raw)"
    and duration_moves: "history (contract (snd sw)) (contract (snd (snd (strategy_Duration env i sw))))"
    and sleep_moves: "history (contract (snd sw)) (contract (snd (time_Sleep env dur sw)))"
    and create_packs: "packCreateAssertionInput u h n = Ok d \<Longrightarrow> decode d = Some (TxCreateAssertion h (word_of_int n))"
    and estimate_reverts: "msg_To msg = Some (RollupAddr conf) \<Longrightarrow> decode (msg_Data msg) = Some t \<Longrightarrow>
      (\<And>e. \<exists>x. ro_exec e t (contract w) = Inl x) \<Longrightarrow> \<exists>x. fst (be_EstimateGas (backend m) msg w) = Err x"
begin

abbreviation held :: "'w mgr_world \<Rightarrow> rollup" where
  "held \<equiv> \<lambda>sw. contract (snd sw)"

lemma suggest_moves: "moves_by contract (suggestGasPriceCaps m)"
  unfolding suggestGasPriceCaps_def
  by (intro moves_by_bind) (auto simp: tip_moves basefee_moves split: option.split intro!: moves_by_bind)

lemma nextNonce_moves: "moves_by held (nextNonce m)"
  using moves_byD [OF nonce_moves]
  by (auto simp: moves_by_def nextNonce_def split: option.splits prod.splits outcome.splits)

lemma craftTx_moves: "moves_by held (craftTx m cand)"
  unfolding craftTx_def Let_def
  by (intro moves_by_bind; (intro moves_by_lift)?)
    (auto simp: suggest_moves estimate_moves signer_moves nextNonce_moves intro!: moves_by_bind moves_by_lift split: prod.splits)

lemma pause_moves: "history (held sw) (held (pause env n i sw))"
  using duration_moves [of sw i] sleep_moves by (auto simp: pause_def split: prod.splits intro: history_trans)

text \<open>Once the contract has a child of the first assertion, no transaction that creates another one is even crafted.\<close>

lemma craftTx_refused:
  assumes "has_child i (held sw)" "cand_GasLimit cand = 0" "cand_To cand = Some (RollupAddr conf)"
    and "decode (cand_TxData cand) = Some (TxCreateAssertion h n)"
  shows "\<not> is_Ok (fst (craftTx m cand sw))"
proof
  assume "is_Ok (fst (craftTx m cand sw))"
  then obtain tx sw' where "craftTx m cand sw = (Ok tx, sw')" by (metis is_Ok_conv prod.collapse)
  then obtain caps w1 msg gas w2 where c: "suggestGasPriceCaps m (snd sw) = (Ok caps, w1)" "be_EstimateGas (backend m) msg w1 = (Ok gas, w2)"
    "msg_To msg = cand_To cand" "msg_Data msg = cand_TxData cand"
    using assms(2) by (auto simp: craftTx_def Let_def split: prod.splits) 
  have "has_child i (contract w1)" using assms(1) moves_byD [OF suggest_moves c(1)] history_child by blast
  then have "\<exists>x. ro_exec e (TxCreateAssertion h n) (contract w1) = Inl x" for e using has_child_blocks by (metis ro_exec.simps(6) sum.exhaust)
  from estimate_reverts [OF _ _ this, of msg] c assms(3,4) show False by simp
qed

lemma Send_refused:
  assumes "has_child i (held sw)" "cand_GasLimit cand = 0" "cand_To cand = Some (RollupAddr conf)"
    and "decode (cand_TxData cand) = Some (TxCreateAssertion h n)"
  shows "\<not> is_Ok (fst (Send m env sendTx cand sw))" "has_child i (held (snd (Send m env sendTx cand sw)))"
    "Send m env sendTx cand sw = Send m env sendTx' cand sw"
proof -
  have "\<not> is_Ok (fst (craftTx m cand sw)) \<and> has_child i (held (snd (craftTx m cand sw)))" if "has_child i (held sw)" for sw
    using craftTx_refused [OF that assms(2-4)] craftTx_moves that history_child unfolding moves_by_def by blast
  moreover have "has_child i (held (pause env 10 k sw))" if "has_child i (held sw)" for k sw
    using that pause_moves history_child by blast
  ultimately have d: "\<not> is_Ok (fst (Do env 10 (craftTx m cand) sw)) \<and> has_child i (held (snd (Do env 10 (craftTx m cand) sw)))"
    unfolding Do_def using do_loop_inv [where P = "\<lambda>sw. has_child i (held sw)" and Q = "\<lambda>r. \<not> is_Ok r" and op = "craftTx m cand" and env = env and n = 10]
      assms(1) by simp
  obtain r sw1 where r: "Do env 10 (craftTx m cand) sw = (r, sw1)" by (metis prod.collapse)
  have s: "send m env s cand sw = (case r of Err e \<Rightarrow> (Err (Wrapped ''failed to create the tx'' e), sw1) | Panic p \<Rightarrow> (Panic p, sw1))" for s
    using d r by (cases r) (simp_all add: send_def bind_call_def wrap_call_def)
  show "\<not> is_Ok (fst (Send m env sendTx cand sw))" "has_child i (held (snd (Send m env sendTx cand sw)))"
    "Send m env sendTx cand sw = Send m env sendTx' cand sw"
    using d r s by (cases r; simp add: Send_def resetNonce_def)+
qed

lemma CreateAssertion_refused:
  assumes "has_child i (held sw)" "bm = \<lparr>EthTxManager_Send = Send m env sendTx, bridge_cfg = conf, bridge_util = u\<rparr>"
  shows "\<not> is_Ok (fst (CreateAssertion bm h n sw))" "has_child i (held (snd (CreateAssertion bm h n sw)))"
    "CreateAssertion bm h n sw = CreateAssertion (bm\<lparr>EthTxManager_Send := Send m env sendTx'\<rparr>) h n sw"
proof -
  have "\<not> is_Ok (fst (CreateAssertion bm h n sw)) \<and> has_child i (held (snd (CreateAssertion bm h n sw))) \<and>
      CreateAssertion bm h n sw = CreateAssertion (bm\<lparr>EthTxManager_Send := Send m env sendTx'\<rparr>) h n sw"
  proof (cases "packCreateAssertionInput u h n")
    case (Ok d)
    let ?cand = "\<lparr>cand_TxData = d, cand_To = Some (RollupAddr conf), cand_GasLimit = 0, cand_Value = Some (uint (0 :: uint64))\<rparr>"
    show ?thesis
      using Ok Send_refused(1,2) [OF assms(1), where sendTx = sendTx and h = h and n = "word_of_int n" and cand = ?cand]
        Send_refused(3) [OF assms(1), where sendTx = sendTx and sendTx' = sendTx' and h = h and n = "word_of_int n" and cand = ?cand] create_packs [OF Ok]
      by (simp add: assms(2) CreateAssertion_def with_data_def sendRollupTx_def)
  qed (use assms in \<open>simp_all add: CreateAssertion_def with_data_def\<close>)
  then show "\<not> is_Ok (fst (CreateAssertion bm h n sw))" "has_child i (held (snd (CreateAssertion bm h n sw)))"
    "CreateAssertion bm h n sw = CreateAssertion (bm\<lparr>EthTxManager_Send := Send m env sendTx'\<rparr>) h n sw" by blast+
qed

text \<open>
  A tick at a safe head later than the record, or without a safe head: the step ends in \<open>createAssertion\<close>, whatever the bridge client and a sent transaction would do.
\<close>

lemma step_refused:
  assumes "has_child i (held sw)" "moves_by held (l2_HeaderByTag l2 Safe)"
    and later: "\<And>head sw'. l2_HeaderByTag l2 Safe sw = (Ok head, sw') \<Longrightarrow> l2BlockNum a < word_of_int (h_Number head)"
  shows "\<exists>r sw'. validator_step (sidecar_validator addr m env sendTx conf u client l2) (a, sw) = (r, (a, sw')) \<and> \<not> is_Ok r \<and> has_child i (held sw') \<and>
    validator_step (sidecar_validator addr m env sendTx' conf u client' l2) (a, sw) = (r, (a, sw'))"
proof -
  let ?v = "\<lambda>s c. sidecar_validator addr m env s conf u c l2" and ?bm = "\<lambda>s. \<lparr>EthTxManager_Send = Send m env s, bridge_cfg = conf, bridge_util = u\<rparr>"
  obtain rh sw1 where h: "l2_HeaderByTag l2 Safe sw = (rh, sw1)" by (metis prod.collapse)
  have c1: "has_child i (held sw1)" using assms(1) moves_byD [OF assms(2) h] history_child by blast
  have "\<exists>r sw'. \<not> is_Ok r \<and> has_child i (held sw') \<and> (\<forall>s c. createAssertion (?v s c) (a, sw) = (r, (a, sw')))"
  proof (cases rh)
    case (Ok head)
    let ?create = "\<lambda>s. CreateAssertion (?bm s) (computeVmHash head) (uint (word_of_int (h_Number head) :: uint64)) sw1"
    obtain r sw' where r: "?create sendTx = (r, sw')" by (metis prod.collapse)
    have same: "?create s = (r, sw')" for s using CreateAssertion_refused(3) [OF c1 refl, where sendTx = sendTx and sendTx' = s] r by simp
    have f: "\<not> is_Ok r" "has_child i (held sw')" using CreateAssertion_refused(1,2) [OF c1 refl, where sendTx = sendTx] r by (metis fst_conv snd_conv)+
    have "createAssertion (?v s c) (a, sw) = ((case r of Ok _ \<Rightarrow> Ok () | Err e \<Rightarrow> Err e | Panic p \<Rightarrow> Panic p), (a, sw'))" for s c
      using later [of head sw1] h Ok same [of s] f(1)
      by (cases r) (simp_all add: createAssertion_def getNextAssertionAttrs_def sidecar_validator_def NewValidator_def bridge_methods_def bind_call_def wrap_call_def
          lift_call_def ret_call_def)
    then show ?thesis using f by (intro exI [of _ "case r of Ok _ \<Rightarrow> Ok () | Err e \<Rightarrow> Err e | Panic p \<Rightarrow> Panic p"] exI [of _ sw']) (cases r; simp)
  next
    case (Err e)
    then show ?thesis using h c1
      by (intro exI [of _ "Err (Wrapped ''failed to get next assertion attrs'' (Wrapped ''failed to get finalized assertion attrs'' e))"] exI [of _ sw1])
        (simp add: createAssertion_def getNextAssertionAttrs_def sidecar_validator_def NewValidator_def bind_call_def wrap_call_def lift_call_def)
  next
    case (Panic p)
    then show ?thesis using h c1 by (intro exI [of _ "Panic p"] exI [of _ sw1])
      (simp add: createAssertion_def getNextAssertionAttrs_def sidecar_validator_def NewValidator_def bind_call_def wrap_call_def lift_call_def)
  qed
  then obtain r sw' where r: "\<not> is_Ok r" "has_child i (held sw')" "\<And>s c. createAssertion (?v s c) (a, sw) = (r, (a, sw'))" by blast
  have "validator_step (?v s c) (a, sw) = (wrap_err ''failed to create assertion'' r, (a, sw'))" for s c
    using r(1) r(3) [of s c] by (cases r) (simp_all add: validator_step_def bind_call_def wrap_call_def)
  moreover have "\<not> is_Ok (wrap_err ''failed to create assertion'' r)" using r(1) by (cases r) simp_all
  ultimately show ?thesis using r(2) by (intro exI [of _ "wrap_err ''failed to create assertion'' r"] exI [of _ sw']) simp
qed

lemma ticks_refused:
  assumes "has_child i (held sw)" "moves_by held (l2_HeaderByTag l2 Safe)"
    and "v = sidecar_validator addr m env sendTx conf u client l2" "v' = sidecar_validator addr m env sendTx' conf u client' l2"
    and "\<forall>k<n. \<forall>head sw'. l2_HeaderByTag l2 Safe (snd (after_ticks v k (a, sw))) = (Ok head, sw') \<longrightarrow> l2BlockNum a < word_of_int (h_Number head)"
  shows "\<exists>sw'. after_ticks v n (a, sw) = (a, sw') \<and> after_ticks v' n (a, sw) = (a, sw') \<and> has_child i (held sw') \<and>
    (\<forall>k<n. \<not> is_Ok (fst (validator_step v (after_ticks v k (a, sw)))))"
  using assms(5)
proof (induction n)
  case 0
  then show ?case using assms(1) by (simp add: after_ticks_def)
next
  case (Suc n)
  then obtain sw' where n: "after_ticks v n (a, sw) = (a, sw')" "after_ticks v' n (a, sw) = (a, sw')" "has_child i (held sw')"
    "\<forall>k<n. \<not> is_Ok (fst (validator_step v (after_ticks v k (a, sw))))" using less_SucI by blast
  have "l2BlockNum a < word_of_int (h_Number head)" if "l2_HeaderByTag l2 Safe sw' = (Ok head, sw'')" for head sw''
    using Suc.prems n(1) that by (metis lessI snd_conv)
  then obtain r sw1 where s: "validator_step v (a, sw') = (r, (a, sw1))" "validator_step v' (a, sw') = (r, (a, sw1))" "\<not> is_Ok r" "has_child i (held sw1)"
    using step_refused [OF n(3) assms(2), of a addr sendTx client sendTx' client'] unfolding assms(3,4) by blast
  have "after_ticks x (Suc n) st = snd (validator_step x (after_ticks x n st))" for x :: "'w mgr_world Validator" and st by (simp add: after_ticks_def)
  then show ?case using n s by (auto simp: less_Suc_eq)
qed

end

locale sending_node = l1_node m env u conf decode contract
  for m :: "'w TxManager" and env :: "'w mgr_world retry_env" and u :: bridgeSerializationUtil and conf :: bridgeConfig
    and decode :: "bytes \<Rightarrow> ro_tx option" and contract :: "'w \<Rightarrow> rollup" +
  fixes sendTx :: "Transaction \<Rightarrow> ('w, Receipt) call" and client :: "'w mgr_world BridgeClient" and l2 :: "'w mgr_world L2Client"
  assumes keeps: "signer_keeps m"
    and sendTx_moves: "moves_by contract (sendTx tx)"
    and sendTx_executes: "sendTx tx w = (Ok receipt, w') \<Longrightarrow> \<not> rc_Failed receipt \<Longrightarrow> tx_To (inner tx) = Some (RollupAddr conf) \<Longrightarrow>
      decode (tx_Data (inner tx)) = Some t \<Longrightarrow> \<exists>e c1 c2. history (contract w) c1 \<and> ro_exec e t c1 = Inr c2 \<and> history c2 (contract w')"
    and client_moves: "moves_by (\<lambda>sw. contract (snd sw)) (br_RequireFirstUnresolvedAssertionIsConfirmable client)"
    and header_moves: "moves_by (\<lambda>sw. contract (snd sw)) (l2_HeaderByTag l2 tag)"
begin

lemma Do_moves: "moves_by held (Do env 10 (craftTx m cand))"
  unfolding moves_by_def
proof
  fix sw
  have "history (held sw) (held (snd (craftTx m cand sw')))" "history (held sw) (held (pause env 10 k sw'))" if "history (held sw) (held sw')" for sw' k
    using that craftTx_moves pause_moves history_trans unfolding moves_by_def by blast+
  then show "history (held sw) (held (snd (Do env 10 (craftTx m cand) sw)))"
    unfolding Do_def using do_loop_inv [where P = "\<lambda>sw'. history (held sw) (held sw')" and Q = "\<lambda>r. True" and op = "craftTx m cand" and env = env and n = 10] by simp
qed

lemma Send_moves: "moves_by held (Send m env sendTx cand)"
proof -
  have "moves_by held (send m env sendTx cand)"
    unfolding send_def by (intro moves_by_bind moves_by_lift sendTx_moves) (simp add: Do_moves)
  then show ?thesis by (auto simp: moves_by_def Send_def resetNonce_def split: prod.splits outcome.splits dest: spec) (metis snd_conv)+
qed

lemma Send_executes:
  assumes "Send m env sendTx cand sw = (Ok receipt, sw')" "\<not> rc_Failed receipt" "cand_To cand = Some (RollupAddr conf)" "decode (cand_TxData cand) = Some t"
  shows "\<exists>e c1 c2. history (held sw) c1 \<and> ro_exec e t c1 = Inr c2 \<and> history c2 (held sw')"
proof -
  have "send m env sendTx cand sw = (Ok receipt, sw')" using assms(1) by (auto simp: Send_def split: prod.splits outcome.splits)
  then obtain tx sw1 where d: "Do env 10 (craftTx m cand) sw = (Ok tx, sw1)" and s: "sendTx tx (snd sw1) = (Ok receipt, snd sw')"
    by (auto simp: send_def)
  obtain sw0 where "craftTx m cand sw0 = (Ok tx, sw1)" using Do_returns [OF d] by blast
  note p = craftTx_payload [OF keeps this]
  from sendTx_executes [OF s assms(2)] p assms(3,4) obtain e c1 c2 where
    "history (held sw1) c1" "ro_exec e t c1 = Inr c2" "history c2 (held sw')" by auto
  with moves_byD [OF Do_moves d] show ?thesis by (blast intro: history_trans)
qed

end

lemma with_data_moves: "(\<And>d. moves_by contract (f d)) \<Longrightarrow> moves_by contract (with_data packed f)"
  by (auto simp: moves_by_def with_data_def split: outcome.splits)

sublocale sending_node < wired: rollup_l1 "sidecar_validator addr m env sendTx conf u client l2" "\<lambda>sw. contract (snd sw)" for addr
proof unfold_locales
  let ?v = "sidecar_validator addr m env sendTx conf u client l2"
  note wiring = sidecar_validator_def NewValidator_def bridge_methods_def
  show "moves_by held (br_RequireFirstUnresolvedAssertionIsConfirmable (l1BridgeClient ?v))" by (simp add: wiring client_moves)
  show "moves_by held (vt_ConfirmFirstUnresolvedAssertion (v_l1TxMgr ?v))"
    by (simp add: wiring ConfirmFirstUnresolvedAssertion_def sendRollupTx_def with_data_moves Send_moves)
  show "moves_by held (l2_HeaderByTag (v_l2Client ?v) tag)" for tag by (simp add: wiring header_moves)
  show "moves_by held (vt_CreateAssertion (v_l1TxMgr ?v) h n)" for h n
    by (simp add: wiring CreateAssertion_def sendRollupTx_def with_data_moves Send_moves)
  show "\<exists>e c1 c2. history (held w) c1 \<and> ro_createAssertion e h (word_of_int n) c1 = Inr c2 \<and> history c2 (held w')"
    if "vt_CreateAssertion (v_l1TxMgr ?v) h n w = (Ok receipt, w')" "\<not> rc_Failed receipt" for h n w receipt w'
  proof -
    from that(1) obtain d where "packCreateAssertionInput u h n = Ok d"
      "Send m env sendTx \<lparr>cand_TxData = d, cand_To = Some (RollupAddr conf), cand_GasLimit = 0, cand_Value = Some (uint (0 :: uint64))\<rparr> w = (Ok receipt, w')"
      by (auto simp: wiring CreateAssertion_def sendRollupTx_def with_data_def split: outcome.splits)
    from Send_executes [OF this(2) that(2), of "TxCreateAssertion h (word_of_int n)"] create_packs [OF this(1)] show ?thesis by simp
  qed
qed

section \<open>A concrete encoding of the calls\<close>

text \<open>Four bytes for the method and 32 bytes, big-endian, for each number or hash.\<close>

definition word_selector :: "string \<Rightarrow> bytes" where
  "word_selector name =
     (if name = ''stake'' then [0, 0, 0, 1] else if name = ''createAssertion'' then [0, 0, 0, 2]
      else if name = ''confirmFirstUnresolvedAssertion'' then [0, 0, 0, 3] else [0, 0, 0, 0])"

fun word_arg :: "abi_value \<Rightarrow> bytes outcome" where
  "word_arg (ABig n) = Ok (enc_be 32 n)"
| "word_arg (AHash h) = Ok (enc_be 32 (uint h))"
| "word_arg (AAddr a) = Ok (enc_be 32 (uint a))"
| "word_arg (ABytes b) = Err (NewError ''unsupported'')"
| "word_arg (AOther s) = Err (NewError ''unsupported'')"

fun word_args :: "abi_value list \<Rightarrow> bytes outcome" where
  "word_args [] = Ok []"
| "word_args (a # as) = bind_out (word_arg a) (\<lambda>d. bind_out (word_args as) (\<lambda>ds. Ok (d @ ds)))"

definition word_abi :: abi where
  "word_abi = \<lparr>abi_Pack = (\<lambda>name args. bind_out (word_args args) (\<lambda>d. Ok (word_selector name @ d))),
     abi_Unpack = (\<lambda>_ _. Ok []), abi_UnpackInputs = (\<lambda>_ _. Ok [])\<rparr>"

definition word_util :: bridgeSerializationUtil where
  "word_util = \<lparr>inboxAbi = word_abi, rollupAbi = word_abi, challengeAbi = word_abi, l1OracleAbi = word_abi\<rparr>"

definition word_decode :: "bytes \<Rightarrow> ro_tx option" where
  "word_decode d =
     (let sel = take 4 d; args = drop 4 d in
      if sel = [0, 0, 0, 1] then Some TxStake
      else if sel = [0, 0, 0, 2] then
        Some (TxCreateAssertion (word_of_int (dec_be (take 32 args))) (word_of_int (dec_be (take 32 (drop 32 args)))))
      else if sel = [0, 0, 0, 3] then Some TxConfirm
      else None)"

lemma word_of_int_dec_enc: "(word_of_int (dec_be (enc_be 32 k)) :: uint256) = word_of_int k"
  by (simp add: dec_enc_be word_of_int_eq_iff take_bit_eq_mod)

section \<open>A node that mines every transaction\<close>

text \<open>
  The world is the contract at address \<open>to\<close>, the number of the next L1 block and the safe L2 heads still to come. The node executes a call to estimate its gas
  and reports an execution that reverts; it mines every transaction that is sent, and the receipt of one that reverts has the failed status.
\<close>

record l1_world =
  l1_contract :: rollup
  l1_block :: uint256
  l2_heads :: "Header list"

definition node_env :: "address \<Rightarrow> big option \<Rightarrow> l1_world \<Rightarrow> msg_env" where
  "node_env addr val w = \<lparr>msg_sender = addr, msg_value = word_of_int (case val of None \<Rightarrow> 0 | Some x \<Rightarrow> x), block_number = l1_block w, is_validator = True,
     is_admin = False, when_not_paused = True, callee_accepts = (\<lambda>_. True), new_challenge = 0, challenge_initialized = False\<rparr>"

definition node_call :: "address \<Rightarrow> address option \<Rightarrow> bytes \<Rightarrow> msg_env \<Rightarrow> rollup \<Rightarrow> rollup option" where
  "node_call to dest d env c =
     (if dest \<noteq> Some to then Some c
      else case word_decode d of None \<Rightarrow> None | Some t \<Rightarrow> (case ro_exec env t c of Inl e \<Rightarrow> None | Inr c' \<Rightarrow> Some c'))"

definition node_backend :: "address \<Rightarrow> l1_world ETHBackend" where
  "node_backend to =
     \<lparr>be_BlockNumber = \<lambda>w. (Ok (ucast (l1_block w)), w), be_TransactionReceipt = \<lambda>h. ret_call None, be_SendTransaction = \<lambda>t. ret_call (),
      be_HeadBaseFee = ret_call (Some 50), be_SuggestGasTipCap = ret_call (Some 7), be_NonceAt = \<lambda>a. ret_call 3,
      be_EstimateGas = \<lambda>msg w. (case node_call to (msg_To msg) (msg_Data msg) (node_env (msg_From msg) (msg_Value msg) w) (l1_contract w) of
          None \<Rightarrow> Err (NewError ''execution reverted'') | Some c \<Rightarrow> Ok 21000, w),
      be_CallContract = \<lambda>msg n. ret_call []\<rparr>"

definition node_mgr :: "address \<Rightarrow> address \<Rightarrow> l1_world TxManager" where
  "node_mgr to addr = \<lparr>cfg = demo_cfg\<lparr>cfg_From := addr\<rparr>, backend = node_backend to, signer = \<lambda>a raw. ret_call \<lparr>inner = stored raw, tx_Hash = 7\<rparr>\<rparr>"

definition node_sendTx :: "address \<Rightarrow> address \<Rightarrow> Transaction \<Rightarrow> (l1_world, Receipt) call" where
  "node_sendTx to addr tx w =
     (case node_call to (tx_To (inner tx)) (tx_Data (inner tx)) (node_env addr (tx_Value (inner tx)) w) (l1_contract w) of
        None \<Rightarrow> (Ok \<lparr>rc_TxHash = tx_Hash tx, rc_BlockNumber = uint (l1_block w), rc_Failed = True\<rparr>, w\<lparr>l1_block := l1_block w + 1\<rparr>)
      | Some c \<Rightarrow> (Ok \<lparr>rc_TxHash = tx_Hash tx, rc_BlockNumber = uint (l1_block w), rc_Failed = False\<rparr>, w\<lparr>l1_contract := c, l1_block := l1_block w + 1\<rparr>))"

definition node_retry :: "l1_world mgr_world retry_env" where
  "node_retry = \<lparr>ctx_Err = \<lambda>_. None, strategy_Duration = FixedStrategy_Duration 2,
     time_Sleep = \<lambda>d sw. (fst sw, (snd sw)\<lparr>l1_block := l1_block (snd sw) + 1\<rparr>)\<rparr>"

definition node_client :: "address \<Rightarrow> l1_world mgr_world BridgeClient" where
  "node_client addr =
     (let r = \<lparr>rb_RequireFirstUnresolvedAssertionIsConfirmable = (\<lambda>_ sw.
             (case requireFirstUnresolvedAssertionIsConfirmable (node_env addr None (snd sw)) (l1_contract (snd sw)) of
                Inl e \<Rightarrow> Err (NewError NoUnresolvedAssertionErr) | Inr _ \<Rightarrow> Ok (), sw)),
           rb_GetStaker = (\<lambda>_ a sw. (Ok \<lparr>IsStaked = s_isStaked (ro_getStaker (l1_contract (snd sw)) a),
             AssertionID = uint (s_assertionID (ro_getStaker (l1_contract (snd sw)) a))\<rparr>, sw)),
           rb_GetAssertion = (\<lambda>_ i sw. (Ok \<lparr>StateHash = a_stateHash (ro_getAssertion (l1_contract (snd sw)) (word_of_int i)),
             BlockNum = uint (a_blockNum (ro_getAssertion (l1_contract (snd sw)) (word_of_int i)))\<rparr>, sw)),
           rb_CurrentRequiredStake = (\<lambda>_ sw. (Ok (uint (currentRequiredStake (l1_contract (snd sw)))), sw)),
           rb_GetLastConfirmedAssertionID = (\<lambda>_ sw. (Ok (uint (lastConfirmedAssertionID (l1_contract (snd sw)))), sw))\<rparr>
      in \<lparr>br_GetRequiredStakeAmount = bc_GetRequiredStakeAmount r, br_GetStaker = bc_GetStaker r, br_GetAssertion = bc_GetAssertion r,
          br_RequireFirstUnresolvedAssertionIsConfirmable = bc_RequireFirstUnresolvedAssertionIsConfirmable r\<rparr>)"

definition next_head :: "(l1_world, Header) call" where
  "next_head w = (case l2_heads w of [] \<Rightarrow> (Err (NewError ''not found''), w) | h # hs \<Rightarrow> (Ok h, w\<lparr>l2_heads := hs\<rparr>))"

definition node_l2 :: "l1_world mgr_world L2Client" where
  "node_l2 = \<lparr>l2_EnsureDialed = ret_call (), l2_BlockNumber = ret_call 0, l2_BlockByNumber = (\<lambda>_. ret_call (demo_block 0 [])),
     l2_HeaderByTag = (\<lambda>_. lift_call next_head)\<rparr>"

definition node_conf :: bridgeConfig where
  "node_conf = \<lparr>SequencerInboxAddr = 4, RollupAddr = 5\<rparr>"

lemma node_sendTx_moves: "moves_by l1_contract (node_sendTx to addr tx)"
  by (auto simp: moves_by_def node_sendTx_def node_call_def history_exec split: option.splits sum.splits if_splits)

lemma next_head_moves: "moves_by l1_contract next_head"
  by (simp add: moves_by_def next_head_def split: list.splits)

interpretation node: sending_node "node_mgr 5 addr" node_retry word_util node_conf word_decode l1_contract "node_sendTx 5 addr" "node_client addr" node_l2 for addr
proof unfold_locales
  fix msg a raw sw i dur h n d t w tx receipt w' tag
  note node = node_mgr_def node_backend_def
  show "moves_by l1_contract (be_SuggestGasTipCap (backend (node_mgr 5 addr)))" "moves_by l1_contract (be_HeadBaseFee (backend (node_mgr 5 addr)))"
    "moves_by l1_contract (be_NonceAt (backend (node_mgr 5 addr)) a)" "moves_by l1_contract (signer (node_mgr 5 addr) a raw)" by (simp_all add: node)
  show "moves_by l1_contract (be_EstimateGas (backend (node_mgr 5 addr)) msg)" by (simp add: node moves_by_def)
  show "history (l1_contract (snd sw)) (l1_contract (snd (snd (strategy_Duration node_retry i sw))))"
    "history (l1_contract (snd sw)) (l1_contract (snd (time_Sleep node_retry dur sw)))" by (simp_all add: node_retry_def FixedStrategy_Duration_def)
  show "word_decode d = Some (TxCreateAssertion h (word_of_int n))" if "packCreateAssertionInput word_util h n = Ok d"
    using that by (auto simp: packCreateAssertionInput_def word_util_def word_abi_def word_selector_def word_decode_def word_of_int_dec_enc)
  show "\<exists>x. fst (be_EstimateGas (backend (node_mgr 5 addr)) msg w) = Err x"
    if "msg_To msg = Some (RollupAddr node_conf)" "word_decode (msg_Data msg) = Some t" "\<And>e. \<exists>x. ro_exec e t (l1_contract w) = Inl x"
    using that(1,2) that(3) [of "node_env (msg_From msg) (msg_Value msg) w"] by (auto simp: node node_call_def node_conf_def)
  show "signer_keeps (node_mgr 5 addr)" by (simp add: signer_keeps_def node_mgr_def ret_call_def)
  show "moves_by l1_contract (node_sendTx 5 addr tx)" by (rule node_sendTx_moves)
  show "\<exists>e c1 c2. history (l1_contract w) c1 \<and> ro_exec e t c1 = Inr c2 \<and> history c2 (l1_contract w')"
    if "node_sendTx 5 addr tx w = (Ok receipt, w')" "\<not> rc_Failed receipt" "tx_To (inner tx) = Some (RollupAddr node_conf)" "word_decode (tx_Data (inner tx)) = Some t"
  proof -
    have "ro_exec (node_env addr (tx_Value (inner tx)) w) t (l1_contract w) = Inr (l1_contract w')"
      using that by (auto simp: node_sendTx_def node_call_def node_conf_def split: option.splits sum.splits)
    then show ?thesis by (metis history_refl)
  qed
  show "moves_by (\<lambda>sw. l1_contract (snd sw)) (br_RequireFirstUnresolvedAssertionIsConfirmable (node_client addr))"
    by (simp add: node_client_def moves_by_def bc_RequireFirstUnresolvedAssertionIsConfirmable_def Let_def)
  show "moves_by (\<lambda>sw. l1_contract (snd sw)) (l2_HeaderByTag node_l2 tag)" by (simp add: node_l2_def moves_by_lift next_head_moves)
qed

section \<open>Properties\<close>

text \<open>
  C11: a validator asserts at most once. On any L1 that runs the rollup contract, from its initialization and whatever others do with it, once the ticks
  of a validator have changed its record of the last created assertion no further tick does: every later safe head is refused.
\<close>

theorem validator_asserts_once:
  assumes "rollup_l1 v contract" "ro_initialize env0 args = Inr c0" "contract w = foldl ro_apply c0 txs"
    and "fst (foldl (\<lambda>s (_ :: unit). snd (validator_step v s)) (a, w) ticks) \<noteq> a"
  shows "fst (foldl (\<lambda>s (_ :: unit). snd (validator_step v s)) (a, w) (ticks @ ticks2)) =
    fst (foldl (\<lambda>s (_ :: unit). snd (validator_step v s)) (a, w) ticks)"
proof -
  have "single_child (init_assertionID args) (contract w)"
    unfolding assms(3) by (rule single.run_inv [OF initialize_invariants(3) [OF assms(2)]])
  then show ?thesis using rollup_l1.asserts_once [OF assms(1), of _ "(a, w)" ticks ticks2] assms(4) by simp
qed

text \<open>
  C16: new safe heads keep the validator from confirming. Take the validator over the bridge and the transaction manager, on a node whose gas estimate fails for a call
  that reverts, and let an assertion have been created since the contract was initialized. As long as every tick finds a safe head later than the validator's record (or none),
  every tick ends with an error of \<open>createAssertion\<close>, the record stays, and neither the bridge client is asked whether the first assertion can be confirmed nor any transaction
  sent: the run is the same whatever these two would do. A refused assertion is not mined with a failed status, after which the step would go on, because it
  already fails when its gas is estimated.
\<close>

theorem new_heads_block_confirmation:
  assumes "l1_node m env u conf decode contract" "moves_by (\<lambda>sw. contract (snd sw)) (l2_HeaderByTag l2 Safe)"
    and "ro_initialize env0 args = Inr c0" "contract (snd sw) = foldl ro_apply c0 txs" "lastCreatedAssertionID (contract (snd sw)) \<noteq> init_assertionID args"
    and "v = sidecar_validator addr m env sendTx conf u client l2" "v' = sidecar_validator addr m env sendTx' conf u client' l2"
    and "\<forall>k<n. \<forall>head sw'. l2_HeaderByTag l2 Safe (snd (after_ticks v k (a, sw))) = (Ok head, sw') \<longrightarrow> l2BlockNum a < word_of_int (h_Number head)"
  shows "fst (after_ticks v n (a, sw)) = a \<and> (\<forall>k<n. \<not> is_Ok (fst (validator_step v (after_ticks v k (a, sw))))) \<and>
    after_ticks v n (a, sw) = after_ticks v' n (a, sw)"
proof -
  have "single_child (init_assertionID args) (contract (snd sw))"
    unfolding assms(4) by (rule single.run_inv [OF initialize_invariants(3) [OF assms(3)]])
  then have "has_child (init_assertionID args) (contract (snd sw))" using assms(5) by (simp add: has_child_def)
  from l1_node.ticks_refused [OF assms(1) this assms(2,6,7,8)] show ?thesis by auto
qed

section \<open>A run\<close>

definition demo_head :: "nat \<Rightarrow> Header" where
  "demo_head n = \<lparr>h_Number = int n, h_Hash = of_nat n, h_ParentHash = 0\<rparr>"

definition demo_node :: "l1_world mgr_world Validator" where
  "demo_node = sidecar_validator 1 (node_mgr 5 1) node_retry (node_sendTx 5 1) node_conf word_util (node_client 1) node_l2"

text \<open>The account is staked; the second transaction is the first assertion, whose confirmation period has passed.\<close>

definition demo_world :: "nat \<Rightarrow> nat list \<Rightarrow> l1_world mgr_world" where
  "demo_world k heads = (None, \<lparr>l1_contract = foldl ro_apply demo_contract (take k [(sent_by 1 150 2, TxStake), (sent_by 1 0 3, TxCreateAssertion 21 5)]),
     l1_block = 40, l2_heads = map demo_head heads\<rparr>)"

theorem validator_asserts_once_witness:
  "fst (foldl (\<lambda>s (_ :: unit). snd (validator_step demo_node s)) (\<lparr>l2BlockNum = 0, l2VMHash = 0\<rparr>, demo_world 1 [5, 9]) ([()] @ [()])) =
     \<lparr>l2BlockNum = 5, l2VMHash = 5\<rparr>"
proof -
  let ?a = "\<lparr>l2BlockNum = 0, l2VMHash = 0\<rparr>"
  have first: "fst (foldl (\<lambda>s (_ :: unit). snd (validator_step demo_node s)) (?a, demo_world 1 [5, 9]) [()]) = \<lparr>l2BlockNum = 5, l2VMHash = 5\<rparr>"
    by code_simp
  have l1: "rollup_l1 demo_node (\<lambda>sw. l1_contract (snd sw))"
    unfolding demo_node_def by (rule node.wired.rollup_l1_axioms)
  have c: "l1_contract (snd (demo_world 1 [5, 9])) = foldl ro_apply demo_contract [(sent_by 1 150 2, TxStake)]" by (simp add: demo_world_def)
  from validator_asserts_once [OF l1 demo_contract_initialized c, of ?a "[()]" "[()]"] first show ?thesis by simp
qed

text \<open>The first assertion can be confirmed; a client that would panic when asked, and a \<open>sendTx\<close> that would panic, make no difference.\<close>

definition demo_panicking :: "l1_world mgr_world Validator" where
  "demo_panicking = sidecar_validator 1 (node_mgr 5 1) node_retry (\<lambda>tx w. (Panic ''sent'', w)) node_conf word_util
     ((node_client 1)\<lparr>br_RequireFirstUnresolvedAssertionIsConfirmable := (\<lambda>w. (Panic ''asked'', w))\<rparr>) node_l2"

theorem new_heads_block_confirmation_witness:
  "requireFirstUnresolvedAssertionIsConfirmable (node_env 1 None (snd (demo_world 2 [6, 9]))) (l1_contract (snd (demo_world 2 [6, 9]))) = Inr () \<and>
   after_ticks demo_node 2 (\<lparr>l2BlockNum = 5, l2VMHash = 5\<rparr>, demo_world 2 [6, 9]) =
     after_ticks demo_panicking 2 (\<lparr>l2BlockNum = 5, l2VMHash = 5\<rparr>, demo_world 2 [6, 9])"
proof
  show "requireFirstUnresolvedAssertionIsConfirmable (node_env 1 None (snd (demo_world 2 [6, 9]))) (l1_contract (snd (demo_world 2 [6, 9]))) = Inr ()"
    by code_simp
  let ?a = "\<lparr>l2BlockNum = 5, l2VMHash = 5\<rparr>" let ?w = "demo_world 2 [6, 9]"
  have i: "lastCreatedAssertionID (l1_contract (snd ?w)) \<noteq> init_assertionID demo_args" by code_simp
  have c: "l1_contract (snd ?w) = foldl ro_apply demo_contract [(sent_by 1 150 2, TxStake), (sent_by 1 0 3, TxCreateAssertion 21 5)]"
    by (simp add: demo_world_def)
  have h: "map h_Number (l2_heads (snd (snd (after_ticks demo_node 0 (?a, ?w))))) = [6, 9]"
    "map h_Number (l2_heads (snd (snd (after_ticks demo_node 1 (?a, ?w))))) = [9]" by code_simp+
  have later: "\<forall>k<2. \<forall>head sw'. l2_HeaderByTag node_l2 Safe (snd (after_ticks demo_node k (?a, ?w))) = (Ok head, sw') \<longrightarrow>
      l2BlockNum ?a < word_of_int (h_Number head)"
    using h by (auto simp: less_2_cases_iff node_l2_def next_head_def split: list.splits)
  show "after_ticks demo_node 2 (?a, ?w) = after_ticks demo_panicking 2 (?a, ?w)"
    using new_heads_block_confirmation [OF node.l1_node_axioms node.header_moves demo_contract_initialized c i demo_node_def demo_panicking_def later] by blast
qed

end
