(* ===== verification/Memory_DB.thy ===== *)
theory Memory_DB
  imports Go_Prelude
begin

text \<open>
  \<^verbatim>\<open>ops/state/memory_db.go\<close>: geth's \<open>StateDB\<close> over the allocation of a genesis file. An account is a
  struct with two fields that can be nil, the balance pointer and the storage map; the zero account
  that Go returns for an absent key has both nil. Keccak-256 is a parameter. \<open>Alloc\<close> is the non-nil map
  that every constructor of a genesis sets. Panic messages leave out the address. The locale \<open>account_state\<close> is the part of
  \<open>vm.StateDB\<close> that clients rely on, interpreted here.
\<close>

section \<open>Accounts\<close>

type_synonym storage = "hash \<Rightarrow> hash option"

record GenesisAccount =
  Code :: bytes
  Storage :: "storage option"
  Balance :: "big option"
  Nonce :: uint64

type_synonym MemoryStateDB = "address \<Rightarrow> GenesisAccount option"

definition zero_account :: GenesisAccount where
  "zero_account = \<lparr>Code = [], Storage = None, Balance = None, Nonce = 0\<rparr>"

abbreviation nil_deref :: string where "nil_deref \<equiv> ''nil pointer dereference''"
abbreviation not_in_state :: string where "not_in_state \<equiv> ''not in state''"
abbreviation nil_map_write :: string where "nil_map_write \<equiv> ''assignment to entry in nil map''"

section \<open>Operations\<close>

definition GetAccount :: "address \<Rightarrow> MemoryStateDB \<Rightarrow> GenesisAccount option" where
  "GetAccount addr db = db addr"

definition CreateAccount :: "address \<Rightarrow> (MemoryStateDB, unit) call" where
  "CreateAccount addr db =
     (Ok (), case db addr of
               Some _ \<Rightarrow> db
             | None \<Rightarrow> db(addr \<mapsto> \<lparr>Code = [], Storage = Some Map.empty, Balance = Some 0, Nonce = 0\<rparr>))"

definition SubBalance :: "address \<Rightarrow> big \<Rightarrow> (MemoryStateDB, unit) call" where
  "SubBalance addr amount db =
     (case db addr of
        None \<Rightarrow> (Panic not_in_state, db)
      | Some account \<Rightarrow>
          (case Balance account of
             None \<Rightarrow> (Panic nil_deref, db)
           | Some b \<Rightarrow> if b = 0 then (Ok (), db) else (Ok (), db(addr \<mapsto> account\<lparr>Balance := Some (b - amount)\<rparr>))))"

definition AddBalance :: "address \<Rightarrow> big \<Rightarrow> (MemoryStateDB, unit) call" where
  "AddBalance addr amount db =
     (case db addr of
        None \<Rightarrow> (Panic not_in_state, db)
      | Some account \<Rightarrow>
          (case Balance account of
             None \<Rightarrow> (Panic nil_deref, db)
           | Some b \<Rightarrow> (Ok (), db(addr \<mapsto> account\<lparr>Balance := Some (b + amount)\<rparr>))))"

definition GetBalance :: "address \<Rightarrow> MemoryStateDB \<Rightarrow> big option" where
  "GetBalance addr db = (case db addr of None \<Rightarrow> Some 0 | Some account \<Rightarrow> Balance account)"

definition GetNonce :: "address \<Rightarrow> MemoryStateDB \<Rightarrow> uint64" where
  "GetNonce addr db = (case db addr of None \<Rightarrow> 0 | Some account \<Rightarrow> Nonce account)"

definition SetNonce :: "address \<Rightarrow> uint64 \<Rightarrow> (MemoryStateDB, unit) call" where
  "SetNonce addr value db =
     (Ok (), case db addr of None \<Rightarrow> db | Some account \<Rightarrow> db(addr \<mapsto> account\<lparr>Nonce := value\<rparr>))"

definition GetCodeHash :: "(bytes \<Rightarrow> hash) \<Rightarrow> address \<Rightarrow> MemoryStateDB \<Rightarrow> hash" where
  "GetCodeHash keccak addr db =
     (case db addr of
        None \<Rightarrow> 0
      | Some account \<Rightarrow> if length (Code account) = 0 then keccak [] else keccak (Code account))"

definition GetCode :: "(bytes \<Rightarrow> hash) \<Rightarrow> address \<Rightarrow> MemoryStateDB \<Rightarrow> bytes" where
  "GetCode keccak addr db =
     (case db addr of
        None \<Rightarrow> []
      | Some account \<Rightarrow> if keccak (Code account) = keccak [] then [] else Code account)"

definition SetCode :: "address \<Rightarrow> bytes \<Rightarrow> (MemoryStateDB, unit) call" where
  "SetCode addr code db =
     (Ok (), case db addr of None \<Rightarrow> db | Some account \<Rightarrow> db(addr \<mapsto> account\<lparr>Code := code\<rparr>))"

definition GetCodeSize :: "(bytes \<Rightarrow> hash) \<Rightarrow> address \<Rightarrow> MemoryStateDB \<Rightarrow> nat" where
  "GetCodeSize keccak addr db =
     (case db addr of
        None \<Rightarrow> 0
      | Some account \<Rightarrow> if keccak (Code account) = keccak [] then 0 else length (Code account))"

text \<open>Reading a nil map gives the zero value; writing to it panics.\<close>

definition read_storage :: "storage option \<Rightarrow> hash \<Rightarrow> hash" where
  "read_storage s key = (case s of None \<Rightarrow> 0 | Some m \<Rightarrow> (case m key of None \<Rightarrow> 0 | Some v \<Rightarrow> v))"

definition GetState :: "address \<Rightarrow> hash \<Rightarrow> MemoryStateDB \<Rightarrow> hash" where
  "GetState addr key db = (case db addr of None \<Rightarrow> 0 | Some account \<Rightarrow> read_storage (Storage account) key)"

definition SetState :: "address \<Rightarrow> hash \<Rightarrow> hash \<Rightarrow> (MemoryStateDB, unit) call" where
  "SetState addr key value db =
     (case db addr of
        None \<Rightarrow> (Panic not_in_state, db)
      | Some account \<Rightarrow>
          (case Storage account of
             None \<Rightarrow> (Panic nil_map_write, db)
           | Some m \<Rightarrow> (Ok (), db(addr \<mapsto> account\<lparr>Storage := Some (m(key \<mapsto> value))\<rparr>))))"

definition DeleteState :: "address \<Rightarrow> hash \<Rightarrow> (MemoryStateDB, unit) call" where
  "DeleteState addr key db =
     (case db addr of
        None \<Rightarrow> (Panic not_in_state, db)
      | Some account \<Rightarrow>
          (Ok (), db(addr \<mapsto> account\<lparr>Storage := map_option (\<lambda>m. m(key := None)) (Storage account)\<rparr>)))"

definition Exist :: "address \<Rightarrow> MemoryStateDB \<Rightarrow> bool" where
  "Exist addr db \<longleftrightarrow> db addr \<noteq> None"

definition Empty :: "(bytes \<Rightarrow> hash) \<Rightarrow> address \<Rightarrow> MemoryStateDB \<Rightarrow> bool outcome" where
  "Empty keccak addr db =
     (let ok = (db addr \<noteq> None);
          account = (case db addr of None \<Rightarrow> zero_account | Some a \<Rightarrow> a);
          isZeroNonce = (Nonce account = 0)
      in case Balance account of
           None \<Rightarrow> Panic nil_deref
         | Some b \<Rightarrow>
             let isZeroValue = (b = 0);
                 isEmptyCode = (keccak (Code account) = keccak [])
             in Ok (ok \<or> (isZeroNonce \<and> isZeroValue \<and> isEmptyCode)))"

text \<open>
  \<open>ForEachStorage\<close> calls back on the entries in an order Go leaves open (\<open>entries\<close>, any listing of the
  map), until the callback returns false; the callback's own state is \<open>'c\<close>.
\<close>

fun each_entry :: "('c \<Rightarrow> hash \<Rightarrow> hash \<Rightarrow> bool \<times> 'c) \<Rightarrow> (hash \<times> hash) list \<Rightarrow> 'c \<Rightarrow> 'c" where
  "each_entry cb [] c = c"
| "each_entry cb ((k, v) # rest) c = (case cb c k v of (go, c') \<Rightarrow> if go then each_entry cb rest c' else c')"

definition ForEachStorage ::
    "((storage \<Rightarrow> (hash \<times> hash) list)) \<Rightarrow> address \<Rightarrow> ('c \<Rightarrow> hash \<Rightarrow> hash \<Rightarrow> bool \<times> 'c) \<Rightarrow> MemoryStateDB \<Rightarrow> 'c \<Rightarrow> 'c" where
  "ForEachStorage entries addr cb db c =
     (case db addr of
        None \<Rightarrow> c
      | Some account \<Rightarrow> (case Storage account of None \<Rightarrow> c | Some m \<Rightarrow> each_entry cb (entries m) c))"

lemmas memdb_defs [op_defs] =
  CreateAccount_def SubBalance_def AddBalance_def GetBalance_def GetNonce_def SetNonce_def SetCode_def
  GetState_def SetState_def DeleteState_def Exist_def read_storage_def

section \<open>Methods that are not implemented\<close>

text \<open>The remaining methods of \<open>vm.StateDB\<close> panic without touching the database, whatever their arguments; \<open>Prepare\<close> does nothing.\<close>

datatype refund_method = AddRefund uint64 | SubRefund uint64 | GetRefund | GetCommittedState address hash

fun refund_call :: "refund_method \<Rightarrow> (MemoryStateDB, 'a) call" where
  "refund_call (AddRefund n) db = (Panic ''AddRefund unimplemented'', db)"
| "refund_call (SubRefund n) db = (Panic ''SubRefund unimplemented'', db)"
| "refund_call GetRefund db = (Panic ''GetRefund unimplemented'', db)"
| "refund_call (GetCommittedState a k) db = (Panic ''GetCommittedState unimplemented'', db)"

datatype destruct_method = SelfDestruct address | HasSelfDestructed address | Selfdestruct6780 address

fun destruct_call :: "destruct_method \<Rightarrow> (MemoryStateDB, 'a) call" where
  "destruct_call (SelfDestruct a) db = (Panic ''SelfDestruct unimplemented'', db)"
| "destruct_call (HasSelfDestructed a) db = (Panic ''HasSelfDestructed unimplemented'', db)"
| "destruct_call (Selfdestruct6780 a) db = (Panic ''Selfdestruct6780 unimplemented'', db)"

datatype journal_method =
    PrepareAccessList address "address option" "address list"
  | AddressInAccessList address
  | SlotInAccessList address hash
  | AddAddressToAccessList address
  | AddSlotToAccessList address hash
  | RevertToSnapshot int
  | Snapshot
  | AddLog
  | AddPreimage hash bytes

fun journal_call :: "journal_method \<Rightarrow> (MemoryStateDB, 'a) call" where
  "journal_call (PrepareAccessList a d ps) db = (Panic ''PrepareAccessList unimplemented'', db)"
| "journal_call (AddressInAccessList a) db = (Panic ''AddressInAccessList unimplemented'', db)"
| "journal_call (SlotInAccessList a k) db = (Panic ''SlotInAccessList unimplemented'', db)"
| "journal_call (AddAddressToAccessList a) db = (Panic ''AddAddressToAccessList unimplemented'', db)"
| "journal_call (AddSlotToAccessList a k) db = (Panic ''AddSlotToAccessList unimplemented'', db)"
| "journal_call (RevertToSnapshot i) db = (Panic ''RevertToSnapshot unimplemented'', db)"
| "journal_call Snapshot db = (Panic ''Snapshot unimplemented'', db)"
| "journal_call AddLog db = (Panic ''AddLog unimplemented'', db)"
| "journal_call (AddPreimage h d) db = (Panic ''AddPreimage unimplemented'', db)"

definition transient_call :: "(MemoryStateDB, 'a) call" where
  "transient_call db = (Panic ''transient state is unsupported'', db)"

definition Prepare :: "(MemoryStateDB, unit) call" where
  "Prepare db = (Ok (), db)"

definition proof_call :: "(MemoryStateDB, 'a) call" where
  "proof_call db = (Panic ''unsupported'', db)"

section \<open>The contract of a state database\<close>

text \<open>
  \<open>funded a\<close>: account \<open>a\<close> exists and has a balance. Under it, additions and subtractions succeed and
  show in \<open>balance\<close>; no balance change touches storage or makes an account unusable.
\<close>

locale account_state =
  fixes balance :: "address \<Rightarrow> 'db \<Rightarrow> big option"
    and add_balance sub_balance :: "address \<Rightarrow> big \<Rightarrow> ('db, unit) call"
    and get_state :: "address \<Rightarrow> hash \<Rightarrow> 'db \<Rightarrow> hash"
    and funded :: "address \<Rightarrow> 'db \<Rightarrow> bool"
  assumes funded_balance: "funded a db \<Longrightarrow> \<exists>b. balance a db = Some b"
    and add_Ok: "funded a db \<Longrightarrow> \<exists>db'. add_balance a x db = (Ok (), db') \<and> (\<forall>c. funded c db' \<longleftrightarrow> funded c db) \<and>
      balance a db' = map_option (\<lambda>b. b + x) (balance a db) \<and> (\<forall>c. c \<noteq> a \<longrightarrow> balance c db' = balance c db) \<and>
      (\<forall>c k. get_state c k db' = get_state c k db)"
    and sub_Ok: "funded a db \<Longrightarrow> balance a db = Some b \<Longrightarrow> x \<le> b \<Longrightarrow> 0 \<le> x \<Longrightarrow>
      \<exists>db'. sub_balance a x db = (Ok (), db') \<and> (\<forall>c. funded c db' \<longleftrightarrow> funded c db) \<and>
      balance a db' = Some (b - x) \<and> (\<forall>c. c \<noteq> a \<longrightarrow> balance c db' = balance c db) \<and>
      (\<forall>c k. get_state c k db' = get_state c k db)"

definition mem_funded :: "address \<Rightarrow> MemoryStateDB \<Rightarrow> bool" where
  "mem_funded a db \<longleftrightarrow> (case db a of None \<Rightarrow> False | Some account \<Rightarrow> Balance account \<noteq> None)"

interpretation memdb: account_state GetBalance AddBalance SubBalance GetState mem_funded
proof unfold_locales
  fix a db x
  assume f: "mem_funded a db"
  then obtain account b where a: "db a = Some account" "Balance account = Some b"
    by (auto simp: mem_funded_def split: option.splits)
  show "\<exists>b. GetBalance a db = Some b" using a by (simp add: GetBalance_def)
  show "\<exists>db'. AddBalance a x db = (Ok (), db') \<and> (\<forall>c. mem_funded c db' \<longleftrightarrow> mem_funded c db) \<and>
      GetBalance a db' = map_option (\<lambda>b. b + x) (GetBalance a db) \<and> (\<forall>c. c \<noteq> a \<longrightarrow> GetBalance c db' = GetBalance c db) \<and>
      (\<forall>c k. GetState c k db' = GetState c k db)"
    using a by (auto simp: AddBalance_def GetBalance_def GetState_def mem_funded_def)
  fix b'
  assume "GetBalance a db = Some b'" "x \<le> b'" "0 \<le> x"
  then show "\<exists>db'. SubBalance a x db = (Ok (), db') \<and> (\<forall>c. mem_funded c db' \<longleftrightarrow> mem_funded c db) \<and>
      GetBalance a db' = Some (b' - x) \<and> (\<forall>c. c \<noteq> a \<longrightarrow> GetBalance c db' = GetBalance c db) \<and>
      (\<forall>c k. GetState c k db' = GetState c k db)"
    using a by (auto simp: SubBalance_def GetBalance_def GetState_def mem_funded_def)
qed

section \<open>Well-formed databases\<close>

text \<open>The operations that change the database, as events.\<close>

datatype db_op =
    OpCreateAccount address
  | OpAddBalance address big
  | OpSubBalance address big
  | OpSetNonce address uint64
  | OpSetCode address bytes
  | OpSetState address hash hash
  | OpDeleteState address hash

fun db_call :: "db_op \<Rightarrow> (MemoryStateDB, unit) call" where
  "db_call (OpCreateAccount a) = CreateAccount a"
| "db_call (OpAddBalance a x) = AddBalance a x"
| "db_call (OpSubBalance a x) = SubBalance a x"
| "db_call (OpSetNonce a n) = SetNonce a n"
| "db_call (OpSetCode a c) = SetCode a c"
| "db_call (OpSetState a k v) = SetState a k v"
| "db_call (OpDeleteState a k) = DeleteState a k"

fun op_address :: "db_op \<Rightarrow> address" where
  "op_address (OpCreateAccount a) = a"
| "op_address (OpAddBalance a x) = a"
| "op_address (OpSubBalance a x) = a"
| "op_address (OpSetNonce a n) = a"
| "op_address (OpSetCode a c) = a"
| "op_address (OpSetState a k v) = a"
| "op_address (OpDeleteState a k) = a"

definition db_step :: "MemoryStateDB \<Rightarrow> db_op \<Rightarrow> MemoryStateDB" where
  "db_step db x = snd (db_call x db)"

definition wf_account :: "GenesisAccount \<Rightarrow> bool" where
  "wf_account account \<longleftrightarrow> Storage account \<noteq> None \<and> Balance account \<noteq> None"

definition wf_db :: "MemoryStateDB \<Rightarrow> bool" where
  "wf_db db \<longleftrightarrow> (\<forall>a account. db a = Some account \<longrightarrow> wf_account account)"

lemma wf_db_lookup: "wf_db db \<Longrightarrow> db a = Some account \<Longrightarrow> wf_account account"
  by (simp add: wf_db_def)

lemma wf_db_update: "wf_db db \<Longrightarrow> wf_account account \<Longrightarrow> wf_db (db(a \<mapsto> account))"
  by (simp add: wf_db_def)

lemma wf_account_update [simp]:
  "wf_account (account\<lparr>Nonce := n\<rparr>) = wf_account account" "wf_account (account\<lparr>Code := c\<rparr>) = wf_account account"
  "wf_account (account\<lparr>Balance := Some b\<rparr>) = (Storage account \<noteq> None)"
  "wf_account (account\<lparr>Storage := st\<rparr>) = (st \<noteq> None \<and> Balance account \<noteq> None)"
  by (auto simp: wf_account_def)

lemma wf_account_fields: "wf_account account \<Longrightarrow> \<exists>m b. Storage account = Some m \<and> Balance account = Some b"
  by (auto simp: wf_account_def)

lemma db_step_cases:
  assumes "wf_db db" "db (op_address x) = Some account"
  shows "is_Ok (fst (db_call x db)) \<and> wf_db (snd (db_call x db))"
proof -
  obtain m b where mb: "Storage account = Some m" "Balance account = Some b"
    using wf_account_fields wf_db_lookup [OF assms] by blast
  show ?thesis
    using assms mb by (cases x) (auto simp: op_defs wf_account_def intro!: wf_db_update)
qed

lemma db_step_absent:
  assumes "wf_db db" "db (op_address x) = None"
  shows "wf_db (snd (db_call x db))"
  using assms by (cases x) (auto simp: op_defs wf_account_def intro!: wf_db_update)

interpretation memdb_wf: event_component db_step wf_db
proof unfold_locales
  fix db x
  assume "wf_db db"
  then show "wf_db (db_step db x)"
    using db_step_cases db_step_absent by (cases "db (op_address x)") (auto simp: db_step_def)
qed

text \<open>
  A database that starts empty never meets a nil balance or a nil storage map. After any sequence of
  \<open>CreateAccount\<close>, balance, nonce, code and storage operations, every account has both, and every
  operation on an account that exists returns without a panic.
\<close>

theorem fresh_database_is_sound:
  "let db = foldl db_step Map.empty history
   in wf_db db \<and> (GetAccount (op_address x) db = None \<or> is_Ok (fst (db_call x db)))"
proof -
  have wf: "wf_db (foldl db_step Map.empty history)"
    by (rule memdb_wf.run_inv) (simp add: wf_db_def)
  show ?thesis
    using wf db_step_cases [OF wf, of x]
    by (cases "foldl db_step Map.empty history (op_address x)") (simp_all add: GetAccount_def)
qed

text \<open>
  Storage is a total map with default zero. \<open>SetState\<close> on a well-formed account succeeds and changes
  the one slot of the one account and no balance, nonce or code; \<open>DeleteState\<close> sets it back to zero.
\<close>

theorem SetState_laws:
  assumes "wf_db db" "Exist a db"
  shows "\<exists>db1 db2. SetState a k v db = (Ok (), db1) \<and> DeleteState a k db1 = (Ok (), db2) \<and>
    (\<forall>c j. GetState c j db1 = (if c = a \<and> j = k then v else GetState c j db)) \<and>
    (\<forall>c j. GetState c j db2 = (if c = a \<and> j = k then 0 else GetState c j db)) \<and>
    (\<forall>c. GetBalance c db1 = GetBalance c db \<and> GetNonce c db1 = GetNonce c db \<and> GetCode keccak c db1 = GetCode keccak c db)"
proof -
  obtain account where a: "db a = Some account" using assms(2) by (auto simp: Exist_def)
  then obtain m b where "Storage account = Some m" "Balance account = Some b"
    using wf_account_fields wf_db_lookup [OF assms(1)] by blast
  with a show ?thesis by (auto simp: op_defs GetCode_def)
qed

theorem SetState_laws_witness:
  "\<exists>db1. SetState 5 1 42 (snd (CreateAccount 5 Map.empty)) = (Ok (), db1) \<and> GetState 5 1 db1 = 42"
proof -
  have "wf_db (snd (CreateAccount 5 Map.empty))" "Exist 5 (snd (CreateAccount 5 Map.empty))"
    by (auto simp: CreateAccount_def wf_db_def wf_account_def Exist_def)
  from SetState_laws [OF this, of 1 42 "\<lambda>_. 0"] show ?thesis by auto
qed

text \<open>
  \<open>Empty\<close> does not compute emptiness. EIP-161 emptiness is balance, nonce and code all zero; the
  method answers true for every account that exists, whatever it holds, and panics on a nil balance
  for every account that does not.
\<close>

theorem Empty_is_existence:
  assumes "wf_db db"
  shows "Empty keccak a db = (if Exist a db then Ok True else Panic nil_deref)"
proof (cases "db a")
  case None
  then show ?thesis by (simp add: Empty_def Exist_def zero_account_def)
next
  case (Some account)
  then obtain b where "Balance account = Some b"
    using wf_account_fields wf_db_lookup [OF assms] by blast
  with Some show ?thesis by (simp add: Empty_def Exist_def Let_def)
qed

theorem Empty_is_existence_witness:
  "Empty (\<lambda>_. 0) 5 (snd (AddBalance 5 1000 (snd (CreateAccount 5 Map.empty)))) = Ok True \<and>
   GetBalance 5 (snd (AddBalance 5 1000 (snd (CreateAccount 5 Map.empty)))) = Some 1000"
proof -
  have "wf_db (snd (AddBalance 5 1000 (snd (CreateAccount 5 Map.empty))))"
    by (simp add: CreateAccount_def AddBalance_def wf_db_def wf_account_def)
  from Empty_is_existence [OF this, of "\<lambda>_. 0" 5] show ?thesis
    by (simp add: CreateAccount_def AddBalance_def Exist_def GetBalance_def)
qed

end
