(* ===== verification/Fee_Hook.thy ===== *)
theory Fee_Hook
  imports Memory_DB Complex_Main "HOL-Library.Log_Nat"
begin

text \<open>
  \<^verbatim>\<open>lib/el_golang_lib/hook/fee_hook.go\<close>: the hook that charges the L1 data fee before a transfer. The RLP
  encoding of a transaction is a parameter; \<open>vm.StateDB\<close> is a record of the methods the hook calls, with
  the laws of the locale \<open>account_state\<close>. \<open>big.Float\<close> of Go's standard library is modelled on rational
  numbers with rounding to a given number of mantissa bits, ties to even.
\<close>

section \<open>big.Float\<close>

definition round_half_even :: "rat \<Rightarrow> int" where
  "round_half_even q =
     (let f = \<lfloor>q\<rfloor>; d = q - of_int f
      in if d < 1 / 2 then f else if 1 / 2 < d then f + 1 else if even f then f else f + 1)"

text \<open>The binary exponent of a positive number: \<open>2 ^ (e - 1) \<le> q < 2 ^ e\<close>.\<close>

definition expo :: "rat \<Rightarrow> int" where
  "expo q =
     (case quotient_of q of (a, b) \<Rightarrow>
        let e = bitlen a - bitlen b in if power_int 2 e \<le> q then e + 1 else e)"

definition round_prec :: "nat \<Rightarrow> rat \<Rightarrow> rat" where
  "round_prec p q =
     (if q = 0 then 0
      else let u = power_int 2 (expo \<bar>q\<bar> - int p)
           in sgn q * of_int (round_half_even (\<bar>q\<bar> / u)) * u)"

definition trunc :: "rat \<Rightarrow> int" where
  "trunc q = (if 0 \<le> q then \<lfloor>q\<rfloor> else \<lceil>q\<rceil>)"

text \<open>
  \<open>fmt.Sprintf\<close> with \<^verbatim>\<open>%.3f\<close> of a finite \<open>float64\<close> of value \<open>scalar\<close> prints this many thousandths;
  \<open>SetString\<close> reads them back with 64 bits.
\<close>

definition thousandths :: "rat \<Rightarrow> int" where
  "thousandths scalar = round_half_even (scalar * 1000)"

definition ScaleBigInt :: "big \<Rightarrow> rat \<Rightarrow> big" where
  "ScaleBigInt num scalar =
     (let f = of_int num;
          fprec = max (nat (bitlen \<bar>num\<bar>)) 64;
          s = round_prec 64 (of_int (thousandths scalar) / 1000);
          scaledNum = round_prec (max fprec 64) (f * s);
          roundedNum = trunc scaledNum
      in if of_int roundedNum \<noteq> scaledNum then roundedNum + 1 else roundedNum)"

section \<open>The hook\<close>

definition txDataZero :: int where "txDataZero = 4"
definition txDataOne :: int where "txDataOne = 16"
definition txSignatureOverhead :: int where "txSignatureOverhead = 68"

record RollupFeeConfig =
  Coinbase :: address
  L2ChainID :: uint64
  L1FeeOverhead :: int
  L1FeeMultiplier :: rat
  L1OracleAddress :: address
  L1OracleBaseFeeSlot :: hash

record Message =
  m_From :: address
  m_To :: "address option"
  m_Nonce :: uint64
  m_GasPrice :: "big option"
  m_GasTipCap :: "big option"
  m_GasFeeCap :: "big option"
  m_GasLimit :: uint64
  m_Value :: "big option"
  m_Data :: bytes
  m_AccessList :: "(address \<times> hash list) list option"

text \<open>The inner data \<open>types.NewTx\<close> is called with; the signature fields are left zero.\<close>

datatype TxData =
    DynamicFee (td_ChainID: int) (td_Nonce: uint64) (td_GasTipCap: "big option") (td_GasFeeCap: "big option") (td_Gas: uint64)
      (td_To: "address option") (td_Value: "big option") (td_Data: bytes) (td_AccessList: "(address \<times> hash list) list option")
  | AccessListTx (td_ChainID: int) (td_Nonce: uint64) (td_GasPrice: "big option") (td_Gas: uint64)
      (td_To: "address option") (td_Value: "big option") (td_Data: bytes) (td_AccessList: "(address \<times> hash list) list option")
  | LegacyTx (td_Nonce: uint64) (td_GasPrice: "big option") (td_Gas: uint64)
      (td_To: "address option") (td_Value: "big option") (td_Data: bytes)

definition transactionFromMessage :: "Message \<Rightarrow> RollupFeeConfig \<Rightarrow> TxData" where
  "transactionFromMessage msg conf =
     (if m_GasTipCap msg \<noteq> None
      then DynamicFee (sint (L2ChainID conf)) (m_Nonce msg) (m_GasTipCap msg) (m_GasFeeCap msg) (m_GasLimit msg)
             (m_To msg) (m_Value msg) (m_Data msg) (m_AccessList msg)
      else if m_AccessList msg \<noteq> None
      then AccessListTx (sint (L2ChainID conf)) (m_Nonce msg) (m_GasPrice msg) (m_GasLimit msg)
             (m_To msg) (m_Value msg) (m_Data msg) (m_AccessList msg)
      else LegacyTx (m_Nonce msg) (m_GasPrice msg) (m_GasLimit msg) (m_To msg) (m_Value msg) (m_Data msg))"

record 'db StateDB =
  sdb_GetBalance :: "address \<Rightarrow> 'db \<Rightarrow> big option"
  sdb_AddBalance :: "address \<Rightarrow> big \<Rightarrow> ('db, unit) call"
  sdb_SubBalance :: "address \<Rightarrow> big \<Rightarrow> ('db, unit) call"
  sdb_GetState :: "address \<Rightarrow> hash \<Rightarrow> 'db \<Rightarrow> hash"

definition memdb_methods :: "MemoryStateDB StateDB" where
  "memdb_methods = \<lparr>sdb_GetBalance = GetBalance, sdb_AddBalance = AddBalance, sdb_SubBalance = SubBalance, sdb_GetState = GetState\<rparr>"

fun zeroesAndOnes_loop :: "bytes \<Rightarrow> int \<Rightarrow> int \<Rightarrow> int \<times> int" where
  "zeroesAndOnes_loop [] zeroes ones = (zeroes, ones)"
| "zeroesAndOnes_loop (b # bs) zeroes ones =
     (if b = 0 then zeroesAndOnes_loop bs (wrap_int64 (zeroes + 1)) ones
      else zeroesAndOnes_loop bs zeroes (wrap_int64 (ones + 1)))"

definition zeroesAndOnes :: "bytes \<Rightarrow> int \<times> int" where
  "zeroesAndOnes bs = zeroesAndOnes_loop bs 0 0"

definition readStorageSlot :: "'db StateDB \<Rightarrow> 'db \<Rightarrow> address \<Rightarrow> hash \<Rightarrow> big" where
  "readStorageSlot ops db addr slot = uint (sdb_GetState ops addr slot db)"

definition txDataGas :: "int \<Rightarrow> int \<Rightarrow> int \<Rightarrow> int" where
  "txDataGas zeroes ones overhead =
     wrap_int64 (zeroes * txDataZero + (ones + txSignatureOverhead) * txDataOne + overhead)"

definition calculateL1Fee :: "(TxData \<Rightarrow> bytes outcome) \<Rightarrow> 'db StateDB \<Rightarrow> TxData \<Rightarrow> 'db \<Rightarrow> RollupFeeConfig \<Rightarrow> big outcome" where
  "calculateL1Fee EncodeRLP ops tx db conf =
     bind_out (EncodeRLP tx) (\<lambda>bs.
       if length bs < 3 then Panic ''slice bounds out of range''
       else let (zeroes, ones) = zeroesAndOnes (take (length bs - 3) bs);
                basefee = readStorageSlot ops db (L1OracleAddress conf) (L1OracleBaseFeeSlot conf);
                l1Fee = txDataGas zeroes ones (L1FeeOverhead conf) * basefee
            in Ok (ScaleBigInt l1Fee (L1FeeMultiplier conf)))"

definition chargeL1Fee :: "'db StateDB \<Rightarrow> big \<Rightarrow> Message \<Rightarrow> RollupFeeConfig \<Rightarrow> ('db, unit) call" where
  "chargeL1Fee ops l1Fee msg conf db =
     (case sdb_GetBalance ops (m_From msg) db of
        None \<Rightarrow> (Panic nil_deref, db)
      | Some senderBalance \<Rightarrow>
          if senderBalance < l1Fee then (Err (NewError ''insufficient balance to cover L1 fee''), db)
          else bind_call (sdb_AddBalance ops (Coinbase conf) l1Fee) (\<lambda>_. sdb_SubBalance ops (m_From msg) l1Fee) db)"

definition SpecularEVMPreTransferHook :: "(TxData \<Rightarrow> bytes outcome) \<Rightarrow> 'db StateDB \<Rightarrow> RollupFeeConfig \<Rightarrow> Message \<Rightarrow> ('db, unit) call" where
  "SpecularEVMPreTransferHook EncodeRLP ops conf msg db =
     (case calculateL1Fee EncodeRLP ops (transactionFromMessage msg conf) db conf of
        Err e \<Rightarrow> (Err e, db)
      | Panic p \<Rightarrow> (Panic p, db)
      | Ok fee \<Rightarrow> chargeL1Fee ops fee msg conf db)"

definition SpecularL1FeeReader :: "(TxData \<Rightarrow> bytes outcome) \<Rightarrow> 'db StateDB \<Rightarrow> RollupFeeConfig \<Rightarrow> TxData \<Rightarrow> 'db \<Rightarrow> big outcome" where
  "SpecularL1FeeReader EncodeRLP ops conf tx db = calculateL1Fee EncodeRLP ops tx db conf"

section \<open>Accuracy of the scaling\<close>

lemma round_half_even_error: "\<bar>of_int (round_half_even q) - q\<bar> \<le> 1 / 2"
  unfolding round_half_even_def Let_def
  using floor_correct [of q] by (auto simp: abs_le_iff split: if_splits)

lemma bitlen_pow:
  fixes x :: int
  assumes "0 < x"
  shows "power_int 2 (bitlen x - 1) \<le> (of_int x :: rat)" "(of_int x :: rat) < power_int 2 (bitlen x)"
proof -
  have b: "1 \<le> bitlen x" using assms by (metis bitlen_nonneg bitlen_eq_zero_iff int_one_le_iff_zero_less less_le not_less)
  have p: "power_int 2 k = (of_int (2 ^ nat k) :: rat)" if "0 \<le> k" for k
    using that by (simp add: power_int_def)
  show "power_int 2 (bitlen x - 1) \<le> (of_int x :: rat)" "(of_int x :: rat) < power_int 2 (bitlen x)"
    using bitlen_bounds [OF assms] b by (simp_all only: p of_int_le_iff of_int_less_iff)
qed

lemma expo_lower:
  assumes "0 < q"
  shows "power_int 2 (expo q - 1) \<le> q"
proof -
  obtain a b where ab: "quotient_of q = (a, b)" by fastforce
  have b: "0 < b" and q: "q = of_int a / of_int b" using ab by (simp_all add: quotient_of_denom_pos quotient_of_div)
  have a: "0 < a" using assms b by (simp add: q zero_less_divide_iff)
  let ?e = "bitlen a - bitlen b"
  have "power_int 2 (?e - 1) = power_int 2 (bitlen a - 1) / (power_int 2 (bitlen b) :: rat)"
    by (simp add: power_int_diff)
  also have "\<dots> \<le> of_int a / of_int b"
    using bitlen_pow [OF a] bitlen_pow [OF b] a b by (intro frac_le) auto
  finally have "power_int 2 (?e - 1) \<le> q" by (simp only: q)
  then show ?thesis by (auto simp: expo_def ab Let_def)
qed

lemma round_prec_error:
  assumes "0 \<le> q"
  shows "\<bar>round_prec p q - q\<bar> \<le> q / 2 ^ p" "0 \<le> round_prec p q"
proof -
  have *: "\<bar>round_prec p q - q\<bar> \<le> q / 2 ^ p \<and> 0 \<le> round_prec p q"
  proof (cases "q = 0")
    case True
    then show ?thesis by (simp add: round_prec_def)
  next
    case False
    then have q: "0 < q" using assms by simp
    define u :: rat where "u = power_int 2 (expo q - int p)"
    have u: "0 < u" by (simp add: u_def)
    have r: "round_prec p q = of_int (round_half_even (q / u)) * u"
      using q by (simp add: round_prec_def u_def Let_def)
    have "u * 2 ^ p = 2 * power_int 2 (expo q - 1)"
      by (simp add: u_def power_int_diff field_simps)
    then have uq: "u * 2 ^ p \<le> 2 * q" using expo_lower [OF q] by simp
    have "round_prec p q - q = (of_int (round_half_even (q / u)) - q / u) * u"
      using u by (simp add: r left_diff_distrib)
    then have "\<bar>round_prec p q - q\<bar> = \<bar>of_int (round_half_even (q / u)) - q / u\<bar> * u"
      using u by (simp add: abs_mult)
    also have "\<dots> \<le> (1 / 2) * u" using round_half_even_error u by (intro mult_right_mono) auto
    also have "\<dots> \<le> q / 2 ^ p" using uq by (simp add: field_simps)
    finally have e: "\<bar>round_prec p q - q\<bar> \<le> q / 2 ^ p" .
    have "q / 2 ^ p \<le> q" using q by (simp add: field_simps)
    with e show ?thesis by linarith
  qed
  from * show "\<bar>round_prec p q - q\<bar> \<le> q / 2 ^ p" "0 \<le> round_prec p q" by auto
qed

lemma thousandths_nonneg: "0 \<le> scalar \<Longrightarrow> 0 \<le> thousandths scalar"
proof -
  assume "0 \<le> scalar"
  then have "- 1 < (of_int (thousandths scalar) :: rat)"
    using round_half_even_error [of "scalar * 1000"] unfolding thousandths_def by linarith
  then show ?thesis by linarith
qed

lemma ScaleBigInt_ceiling:
  assumes "0 \<le> x" "r = trunc x" "y = (if of_int r \<noteq> x then r + 1 else r)"
  shows "x \<le> of_int y" "of_int y < x + 1"
  using assms floor_correct [of x] by (auto simp: trunc_def less_le)

lemma relative_error:
  fixes s x d :: rat
  assumes "\<bar>s - x\<bar> \<le> x / d"
  shows "x * (1 - 1 / d) \<le> s" "s \<le> x * (1 + 1 / d)"
proof -
  have "s - x \<le> x / d" "x - s \<le> x / d" using assms by linarith+
  then show "x * (1 - 1 / d) \<le> s" "s \<le> x * (1 + 1 / d)" by (simp_all add: algebra_simps)
qed

lemma two_roundings:
  fixes m s x y :: rat
  assumes "0 \<le> m" "\<bar>s - x\<bar> \<le> x / 2 ^ 64" "\<bar>y - m * s\<bar> \<le> m * s / 2 ^ 64" "0 \<le> x" "0 \<le> s"
  shows "m * x * (1 - 1 / 2 ^ 62) \<le> y" "y \<le> m * x * (1 + 1 / 2 ^ 62)"
proof -
  have s1: "x * (1 - 1 / 2 ^ 64) \<le> s" "s \<le> x * (1 + 1 / 2 ^ 64)"
    by (rule relative_error [OF assms(2)])+
  have y1: "m * s * (1 - 1 / 2 ^ 64) \<le> y" "y \<le> m * s * (1 + 1 / 2 ^ 64)"
    by (rule relative_error [OF assms(3)])+
  have k: "(1 - 1 / 2 ^ 62 :: rat) \<le> (1 - 1 / 2 ^ 64) * (1 - 1 / 2 ^ 64)"
    "(1 + 1 / 2 ^ 64) * (1 + 1 / 2 ^ 64) \<le> (1 + 1 / 2 ^ 62 :: rat)" by simp_all
  have mx: "0 \<le> m * x" using assms by simp
  have "m * x * (1 - 1 / 2 ^ 62) \<le> m * x * ((1 - 1 / 2 ^ 64) * (1 - 1 / 2 ^ 64))"
    using k(1) mx by (intro mult_left_mono) auto
  also have "\<dots> = m * (x * (1 - 1 / 2 ^ 64)) * (1 - 1 / 2 ^ 64)" by simp
  also have "\<dots> \<le> m * s * (1 - 1 / 2 ^ 64)"
    using s1(1) assms(1) by (intro mult_right_mono mult_left_mono) auto
  finally show "m * x * (1 - 1 / 2 ^ 62) \<le> y" using y1(1) by linarith
  have "m * s * (1 + 1 / 2 ^ 64) \<le> m * (x * (1 + 1 / 2 ^ 64)) * (1 + 1 / 2 ^ 64)"
    using s1(2) assms(1) by (intro mult_right_mono mult_left_mono) auto
  also have "\<dots> = m * x * ((1 + 1 / 2 ^ 64) * (1 + 1 / 2 ^ 64))" by simp
  also have "\<dots> \<le> m * x * (1 + 1 / 2 ^ 62)"
    using k(2) mx by (intro mult_left_mono) auto
  finally show "y \<le> m * x * (1 + 1 / 2 ^ 62)" using y1(2) by linarith
qed

lemma ScaleBigInt_bounds:
  assumes "0 \<le> num" "0 \<le> scalar"
  shows "of_int num * (of_int (thousandths scalar) / 1000) * (1 - 1 / 2 ^ 62) \<le> (of_int (ScaleBigInt num scalar) :: rat)"
    "of_int (ScaleBigInt num scalar) < of_int num * (of_int (thousandths scalar) / 1000) * (1 + 1 / 2 ^ 62) + (1 :: rat)"
proof -
  define x :: rat where "x = of_int (thousandths scalar) / 1000"
  define s where "s = round_prec 64 x"
  define p where "p = max (max (nat (bitlen \<bar>num\<bar>)) 64) 64"
  define y where "y = round_prec p (of_int num * s)"
  have x: "0 \<le> x" using thousandths_nonneg [OF assms(2)] by (simp add: x_def)
  have s: "\<bar>s - x\<bar> \<le> x / 2 ^ 64" "0 \<le> s" unfolding s_def by (rule round_prec_error [OF x])+
  have ms: "0 \<le> of_int num * s" using assms(1) s(2) by simp
  have "64 \<le> p" by (simp add: p_def)
  then have "(2 :: rat) ^ 64 \<le> 2 ^ p" by (rule power_increasing) simp
  then have "of_int num * s / 2 ^ p \<le> of_int num * s / 2 ^ 64" using ms by (intro divide_left_mono) auto
  then have y: "\<bar>y - of_int num * s\<bar> \<le> of_int num * s / 2 ^ 64" "0 \<le> y"
    unfolding y_def using round_prec_error [OF ms, of p] by (blast intro: order_trans)+
  have m: "(0 :: rat) \<le> of_int num" using assms(1) by simp
  have r: "ScaleBigInt num scalar = (if of_int (trunc y) \<noteq> y then trunc y + 1 else trunc y)"
    by (simp add: ScaleBigInt_def Let_def y_def p_def s_def x_def)
  show "of_int num * (of_int (thousandths scalar) / 1000) * (1 - 1 / 2 ^ 62) \<le> (of_int (ScaleBigInt num scalar) :: rat)"
    using two_roundings(1) [OF m s(1) y(1) x s(2)] ScaleBigInt_ceiling(1) [OF y(2) refl r] by (simp add: x_def)
  show "of_int (ScaleBigInt num scalar) < of_int num * (of_int (thousandths scalar) / 1000) * (1 + 1 / 2 ^ 62) + (1 :: rat)"
    using two_roundings(2) [OF m s(1) y(1) x s(2)] ScaleBigInt_ceiling(2) [OF y(2) refl r] by (simp add: x_def)
qed

section \<open>Properties\<close>

text \<open>The counts of \<open>zeroesAndOnes\<close>, for data that fits the address space.\<close>

lemma zeroesAndOnes_loop_count:
  assumes "z + o' + int (length bs) < 2 ^ 63" "0 \<le> z" "0 \<le> o'"
  shows "zeroesAndOnes_loop bs z o' =
    (z + int (length (filter (\<lambda>b. b = 0) bs)), o' + int (length (filter (\<lambda>b. b \<noteq> 0) bs)))"
  using assms by (induction bs z o' rule: zeroesAndOnes_loop.induct) (auto simp: wrap_int64_id)

lemma zeroesAndOnes_count:
  "int (length bs) < 2 ^ 63 \<Longrightarrow>
   zeroesAndOnes bs = (int (length (filter (\<lambda>b. b = 0) bs)), int (length (filter (\<lambda>b. b \<noteq> 0) bs)))"
  using zeroesAndOnes_loop_count [of 0 0 bs] by (simp add: zeroesAndOnes_def)

definition data_gas :: "bytes \<Rightarrow> int" where
  "data_gas bs = 4 * int (length (filter (\<lambda>b. b = 0) bs)) + 16 * (int (length (filter (\<lambda>b. b \<noteq> 0) bs)) + 68)"

lemma thousandths_error: "\<bar>of_int (thousandths scalar) / 1000 - scalar\<bar> \<le> 1 / 2000"
  using round_half_even_error [of "scalar * 1000"] unfolding thousandths_def abs_le_iff by linarith

lemma ScaleBigInt_vanishes:
  assumes "0 \<le> scalar" "scalar < 1 / 2000"
  shows "ScaleBigInt num scalar = 0"
proof -
  have "\<lfloor>scalar * 1000\<rfloor> = 0" using assms by (intro floor_unique) auto
  then have "thousandths scalar = 0" using assms(2) by (simp add: thousandths_def round_half_even_def Let_def)
  then show ?thesis by (simp add: ScaleBigInt_def round_prec_def trunc_def)
qed

text \<open>
  C24: the fee follows the documented formula for the multiplier rounded to thousandths. For a transaction whose encoding has at least three bytes, a multiplier and
  an overhead that are not negative, and a gas that fits 64 bits, \<open>calculateL1Fee\<close> returns base fee times (data gas plus overhead) times the
  multiplier to the nearest thousandth (ties to even), rounded up to an integer, up to the relative error \<open>2 ^ -62\<close> of the two roundings
  of \<open>big.Float\<close>; the gas is 4 per zero byte and 16 per non-zero byte of the encoding without its last three bytes, plus 68 non-zero bytes for the
  signature. The multiplier used differs from the configured one by up to 1/2000, and a configured multiplier below 1/2000 makes every fee zero.
\<close>

theorem L1Fee_formula:
  assumes enc: "EncodeRLP tx = Ok bs" "3 \<le> length bs"
    and mult: "0 \<le> L1FeeMultiplier conf" and over: "0 \<le> L1FeeOverhead conf"
    and fits: "16 * (int (length bs) + 68) + L1FeeOverhead conf < 2 ^ 63"
    and g: "g = data_gas (take (length bs - 3) bs) + L1FeeOverhead conf"
    and f: "f = uint (sdb_GetState ops (L1OracleAddress conf) (L1OracleBaseFeeSlot conf) db)"
    and m: "m = of_int (thousandths (L1FeeMultiplier conf)) / 1000"
  shows "\<exists>fee. calculateL1Fee EncodeRLP ops tx db conf = Ok fee \<and>
    of_int (g * f) * m * (1 - 1 / 2 ^ 62) \<le> (of_int fee :: rat) \<and> (of_int fee :: rat) < of_int (g * f) * m * (1 + 1 / 2 ^ 62) + 1 \<and>
    \<bar>m - L1FeeMultiplier conf\<bar> \<le> 1 / 2000 \<and> (L1FeeMultiplier conf < 1 / 2000 \<longrightarrow> fee = 0)"
proof -
  let ?d = "take (length bs - 3) bs"
  define z where "z = int (length (filter (\<lambda>b. b = 0) ?d))"
  define o' where "o' = int (length (filter (\<lambda>b. b \<noteq> 0) ?d))"
  have zo: "z + o' = int (length ?d)" unfolding z_def o'_def using sum_length_filter_compl [of "\<lambda>b. b = 0" ?d] by simp
  have z: "0 \<le> z" "0 \<le> o'" by (simp_all add: z_def o'_def)
  have "txDataGas z o' (L1FeeOverhead conf) = g"
    using zo z over fits by (simp add: txDataGas_def g data_gas_def z_def o'_def txDataZero_def txDataOne_def txSignatureOverhead_def wrap_int64_id)
  moreover have "zeroesAndOnes ?d = (z, o')"
    using zeroesAndOnes_count [of ?d] fits over by (simp add: z_def o'_def)
  ultimately have c: "calculateL1Fee EncodeRLP ops tx db conf = Ok (ScaleBigInt (g * f) (L1FeeMultiplier conf))"
    using enc by (simp add: calculateL1Fee_def readStorageSlot_def f)
  have "0 \<le> g" using over by (simp add: g data_gas_def)
  then have "0 \<le> g * f" by (simp add: f)
  from ScaleBigInt_bounds [OF this mult] c thousandths_error [of "L1FeeMultiplier conf"] ScaleBigInt_vanishes [OF mult]
  show ?thesis unfolding m by blast
qed

context account_state
begin

abbreviation ops :: "'db StateDB" where
  "ops \<equiv> \<lparr>sdb_GetBalance = balance, sdb_AddBalance = add_balance, sdb_SubBalance = sub_balance, sdb_GetState = get_state\<rparr>"

lemma charge_Ok:
  assumes f: "funded (m_From msg) db" "funded (Coinbase conf) db" and b: "balance (m_From msg) db = Some b" "0 \<le> fee" "fee \<le> b"
  shows "\<exists>db'. chargeL1Fee ops fee msg conf db = (Ok (), db') \<and>
    (\<forall>a. balance a db' = map_option (\<lambda>x. x + (if a = Coinbase conf then fee else 0) - (if a = m_From msg then fee else 0)) (balance a db)) \<and>
    (\<forall>a k. get_state a k db' = get_state a k db)"
proof -
  obtain db1 where d1: "add_balance (Coinbase conf) fee db = (Ok (), db1)" "\<forall>c. funded c db1 \<longleftrightarrow> funded c db"
    "balance (Coinbase conf) db1 = map_option (\<lambda>x. x + fee) (balance (Coinbase conf) db)"
    "\<forall>c. c \<noteq> Coinbase conf \<longrightarrow> balance c db1 = balance c db" "\<forall>c k. get_state c k db1 = get_state c k db"
    using add_Ok [OF f(2)] by blast
  define b1 where "b1 = (if m_From msg = Coinbase conf then b + fee else b)"
  have s1: "balance (m_From msg) db1 = Some b1" using d1(3,4) b(1) by (auto simp: b1_def)
  have "fee \<le> b1" using b by (auto simp: b1_def)
  then obtain db2 where d2: "sub_balance (m_From msg) fee db1 = (Ok (), db2)"
    "balance (m_From msg) db2 = Some (b1 - fee)" "\<forall>c. c \<noteq> m_From msg \<longrightarrow> balance c db2 = balance c db1"
    "\<forall>c k. get_state c k db2 = get_state c k db1"
    using sub_Ok [OF _ s1 _ b(2)] f(1) d1(2) by blast
  have "chargeL1Fee ops fee msg conf db = (Ok (), db2)"
    using b d1(1) d2(1) by (simp add: chargeL1Fee_def bind_call_def)
  moreover have "balance a db2 =
      map_option (\<lambda>x. x + (if a = Coinbase conf then fee else 0) - (if a = m_From msg then fee else 0)) (balance a db)" for a
    using d1(3,4) d2(2,3) b(1) by (cases "a = m_From msg"; cases "a = Coinbase conf") (auto simp: b1_def option.map_ident)
  ultimately show ?thesis using d1(5) d2(4) by auto
qed

end

text \<open>
  C23: charging the fee moves it and nothing else. On the in-memory state, with the accounts of sender and coinbase present and a fee that is not negative, a sender that can pay ends with
  exactly the fee less and the coinbase with exactly the fee more (no change when they are the same
  account), every other balance and all storage stay; a sender that cannot pay is refused and the state
  is untouched.
\<close>

theorem chargeL1Fee_conserves:
  assumes "mem_funded (m_From msg) db" "mem_funded (Coinbase conf) db" "GetBalance (m_From msg) db = Some b" "0 \<le> fee"
  shows "\<exists>r db'. chargeL1Fee memdb_methods fee msg conf db = (r, db') \<and> (is_Ok r \<longleftrightarrow> fee \<le> b) \<and>
    (fee \<le> b \<longrightarrow> (\<forall>a. GetBalance a db' =
       map_option (\<lambda>x. x + (if a = Coinbase conf then fee else 0) - (if a = m_From msg then fee else 0)) (GetBalance a db))) \<and>
    (b < fee \<longrightarrow> db' = db) \<and> (\<forall>a k. GetState a k db' = GetState a k db)"
proof (cases "fee \<le> b")
  case True
  from memdb.charge_Ok [OF assms(1-4) True] show ?thesis
    using True by (auto simp: memdb_methods_def)
next
  case False
  then have "chargeL1Fee memdb_methods fee msg conf db = (Err (NewError ''insufficient balance to cover L1 fee''), db)"
    using assms(3) by (simp add: chargeL1Fee_def memdb_methods_def)
  then show ?thesis using False by auto
qed

text \<open>The cases of \<^verbatim>\<open>fee_hook_test.go\<close>.\<close>

lemma ScaleBigInt_tests:
  "ScaleBigInt 10 1 = 10" "ScaleBigInt 1 (12 / 10) = 2" "ScaleBigInt 10 (9999 / 1000) = 100"
  "ScaleBigInt 9223372036854775807 1 = 9223372036854775807"
  "ScaleBigInt 9223372036854775807 (14 / 10) = 12912720851596686130"
  by code_simp+

text \<open>
  The comment of \<open>ScaleBigInt\<close> says that only the first three decimal places of the scalar are used. They are rounded: the scalar 0.96875 is used
  as 0.969, where its first three places are 0.968.
\<close>

lemma ScaleBigInt_rounds_scalar:
  "ScaleBigInt 1000 (31 / 32) = 969" "ScaleBigInt 1000 (968 / 1000) = 968"
  by code_simp+

definition demo_fee_conf :: RollupFeeConfig where
  "demo_fee_conf = \<lparr>Coinbase = 9, L2ChainID = 13527, L1FeeOverhead = 2100, L1FeeMultiplier = 3 / 2,
     L1OracleAddress = 7, L1OracleBaseFeeSlot = 3\<rparr>"

definition demo_msg :: Message where
  "demo_msg = \<lparr>m_From = 1, m_To = Some 2, m_Nonce = 0, m_GasPrice = Some 1, m_GasTipCap = None, m_GasFeeCap = None,
     m_GasLimit = 21000, m_Value = Some 0, m_Data = [], m_AccessList = None\<rparr>"

definition demo_db :: MemoryStateDB where
  "demo_db = Map.empty(1 \<mapsto> \<lparr>Code = [], Storage = Some Map.empty, Balance = Some 1000000, Nonce = 0\<rparr>,
     7 \<mapsto> \<lparr>Code = [], Storage = Some (Map.empty(3 \<mapsto> 100)), Balance = Some 0, Nonce = 0\<rparr>,
     9 \<mapsto> \<lparr>Code = [], Storage = Some Map.empty, Balance = Some 5, Nonce = 0\<rparr>)"

theorem L1Fee_formula_witness:
  "(\<exists>fee. calculateL1Fee (\<lambda>_. Ok [1, 0, 1, 0, 0, 0]) memdb_methods (transactionFromMessage demo_msg demo_fee_conf) demo_db demo_fee_conf = Ok fee \<and>
     322400 * (3 / 2) * (1 - 1 / 2 ^ 62) \<le> (of_int fee :: rat) \<and> (of_int fee :: rat) < 322400 * (3 / 2) * (1 + 1 / 2 ^ 62) + 1) \<and>
   calculateL1Fee (\<lambda>_. Ok [1, 0, 1, 0, 0, 0]) memdb_methods (transactionFromMessage demo_msg demo_fee_conf) demo_db
     (demo_fee_conf\<lparr>L1FeeMultiplier := 4 / 10000\<rparr>) = Ok 0"
proof
  have "thousandths (L1FeeMultiplier demo_fee_conf) = 1500" by code_simp
  moreover have "322400 = (data_gas (take (length [1, 0, 1, 0, 0, 0 :: uint8] - 3) [1, 0, 1, 0, 0, 0]) + L1FeeOverhead demo_fee_conf) *
      uint (sdb_GetState memdb_methods (L1OracleAddress demo_fee_conf) (L1OracleBaseFeeSlot demo_fee_conf) demo_db)"
    by code_simp
  ultimately show "\<exists>fee. calculateL1Fee (\<lambda>_. Ok [1, 0, 1, 0, 0, 0]) memdb_methods (transactionFromMessage demo_msg demo_fee_conf) demo_db demo_fee_conf = Ok fee \<and>
     322400 * (3 / 2) * (1 - 1 / 2 ^ 62) \<le> (of_int fee :: rat) \<and> (of_int fee :: rat) < 322400 * (3 / 2) * (1 + 1 / 2 ^ 62) + 1"
    using L1Fee_formula [of "\<lambda>_. Ok [1, 0, 1, 0, 0, 0]" "transactionFromMessage demo_msg demo_fee_conf" "[1, 0, 1, 0, 0, 0]"
        demo_fee_conf _ _ memdb_methods demo_db, OF refl _ _ _ _ refl refl refl]
    by (auto simp: demo_fee_conf_def)
  show "calculateL1Fee (\<lambda>_. Ok [1, 0, 1, 0, 0, 0]) memdb_methods (transactionFromMessage demo_msg demo_fee_conf) demo_db
     (demo_fee_conf\<lparr>L1FeeMultiplier := 4 / 10000\<rparr>) = Ok 0"
    using L1Fee_formula [of "\<lambda>_. Ok [1, 0, 1, 0, 0, 0]" "transactionFromMessage demo_msg demo_fee_conf" "[1, 0, 1, 0, 0, 0]"
        "demo_fee_conf\<lparr>L1FeeMultiplier := 4 / 10000\<rparr>" _ _ memdb_methods demo_db, OF refl _ _ _ _ refl refl refl]
    by (auto simp: demo_fee_conf_def)
qed

theorem chargeL1Fee_conserves_witness:
  "\<exists>db'. chargeL1Fee memdb_methods 400 demo_msg demo_fee_conf demo_db = (Ok (), db') \<and>
     GetBalance 1 db' = Some 999600 \<and> GetBalance 9 db' = Some 405"
proof -
  have f: "mem_funded (m_From demo_msg) demo_db" "mem_funded (Coinbase demo_fee_conf) demo_db"
    "GetBalance (m_From demo_msg) demo_db = Some 1000000"
    by (simp_all add: demo_msg_def demo_db_def demo_fee_conf_def mem_funded_def GetBalance_def)
  have b: "GetBalance 1 demo_db = Some 1000000" "GetBalance 9 demo_db = Some 5" "m_From demo_msg = 1" "Coinbase demo_fee_conf = 9"
    by (simp_all add: demo_db_def GetBalance_def demo_msg_def demo_fee_conf_def)
  from chargeL1Fee_conserves [OF f, of 400] b show ?thesis by (auto simp: is_Ok_conv)
qed

end
