(* ===== verification/Storage_Encoding.thy ===== *)
theory Storage_Encoding
  imports Memory_DB "HOL-Library.Char_ord"
begin

text \<open>
  \<^verbatim>\<open>ops/state/encoding.go\<close>, \<^verbatim>\<open>ops/state/state.go\<close> and \<^verbatim>\<open>ops/bindings/bindings/registry.go\<close>: Solidity
  storage layouts turned into storage slots of a predeployed contract. A Go value of type \<open>any\<close> is a
  \<open>go_any\<close>; \<open>reflect\<close> reads its type name. hexutil, \<open>common.HexToAddress\<close>, \<open>common.FromHex\<close> and
  Keccak-256 are the parameter \<open>geth\<close>; \<open>big.Int.SetString\<close>, \<open>strings\<close> and \<open>regexp\<close> are Go's
  standard library and modelled. Ranging over a Go map is ranging over a list in some order.
\<close>

unbundle bit_operations_syntax

section \<open>Values and layouts\<close>

datatype go_any =
    AnyNil
  | AnyString string
  | AnyHash hash
  | AnyBool bool
  | AnyAddress address
  | AnyUint uint64
  | AnyInt int
  | AnyUint64 uint64
  | AnyUint32 "32 word"
  | AnyUint16 "16 word"
  | AnyUint8 uint8
  | AnyBigInt big
  | AnyMap "(go_any \<times> go_any) list"
  | AnyOther string
  | AnyPtr string "go_any option"

text \<open>
  \<open>reflect.TypeOf(v).Name()\<close>; a pointer type and a map type have no name. \<open>AnyPtr n t\<close> points to \<open>t\<close>
  of type name \<open>n\<close>, or is nil; \<open>AnyOther n\<close> is any further type. \<open>AnyBigInt\<close> only occurs behind a
  pointer, as \<open>*big.Int\<close>. On the nil interface \<open>TypeOf\<close> is nil and the call panics.
\<close>

fun type_name :: "go_any \<Rightarrow> string outcome" where
  "type_name AnyNil = Panic nil_deref"
| "type_name (AnyString _) = Ok ''string''"
| "type_name (AnyHash _) = Ok ''Hash''"
| "type_name (AnyBool _) = Ok ''bool''"
| "type_name (AnyAddress _) = Ok ''Address''"
| "type_name (AnyUint _) = Ok ''uint''"
| "type_name (AnyInt _) = Ok ''int''"
| "type_name (AnyUint64 _) = Ok ''uint64''"
| "type_name (AnyUint32 _) = Ok ''uint32''"
| "type_name (AnyUint16 _) = Ok ''uint16''"
| "type_name (AnyUint8 _) = Ok ''uint8''"
| "type_name (AnyBigInt _) = Ok ''Int''"
| "type_name (AnyMap _) = Ok ''''"
| "type_name (AnyOther n) = Ok n"
| "type_name (AnyPtr _ _) = Ok ''''"

record StorageLayoutEntry =
  entry_Label :: string
  entry_Offset :: uint64
  entry_Slot :: uint64
  entry_Type :: string

record StorageLayoutType =
  st_Encoding :: string
  st_Label :: string
  st_NumberOfBytes :: uint64
  st_Key :: string
  st_Value :: string

record StorageLayout =
  layout_Storage :: "StorageLayoutEntry list"
  layout_Types :: "string \<Rightarrow> StorageLayoutType option"

record EncodedStorage =
  es_Key :: hash
  es_Value :: hash

record geth =
  hexutil_Decode :: "string \<Rightarrow> bytes outcome"
  hexutil_DecodeBig :: "string \<Rightarrow> big outcome"
  HexToAddress :: "string \<Rightarrow> address"
  FromHex :: "string \<Rightarrow> bytes"
  Keccak256 :: "bytes \<Rightarrow> hash"

abbreviation errInvalidType :: go_error where "errInvalidType \<equiv> Sentinel ''invalid type''"
abbreviation errUnimplemented :: go_error where "errUnimplemented \<equiv> Sentinel ''type unimplemented''"
abbreviation ErrMissingPrefix :: string where "ErrMissingPrefix \<equiv> ''hex string without 0x prefix''"
abbreviation ErrLeadingZero :: string where "ErrLeadingZero \<equiv> ''hex number with leading zero digits''"

text \<open>\<open>fmt.Errorf\<close> of \<^verbatim>\<open>%w: %s\<close>.\<close>

definition error_with :: "go_error \<Rightarrow> string \<Rightarrow> go_error" where
  "error_with e s = Typed True ''wrapError'' (error_msg e @ '': '' @ s) (Some e)"

section \<open>Hashes\<close>

definition BytesToHash :: "bytes \<Rightarrow> hash" where
  "BytesToHash bs = foldl (\<lambda>acc b. acc * 256 + ucast b) 0 bs"

text \<open>\<open>BigToHash\<close> keeps the low 32 bytes of the absolute value.\<close>

definition BigToHash :: "big \<Rightarrow> hash" where
  "BigToHash b = word_of_int \<bar>b\<bar>"

definition hash_bytes :: "hash \<Rightarrow> bytes" where
  "hash_bytes h = map (\<lambda>i. ucast (drop_bit (8 * (31 - i)) h)) [0..<32]"

definition string_bytes :: "string \<Rightarrow> bytes" where
  "string_bytes s = map (\<lambda>c. of_nat (of_char c)) s"

definition AddressAsLeftPaddedHash :: "address \<Rightarrow> hash" where
  "AddressAsLeftPaddedHash addr = ucast addr"

definition handleOffset :: "hash \<Rightarrow> uint64 \<Rightarrow> hash" where
  "handleOffset h offset = (if offset = 0 then h else push_bit (unat (offset * 8)) h)"

section \<open>Numbers in strings\<close>

text \<open>\<open>big.Int.SetString\<close> with base 10 or 16: an optional sign, then at least one digit of the base.\<close>

definition digit_value :: "char \<Rightarrow> nat" where
  "digit_value c =
     (let n = of_char c in
      if 48 \<le> n \<and> n \<le> 57 then n - 48
      else if 97 \<le> n \<and> n \<le> 122 then n - 87
      else if 65 \<le> n \<and> n \<le> 90 then n - 55 else 255)"

fun parse_digits :: "nat \<Rightarrow> string \<Rightarrow> int \<Rightarrow> int option" where
  "parse_digits base [] acc = Some acc"
| "parse_digits base (c # cs) acc =
     (if digit_value c < base then parse_digits base cs (acc * int base + int (digit_value c)) else None)"

definition SetString :: "nat \<Rightarrow> string \<Rightarrow> int option" where
  "SetString base s =
     (let (neg, ds) = (case s of
                         [] \<Rightarrow> (False, [])
                       | c # cs \<Rightarrow> if c = CHR ''-'' then (True, cs) else if c = CHR ''+'' then (False, cs) else (False, s))
      in if ds = [] then None else map_option (\<lambda>n. if neg then - n else n) (parse_digits base ds 0))"

section \<open>Encoders of single values\<close>

definition encodeBytes32Value :: "geth \<Rightarrow> go_any \<Rightarrow> hash outcome" where
  "encodeBytes32Value g value =
     bind_out (type_name value) (\<lambda>name.
       if name = ''string''
       then (case value of AnyString str \<Rightarrow> bind_out (hexutil_Decode g str) (\<lambda>val. Ok (BytesToHash val)) | _ \<Rightarrow> Err errInvalidType)
       else if name = ''Hash''
       then (case value of AnyHash h \<Rightarrow> Ok h | _ \<Rightarrow> Err errInvalidType)
       else Err errInvalidType)"

definition EncodeBytes32Value :: "geth \<Rightarrow> go_any \<Rightarrow> uint64 \<Rightarrow> hash outcome" where
  "EncodeBytes32Value g value offset =
     (if offset \<noteq> 0 then Err (NewError ''offset must be 0'') else encodeBytes32Value g value)"

definition encodeStringValue :: "go_any \<Rightarrow> hash outcome" where
  "encodeStringValue value =
     bind_out (type_name value) (\<lambda>name.
       if name = ''string''
       then (case value of
               AnyString str \<Rightarrow>
                 let data = string_bytes str in
                 if 32 \<le> length data then Err (NewError ''string value too long'')
                 else let padded = data @ replicate (32 - length data) 0
                      in Ok (BytesToHash (padded[length padded - 1 := of_nat (length data * 2)]))
             | _ \<Rightarrow> Err errInvalidType)
       else Err errInvalidType)"

definition EncodeStringValue :: "go_any \<Rightarrow> uint64 \<Rightarrow> hash outcome" where
  "EncodeStringValue value offset =
     (if offset \<noteq> 0 then Err (NewError ''offset must be 0'') else encodeStringValue value)"

definition encodeBoolValue :: "go_any \<Rightarrow> hash outcome" where
  "encodeBoolValue value =
     bind_out (type_name value) (\<lambda>name.
       if name = ''bool''
       then (case value of AnyBool b \<Rightarrow> Ok (if b then BigToHash 1 else 0) | _ \<Rightarrow> Err errInvalidType)
       else if name = ''string''
       then (case value of AnyString s \<Rightarrow> Ok (if s = ''true'' then BigToHash 1 else 0) | _ \<Rightarrow> Err errInvalidType)
       else Err errInvalidType)"

definition EncodeBoolValue :: "go_any \<Rightarrow> uint64 \<Rightarrow> hash outcome" where
  "EncodeBoolValue value offset =
     bind_out (wrap_err ''invalid bool'' (encodeBoolValue value)) (\<lambda>val. Ok (handleOffset val offset))"

definition encodeAddressValue :: "geth \<Rightarrow> go_any \<Rightarrow> hash outcome" where
  "encodeAddressValue g value =
     bind_out (case value of AnyPtr n t \<Rightarrow> Ok n | _ \<Rightarrow> type_name value) (\<lambda>name.
       if name = ''Address''
       then (case value of
               AnyPtr n t \<Rightarrow>
                 (case t of
                    None \<Rightarrow> Panic nil_deref
                  | Some (AnyAddress a) \<Rightarrow> Ok (AddressAsLeftPaddedHash a)
                  | Some _ \<Rightarrow> Err errInvalidType)
             | AnyAddress a \<Rightarrow> Ok (AddressAsLeftPaddedHash a)
             | _ \<Rightarrow> Err errInvalidType)
       else if name = ''string''
       then (case value of AnyString s \<Rightarrow> Ok (AddressAsLeftPaddedHash (HexToAddress g s)) | _ \<Rightarrow> Err errInvalidType)
       else Err errInvalidType)"

definition EncodeAddressValue :: "geth \<Rightarrow> go_any \<Rightarrow> uint64 \<Rightarrow> hash outcome" where
  "EncodeAddressValue g value offset =
     bind_out (wrap_err ''invalid address'' (encodeAddressValue g value)) (\<lambda>val. Ok (handleOffset val offset))"

text \<open>
  The string case of \<open>encodeUintValue\<close>: \<open>number\<close> is nil when \<open>DecodeBig\<close> fails with an error other than
  the two that are handled, and \<open>BigToHash\<close> dereferences it.
\<close>

definition encodeUintString :: "geth \<Rightarrow> string \<Rightarrow> hash outcome" where
  "encodeUintString g val =
     (case hexutil_DecodeBig g val of
        Ok number \<Rightarrow> Ok (BigToHash number)
      | Panic p \<Rightarrow> Panic p
      | Err e \<Rightarrow>
          if errors_Is e ErrMissingPrefix
          then (case SetString 10 val of None \<Rightarrow> Err errInvalidType | Some number \<Rightarrow> Ok (BigToHash number))
          else if errors_Is e ErrLeadingZero
          then (if length val < 2 then Panic ''slice bounds out of range''
                else case SetString 16 (drop 2 val) of None \<Rightarrow> Err errInvalidType | Some number \<Rightarrow> Ok (BigToHash number))
          else Panic nil_deref)"

definition encodeUintValue :: "geth \<Rightarrow> go_any \<Rightarrow> hash outcome" where
  "encodeUintValue g value =
     (case value of
        AnyNil \<Rightarrow> Panic ''call of Type on zero Value''
      | AnyUint v \<Rightarrow> Ok (BigToHash (uint v))
      | AnyInt v \<Rightarrow> Ok (BigToHash (uint (word_of_int v :: uint64)))
      | AnyUint64 v \<Rightarrow> Ok (BigToHash (uint v))
      | AnyUint32 v \<Rightarrow> Ok (BigToHash (uint (ucast v :: uint64)))
      | AnyUint16 v \<Rightarrow> Ok (BigToHash (uint (ucast v :: uint64)))
      | AnyUint8 v \<Rightarrow> Ok (BigToHash (uint (ucast v :: uint64)))
      | AnyString v \<Rightarrow> encodeUintString g v
      | AnyBool v \<Rightarrow> Ok (if v then 1 else 0)
      | AnyPtr n None \<Rightarrow> Panic ''call of Type on zero Value''
      | AnyPtr n (Some (AnyBigInt v)) \<Rightarrow> if n = ''Int'' then Ok (BigToHash v) else Err errInvalidType
      | _ \<Rightarrow> Err errInvalidType)"

definition EncodeUintValue :: "geth \<Rightarrow> go_any \<Rightarrow> uint64 \<Rightarrow> hash outcome" where
  "EncodeUintValue g value offset =
     bind_out (wrap_err ''invalid uint'' (encodeUintValue g value)) (\<lambda>val. Ok (handleOffset val offset))"

section \<open>Mappings\<close>

datatype ElementEncoder = EncAddress | EncBool | EncBytes32 | EncUint

fun run_encoder :: "geth \<Rightarrow> ElementEncoder \<Rightarrow> go_any \<Rightarrow> uint64 \<Rightarrow> hash outcome" where
  "run_encoder g EncAddress = EncodeAddressValue g"
| "run_encoder g EncBool = EncodeBoolValue"
| "run_encoder g EncBytes32 = EncodeBytes32Value g"
| "run_encoder g EncUint = EncodeUintValue g"

definition is_alnum :: "char \<Rightarrow> bool" where
  "is_alnum c \<longleftrightarrow> digit_value c < 36"

text \<open>The match of the mapping regular expression at the start of a string, and the leftmost one anywhere.\<close>

definition match_mapping_here :: "string \<Rightarrow> (string \<times> string) option" where
  "match_mapping_here s =
     (if \<not> has_prefix s ''mapping('' then None
      else let r = drop 8 s; key = takeWhile is_alnum r; r1 = dropWhile is_alnum r in
           if \<not> has_prefix r1 '' => '' then None
           else let r2 = drop 4 r1; val = takeWhile is_alnum r2; r3 = dropWhile is_alnum r2 in
                if has_prefix r3 '')'' then Some (key, val) else None)"

fun match_mapping :: "string \<Rightarrow> (string \<times> string) option" where
  "match_mapping [] = None"
| "match_mapping (c # cs) =
     (case match_mapping_here (c # cs) of Some m \<Rightarrow> Some m | None \<Rightarrow> match_mapping cs)"

definition target_encoder :: "string \<Rightarrow> ElementEncoder option" where
  "target_encoder target =
     (if target = ''t_address'' then Some EncAddress
      else if target = ''t_bool'' then Some EncBool
      else if target = ''t_bytes32'' then Some EncBytes32
      else if has_prefix target ''t_uint'' then Some EncUint else None)"

text \<open>\<open>kind\<close> is \<open>True\<close> for \<open>key\<close> and \<open>False\<close> for \<open>value\<close>, the two the code passes.\<close>

definition getElementEncoder :: "StorageLayoutType \<Rightarrow> bool \<Rightarrow> ElementEncoder outcome" where
  "getElementEncoder storageType kind =
     (let target = (if kind then st_Key storageType else st_Value storageType) in
      case target_encoder target of
        Some enc \<Rightarrow> Ok enc
      | None \<Rightarrow>
          if target = ''''
          then (case match_mapping (st_Label storageType) of
                  None \<Rightarrow> Panic ''index out of range''
                | Some (k, v) \<Rightarrow>
                    let res = ''t_'' @ (if kind then k else v) in
                    (case target_encoder res of
                       Some enc \<Rightarrow> Ok enc
                     | None \<Rightarrow> Err (NewError (''unsupported type: '' @ res))))
          else Err (NewError (''unsupported type: '' @ target)))"

definition encodeSlotKey :: "StorageLayoutEntry \<Rightarrow> hash" where
  "encodeSlotKey entry = BigToHash (uint (entry_Slot entry))"

definition EncodeSlotKey :: "StorageLayoutEntry \<Rightarrow> hash" where
  "EncodeSlotKey entry = encodeSlotKey entry"

fun encode_mapping ::
    "geth \<Rightarrow> StorageLayoutEntry \<Rightarrow> ElementEncoder \<Rightarrow> ElementEncoder \<Rightarrow> (go_any \<times> go_any) list \<Rightarrow> EncodedStorage list \<Rightarrow>
     EncodedStorage list outcome" where
  "encode_mapping g entry kenc venc [] encoded = Ok encoded"
| "encode_mapping g entry kenc venc ((rawKey, rawVal) # rest) encoded =
     bind_out (run_encoder g kenc rawKey 0) (\<lambda>encodedKey.
     bind_out (run_encoder g venc rawVal 0) (\<lambda>val.
       encode_mapping g entry kenc venc rest
         (encoded @ [\<lparr>es_Key = Keccak256 g (hash_bytes encodedKey @ hash_bytes (encodeSlotKey entry)), es_Value = val\<rparr>])))"

section \<open>One storage variable\<close>

definition one_slot :: "StorageLayoutType \<Rightarrow> hash \<Rightarrow> hash outcome \<Rightarrow> EncodedStorage list outcome" where
  "one_slot storageType key r =
     bind_out (wrap_err (''cannot encode '' @ st_Encoding storageType) r) (\<lambda>val. Ok [\<lparr>es_Key = key, es_Value = val\<rparr>])"

definition EncodeStorageKeyValue :: "geth \<Rightarrow> go_any \<Rightarrow> StorageLayoutEntry \<Rightarrow> StorageLayoutType \<Rightarrow> EncodedStorage list outcome" where
  "EncodeStorageKeyValue g value entry storageType =
     (let label = st_Label storageType; encoding = st_Encoding storageType; key = encodeSlotKey entry; offset = entry_Offset entry in
      if encoding = ''inplace'' then
        (if label = ''bool'' then one_slot storageType key (EncodeBoolValue value offset)
         else if label = ''address'' then one_slot storageType key (EncodeAddressValue g value offset)
         else if label = ''bytes'' then Err (error_with errUnimplemented label)
         else if label = ''bytes32'' then one_slot storageType key (EncodeBytes32Value g value offset)
         else if has_prefix label ''contract'' then one_slot storageType key (EncodeAddressValue g value offset)
         else if has_prefix label ''uint'' then one_slot storageType key (EncodeUintValue g value offset)
         else Err (Wrapped (''cannot encode '' @ encoding) errUnimplemented))
      else if encoding = ''dynamic_array'' then Ok []
      else if encoding = ''bytes'' then
        (if label = ''string''
         then (case EncodeStringValue value offset of
                 Ok val \<Rightarrow> Ok [\<lparr>es_Key = key, es_Value = val\<rparr>]
               | Err e \<Rightarrow> Err (Wrapped (''cannot encode '' @ encoding) errUnimplemented)
               | Panic p \<Rightarrow> Panic p)
         else Err (error_with errUnimplemented label))
      else if encoding = ''mapping'' then
        (if has_prefix (st_Value storageType) ''mapping'' then Err (error_with errUnimplemented ''nested mappings'')
         else case value of
                AnyMap values \<Rightarrow>
                  bind_out (getElementEncoder storageType True) (\<lambda>keyEncoder.
                  bind_out (getElementEncoder storageType False) (\<lambda>valueEncoder.
                    encode_mapping g entry keyEncoder valueEncoder values []))
              | _ \<Rightarrow> Err (NewError ''mapping must be map[any]any''))
      else Err (Wrapped (''unknown encoding '' @ encoding) errUnimplemented))"

definition EncodeStorage :: "geth \<Rightarrow> StorageLayoutEntry \<Rightarrow> go_any \<Rightarrow> StorageLayoutType \<Rightarrow> EncodedStorage list outcome" where
  "EncodeStorage g entry value storageType =
     (if 32 < st_NumberOfBytes storageType then Err (NewError (st_Encoding storageType @ '' is larger than 32 bytes''))
      else EncodeStorageKeyValue g value entry storageType)"

section \<open>A contract's storage\<close>

fun merge_loop :: "EncodedStorage list \<Rightarrow> (hash \<Rightarrow> hash option) \<Rightarrow> hash list \<Rightarrow> (hash \<Rightarrow> hash option) \<times> hash list" where
  "merge_loop [] encodedKV encodedKeys = (encodedKV, encodedKeys)"
| "merge_loop (s # rest) encodedKV encodedKeys =
     (case encodedKV (es_Key s) of
        Some prev \<Rightarrow> merge_loop rest (encodedKV(es_Key s \<mapsto> BigToHash (uint prev OR uint (es_Value s)))) encodedKeys
      | None \<Rightarrow> merge_loop rest (encodedKV(es_Key s \<mapsto> es_Value s)) (encodedKeys @ [es_Key s]))"

definition MergeStorage :: "EncodedStorage list \<Rightarrow> EncodedStorage list" where
  "MergeStorage storage =
     (case merge_loop storage Map.empty [] of
        (kv, ks) \<Rightarrow> map (\<lambda>k. \<lparr>es_Key = k, es_Value = (case kv k of Some v \<Rightarrow> v | None \<Rightarrow> 0)\<rparr>) ks)"

text \<open>The last entry with the label, or the zero entry; the type of that name, or the zero type.\<close>

definition zero_entry :: StorageLayoutEntry where
  "zero_entry = \<lparr>entry_Label = '''', entry_Offset = 0, entry_Slot = 0, entry_Type = ''''\<rparr>"

definition zero_type :: StorageLayoutType where
  "zero_type = \<lparr>st_Encoding = '''', st_Label = '''', st_NumberOfBytes = 0, st_Key = '''', st_Value = ''''\<rparr>"

definition find_entry :: "StorageLayout \<Rightarrow> string \<Rightarrow> StorageLayoutEntry" where
  "find_entry layout label =
     foldl (\<lambda>target entry. if label = entry_Label entry then entry else target) zero_entry (layout_Storage layout)"

fun compute_slots :: "geth \<Rightarrow> StorageLayout \<Rightarrow> (string \<times> go_any) list \<Rightarrow> EncodedStorage list \<Rightarrow> EncodedStorage list outcome" where
  "compute_slots g layout [] encodedStorage = Ok encodedStorage"
| "compute_slots g layout ((label, value) # rest) encodedStorage =
     (let target = find_entry layout label in
      if entry_Label target = '''' then Err (NewError (''storage layout entry for '' @ label @ '' not found''))
      else let storageType = (case layout_Types layout (entry_Type target) of Some t \<Rightarrow> t | None \<Rightarrow> zero_type) in
           if st_Label storageType = '''' then Err (NewError (''storage type for '' @ label @ '' not found''))
           else bind_out (wrap_err (''cannot encode storage for '' @ entry_Label target) (EncodeStorage g target value storageType))
                  (\<lambda>storage. compute_slots g layout rest (encodedStorage @ storage)))"

definition ComputeStorageSlots :: "geth \<Rightarrow> StorageLayout \<Rightarrow> (string \<times> go_any) list \<Rightarrow> EncodedStorage list outcome" where
  "ComputeStorageSlots g layout values =
     bind_out (compute_slots g layout values []) (\<lambda>encodedStorage. Ok (MergeStorage encodedStorage))"

definition GetStorageLayout :: "(string \<Rightarrow> StorageLayout option) \<Rightarrow> string \<Rightarrow> StorageLayout outcome" where
  "GetStorageLayout layouts name =
     (case layouts name of None \<Rightarrow> Err (NewError (name @ '': storage layout not found'')) | Some layout \<Rightarrow> Ok layout)"

fun set_slots :: "address \<Rightarrow> EncodedStorage list \<Rightarrow> (MemoryStateDB, unit) call" where
  "set_slots addr [] = ret_call ()"
| "set_slots addr (slot # rest) =
     bind_call (SetState addr (es_Key slot) (es_Value slot)) (\<lambda>_. set_slots addr rest)"

definition SetStorage ::
    "geth \<Rightarrow> (string \<Rightarrow> StorageLayout option) \<Rightarrow> string \<Rightarrow> address \<Rightarrow> (string \<times> go_any) list \<Rightarrow> (MemoryStateDB, unit) call" where
  "SetStorage g layouts name addr values db =
     (case bind_out (wrap_err ''cannot set storage'' (GetStorageLayout layouts name)) (\<lambda>layout.
             wrap_err name (ComputeStorageSlots g layout values)) of
        Ok slots \<Rightarrow> set_slots addr slots db
      | Err e \<Rightarrow> (Err e, db)
      | Panic p \<Rightarrow> (Panic p, db))"

section \<open>Deployed bytecode\<close>

definition isHexCharacter :: "char \<Rightarrow> bool" where
  "isHexCharacter c \<longleftrightarrow> (CHR ''0'' \<le> c \<and> c \<le> CHR ''9'') \<or> (CHR ''a'' \<le> c \<and> c \<le> CHR ''f'') \<or> (CHR ''A'' \<le> c \<and> c \<le> CHR ''F'')"

definition TrimPrefix :: "string \<Rightarrow> string \<Rightarrow> string" where
  "TrimPrefix s p = (if has_prefix s p then drop (length p) s else s)"

definition isHex :: "string \<Rightarrow> bool" where
  "isHex str \<longleftrightarrow> length str mod 2 = 0 \<and> list_all isHexCharacter (TrimPrefix str ''0x'')"

definition GetDeployedBytecode :: "geth \<Rightarrow> (string \<Rightarrow> string option) \<Rightarrow> string \<Rightarrow> bytes outcome" where
  "GetDeployedBytecode g deployedBytecodes name =
     (let bc = (case deployedBytecodes name of None \<Rightarrow> '''' | Some b \<Rightarrow> b) in
      if bc = '''' then Err (NewError (name @ '': deployed bytecode not found''))
      else if \<not> isHex bc then Err (NewError (name @ '': invalid deployed bytecode''))
      else Ok (FromHex g bc))"

section \<open>Bytes of a hash\<close>

lemma BytesToHash_snoc: "BytesToHash (bs @ [b]) = push_bit 8 (BytesToHash bs) OR ucast b"
proof -
  let ?a = "BytesToHash bs"
  have "push_bit 8 ?a AND ucast b = 0"
    by (rule bit_eqI) (auto simp: bit_simps dest: bit_imp_le_length)
  then have "push_bit 8 ?a OR ucast b = push_bit 8 ?a + ucast b"
    by (simp add: disjunctive_add_eq_or)
  then show ?thesis by (simp add: BytesToHash_def push_bit_eq_mult mult.commute)
qed

lemma bit_BytesToHash:
  "bit (BytesToHash bs) k \<longleftrightarrow> k < 256 \<and> k div 8 < length bs \<and> bit (rev bs ! (k div 8)) (k mod 8)"
proof (induction bs arbitrary: k rule: rev_induct)
  case Nil
  then show ?case by (simp add: BytesToHash_def)
next
  case (snoc b bs)
  show ?case
  proof (cases "k < 8")
    case True
    then show ?thesis by (auto simp: BytesToHash_snoc bit_simps)
  next
    case False
    then have "\<not> bit b k" using bit_imp_le_length [of b k] by auto
    moreover have "k div 8 = Suc ((k - 8) div 8)" "k mod 8 = (k - 8) mod 8" using False
      by (simp_all add: le_div_geq le_mod_geq)
    ultimately show ?thesis using False snoc.IH [of "k - 8"]
      by (auto simp: BytesToHash_snoc bit_simps nth_append)
  qed
qed

lemma hash_bytes_BytesToHash:
  assumes "length bs = 32"
  shows "hash_bytes (BytesToHash bs) = bs"
proof (rule nth_equalityI)
  show "length (hash_bytes (BytesToHash bs)) = length bs" using assms by (simp add: hash_bytes_def)
  fix i
  assume "i < length (hash_bytes (BytesToHash bs))"
  then have i: "i < 32" by (simp add: hash_bytes_def)
  show "hash_bytes (BytesToHash bs) ! i = bs ! i"
  proof (rule bit_word_eqI)
    fix n
    assume n: "n < LENGTH(8)"
    then have "(8 * (31 - i) + n) div 8 = 31 - i" "(8 * (31 - i) + n) mod 8 = n" by simp_all
    moreover have "rev bs ! (31 - i) = bs ! i" using i assms by (simp add: rev_nth)
    moreover have "8 * (31 - i) + n < 256" using n by simp
    ultimately show "bit (hash_bytes (BytesToHash bs) ! i) n = bit (bs ! i) n"
      using i n assms by (simp add: hash_bytes_def bit_simps bit_BytesToHash)
  qed
qed

section \<open>Properties\<close>

text \<open>How Solidity reads a short string back: the length is half the last byte.\<close>

definition decodeShortString :: "hash \<Rightarrow> string" where
  "decodeShortString h = (let bs = hash_bytes h in map (\<lambda>b. char_of (unat b)) (take (unat (last bs) div 2) bs))"

lemma string_bytes_inverse: "map (\<lambda>b. char_of (unat b)) (string_bytes s) = s"
  by (induction s) (simp_all add: string_bytes_def unat_of_nat)

text \<open>
  Strings survive storage. A string of at most 31 bytes is encoded to the hash from which Solidity's
  short-string rule reads back exactly that string; a longer one is refused with an error.
\<close>

theorem encodeStringValue_roundtrip:
  "if length s < 32 then (\<exists>h. EncodeStringValue (AnyString s) 0 = Ok h \<and> decodeShortString h = s)
   else EncodeStringValue (AnyString s) 0 = Err (NewError ''string value too long'')"
proof (cases "length s < 32")
  case True
  let ?d = "string_bytes s"
  define p where "p = (?d @ replicate (32 - length ?d) 0)[31 := of_nat (length ?d * 2)]"
  have l: "length ?d = length s" by (simp add: string_bytes_def)
  have lp: "length p = 32" using True l by (simp add: p_def)
  have la: "last p = of_nat (length s * 2)" using lp l by (subst last_conv_nth) (auto simp: p_def)
  have t: "take (length s) p = ?d" using True l by (simp add: p_def take_update_cancel)
  have "unat (last p) = length s * 2"
    unfolding la by (subst unat_of_nat) (use True in simp)
  then have "decodeShortString (BytesToHash p) = s"
    using t by (simp add: decodeShortString_def hash_bytes_BytesToHash [OF lp] string_bytes_inverse Let_def)
  moreover have "EncodeStringValue (AnyString s) 0 = Ok (BytesToHash p)"
    using True l by (simp add: EncodeStringValue_def encodeStringValue_def Let_def p_def)
  ultimately show ?thesis using True by simp
next
  case False
  then show ?thesis by (simp add: EncodeStringValue_def encodeStringValue_def Let_def string_bytes_def)
qed

lemma BigToHash_or [simp]: "BigToHash (uint a OR uint b) = a OR (b :: hash)"
proof -
  have "uint a OR uint b = uint (a OR b)" by (simp add: unsigned_or_eq)
  then show ?thesis by (simp add: BigToHash_def)
qed

text \<open>What a slot must hold: the binary or of every value produced for it.\<close>

definition or_all :: "hash \<Rightarrow> EncodedStorage list \<Rightarrow> hash" where
  "or_all k xs = foldl (\<lambda>acc s. if es_Key s = k then acc OR es_Value s else acc) 0 xs"

lemma or_all_snoc [simp]: "or_all k (xs @ [s]) = (if es_Key s = k then or_all k xs OR es_Value s else or_all k xs)"
  by (simp add: or_all_def)

lemma or_all_absent: "k \<notin> es_Key ` set xs \<Longrightarrow> or_all k xs = 0"
  by (induction xs rule: rev_induct) (auto simp: or_all_def)

lemma merge_loop_inv:
  assumes "kv = (\<lambda>k. if k \<in> es_Key ` set seen then Some (or_all k seen) else None)"
    "distinct ks" "set ks = es_Key ` set seen" "merge_loop xs kv ks = (kv', ks')"
  shows "kv' = (\<lambda>k. if k \<in> es_Key ` set (seen @ xs) then Some (or_all k (seen @ xs)) else None) \<and>
    distinct ks' \<and> set ks' = es_Key ` set (seen @ xs)"
  using assms
proof (induction xs arbitrary: seen kv ks)
  case Nil
  then show ?case unfolding append_Nil2 by auto
next
  case (Cons s xs)
  define d' where "d' = seen @ [s]"
  have d': "seen @ s # xs = d' @ xs" by (simp add: d'_def)
  show ?case
  proof (cases "es_Key s \<in> es_Key ` set seen")
    case True
    have m: "merge_loop xs (kv(es_Key s \<mapsto> or_all (es_Key s) seen OR es_Value s)) ks = (kv', ks')"
      using Cons.prems True by simp
    have kv: "kv(es_Key s \<mapsto> or_all (es_Key s) seen OR es_Value s) =
        (\<lambda>k. if k \<in> es_Key ` set d' then Some (or_all k d') else None)"
      using True by (auto simp: Cons.prems(1) d'_def fun_eq_iff)
    have ks: "set ks = es_Key ` set d'" using Cons.prems(3) True by (auto simp: d'_def)
    show ?thesis unfolding d' by (rule Cons.IH [OF kv Cons.prems(2) ks m])
  next
    case False
    have m: "merge_loop xs (kv(es_Key s \<mapsto> es_Value s)) (ks @ [es_Key s]) = (kv', ks')"
      using Cons.prems False by simp
    have kv: "kv(es_Key s \<mapsto> es_Value s) = (\<lambda>k. if k \<in> es_Key ` set d' then Some (or_all k d') else None)"
      using or_all_absent [OF False] by (auto simp: Cons.prems(1) d'_def fun_eq_iff)
    have ks: "distinct (ks @ [es_Key s])" "set (ks @ [es_Key s]) = es_Key ` set d'"
      using Cons.prems(2,3) False by (auto simp: d'_def)
    show ?thesis unfolding d' by (rule Cons.IH [OF kv ks m])
  qed
qed

lemma MergeStorage_facts:
  "distinct (map es_Key (MergeStorage xs))" "set (map es_Key (MergeStorage xs)) = es_Key ` set xs"
  "s \<in> set (MergeStorage xs) \<Longrightarrow> es_Value s = or_all (es_Key s) xs"
proof -
  obtain kv ks where m: "merge_loop xs Map.empty [] = (kv, ks)" by fastforce
  have i: "kv = (\<lambda>k. if k \<in> es_Key ` set xs then Some (or_all k xs) else None)" "distinct ks" "set ks = es_Key ` set xs"
    using merge_loop_inv [of Map.empty "[]" "[]" xs kv ks] m by auto
  have M: "MergeStorage xs = map (\<lambda>k. \<lparr>es_Key = k, es_Value = (case kv k of Some v \<Rightarrow> v | None \<Rightarrow> 0)\<rparr>) ks"
    by (simp add: MergeStorage_def m)
  show "distinct (map es_Key (MergeStorage xs))" "set (map es_Key (MergeStorage xs)) = es_Key ` set xs"
    using i(2,3) by (simp_all add: M comp_def)
  show "es_Value s = or_all (es_Key s) xs" if "s \<in> set (MergeStorage xs)"
    using that i by (auto simp: M)
qed

lemma handleOffset_push: "unat n < 32 \<Longrightarrow> handleOffset v n = push_bit (8 * unat n) v"
proof -
  assume n: "unat n < 32"
  have "unat (n * 8) = 8 * unat n"
    using n by (simp add: unat_word_ariths)
  then show ?thesis by (auto simp: handleOffset_def)
qed

text \<open>
  Tightly packed variables do not disturb each other. \<open>MergeStorage\<close> gives one entry per slot that
  occurs, and two variables of \<open>n1\<close> and \<open>n2\<close> bytes at non-overlapping offsets of one slot are both read
  back, by shift and mask, from the merged slot.
\<close>

theorem packed_variables_recoverable:
  assumes "unat o1 + n1 \<le> unat o2" "unat o2 + n2 \<le> 32" "0 < n2"
    and v: "v1 = take_bit (8 * n1) v1" "v2 = take_bit (8 * n2) v2"
  shows "\<exists>m. MergeStorage [\<lparr>es_Key = k, es_Value = handleOffset v1 o1\<rparr>, \<lparr>es_Key = k, es_Value = handleOffset v2 o2\<rparr>] =
      [\<lparr>es_Key = k, es_Value = m\<rparr>] \<and>
    take_bit (8 * n1) (drop_bit (8 * unat o1) m) = v1 \<and> take_bit (8 * n2) (drop_bit (8 * unat o2) m) = v2"
proof -
  have o: "unat o1 < 32" "unat o2 < 32" using assms(1-3) by auto
  define m where "m = push_bit (8 * unat o1) v1 OR push_bit (8 * unat o2) v2"
  have b1: "\<not> bit v1 j" if "8 * n1 \<le> j" for j using that by (subst v(1)) (simp add: bit_simps)
  have b2: "\<not> bit v2 j" if "8 * n2 \<le> j" for j using that by (subst v(2)) (simp add: bit_simps)
  have "take_bit (8 * n1) (drop_bit (8 * unat o1) m) = v1"
  proof (rule bit_word_eqI)
    fix j
    assume "j < LENGTH(256)"
    show "bit (take_bit (8 * n1) (drop_bit (8 * unat o1) m)) j = bit v1 j"
      using assms(1,2) b1 [of j] by (cases "j < 8 * n1") (auto simp: m_def bit_simps)
  qed
  moreover have "take_bit (8 * n2) (drop_bit (8 * unat o2) m) = v2"
  proof (rule bit_word_eqI)
    fix j
    assume "j < LENGTH(256)"
    show "bit (take_bit (8 * n2) (drop_bit (8 * unat o2) m)) j = bit v2 j"
      using assms(1,2) b2 [of j] b1 [of "8 * unat o2 + j - 8 * unat o1"]
      by (cases "j < 8 * n2") (auto simp: m_def bit_simps)
  qed
  moreover have "MergeStorage [\<lparr>es_Key = k, es_Value = handleOffset v1 o1\<rparr>, \<lparr>es_Key = k, es_Value = handleOffset v2 o2\<rparr>] =
      [\<lparr>es_Key = k, es_Value = m\<rparr>]"
    using o by (simp add: MergeStorage_def handleOffset_push m_def)
  ultimately show ?thesis by blast
qed

theorem packed_variables_recoverable_witness:
  "\<exists>m. MergeStorage [\<lparr>es_Key = 0, es_Value = handleOffset 1 0\<rparr>, \<lparr>es_Key = 0, es_Value = handleOffset 0xABCD 1\<rparr>] =
      [\<lparr>es_Key = 0, es_Value = m\<rparr>] \<and> take_bit 8 m = 1 \<and> take_bit 160 (drop_bit 8 m) = 0xABCD"
  using packed_variables_recoverable [of 0 1 1 20 1 "0xABCD" 0] by simp

lemma set_slots_run:
  assumes "wf_db db" "Exist a db" "distinct (map es_Key slots)"
  shows "\<exists>db'. set_slots a slots db = (Ok (), db') \<and>
    (\<forall>s \<in> set slots. GetState a (es_Key s) db' = es_Value s) \<and>
    (\<forall>c k. c \<noteq> a \<or> k \<notin> es_Key ` set slots \<longrightarrow> GetState c k db' = GetState c k db)"
  using assms
proof (induction slots arbitrary: db)
  case Nil
  then show ?case by (simp add: ret_call_def)
next
  case (Cons s slots)
  obtain account where acc: "db a = Some account" using Cons.prems(2) by (auto simp: Exist_def)
  then obtain m where m: "Storage account = Some m" using wf_db_lookup [OF Cons.prems(1)] wf_account_fields by blast
  define db1 where "db1 = db(a \<mapsto> account\<lparr>Storage := Some (m(es_Key s \<mapsto> es_Value s))\<rparr>)"
  have st: "SetState a (es_Key s) (es_Value s) db = (Ok (), db1)" using acc m by (simp add: SetState_def db1_def)
  have "wf_account account" using wf_db_lookup [OF Cons.prems(1) acc] .
  then have "wf_db db1" "Exist a db1" using Cons.prems(1) by (auto simp: db1_def Exist_def wf_account_def intro!: wf_db_update)
  moreover have g: "GetState c k db1 = (if c = a \<and> k = es_Key s then es_Value s else GetState c k db)" for c k
    using acc m by (auto simp: db1_def GetState_def read_storage_def)
  ultimately obtain db' where "set_slots a slots db1 = (Ok (), db')" "\<forall>s \<in> set slots. GetState a (es_Key s) db' = es_Value s"
    "\<forall>c k. c \<noteq> a \<or> k \<notin> es_Key ` set slots \<longrightarrow> GetState c k db' = GetState c k db1"
    using Cons.IH [of db1] Cons.prems(3) by auto
  then show ?case using st g Cons.prems(3) by (auto simp: bind_call_def)
qed

text \<open>
  C40: \<open>SetStorage\<close> writes the layout and nothing else. When the layout is known and every value can be
  encoded, every slot computed for the values holds the binary or of the encodings that fall into it,
  every other slot of the contract and every other contract keep their storage, and no call panics.
\<close>

theorem SetStorage_writes_layout:
  assumes "layouts name = Some layout" "compute_slots g layout values [] = Ok enc" "wf_db db" "Exist a db"
  shows "\<exists>db'. SetStorage g layouts name a values db = (Ok (), db') \<and>
    (\<forall>k. GetState a k db' = (if k \<in> es_Key ` set enc then or_all k enc else GetState a k db)) \<and>
    (\<forall>c k. c = a \<or> GetState c k db' = GetState c k db)"
proof -
  obtain db' where d: "set_slots a (MergeStorage enc) db = (Ok (), db')"
    "\<forall>s \<in> set (MergeStorage enc). GetState a (es_Key s) db' = es_Value s"
    "\<forall>c k. c \<noteq> a \<or> k \<notin> es_Key ` set (MergeStorage enc) \<longrightarrow> GetState c k db' = GetState c k db"
    using set_slots_run [OF assms(3,4) MergeStorage_facts(1) [of enc]] by blast
  have ks: "es_Key ` set (MergeStorage enc) = es_Key ` set enc" using MergeStorage_facts(2) [of enc] by simp
  have "GetState a k db' = or_all k enc" if "k \<in> es_Key ` set enc" for k
    using that d(2) MergeStorage_facts(3) unfolding ks [symmetric] by auto
  moreover have "SetStorage g layouts name a values db = (Ok (), db')"
    using assms(1,2) d(1) by (simp add: SetStorage_def GetStorageLayout_def ComputeStorageSlots_def)
  ultimately show ?thesis using d(3) unfolding ks by auto
qed

text \<open>
  A hexutil for the witnesses: \<^verbatim>\<open>0x\<close> is required, a leading zero digit and a non-digit are errors.
\<close>

definition demo_DecodeBig :: "string \<Rightarrow> big outcome" where
  "demo_DecodeBig s =
     (if \<not> has_prefix s ''0x'' then Err (Sentinel ErrMissingPrefix)
      else if length s > 3 \<and> s ! 2 = CHR ''0'' then Err (Sentinel ErrLeadingZero)
      else case parse_digits 16 (drop 2 s) 0 of None \<Rightarrow> Err (Sentinel ''invalid hex string'') | Some n \<Rightarrow> Ok n)"

definition demo_geth :: geth where
  "demo_geth = \<lparr>hexutil_Decode = (\<lambda>s. Err (NewError ''unsupported'')), hexutil_DecodeBig = demo_DecodeBig,
     HexToAddress = (\<lambda>s. 0xAA), FromHex = (\<lambda>s. []), Keccak256 = (\<lambda>bs. BytesToHash bs)\<rparr>"

definition demo_layout :: StorageLayout where
  "demo_layout = \<lparr>layout_Storage =
      [\<lparr>entry_Label = ''paused'', entry_Offset = 0, entry_Slot = 3, entry_Type = ''t_bool''\<rparr>,
       \<lparr>entry_Label = ''owner'', entry_Offset = 1, entry_Slot = 3, entry_Type = ''t_address''\<rparr>],
     layout_Types = Map.empty(
       ''t_bool'' \<mapsto> \<lparr>st_Encoding = ''inplace'', st_Label = ''bool'', st_NumberOfBytes = 1, st_Key = '''', st_Value = ''''\<rparr>,
       ''t_address'' \<mapsto> \<lparr>st_Encoding = ''inplace'', st_Label = ''address'', st_NumberOfBytes = 20, st_Key = '''', st_Value = ''''\<rparr>)\<rparr>"

definition demo_values :: "(string \<times> go_any) list" where
  "demo_values = [(''owner'', AnyAddress 0xCD), (''paused'', AnyBool True)]"

theorem SetStorage_writes_layout_witness:
  "\<exists>db'. SetStorage demo_geth [''Proxy'' \<mapsto> demo_layout] ''Proxy'' 5 demo_values (snd (CreateAccount 5 Map.empty)) = (Ok (), db') \<and>
     GetState 5 3 db' = 0xCD01 \<and> GetState 5 4 db' = 0"
proof -
  have c: "compute_slots demo_geth demo_layout demo_values [] =
      Ok [\<lparr>es_Key = 3, es_Value = 0xCD00\<rparr>, \<lparr>es_Key = 3, es_Value = 1\<rparr>]" by code_simp
  have db: "wf_db (snd (CreateAccount 5 Map.empty))" "Exist 5 (snd (CreateAccount 5 Map.empty))"
    "GetState 5 4 (snd (CreateAccount 5 Map.empty)) = 0"
    by (auto simp: CreateAccount_def wf_db_def wf_account_def Exist_def GetState_def read_storage_def)
  have o: "or_all 3 [\<lparr>es_Key = 3, es_Value = 0xCD00\<rparr>, \<lparr>es_Key = 3, es_Value = 1\<rparr>] = 0xCD01" by code_simp
  from SetStorage_writes_layout [OF _ c db(1,2), of "[''Proxy'' \<mapsto> demo_layout]" "''Proxy''"] o db(3) show ?thesis by auto
qed

text \<open>
  A malformed number is not refused. When \<open>DecodeBig\<close> fails on a string for any reason but a missing
  prefix or a leading zero, \<open>EncodeUintValue\<close> does not return that error: it goes on with the nil
  number and panics, so \<open>ComputeStorageSlots\<close> and \<open>SetStorage\<close> panic as well.
\<close>

theorem malformed_uint_panics:
  assumes "hexutil_DecodeBig g s = Err e" "\<not> errors_Is e ErrMissingPrefix" "\<not> errors_Is e ErrLeadingZero"
    and "find_entry layout label = entry" "entry_Label entry \<noteq> ''''" "layout_Types layout (entry_Type entry) = Some t"
    and "st_Encoding t = ''inplace''" "st_Label t = ''uint256''" "st_NumberOfBytes t = 32"
  shows "EncodeUintValue g (AnyString s) offset = Panic nil_deref \<and>
    ComputeStorageSlots g layout ((label, AnyString s) # rest) = Panic nil_deref"
proof -
  have u: "EncodeUintValue g (AnyString s) off = Panic nil_deref" for off
    using assms(1-3) by (simp add: EncodeUintValue_def encodeUintValue_def encodeUintString_def bind_out_def)
  then have "EncodeStorage g entry (AnyString s) t = Panic nil_deref"
    using assms(7-9) by (simp add: EncodeStorage_def EncodeStorageKeyValue_def one_slot_def bind_out_def Let_def)
  then show ?thesis
    using u assms(4-6,8) by (simp add: ComputeStorageSlots_def bind_out_def)
qed

theorem malformed_uint_panics_witness:
  "ComputeStorageSlots demo_geth
     \<lparr>layout_Storage = [\<lparr>entry_Label = ''x'', entry_Offset = 0, entry_Slot = 1, entry_Type = ''t''\<rparr>],
      layout_Types = [''t'' \<mapsto> \<lparr>st_Encoding = ''inplace'', st_Label = ''uint256'', st_NumberOfBytes = 32, st_Key = '''', st_Value = ''''\<rparr>]\<rparr>
     [(''x'', AnyString ''0xzz'')] = Panic nil_deref"
proof -
  have "hexutil_DecodeBig demo_geth ''0xzz'' = Err (Sentinel ''invalid hex string'')" by code_simp
  from malformed_uint_panics [OF this, where label = "''x''" and rest = "[]" and
      entry = "\<lparr>entry_Label = ''x'', entry_Offset = 0, entry_Slot = 1, entry_Type = ''t''\<rparr>"
      and t = "\<lparr>st_Encoding = ''inplace'', st_Label = ''uint256'', st_NumberOfBytes = 32, st_Key = '''', st_Value = ''''\<rparr>"]
  show ?thesis by (simp add: find_entry_def zero_entry_def)
qed

end
