(* ===== verification/Predeploys.thy ===== *)
theory Predeploys
  imports Storage_Encoding
begin

text \<open>
  \<^verbatim>\<open>ops/predeploys\<close> and \<^verbatim>\<open>ops/deployer/deployer.go\<close>: the addresses of the L2 system contracts, the addresses
  of their implementations, and the deployment of both on a simulated chain to obtain their code. The
  chain is a world \<open>'k\<close> reached through the calls of \<open>deploy_env\<close> (the generated \<open>DeployX\<close> bindings,
  \<open>Commit\<close>, \<open>WaitDeployed\<close>, \<open>CodeAt\<close>). Ranging over a Go map is ranging over a list.
\<close>

section \<open>Addresses\<close>

definition codeNamespace :: address where
  "codeNamespace = 0xc0D3C0d3C0d3C0D3c0d3C0d3c0D3C0d3c0d30000"

definition l2PredeployNamespace :: address where
  "l2PredeployNamespace = 0x2A00000000000000000000000000000000000000"

definition ImplementationSlot :: hash where
  "ImplementationSlot = 0x360894a13ba1a3210667c828492db98dca3e2076cc3735a920a3ca505d382bbc"

definition PredeployProxyCount :: nat where "PredeployProxyCount = 2048"

definition UUPSPlaceholderAddr :: address where "UUPSPlaceholderAddr = 0x2A00000000000000000000000000000000000000"
definition L1OracleAddr_predeploy :: address where "L1OracleAddr_predeploy = 0x2A00000000000000000000000000000000000010"
definition L2PortalAddr :: address where "L2PortalAddr = 0x2A00000000000000000000000000000000000011"
definition L2StandardBridgeAddr :: address where "L2StandardBridgeAddr = 0x2A00000000000000000000000000000000000012"

definition Predeploys_map :: "string \<Rightarrow> address option" where
  "Predeploys_map = [''UUPSPlaceholder'' \<mapsto> UUPSPlaceholderAddr, ''L1Oracle'' \<mapsto> L1OracleAddr_predeploy,
     ''L2Portal'' \<mapsto> L2PortalAddr, ''L2StandardBridge'' \<mapsto> L2StandardBridgeAddr]"

text \<open>\<open>addr[0:2]\<close> is the two most significant bytes, \<open>addr[18:]\<close> the two least significant. The error of
  \<open>AddressToCodeNamespace\<close> is modelled without the address its text ends with.\<close>

definition IsL2Predeploy :: "address \<Rightarrow> bool" where
  "IsL2Predeploy addr \<longleftrightarrow> drop_bit 144 addr = 0x2A00"

definition AddressToCodeNamespace :: "address \<Rightarrow> address outcome" where
  "AddressToCodeNamespace addr =
     (if \<not> IsL2Predeploy addr then Err (NewError ''cannot handle non predeploy'')
      else Ok (codeNamespace OR take_bit 16 addr))"

section \<open>Deployment\<close>

datatype ctor_arg = ArgAddress address | ArgBytes bytes | ArgOther

record Constructor =
  ctor_Name :: string
  ctor_Args :: "ctor_arg list"

record Deployment =
  dep_Name :: string
  dep_Bytecode :: bytes
  dep_Address :: address

record 'k deploy_env =
  keyedTransactor :: "unit outcome"
  bindings_Deploy :: "string \<Rightarrow> ctor_arg list \<Rightarrow> ('k, hash) call"
  backend_Commit :: "('k, hash) call"
  bind_WaitDeployed :: "hash \<Rightarrow> ('k, address) call"
  backend_CodeAt :: "address \<Rightarrow> ('k, bytes) call"

definition l2Deployer :: "'k deploy_env \<Rightarrow> Constructor \<Rightarrow> ('k, hash) call" where
  "l2Deployer env deployment k =
     (if ctor_Name deployment = ''ERC1967Proxy''
      then (case ctor_Args deployment of
              [] \<Rightarrow> (Panic ''index out of range'', k)
            | ArgAddress implAddr # rest \<Rightarrow>
                (case rest of
                   [] \<Rightarrow> (Panic ''index out of range'', k)
                 | ArgBytes d # _ \<Rightarrow> bindings_Deploy env ''ERC1967Proxy'' [ArgAddress implAddr, ArgBytes d] k
                 | _ \<Rightarrow> (Err (NewError ''invalid type for initializer data''), k))
            | _ \<Rightarrow> (Err (NewError ''invalid type for implAddr''), k))
      else if ctor_Name deployment \<in> {''UUPSPlaceholder'', ''L1Oracle'', ''L2Portal'', ''L2StandardBridge''}
      then bindings_Deploy env (ctor_Name deployment) [] k
      else (Err (NewError (''unknown contract: '' @ ctor_Name deployment)), k))"

text \<open>The end of a pass of the loop of \<open>Deploy\<close>; a failing \<open>CodeAt\<close> returns no code, so the emptiness test decides.\<close>

definition deployed_code :: "'k deploy_env \<Rightarrow> Constructor \<Rightarrow> address \<Rightarrow> ('k, Deployment) call" where
  "deployed_code env c addr k =
     (if addr = 0 then (Err (NewError (''no address for '' @ ctor_Name c)), k)
      else case backend_CodeAt env addr k of
             (Panic p, k1) \<Rightarrow> (Panic p, k1)
           | (Err e, k1) \<Rightarrow> (Err (NewError (''no code found for '' @ ctor_Name c)), k1)
           | (Ok code, k1) \<Rightarrow>
               if length code = 0 then (Err (NewError (''no code found for '' @ ctor_Name c)), k1)
               else (Ok \<lparr>dep_Name = ctor_Name c, dep_Bytecode = code, dep_Address = addr\<rparr>, k1))"

definition deploy_one :: "'k deploy_env \<Rightarrow> Constructor \<Rightarrow> ('k, Deployment) call" where
  "deploy_one env c =
     bind_call (l2Deployer env c) (\<lambda>tx.
     bind_call (backend_Commit env) (\<lambda>_.
     bind_call (wrap_call (ctor_Name c) (bind_WaitDeployed env tx)) (deployed_code env c)))"

fun deploy_loop :: "'k deploy_env \<Rightarrow> Constructor list \<Rightarrow> ('k, Deployment list) call" where
  "deploy_loop env [] = ret_call []"
| "deploy_loop env (c # cs) =
     bind_call (deploy_one env c) (\<lambda>d. bind_call (deploy_loop env cs) (\<lambda>ds. ret_call (d # ds)))"

definition Deploy :: "'k deploy_env \<Rightarrow> Constructor list \<Rightarrow> ('k, Deployment list) call" where
  "Deploy env constructors k =
     (case keyedTransactor env of
        Err e \<Rightarrow> (Err e, k)
      | Panic p \<Rightarrow> (Panic p, k)
      | Ok _ \<Rightarrow> deploy_loop env constructors k)"

section \<open>Predeploy configurations\<close>

record predeploy_StorageConfig =
  ImplValue :: go_any
  ProxyValue :: go_any

record PredeployConfig =
  Proxied :: bool
  Initializer :: string
  InitializerValues :: "(string \<times> go_any) list"
  Storages :: "(string \<times> predeploy_StorageConfig) list"

type_synonym PredeployConfigs = "(string \<times> PredeployConfig) list"

fun check_args :: "string \<Rightarrow> (string \<times> go_any) list \<Rightarrow> string list \<Rightarrow> unit outcome" where
  "check_args contract values [] = Ok ()"
| "check_args contract values (arg # args) =
     (if map_of values arg = None then Err (NewError (''missing initializer arg '' @ arg @ '' for '' @ contract))
      else check_args contract values args)"

fun check_contracts :: "PredeployConfigs \<Rightarrow> (string \<times> string list) list \<Rightarrow> unit outcome" where
  "check_contracts p [] = Ok ()"
| "check_contracts p ((contract, initArg) # checks) =
     (case map_of p contract of
        None \<Rightarrow> Err (NewError (''missing predeploy for '' @ contract))
      | Some c \<Rightarrow> bind_out (check_args contract (InitializerValues c) initArg) (\<lambda>_. check_contracts p checks))"

definition PredeployConfigs_Check :: "PredeployConfigs \<Rightarrow> unit outcome" where
  "PredeployConfigs_Check p =
     check_contracts p [(''L2Portal'', [''_l1PortalAddress'']), (''L2StandardBridge'', [''_otherBridge''])]"

record DeploymentResult =
  Bytecode :: bytes
  Address :: address

type_synonym DeploymentResults = "string \<Rightarrow> DeploymentResult option"

text \<open>Indexing a Go map of structs gives the zero struct for an absent key.\<close>

definition result_of :: "DeploymentResults \<Rightarrow> string \<Rightarrow> DeploymentResult" where
  "result_of rs name = (case rs name of Some r \<Rightarrow> r | None \<Rightarrow> \<lparr>Bytecode = [], Address = 0\<rparr>)"

definition collect_results :: "Deployment list \<Rightarrow> DeploymentResults" where
  "collect_results ds =
     foldl (\<lambda>rs d. rs(dep_Name d \<mapsto> \<lparr>Bytecode = dep_Bytecode d, Address = dep_Address d\<rparr>)) Map.empty ds"

definition BuildPredeployImpls :: "'k deploy_env \<Rightarrow> ('k, DeploymentResults) call" where
  "BuildPredeployImpls env =
     bind_call (Deploy env (map (\<lambda>n. \<lparr>ctor_Name = n, ctor_Args = []\<rparr>)
                  [''UUPSPlaceholder'', ''L1Oracle'', ''L2Portal'', ''L2StandardBridge'']))
       (\<lambda>ds. ret_call (collect_results ds))"

text \<open>
  \<open>pack abi method args\<close> is the generated metadata's \<open>GetAbi\<close> followed by \<open>Pack\<close>; \<open>argOrder\<close> the order
  of the initializer's arguments. An argument that is not configured is nil.
\<close>

definition argOrder :: "string \<Rightarrow> string list" where
  "argOrder name =
     (if name = ''L2Portal'' then [''_l1PortalAddress''] else if name = ''L2StandardBridge'' then [''_otherBridge''] else [])"

type_synonym packer = "string \<Rightarrow> string \<Rightarrow> go_any list \<Rightarrow> bytes outcome"

definition initializeData_pack :: "packer \<Rightarrow> string \<Rightarrow> PredeployConfig \<Rightarrow> bytes outcome" where
  "initializeData_pack pack name predeploy =
     pack name (Initializer predeploy)
       (map (\<lambda>a. case map_of (InitializerValues predeploy) a of Some v \<Rightarrow> v | None \<Rightarrow> AnyNil) (argOrder name))"

fun proxy_constructors :: "packer \<Rightarrow> DeploymentResults \<Rightarrow> PredeployConfigs \<Rightarrow> Constructor list \<Rightarrow> Constructor list outcome" where
  "proxy_constructors pack impls [] acc = Ok acc"
| "proxy_constructors pack impls ((name, predeploy) # rest) acc =
     (if \<not> Proxied predeploy then proxy_constructors pack impls rest acc
      else bind_out (initializeData_pack pack name predeploy) (\<lambda>d.
             proxy_constructors pack impls rest
               (acc @ [\<lparr>ctor_Name = ''ERC1967Proxy'', ctor_Args = [ArgAddress (Address (result_of impls name)), ArgBytes d]\<rparr>])))"

definition BuildPredeployProxies :: "packer \<Rightarrow> 'k deploy_env \<Rightarrow> PredeployConfigs \<Rightarrow> DeploymentResults \<Rightarrow> ('k, DeploymentResults) call" where
  "BuildPredeployProxies pack env predeploys impls k =
     (case proxy_constructors pack impls predeploys [] of
        Err e \<Rightarrow> (Err e, k)
      | Panic p \<Rightarrow> (Panic p, k)
      | Ok cs \<Rightarrow> bind_call (Deploy env cs) (\<lambda>ds. ret_call (collect_results ds)) k)"

definition BuildSpecular :: "packer \<Rightarrow> 'k deploy_env \<Rightarrow> PredeployConfigs \<Rightarrow> ('k, DeploymentResults \<times> DeploymentResults) call" where
  "BuildSpecular pack env predeploy k =
     (case PredeployConfigs_Check predeploy of
        Err e \<Rightarrow> (Err e, k)
      | Panic p \<Rightarrow> (Panic p, k)
      | Ok _ \<Rightarrow>
          bind_call (BuildPredeployImpls env) (\<lambda>impls.
          bind_call (BuildPredeployProxies pack env predeploy impls) (\<lambda>proxies.
            ret_call (impls, proxies))) k)"

section \<open>What is deployed under which name\<close>

lemma collect_results_dom: "dom (collect_results ds) = dep_Name ` set ds"
proof -
  have "dom (foldl (\<lambda>rs d. rs(dep_Name d \<mapsto> \<lparr>Bytecode = dep_Bytecode d, Address = dep_Address d\<rparr>)) m ds) =
      dom m \<union> dep_Name ` set ds" for m :: DeploymentResults
    by (induction ds arbitrary: m) auto
  then show ?thesis by (simp add: collect_results_def)
qed

lemma deploy_one_name:
  assumes "deploy_one env c k = (Ok d, k')"
  shows "dep_Name d = ctor_Name c"
proof -
  obtain addr k1 where "deployed_code env c addr k1 = (Ok d, k')"
    using assms by (auto simp: deploy_one_def)
  then show ?thesis
    by (cases "backend_CodeAt env addr k1"; cases "fst (backend_CodeAt env addr k1)")
       (auto simp: deployed_code_def split: if_splits)
qed

lemma deploy_loop_names:
  "deploy_loop env cs k = (Ok ds, k') \<Longrightarrow> map dep_Name ds = map ctor_Name cs"
  by (induction cs arbitrary: ds k k') (auto dest: deploy_one_name)

lemma proxy_constructors_names:
  assumes "proxy_constructors pack impls ps acc = Ok cs" "\<forall>c \<in> set acc. ctor_Name c = ''ERC1967Proxy''"
  shows "\<forall>c \<in> set cs. ctor_Name c = ''ERC1967Proxy''"
  using assms by (induction pack impls ps acc rule: proxy_constructors.induct) (auto split: if_splits)

lemma BuildPredeployProxies_dom:
  assumes "BuildPredeployProxies pack env ps impls k = (Ok rs, k')"
  shows "dom rs \<subseteq> {''ERC1967Proxy''}"
proof -
  obtain cs ds where cs: "proxy_constructors pack impls ps [] = Ok cs" and ds: "Deploy env cs k = (Ok ds, k')"
    and rs: "rs = collect_results ds"
    using assms by (auto simp: BuildPredeployProxies_def split: outcome.splits)
  have "deploy_loop env cs k = (Ok ds, k')" using ds by (auto simp: Deploy_def split: outcome.splits)
  from deploy_loop_names [OF this] have "dep_Name ` set ds = ctor_Name ` set cs" by (metis image_set)
  then show ?thesis using proxy_constructors_names [OF cs] by (auto simp: rs collect_results_dom)
qed

section \<open>The code namespace\<close>

lemma low16 [simp]:
  "drop_bit 144 (ucast (i :: 16 word) :: address) = 0" "take_bit 16 (ucast (i :: 16 word) :: address) = ucast i"
proof -
  show "drop_bit 144 (ucast i :: address) = 0"
    by (rule bit_word_eqI) (auto simp: bit_simps dest: bit_imp_le_length)
  show "take_bit 16 (ucast i :: address) = ucast i"
    by (rule bit_word_eqI) (auto simp: bit_simps dest: bit_imp_le_length)
qed

lemma namespace_parts:
  "drop_bit 144 l2PredeployNamespace = 0x2A00" "take_bit 16 l2PredeployNamespace = 0"
  "drop_bit 144 codeNamespace = 0xc0D3" "take_bit 16 codeNamespace = 0"
  by (simp_all add: l2PredeployNamespace_def codeNamespace_def)

text \<open>
  Every address of the predeploy namespace gets an implementation address of its own. For the
  predeploy with the two low bytes \<open>i\<close>, \<open>AddressToCodeNamespace\<close> succeeds; its result is outside the
  predeploy namespace, so no implementation lands on a predeploy, and two predeploys share an
  implementation address only if they are the same.
\<close>

theorem code_namespace_injective:
  fixes i j :: "16 word"
  shows "\<exists>a b. AddressToCodeNamespace (l2PredeployNamespace OR ucast i) = Ok a \<and>
    AddressToCodeNamespace (l2PredeployNamespace OR ucast j) = Ok b \<and>
    \<not> IsL2Predeploy a \<and> AddressToCodeNamespace a = Err (NewError ''cannot handle non predeploy'') \<and> (a = b \<longleftrightarrow> i = j)"
proof -
  have c: "AddressToCodeNamespace (l2PredeployNamespace OR ucast k) = Ok (codeNamespace OR ucast k)" for k :: "16 word"
    by (simp add: AddressToCodeNamespace_def IsL2Predeploy_def namespace_parts)
  have n: "\<not> IsL2Predeploy (codeNamespace OR ucast i)" by (simp add: IsL2Predeploy_def namespace_parts)
  have "i = j" if "codeNamespace OR ucast i = codeNamespace OR (ucast j :: address)"
  proof -
    have "take_bit 16 (codeNamespace OR ucast i) = take_bit 16 (codeNamespace OR (ucast j :: address))" using that by simp
    then have eq: "(ucast i :: address) = ucast j" by (simp add: namespace_parts)
    show ?thesis
    proof (rule bit_word_eqI)
      fix n
      assume "n < LENGTH(16)"
      moreover have "bit (ucast i :: address) n = bit (ucast j :: address) n" using eq by simp
      ultimately show "bit i n = bit j n" by (simp add: bit_simps)
    qed
  qed
  then show ?thesis using c n by (auto simp: AddressToCodeNamespace_def)
qed

end
