(* ===== verification/Genesis.thy ===== *)
theory Genesis
  imports Predeploys "HOL-Library.Multiset"
begin

text \<open>
  \<^verbatim>\<open>ops/genesis/genesis.go\<close> and \<^verbatim>\<open>ops/genesis/config.go\<close>: the L2 genesis block with its predeployed
  contracts, built over the in-memory state. \<open>build_env\<close> gathers what comes from outside: the deployment
  chain, geth's helpers, the registry that generated code fills. The decoding of
  the JSON file is left out.
\<close>

section \<open>Configuration\<close>

record alloc_account =
  al_Code :: bytes
  al_Storage :: "(hash \<times> hash) list option"
  al_Balance :: "big option"
  al_Nonce :: uint64

record GenesisConfig =
  gc_L2ChainID :: uint64
  gc_Nonce :: uint64
  gc_GasLimit :: uint64
  gc_Difficulty :: "big option"
  gc_MixHash :: hash
  gc_Coinbase :: address
  gc_Number :: uint64
  gc_GasUsed :: uint64
  gc_ParentHash :: hash
  gc_BaseFeePerGas :: "big option"
  gc_ExtraData :: bytes
  L2PredeployOwner :: address
  L1PortalAddress :: address
  L1StandardBridgeAddress :: address
  gc_Alloc :: "(address \<times> alloc_account) list"

record L1Block =
  l1_Number :: big
  l1_Time :: uint64
  l1_BaseFee :: "big option"
  l1_Hash :: hash
  l1_Root :: hash

record ChainConfig =
  ch_ChainID :: big
  HomesteadBlock :: "big option"
  DAOForkBlock :: "big option"
  DAOForkSupport :: bool
  EIP150Block :: "big option"
  EIP155Block :: "big option"
  EIP158Block :: "big option"
  ByzantiumBlock :: "big option"
  ConstantinopleBlock :: "big option"
  PetersburgBlock :: "big option"
  IstanbulBlock :: "big option"
  MuirGlacierBlock :: "big option"
  BerlinBlock :: "big option"
  LondonBlock :: "big option"
  ArrowGlacierBlock :: "big option"
  GrayGlacierBlock :: "big option"
  MergeNetsplitBlock :: "big option"
  TerminalTotalDifficulty :: "big option"
  TerminalTotalDifficultyPassed :: bool
  EnableL2EngineApi :: bool

record Genesis =
  g_Config :: ChainConfig
  g_Nonce :: uint64
  g_Timestamp :: uint64
  g_ExtraData :: bytes
  g_GasLimit :: uint64
  g_Difficulty :: big
  g_Mixhash :: hash
  g_Coinbase :: address
  g_Number :: uint64
  g_GasUsed :: uint64
  g_ParentHash :: hash
  g_BaseFee :: big
  g_Alloc :: MemoryStateDB

definition defaultGasLimit :: uint64 where "defaultGasLimit = 30000000"

text \<open>\<open>params.InitialBaseFee\<close>.\<close>

definition InitialBaseFee :: big where "InitialBaseFee = 1000000000"

definition specularChainConfig :: "GenesisConfig \<Rightarrow> ChainConfig" where
  "specularChainConfig config =
     \<lparr>ch_ChainID = uint (gc_L2ChainID config), HomesteadBlock = Some 0, DAOForkBlock = None, DAOForkSupport = False,
      EIP150Block = Some 0, EIP155Block = Some 0, EIP158Block = Some 0, ByzantiumBlock = Some 0,
      ConstantinopleBlock = Some 0, PetersburgBlock = Some 0, IstanbulBlock = Some 0, MuirGlacierBlock = Some 0,
      BerlinBlock = Some 0, LondonBlock = Some 0, ArrowGlacierBlock = Some 0, GrayGlacierBlock = Some 0,
      MergeNetsplitBlock = Some 0, TerminalTotalDifficulty = Some 0,
      TerminalTotalDifficultyPassed = True, EnableL2EngineApi = True\<rparr>"

definition NewL2EmptyGenesis :: "GenesisConfig \<Rightarrow> L1Block \<Rightarrow> Genesis outcome" where
  "NewL2EmptyGenesis config block =
     (if gc_L2ChainID config = 0 then Err (NewError ''must define L2 ChainID'')
      else let gasLimit = (if gc_GasLimit config = 0 then defaultGasLimit else gc_GasLimit config);
               baseFee = (case gc_BaseFeePerGas config of None \<Rightarrow> InitialBaseFee | Some b \<Rightarrow> b);
               difficulty = (case gc_Difficulty config of None \<Rightarrow> 0 | Some d \<Rightarrow> d);
               size = length (gc_ExtraData config)
           in if 32 < size then Err (NewError (''transition block extradata too long: '' @ show_nat size))
              else Ok \<lparr>g_Config = specularChainConfig config, g_Nonce = gc_Nonce config, g_Timestamp = l1_Time block,
                       g_ExtraData = gc_ExtraData config, g_GasLimit = gasLimit, g_Difficulty = difficulty,
                       g_Mixhash = gc_MixHash config, g_Coinbase = gc_Coinbase config, g_Number = gc_Number config,
                       g_GasUsed = gc_GasUsed config, g_ParentHash = gc_ParentHash config, g_BaseFee = baseFee,
                       g_Alloc = Map.empty\<rparr>)"

definition InitializedValue :: uint8 where "InitializedValue = 1"
definition MaxInitializedValue :: uint8 where "MaxInitializedValue = 255"
definition defaultL1Sender :: address where "defaultL1Sender = 0xdEaD"

abbreviation proxy_value :: "go_any \<Rightarrow> predeploy_StorageConfig" where
  "proxy_value v \<equiv> \<lparr>ImplValue = AnyNil, ProxyValue = v\<rparr>"

definition common_storages :: "GenesisConfig \<Rightarrow> (string \<times> predeploy_StorageConfig) list" where
  "common_storages config =
     [(''_initialized'', \<lparr>ImplValue = AnyUint8 MaxInitializedValue, ProxyValue = AnyUint8 InitializedValue\<rparr>),
      (''_initializing'', \<lparr>ImplValue = AnyBool False, ProxyValue = AnyBool False\<rparr>),
      (''_owner'', proxy_value (AnyAddress (L2PredeployOwner config)))]"

text \<open>\<open>block.Number()\<close> and \<open>block.BaseFee()\<close> are \<open>*big.Int\<close>; the base fee can be a nil pointer.\<close>

definition GeneratePredeployConfig :: "GenesisConfig \<Rightarrow> L1Block \<Rightarrow> PredeployConfigs" where
  "GeneratePredeployConfig config block =
     [(''UUPSPlaceholder'', \<lparr>Proxied = False, Initializer = ''initialize'', InitializerValues = [], Storages = common_storages config\<rparr>),
      (''L1Oracle'', \<lparr>Proxied = True, Initializer = ''initialize'', InitializerValues = [],
         Storages = common_storages config @
           [(''number'', proxy_value (AnyPtr ''Int'' (Some (AnyBigInt (l1_Number block))))),
            (''timestamp'', proxy_value (AnyUint64 (l1_Time block))),
            (''baseFee'', proxy_value (AnyPtr ''Int'' (map_option AnyBigInt (l1_BaseFee block)))),
            (''hash'', proxy_value (AnyHash (l1_Hash block))),
            (''stateRoot'', proxy_value (AnyHash (l1_Root block)))]\<rparr>),
      (''L2Portal'', \<lparr>Proxied = True, Initializer = ''initialize'',
         InitializerValues = [(''_l1PortalAddress'', AnyAddress (L1PortalAddress config))],
         Storages = common_storages config @
           [(''l1PortalAddress'', proxy_value (AnyAddress (L1PortalAddress config))),
            (''l1Sender'', proxy_value (AnyAddress defaultL1Sender))]\<rparr>),
      (''L2StandardBridge'', \<lparr>Proxied = True, Initializer = ''initialize'',
         InitializerValues = [(''_otherBridge'', AnyAddress (L1StandardBridgeAddress config))],
         Storages = common_storages config @
           [(''OTHER_BRIDGE'', proxy_value (AnyAddress (L1StandardBridgeAddress config))),
            (''PORTAL_ADDRESS'', proxy_value (AnyAddress L2PortalAddr))]\<rparr>)]"

section \<open>Setting up accounts\<close>

record 'k build_env =
  be_geth :: geth
  be_layouts :: "string \<Rightarrow> StorageLayout option"
  be_bytecodes :: "string \<Rightarrow> string option"
  be_deploy :: "'k deploy_env"
  be_pack :: packer
  be_range_proxies :: "PredeployConfigs \<Rightarrow> PredeployConfigs"
  be_range_configs :: "PredeployConfigs \<Rightarrow> PredeployConfigs"

text \<open>
  The predeploy configurations are a Go map, and \<open>range\<close> visits a map in an order the language leaves open:
  the last two fields give the order of the loop of \<open>BuildPredeployProxies\<close> and of that of
  \<open>BuildL2Genesis\<close>. All that is known of them is that they visit every entry once.
\<close>

definition map_range :: "('a list \<Rightarrow> 'a list) \<Rightarrow> bool" where
  "map_range order \<longleftrightarrow> (\<forall>m. mset (order m) = mset m)"

definition impl_values :: "(string \<times> predeploy_StorageConfig) list \<Rightarrow> (string \<times> go_any) list" where
  "impl_values ss = map (\<lambda>(l, v). (l, ImplValue v)) (filter (\<lambda>(l, v). ImplValue v \<noteq> AnyNil) ss)"

definition proxy_values :: "(string \<times> predeploy_StorageConfig) list \<Rightarrow> (string \<times> go_any) list" where
  "proxy_values ss = map (\<lambda>(l, v). (l, ProxyValue v)) (filter (\<lambda>(l, v). ProxyValue v \<noteq> AnyNil) ss)"

definition lift_out :: "'a outcome \<Rightarrow> ('w, 'a) call" where
  "lift_out r w = (r, w)"

text \<open>\<open>*predeploys.Predeploys[name]\<close>.\<close>

definition predeploy_addr :: "string \<Rightarrow> address outcome" where
  "predeploy_addr name = (case Predeploys_map name of None \<Rightarrow> Panic nil_deref | Some a \<Rightarrow> Ok a)"

definition setupPredeploy :: "'k build_env \<Rightarrow> string \<Rightarrow> PredeployConfig \<Rightarrow> DeploymentResult \<Rightarrow> (MemoryStateDB, unit) call" where
  "setupPredeploy env name config implDep =
     bind_call (lift_out (bind_out (predeploy_addr name) (\<lambda>a. if Proxied config then AddressToCodeNamespace a else Ok a))) (\<lambda>implAddr.
     bind_call (CreateAccount implAddr) (\<lambda>_.
     bind_call (SetCode implAddr (Bytecode implDep)) (\<lambda>_.
       SetStorage (be_geth env) (be_layouts env) name implAddr (impl_values (Storages config)))))"

definition setupProxy :: "'k build_env \<Rightarrow> string \<Rightarrow> PredeployConfig \<Rightarrow> DeploymentResult \<Rightarrow> (MemoryStateDB, unit) call" where
  "setupProxy env name config proxyDep =
     (if \<not> Proxied config then ret_call ()
      else bind_call (lift_out (predeploy_addr name)) (\<lambda>proxyAddr.
           bind_call (lift_out (AddressToCodeNamespace proxyAddr)) (\<lambda>implAddr.
           bind_call (CreateAccount proxyAddr) (\<lambda>_.
           bind_call (SetCode proxyAddr (Bytecode proxyDep)) (\<lambda>_.
           bind_call (SetState proxyAddr ImplementationSlot (AddressAsLeftPaddedHash implAddr)) (\<lambda>_.
             SetStorage (be_geth env) (be_layouts env) name proxyAddr (proxy_values (Storages config))))))))"

definition setupEmptyProxy :: "'k build_env \<Rightarrow> address \<Rightarrow> (string \<times> predeploy_StorageConfig) list \<Rightarrow> (MemoryStateDB, unit) call" where
  "setupEmptyProxy env addr placeholderStorages =
     bind_call (lift_out (GetDeployedBytecode (be_geth env) (be_bytecodes env) ''ERC1967Proxy'')) (\<lambda>proxyCode.
     bind_call (CreateAccount addr) (\<lambda>_.
     bind_call (SetCode addr proxyCode) (\<lambda>_.
     bind_call (SetState addr ImplementationSlot (AddressAsLeftPaddedHash UUPSPlaceholderAddr)) (\<lambda>_.
       SetStorage (be_geth env) (be_layouts env) ''UUPSPlaceholder'' addr (proxy_values placeholderStorages)))))"

text \<open>
  \<open>setupAllocs\<close>: for an account that exists, a nil balance fails the first test and is then dereferenced
  by the second.
\<close>

definition alloc_to_account :: "alloc_account \<Rightarrow> GenesisAccount" where
  "alloc_to_account a = \<lparr>Code = al_Code a, Storage = map_option map_of (al_Storage a), Balance = al_Balance a, Nonce = al_Nonce a\<rparr>"

definition merge_account :: "GenesisAccount \<Rightarrow> alloc_account \<Rightarrow> GenesisAccount outcome" where
  "merge_account existing a =
     (case al_Balance a of
        None \<Rightarrow> Panic nil_deref
      | Some b \<Rightarrow>
          Ok \<lparr>Code = (if 0 < length (al_Code a) then al_Code a else Code existing),
              Storage = (case al_Storage a of
                           Some (e # es) \<Rightarrow> Some (map_of (e # es))
                         | _ \<Rightarrow> Storage existing),
              Balance = Some b,
              Nonce = (if al_Nonce a \<noteq> 0 then al_Nonce a else Nonce existing)\<rparr>)"

fun setupAllocs :: "(address \<times> alloc_account) list \<Rightarrow> (MemoryStateDB, unit) call" where
  "setupAllocs [] = ret_call ()"
| "setupAllocs ((addr, a) # rest) =
     (\<lambda>db. case db addr of
             None \<Rightarrow> setupAllocs rest (db(addr \<mapsto> alloc_to_account a))
           | Some existing \<Rightarrow>
               (case merge_account existing a of
                  Ok m \<Rightarrow> setupAllocs rest (db(addr \<mapsto> m))
                | Err e \<Rightarrow> (Err e, db)
                | Panic p \<Rightarrow> (Panic p, db)))"

fun setup_configured ::
    "'k build_env \<Rightarrow> DeploymentResults \<Rightarrow> DeploymentResults \<Rightarrow> PredeployConfigs \<Rightarrow> (MemoryStateDB, unit) call" where
  "setup_configured env impls proxies [] = ret_call ()"
| "setup_configured env impls proxies ((name, config) # rest) =
     bind_call (setupPredeploy env name config (result_of impls name)) (\<lambda>_.
     bind_call (setupProxy env name config (result_of proxies name)) (\<lambda>_.
       setup_configured env impls proxies rest))"

definition proxy_address :: "nat \<Rightarrow> address" where
  "proxy_address i = word_of_int (uint l2PredeployNamespace OR int i)"

fun setup_empty :: "'k build_env \<Rightarrow> (string \<times> predeploy_StorageConfig) list \<Rightarrow> address set \<Rightarrow> nat list \<Rightarrow> (MemoryStateDB, unit) call" where
  "setup_empty env storages hasPredeploy [] = ret_call ()"
| "setup_empty env storages hasPredeploy (i # is) =
     (if proxy_address i \<in> hasPredeploy then setup_empty env storages hasPredeploy is
      else bind_call (setupEmptyProxy env (proxy_address i) storages) (\<lambda>_. setup_empty env storages hasPredeploy is))"

text \<open>What \<open>BuildL2Genesis\<close> does to the database once the contracts have been deployed.\<close>

definition populate :: "'k build_env \<Rightarrow> GenesisConfig \<Rightarrow> PredeployConfigs \<Rightarrow> DeploymentResults \<Rightarrow> DeploymentResults \<Rightarrow> (MemoryStateDB, unit) call" where
  "populate env config configs impls proxies =
     (let hasPredeploy = set (List.map_filter (\<lambda>(name, _). Predeploys_map name) configs);
          storages = (case map_of configs ''UUPSPlaceholder'' of Some c \<Rightarrow> Storages c | None \<Rightarrow> [])
      in bind_call (setup_configured env impls proxies (be_range_configs env configs)) (\<lambda>_.
         bind_call (setup_empty env storages hasPredeploy [0..<Suc PredeployProxyCount]) (\<lambda>_.
           setupAllocs (gc_Alloc config))))"

definition with_alloc :: "Genesis \<Rightarrow> unit outcome \<times> MemoryStateDB \<Rightarrow> Genesis outcome" where
  "with_alloc genesis r =
     (case r of (Ok _, db) \<Rightarrow> Ok (genesis\<lparr>g_Alloc := db\<rparr>) | (Err e, db) \<Rightarrow> Err e | (Panic p, db) \<Rightarrow> Panic p)"

definition BuildL2Genesis :: "'k build_env \<Rightarrow> GenesisConfig \<Rightarrow> L1Block \<Rightarrow> ('k, Genesis) call" where
  "BuildL2Genesis env config block =
     bind_call (lift_out (NewL2EmptyGenesis config block)) (\<lambda>genesis.
     bind_call (BuildSpecular (be_pack env) (be_deploy env) (be_range_proxies env (GeneratePredeployConfig config block))) (\<lambda>results.
       lift_out (with_alloc genesis
         (populate env config (GeneratePredeployConfig config block) (fst results) (snd results) (g_Alloc genesis)))))"

section \<open>What each step touches\<close>

definition code_at :: "address \<Rightarrow> MemoryStateDB \<Rightarrow> bytes option" where
  "code_at a db = map_option Code (db a)"

lemma SetState_frame:
  assumes "SetState a k v db = (r, db')"
  shows "code_at c db' = code_at c db" "wf_db db \<Longrightarrow> wf_db db'"
  using assms
  by (auto simp: SetState_def code_at_def wf_account_def split: option.splits intro!: wf_db_update dest: wf_db_lookup)

lemma set_slots_frame:
  assumes "set_slots a slots db = (r, db')"
  shows "code_at c db' = code_at c db \<and> (wf_db db \<longrightarrow> wf_db db')"
  using assms
proof (induction slots arbitrary: db)
  case Nil
  then show ?case by (simp add: ret_call_def)
next
  case (Cons s slots)
  obtain r1 db1 where s: "SetState a (es_Key s) (es_Value s) db = (r1, db1)" by fastforce
  then show ?case
    using Cons SetState_frame [OF s] by (cases r1) (auto simp: bind_call_def)
qed

lemma SetStorage_frame:
  assumes "SetStorage g layouts name a vals db = (r, db')"
  shows "code_at c db' = code_at c db \<and> (wf_db db \<longrightarrow> wf_db db')"
  using assms set_slots_frame by (auto simp: SetStorage_def split: outcome.splits)

lemma CreateAccount_run:
  "\<exists>db'. CreateAccount a db = (Ok (), db') \<and> (wf_db db \<longrightarrow> wf_db db') \<and> Exist a db' \<and> (c = a \<or> code_at c db' = code_at c db)"
  by (cases "db a") (auto simp: CreateAccount_def code_at_def Exist_def wf_account_def intro!: wf_db_update)

lemma SetCode_run:
  assumes "Exist a db"
  shows "\<exists>db'. SetCode a code db = (Ok (), db') \<and> (wf_db db \<longrightarrow> wf_db db') \<and> Exist a db' \<and> code_at a db' = Some code \<and>
    (c = a \<or> code_at c db' = code_at c db)"
proof -
  obtain account where a: "db a = Some account" using assms by (auto simp: Exist_def)
  then have "wf_db db \<longrightarrow> wf_db (db(a \<mapsto> account\<lparr>Code := code\<rparr>))" using wf_db_lookup wf_db_update by fastforce
  then show ?thesis using a by (simp add: SetCode_def Exist_def code_at_def)
qed

lemma SetState_run:
  assumes "wf_db db" "Exist a db"
  shows "\<exists>db'. SetState a k v db = (Ok (), db') \<and> wf_db db' \<and> Exist a db'"
proof -
  obtain account where a: "db a = Some account" using assms(2) by (auto simp: Exist_def)
  then obtain m where m: "Storage account = Some m" using wf_account_fields wf_db_lookup [OF assms(1)] by blast
  then have s: "SetState a k v db = (Ok (), db(a \<mapsto> account\<lparr>Storage := Some (m(k \<mapsto> v))\<rparr>))"
    using a by (simp add: SetState_def)
  moreover have "wf_db (db(a \<mapsto> account\<lparr>Storage := Some (m(k \<mapsto> v))\<rparr>))" using SetState_frame(2) [OF s assms(1)] .
  moreover have "Exist a (db(a \<mapsto> account\<lparr>Storage := Some (m(k \<mapsto> v))\<rparr>))" by (simp add: Exist_def)
  ultimately show ?thesis by blast
qed

text \<open>The values of a contract can be encoded for its layout.\<close>

definition encodable :: "'k build_env \<Rightarrow> string \<Rightarrow> (string \<times> go_any) list \<Rightarrow> bool" where
  "encodable env name vals \<longleftrightarrow>
     (case be_layouts env name of
        None \<Rightarrow> False
      | Some layout \<Rightarrow> is_Ok (compute_slots (be_geth env) layout vals []))"

lemma SetStorage_run:
  assumes "encodable env name vals" "wf_db db" "Exist a db"
  shows "\<exists>db'. SetStorage (be_geth env) (be_layouts env) name a vals db = (Ok (), db') \<and> wf_db db' \<and> (\<forall>c. code_at c db' = code_at c db)"
proof -
  obtain layout enc where l: "be_layouts env name = Some layout" and e: "compute_slots (be_geth env) layout vals [] = Ok enc"
    using assms(1) by (auto simp: encodable_def is_Ok_conv split: option.splits)
  obtain db' where s: "set_slots a (MergeStorage enc) db = (Ok (), db')"
    using set_slots_run [OF assms(2,3) MergeStorage_facts(1) [of enc]] by blast
  have "SetStorage (be_geth env) (be_layouts env) name a vals db = (Ok (), db')"
    using l e s by (simp add: SetStorage_def GetStorageLayout_def ComputeStorageSlots_def)
  then show ?thesis using SetStorage_frame assms(2) by blast
qed

lemma lift_out_Ok [simp]: "lift_out r w = (Ok x, w') \<longleftrightarrow> r = Ok x \<and> w' = w"
  by (auto simp: lift_out_def)

text \<open>An account set up with code \<open>code\<close>, then written to: the common part of the three \<open>setup\<close> functions.\<close>

definition fresh_contract :: "address \<Rightarrow> bytes \<Rightarrow> (MemoryStateDB, unit) call \<Rightarrow> (MemoryStateDB, unit) call" where
  "fresh_contract a code writes = bind_call (CreateAccount a) (\<lambda>_. bind_call (SetCode a code) (\<lambda>_. writes))"

definition keeps_code :: "(MemoryStateDB, unit) call \<Rightarrow> bool" where
  "keeps_code writes \<longleftrightarrow> (\<forall>db r db' c. writes db = (r, db') \<longrightarrow> code_at c db' = code_at c db)"

lemma fresh_contract_code:
  assumes "fresh_contract a code writes db = (Ok (), db')" and w: "keeps_code writes"
  shows "code_at a db' = Some code \<and> (c = a \<or> code_at c db' = code_at c db)"
proof -
  obtain db1 where d1: "CreateAccount a db = (Ok (), db1)" "Exist a db1" "c = a \<or> code_at c db1 = code_at c db"
    using CreateAccount_run [of a db c] by blast
  obtain db2 where d2: "SetCode a code db1 = (Ok (), db2)" "code_at a db2 = Some code" "c = a \<or> code_at c db2 = code_at c db1"
    using SetCode_run [OF d1(2), of code c] by blast
  have "writes db2 = (Ok (), db')" using assms(1) d1(1) d2(1) by (simp add: fresh_contract_def bind_call_def)
  then have "code_at x db' = code_at x db2" for x using w by (auto simp: keeps_code_def)
  then show ?thesis using d1(3) d2(2,3) by auto
qed

lemma fresh_contract_run:
  assumes "wf_db db" and w: "\<And>db2. wf_db db2 \<Longrightarrow> Exist a db2 \<Longrightarrow> \<exists>db'. writes db2 = (Ok (), db') \<and> wf_db db'"
  shows "\<exists>db'. fresh_contract a code writes db = (Ok (), db') \<and> wf_db db'"
proof -
  obtain db1 where d1: "CreateAccount a db = (Ok (), db1)" "wf_db db1" "Exist a db1"
    using CreateAccount_run [of a db] assms(1) by blast
  obtain db2 where d2: "SetCode a code db1 = (Ok (), db2)" "wf_db db2" "Exist a db2"
    using SetCode_run [OF d1(3)] d1(2) by blast
  from w [OF d2(2,3)] d1(1) d2(1) show ?thesis by (simp add: fresh_contract_def bind_call_def)
qed

lemma setupPredeploy_fresh:
  "setupPredeploy env name config dep =
     bind_call (lift_out (bind_out (predeploy_addr name) (\<lambda>a. if Proxied config then AddressToCodeNamespace a else Ok a)))
       (\<lambda>a. fresh_contract a (Bytecode dep) (SetStorage (be_geth env) (be_layouts env) name a (impl_values (Storages config))))"
  by (simp add: setupPredeploy_def fresh_contract_def)

lemma setupProxy_fresh:
  "setupProxy env name config dep =
     (if \<not> Proxied config then ret_call ()
      else bind_call (lift_out (predeploy_addr name)) (\<lambda>a. bind_call (lift_out (AddressToCodeNamespace a)) (\<lambda>i.
        fresh_contract a (Bytecode dep) (bind_call (SetState a ImplementationSlot (AddressAsLeftPaddedHash i)) (\<lambda>_.
          SetStorage (be_geth env) (be_layouts env) name a (proxy_values (Storages config)))))))"
  by (simp add: setupProxy_def fresh_contract_def)

lemma setupEmptyProxy_fresh:
  "setupEmptyProxy env a ss =
     bind_call (lift_out (GetDeployedBytecode (be_geth env) (be_bytecodes env) ''ERC1967Proxy'')) (\<lambda>code.
       fresh_contract a code (bind_call (SetState a ImplementationSlot (AddressAsLeftPaddedHash UUPSPlaceholderAddr)) (\<lambda>_.
          SetStorage (be_geth env) (be_layouts env) ''UUPSPlaceholder'' a (proxy_values ss))))"
  by (simp add: setupEmptyProxy_def fresh_contract_def)

lemma SetStorage_keeps_code: "keeps_code (SetStorage g l n a vs)"
  using SetStorage_frame by (auto simp: keeps_code_def)

lemma proxy_writes_keep_code: "keeps_code (bind_call (SetState a k v) (\<lambda>_. SetStorage g l n a vs))"
  unfolding keeps_code_def
proof (intro allI impI)
  fix db r db2 c
  assume b: "bind_call (SetState a k v) (\<lambda>_. SetStorage g l n a vs) db = (r, db2)"
  obtain r1 db' where s: "SetState a k v db = (r1, db')" by fastforce
  then show "code_at c db2 = code_at c db"
    using b SetState_frame(1) [OF s] SetStorage_frame [of g l n a vs db' r db2]
    by (cases r1) (auto simp: bind_call_def)
qed

section \<open>The code of the proxies\<close>

lemma Predeploys_map_cases:
  assumes "Predeploys_map n = Some a"
  shows "(n, a) \<in> {(''UUPSPlaceholder'', UUPSPlaceholderAddr), (''L1Oracle'', L1OracleAddr_predeploy), (''L2Portal'', L2PortalAddr),
    (''L2StandardBridge'', L2StandardBridgeAddr)}"
  using assms by (auto simp: Predeploys_map_def split: if_splits)

lemmas predeploy_addrs =
  UUPSPlaceholderAddr_def L1OracleAddr_predeploy_def L2PortalAddr_def L2StandardBridgeAddr_def

lemma predeploy_distinct:
  "distinct [UUPSPlaceholderAddr, L1OracleAddr_predeploy, L2PortalAddr, L2StandardBridgeAddr]"
  by (simp add: predeploy_addrs)

lemma Predeploys_map_inj:
  assumes "Predeploys_map n = Some a" "Predeploys_map m = Some a"
  shows "n = m"
  using Predeploys_map_cases [OF assms(1)] Predeploys_map_cases [OF assms(2)] predeploy_distinct by auto

lemma impl_address:
  assumes "Predeploys_map n = Some a"
  shows "\<exists>i. AddressToCodeNamespace a = Ok i \<and> Predeploys_map m \<noteq> Some i"
proof -
  have p: "IsL2Predeploy b" if "Predeploys_map m = Some b" for m b
    using that by (auto dest!: Predeploys_map_cases simp: predeploy_addrs IsL2Predeploy_def)
  have i: "AddressToCodeNamespace a = Ok (codeNamespace OR take_bit 16 a)"
    using p [OF assms] by (simp add: AddressToCodeNamespace_def)
  have "drop_bit 144 (take_bit 16 a) = 0" by (rule bit_word_eqI) (simp add: bit_simps)
  then have "\<not> IsL2Predeploy (codeNamespace OR take_bit 16 a)"
    by (simp add: IsL2Predeploy_def namespace_parts)
  then show ?thesis using i p by blast
qed

lemma setupPredeploy_code:
  assumes "setupPredeploy env n conf dep db = (Ok (), db')" "Predeploys_map m = Some b" "m \<noteq> n \<or> Proxied conf"
  shows "code_at b db' = code_at b db"
proof -
  obtain a0 a where a: "Predeploys_map n = Some a0" "(if Proxied conf then AddressToCodeNamespace a0 else Ok a0) = Ok a"
    and f: "fresh_contract a (Bytecode dep) (SetStorage (be_geth env) (be_layouts env) n a (impl_values (Storages conf))) db = (Ok (), db')"
    using assms(1) by (auto simp: setupPredeploy_fresh predeploy_addr_def split: option.splits)
  have "b \<noteq> a" using a assms(2,3) impl_address [OF a(1), of m] Predeploys_map_inj by (auto split: if_splits)
  then show ?thesis using fresh_contract_code [OF f SetStorage_keeps_code, where c = b] by blast
qed

lemma setupProxy_code:
  assumes "setupProxy env n conf dep db = (Ok (), db')" "Predeploys_map m = Some b"
  shows "code_at b db' = (if m = n \<and> Proxied conf then Some (Bytecode dep) else code_at b db)"
proof (cases "Proxied conf")
  case False
  then show ?thesis using assms(1) by (simp add: setupProxy_fresh)
next
  case True
  then obtain a i where a: "Predeploys_map n = Some a"
    and f: "fresh_contract a (Bytecode dep) (bind_call (SetState a ImplementationSlot (AddressAsLeftPaddedHash i)) (\<lambda>_.
          SetStorage (be_geth env) (be_layouts env) n a (proxy_values (Storages conf)))) db = (Ok (), db')"
    using assms(1) by (auto simp: setupProxy_fresh predeploy_addr_def split: option.splits)
  have "m = n \<longleftrightarrow> b = a" using a assms(2) Predeploys_map_inj by auto
  then show ?thesis using fresh_contract_code [OF f proxy_writes_keep_code, where c = b] True by auto
qed

lemma setup_configured_code:
  assumes "setup_configured env impls proxies cs db = (Ok (), db')" "Predeploys_map m = Some b" "distinct (map fst cs)"
  shows "(m \<notin> fst ` set cs \<longrightarrow> code_at b db' = code_at b db) \<and>
    (\<forall>c. (m, c) \<in> set cs \<longrightarrow> Proxied c \<longrightarrow> code_at b db' = Some (Bytecode (result_of proxies m)))"
  using assms
proof (induction cs arbitrary: db)
  case Nil
  then show ?case by simp
next
  case (Cons p cs)
  obtain n conf where p: "p = (n, conf)" by fastforce
  obtain db1 db2 where s: "setupPredeploy env n conf (result_of impls n) db = (Ok (), db1)"
    "setupProxy env n conf (result_of proxies n) db1 = (Ok (), db2)" "setup_configured env impls proxies cs db2 = (Ok (), db')"
    using Cons.prems(1) by (auto simp: p)
  have n: "n \<notin> fst ` set cs" "distinct (map fst cs)" using Cons.prems(3) by (auto simp: p)
  have IH: "m \<notin> fst ` set cs \<longrightarrow> code_at b db' = code_at b db2"
    "\<forall>c. (m, c) \<in> set cs \<longrightarrow> Proxied c \<longrightarrow> code_at b db' = Some (Bytecode (result_of proxies m))"
    using Cons.IH [OF s(3) Cons.prems(2) n(2)] by auto
  have x: "code_at b db2 = (if m = n \<and> Proxied conf then Some (Bytecode (result_of proxies n)) else code_at b db1)"
    by (rule setupProxy_code [OF s(2) Cons.prems(2)])
  show ?case
  proof (cases "m = n")
    case True
    then have "code_at b db' = code_at b db2" using IH(1) n(1) by simp
    then show ?thesis using True x n(1) by (auto simp: p image_iff)
  next
    case False
    then have "code_at b db2 = code_at b db" using x setupPredeploy_code [OF s(1) Cons.prems(2)] by simp
    then show ?thesis using False IH by (auto simp: p)
  qed
qed

lemma setup_empty_code:
  assumes "setup_empty env ss has is db = (Ok (), db')" "b \<in> has"
  shows "code_at b db' = code_at b db"
  using assms
proof (induction env ss has "is" arbitrary: db rule: setup_empty.induct)
  case (1 env ss has)
  then show ?case by simp
next
  case (2 env ss has i "is")
  show ?case
  proof (cases "proxy_address i \<in> has")
    case True
    then show ?thesis using "2.IH"(1) "2.prems" by simp
  next
    case False
    then obtain db1 where s: "setupEmptyProxy env (proxy_address i) ss db = (Ok (), db1)" "setup_empty env ss has is db1 = (Ok (), db')"
      using "2.prems"(1) by auto
    then obtain code where f: "fresh_contract (proxy_address i) code (bind_call (SetState (proxy_address i) ImplementationSlot
        (AddressAsLeftPaddedHash UUPSPlaceholderAddr)) (\<lambda>_.
          SetStorage (be_geth env) (be_layouts env) ''UUPSPlaceholder'' (proxy_address i) (proxy_values ss))) db = (Ok (), db1)"
      by (auto simp: setupEmptyProxy_fresh)
    have "code_at b db1 = code_at b db"
      using fresh_contract_code [OF f proxy_writes_keep_code, where c = b] "2.prems"(2) False by auto
    then show ?thesis using "2.IH"(2) [OF False s(2)] "2.prems"(2) by auto
  qed
qed

lemma setupAllocs_code:
  "setupAllocs as db = (Ok (), db') \<Longrightarrow> b \<notin> fst ` set as \<Longrightarrow> code_at b db' = code_at b db"
proof (induction "as" arbitrary: db)
  case Nil
  then show ?case by simp
next
  case (Cons p as)
  obtain a x where p: "p = (a, x)" by fastforce
  show ?case
    using Cons by (auto simp: p code_at_def split: option.splits outcome.splits)
qed

section \<open>The steps of a successful build\<close>

lemma BuildSpecular_proxies:
  assumes "BuildSpecular pack env ps k = (Ok (impls, proxies), k')"
  shows "dom proxies \<subseteq> {''ERC1967Proxy''}"
  using assms BuildPredeployProxies_dom by (fastforce simp: BuildSpecular_def split: outcome.splits)

lemma configs_facts:
  "distinct (map fst (GeneratePredeployConfig config block))"
  "set (List.map_filter (\<lambda>(name, _). Predeploys_map name) (GeneratePredeployConfig config block)) =
     {UUPSPlaceholderAddr, L1OracleAddr_predeploy, L2PortalAddr, L2StandardBridgeAddr}"
  "map_of (GeneratePredeployConfig config block) ''UUPSPlaceholder'' =
     Some \<lparr>Proxied = False, Initializer = ''initialize'', InitializerValues = [], Storages = common_storages config\<rparr>"
  by (auto simp: GeneratePredeployConfig_def Predeploys_map_def List.map_filter_def)

lemma map_range_keeps:
  assumes "map_range order"
  shows "set (order m) = set m" "distinct (map fst m) \<Longrightarrow> distinct (map fst (order m))"
  using assms mset_eq_imp_distinct_iff [of "map fst (order m)" "map fst m"]
  by (auto simp: map_range_def dest: mset_eq_setD)

lemma with_alloc_Ok [simp]: "with_alloc g0 r = Ok g \<longleftrightarrow> (\<exists>db. r = (Ok (), db) \<and> g = g0\<lparr>g_Alloc := db\<rparr>)"
  by (cases r; cases "fst r") (auto simp: with_alloc_def)

lemma BuildL2Genesis_steps:
  assumes "BuildL2Genesis env config block k = (Ok g, k')"
  shows "\<exists>g0 impls proxies db1 db2.
    NewL2EmptyGenesis config block = Ok g0 \<and>
    BuildSpecular (be_pack env) (be_deploy env) (be_range_proxies env (GeneratePredeployConfig config block)) k = (Ok (impls, proxies), k') \<and>
    setup_configured env impls proxies (be_range_configs env (GeneratePredeployConfig config block)) (g_Alloc g0) = (Ok (), db1) \<and>
    setup_empty env (common_storages config) {UUPSPlaceholderAddr, L1OracleAddr_predeploy, L2PortalAddr, L2StandardBridgeAddr}
       [0..<Suc PredeployProxyCount] db1 = (Ok (), db2) \<and>
    setupAllocs (gc_Alloc config) db2 = (Ok (), g_Alloc g)"
  using assms by (fastforce simp: BuildL2Genesis_def populate_def configs_facts)

section \<open>A genesis is built\<close>

lemma setupPredeploy_run:
  assumes "wf_db db" "Predeploys_map n = Some a" "encodable env n (impl_values (Storages conf))"
  shows "\<exists>db'. setupPredeploy env n conf dep db = (Ok (), db') \<and> wf_db db'"
proof -
  obtain i where i: "AddressToCodeNamespace a = Ok i" using impl_address [OF assms(2)] by blast
  have "\<exists>db'. fresh_contract x (Bytecode dep) (SetStorage (be_geth env) (be_layouts env) n x (impl_values (Storages conf))) db =
      (Ok (), db') \<and> wf_db db'" for x
    by (rule fresh_contract_run [OF assms(1)]) (use SetStorage_run [OF assms(3)] in blast)
  then show ?thesis
    using i assms(2) by (simp add: setupPredeploy_fresh predeploy_addr_def lift_out_def bind_call_def)
qed

lemma proxy_writes_run:
  assumes "encodable env n vs" "wf_db db" "Exist x db"
  shows "\<exists>db'. bind_call (SetState x k v) (\<lambda>_. SetStorage (be_geth env) (be_layouts env) n x vs) db = (Ok (), db') \<and> wf_db db'"
proof -
  obtain db1 where s: "SetState x k v db = (Ok (), db1)" "wf_db db1" "Exist x db1" using SetState_run [OF assms(2,3)] by blast
  then show ?thesis using SetStorage_run [OF assms(1) s(2,3)] by (auto simp: bind_call_def)
qed

lemma setupProxy_run:
  assumes "wf_db db" "Predeploys_map n = Some a" "encodable env n (proxy_values (Storages conf))"
  shows "\<exists>db'. setupProxy env n conf dep db = (Ok (), db') \<and> wf_db db'"
proof (cases "Proxied conf")
  case False
  then show ?thesis using assms(1) by (simp add: setupProxy_fresh ret_call_def)
next
  case True
  obtain i where i: "AddressToCodeNamespace a = Ok i" using impl_address [OF assms(2)] by blast
  have "\<exists>db'. fresh_contract a (Bytecode dep) (bind_call (SetState a ImplementationSlot (AddressAsLeftPaddedHash i)) (\<lambda>_.
      SetStorage (be_geth env) (be_layouts env) n a (proxy_values (Storages conf)))) db = (Ok (), db') \<and> wf_db db'"
    by (rule fresh_contract_run [OF assms(1)]) (rule proxy_writes_run [OF assms(3)])
  then show ?thesis
    using i assms(2) True by (simp add: setupProxy_fresh predeploy_addr_def lift_out_def bind_call_def)
qed

lemma setup_configured_run:
  assumes "wf_db db" "\<forall>(n, c) \<in> set cs. Predeploys_map n \<noteq> None \<and> encodable env n (impl_values (Storages c)) \<and> encodable env n (proxy_values (Storages c))"
  shows "\<exists>db'. setup_configured env impls proxies cs db = (Ok (), db') \<and> wf_db db'"
  using assms
proof (induction cs arbitrary: db)
  case Nil
  then show ?case by (simp add: ret_call_def)
next
  case (Cons p cs)
  obtain n conf where p: "p = (n, conf)" by fastforce
  obtain a where a: "Predeploys_map n = Some a" using Cons.prems(2) by (auto simp: p)
  obtain db1 where 1: "setupPredeploy env n conf (result_of impls n) db = (Ok (), db1)" "wf_db db1"
    using setupPredeploy_run [OF Cons.prems(1) a] Cons.prems(2) by (fastforce simp: p)
  obtain db2 where 2: "setupProxy env n conf (result_of proxies n) db1 = (Ok (), db2)" "wf_db db2"
    using setupProxy_run [OF 1(2) a] Cons.prems(2) by (fastforce simp: p)
  show ?case using 1 2 Cons.IH [OF 2(2)] Cons.prems(2) by (auto simp: p bind_call_def)
qed

lemma setup_empty_run:
  assumes "wf_db db" "is_Ok (GetDeployedBytecode (be_geth env) (be_bytecodes env) ''ERC1967Proxy'')"
    "encodable env ''UUPSPlaceholder'' (proxy_values ss)"
  shows "\<exists>db'. setup_empty env ss has is db = (Ok (), db') \<and> wf_db db'"
  using assms(1)
proof (induction "is" arbitrary: db)
  case Nil
  then show ?case by (simp add: ret_call_def)
next
  case (Cons i "is")
  obtain code where code: "GetDeployedBytecode (be_geth env) (be_bytecodes env) ''ERC1967Proxy'' = Ok code"
    using assms(2) by (auto simp: is_Ok_conv)
  have "\<exists>db'. fresh_contract x code (bind_call (SetState x ImplementationSlot (AddressAsLeftPaddedHash UUPSPlaceholderAddr)) (\<lambda>_.
      SetStorage (be_geth env) (be_layouts env) ''UUPSPlaceholder'' x (proxy_values ss))) db = (Ok (), db') \<and> wf_db db'" for x
    by (rule fresh_contract_run [OF Cons.prems]) (rule proxy_writes_run [OF assms(3)])
  then obtain db1 where "setupEmptyProxy env (proxy_address i) ss db = (Ok (), db1)" "wf_db db1"
    using code by (fastforce simp: setupEmptyProxy_fresh lift_out_def bind_call_def)
  then show ?case using Cons.IH Cons.prems by (auto simp: bind_call_def)
qed

text \<open>
  With a chain identifier, extra data of at most 32 bytes, contracts that deploy, storage values that
  fit their layouts and no allocation of its own, the genesis is built; no step panics.
\<close>

lemma genesis_built:
  assumes "gc_L2ChainID config \<noteq> 0" "length (gc_ExtraData config) \<le> 32" "map_range (be_range_configs env)" "gc_Alloc config = []"
    and "BuildSpecular (be_pack env) (be_deploy env) (be_range_proxies env (GeneratePredeployConfig config block)) k = (Ok results, k')"
    and "is_Ok (GetDeployedBytecode (be_geth env) (be_bytecodes env) ''ERC1967Proxy'')"
    and enc: "\<forall>(n, c) \<in> set (GeneratePredeployConfig config block).
      encodable env n (impl_values (Storages c)) \<and> encodable env n (proxy_values (Storages c))"
  shows "\<exists>g. BuildL2Genesis env config block k = (Ok g, k') \<and> wf_db (g_Alloc g)"
proof -
  obtain g0 where g0: "NewL2EmptyGenesis config block = Ok g0" "g_Alloc g0 = Map.empty"
    using assms(1,2) by (simp add: NewL2EmptyGenesis_def Let_def)
  have known: "\<forall>(n, c) \<in> set (GeneratePredeployConfig config block). Predeploys_map n \<noteq> None"
    by (auto simp: GeneratePredeployConfig_def Predeploys_map_def)
  have "wf_db (g_Alloc g0)" by (simp add: g0(2) wf_db_def)
  then obtain db1 where 1: "setup_configured env (fst results) (snd results) (be_range_configs env (GeneratePredeployConfig config block)) (g_Alloc g0) = (Ok (), db1)"
    "wf_db db1"
    using setup_configured_run [of "g_Alloc g0" "be_range_configs env (GeneratePredeployConfig config block)" env "fst results" "snd results"]
      enc known map_range_keeps(1) [OF assms(3)] by fastforce
  have "encodable env ''UUPSPlaceholder'' (proxy_values (common_storages config))"
    using enc by (auto simp: GeneratePredeployConfig_def)
  then obtain db2 where 2: "setup_empty env (common_storages config)
      {UUPSPlaceholderAddr, L1OracleAddr_predeploy, L2PortalAddr, L2StandardBridgeAddr} [0..<Suc PredeployProxyCount] db1 = (Ok (), db2)"
    "wf_db db2"
    using setup_empty_run [OF 1(2) assms(6)] by blast
  have "populate env config (GeneratePredeployConfig config block) (fst results) (snd results) (g_Alloc g0) = (Ok (), db2)"
    using 1(1) 2(1) assms(4) by (simp add: populate_def configs_facts bind_call_def ret_call_def del: upt_Suc)
  then show ?thesis
    using g0(1) assms(5) 2(2) by (simp add: BuildL2Genesis_def lift_out_def bind_call_def with_alloc_def)
qed

section \<open>Properties\<close>

text \<open>
  C22: the proxied system contracts have no code. \<open>BuildPredeployProxies\<close> files every proxy it deploys under
  the name \<open>ERC1967Proxy\<close>, and \<open>BuildL2Genesis\<close> looks the proxy of a contract up under the contract's
  name: it finds the zero result. In every genesis that is built, in whatever order the map is visited, the accounts of \<open>L1Oracle\<close>,
  \<open>L2Portal\<close> and \<open>L2StandardBridge\<close> exist and have empty code, unless the configuration's own
  allocation sets them.
\<close>

theorem proxied_predeploys_have_no_code:
  assumes build: "BuildL2Genesis env config block k = (Ok g, k')" and range: "map_range (be_range_configs env)"
    and name: "name \<in> {''L1Oracle'', ''L2Portal'', ''L2StandardBridge''}"
    and addr: "Predeploys_map name = Some a" "a \<notin> fst ` set (gc_Alloc config)"
  shows "map_option Code (GetAccount a (g_Alloc g)) = Some []"
proof -
  obtain g0 :: Genesis and impls proxies db1 db2 where s:
    "BuildSpecular (be_pack env) (be_deploy env) (be_range_proxies env (GeneratePredeployConfig config block)) k = (Ok (impls, proxies), k')"
    "setup_configured env impls proxies (be_range_configs env (GeneratePredeployConfig config block)) (g_Alloc g0) = (Ok (), db1)"
    "setup_empty env (common_storages config) {UUPSPlaceholderAddr, L1OracleAddr_predeploy, L2PortalAddr, L2StandardBridgeAddr}
       [0..<Suc PredeployProxyCount] db1 = (Ok (), db2)"
    "setupAllocs (gc_Alloc config) db2 = (Ok (), g_Alloc g)"
    using BuildL2Genesis_steps [OF build] by blast
  have "proxies name = None" using BuildSpecular_proxies [OF s(1)] name by auto
  then have z: "Bytecode (result_of proxies name) = []" by (simp add: result_of_def)
  have "\<exists>c. (name, c) \<in> set (be_range_configs env (GeneratePredeployConfig config block)) \<and> Proxied c"
    using name unfolding map_range_keeps(1) [OF range] GeneratePredeployConfig_def by fastforce
  then have "code_at a db1 = Some []"
    using conjunct2 [OF setup_configured_code [OF s(2) addr(1) map_range_keeps(2) [OF range configs_facts(1)]]]
    unfolding z by blast
  moreover have "a \<in> {UUPSPlaceholderAddr, L1OracleAddr_predeploy, L2PortalAddr, L2StandardBridgeAddr}"
    using Predeploys_map_cases [OF addr(1)] by auto
  ultimately show ?thesis
    using setup_empty_code [OF s(3)] setupAllocs_code [OF s(4) addr(2)] unfolding code_at_def GetAccount_def by metis
qed

definition demo_type :: "string \<Rightarrow> StorageLayoutType" where
  "demo_type label = \<lparr>st_Encoding = ''inplace'', st_Label = label, st_NumberOfBytes = 32, st_Key = '''', st_Value = ''''\<rparr>"

definition demo_entry :: "string \<times> uint64 \<times> string \<Rightarrow> StorageLayoutEntry" where
  "demo_entry e = (case e of (label, slot, ty) \<Rightarrow> \<lparr>entry_Label = label, entry_Offset = 0, entry_Slot = slot, entry_Type = ty\<rparr>)"

definition demo_contract_layout :: StorageLayout where
  "demo_contract_layout = \<lparr>layout_Storage = map demo_entry
      [(''_initialized'', 0, ''uint8''), (''_initializing'', 1, ''bool''), (''_owner'', 2, ''address''), (''number'', 3, ''uint256''),
       (''timestamp'', 4, ''uint256''), (''baseFee'', 5, ''uint256''), (''hash'', 6, ''bytes32''), (''stateRoot'', 7, ''bytes32''),
       (''l1PortalAddress'', 8, ''address''), (''l1Sender'', 9, ''address''), (''OTHER_BRIDGE'', 10, ''address''),
       (''PORTAL_ADDRESS'', 11, ''address'')],
     layout_Types = (\<lambda>t. Some (demo_type t))\<rparr>"

definition demo_build :: "nat build_env" where
  "demo_build = \<lparr>be_geth = demo_geth, be_layouts = (\<lambda>n. Some demo_contract_layout), be_bytecodes = (\<lambda>n. Some ''0x6080''),
     be_deploy = \<lparr>keyedTransactor = Ok (), bindings_Deploy = (\<lambda>n args. ret_call 1), backend_Commit = (\<lambda>k. (Ok 0, Suc k)),
       bind_WaitDeployed = (\<lambda>tx k. (Ok (of_nat k), k)), backend_CodeAt = (\<lambda>a. ret_call [0x60])\<rparr>,
     be_pack = (\<lambda>n m args. Ok []), be_range_proxies = rev, be_range_configs = rev\<rparr>"

definition demo_gconf :: GenesisConfig where
  "demo_gconf = \<lparr>gc_L2ChainID = 13527, gc_Nonce = 0, gc_GasLimit = 0, gc_Difficulty = None, gc_MixHash = 0, gc_Coinbase = 0,
     gc_Number = 0, gc_GasUsed = 0, gc_ParentHash = 0, gc_BaseFeePerGas = None, gc_ExtraData = [], L2PredeployOwner = 5,
     L1PortalAddress = 6, L1StandardBridgeAddress = 7, gc_Alloc = []\<rparr>"

definition demo_l1_block :: L1Block where
  "demo_l1_block = \<lparr>l1_Number = 100, l1_Time = 200, l1_BaseFee = Some 7, l1_Hash = 8, l1_Root = 9\<rparr>"

lemma demo_deployed:
  "\<exists>results k'. BuildSpecular (be_pack demo_build) (be_deploy demo_build) (be_range_proxies demo_build (GeneratePredeployConfig demo_gconf demo_l1_block)) 0 = (Ok results, k')"
proof -
  have "is_Ok (fst (BuildSpecular (be_pack demo_build) (be_deploy demo_build) (be_range_proxies demo_build (GeneratePredeployConfig demo_gconf demo_l1_block)) 0))"
    by code_simp
  then show ?thesis by (metis is_Ok_conv prod.collapse)
qed

lemma demo_encodable:
  "list_all (\<lambda>(n, c). encodable demo_build n (impl_values (Storages c)) \<and> encodable demo_build n (proxy_values (Storages c)))
     (GeneratePredeployConfig demo_gconf demo_l1_block)"
  by code_simp

theorem proxied_predeploys_have_no_code_witness:
  "\<exists>g k'. BuildL2Genesis demo_build demo_gconf demo_l1_block 0 = (Ok g, k') \<and>
     map_option Code (GetAccount L2PortalAddr (g_Alloc g)) = Some []"
proof -
  obtain results k' where d: "BuildSpecular (be_pack demo_build) (be_deploy demo_build) (be_range_proxies demo_build (GeneratePredeployConfig demo_gconf demo_l1_block)) 0 =
      (Ok results, k')" using demo_deployed by blast
  have c: "gc_L2ChainID demo_gconf \<noteq> 0" "length (gc_ExtraData demo_gconf) \<le> 32" "map_range (be_range_configs demo_build)"
    "gc_Alloc demo_gconf = []"
    by (simp_all add: demo_gconf_def demo_build_def map_range_def)
  have b: "is_Ok (GetDeployedBytecode (be_geth demo_build) (be_bytecodes demo_build) ''ERC1967Proxy'')" by code_simp
  obtain g where g: "BuildL2Genesis demo_build demo_gconf demo_l1_block 0 = (Ok g, k')"
    using genesis_built [OF c d b] demo_encodable by (auto simp: list_all_iff)
  have "Predeploys_map ''L2Portal'' = Some L2PortalAddr" by (simp add: Predeploys_map_def)
  from proxied_predeploys_have_no_code [OF g c(3) _ this] g show ?thesis by (auto simp: c(4))
qed

end
