(* ===== verification/Sim_Backend.thy ===== *)
theory Sim_Backend
  imports Tx_Mgr Fee_Hook Genesis
begin

text \<open>
  \<^verbatim>\<open>ops/backends/simulated.go\<close>: the chain on which the system contracts are deployed. A pending block and its
  state sit on top of go-ethereum's block chain; transactions are added to the pending block, which \<open>Commit\<close>
  imports. go-ethereum's chain with its database, the state database and block generation are the record
  \<open>geth_core\<close> over a chain \<open>'c\<close> and a state \<open>'s\<close>. The mutex makes every method one step.
\<close>

section \<open>Blocks and the chain underneath\<close>

record sim_header =
  hd_Hash :: hash
  hd_ParentHash :: hash
  hd_Number :: big
  hd_Time :: uint64
  hd_Root :: hash
  hd_GasLimit :: uint64
  hd_BaseFee :: "big option"

record sim_block =
  bk_Header :: sim_header
  bk_Transactions :: "Transaction list"

text \<open>What the callback of \<open>core.GenerateChain\<close> does with the block it is given.\<close>

datatype gen_action = AddTxWithChain Transaction | OffsetTime int

text \<open>
  \<open>core_GenerateChain\<close> and \<open>bc_InsertChain\<close> write to the database, so they move the chain. Generating a block
  has no error result: it returns or, when a transaction cannot be applied, panics (\<open>Inl\<close>). \<open>state_New\<close> is
  \<open>None\<close> where \<open>state.New\<close> returns an error, since the callers drop that error and keep the nil pointer.
\<close>

record ('c, 's) geth_core =
  core_GenerateChain :: "sim_block \<Rightarrow> gen_action list \<Rightarrow> 'c \<Rightarrow> (string + sim_block \<times> Receipt list) \<times> 'c"
  bc_InsertChain :: "sim_block \<Rightarrow> ('c, unit) call"
  bc_Stop :: "'c \<Rightarrow> 'c"
  bc_CurrentBlock :: "'c \<Rightarrow> sim_header"
  bc_CurrentHeader :: "'c \<Rightarrow> sim_header"
  bc_GetBlock :: "hash \<Rightarrow> uint64 \<Rightarrow> 'c \<Rightarrow> sim_block option"
  bc_GetBlockByHash :: "hash \<Rightarrow> 'c \<Rightarrow> sim_block option"
  bc_GetBlockByNumber :: "uint64 \<Rightarrow> 'c \<Rightarrow> sim_block option"
  bc_GetHeaderByHash :: "hash \<Rightarrow> 'c \<Rightarrow> sim_header option"
  bc_GetHeaderByNumber :: "uint64 \<Rightarrow> 'c \<Rightarrow> sim_header option"
  bc_State :: "'c \<Rightarrow> 's outcome"
  bc_StateAt :: "hash \<Rightarrow> 'c \<Rightarrow> 's outcome"
  rawdb_WriteTxLookupEntriesByBlock :: "sim_block \<Rightarrow> 'c \<Rightarrow> 'c"
  rawdb_ReadReceipt :: "hash \<Rightarrow> 'c \<Rightarrow> Receipt option"
  rawdb_ReadTransaction :: "hash \<Rightarrow> 'c \<Rightarrow> Transaction option"
  types_Sender :: "sim_block \<Rightarrow> Transaction \<Rightarrow> address outcome"
  state_New :: "hash \<Rightarrow> 'c \<Rightarrow> 's option"
  st_GetCode :: "address \<Rightarrow> 's \<Rightarrow> bytes"
  st_GetBalance :: "address \<Rightarrow> 's \<Rightarrow> big"
  st_GetNonce :: "address \<Rightarrow> 's \<Rightarrow> uint64"
  st_GetState :: "address \<Rightarrow> hash \<Rightarrow> 's \<Rightarrow> hash"
  st_GetOrNewStateObject :: "address \<Rightarrow> 's \<Rightarrow> 's"

record ('c, 's) SimulatedBackend =
  blockchain :: 'c
  pendingBlock :: sim_block
  pendingState :: "'s option"
  pendingReceipts :: "Receipt list"

abbreviation bk_Hash :: "sim_block \<Rightarrow> hash" where "bk_Hash b \<equiv> hd_Hash (bk_Header b)"
abbreviation bk_ParentHash :: "sim_block \<Rightarrow> hash" where "bk_ParentHash b \<equiv> hd_ParentHash (bk_Header b)"
abbreviation bk_Number :: "sim_block \<Rightarrow> big" where "bk_Number b \<equiv> hd_Number (bk_Header b)"
abbreviation bk_Root :: "sim_block \<Rightarrow> hash" where "bk_Root b \<equiv> hd_Root (bk_Header b)"

abbreviation errBlockNumberUnsupported :: go_error where
  "errBlockNumberUnsupported \<equiv> Sentinel ''simulatedBackend cannot access blocks other than the latest block''"
abbreviation errBlockDoesNotExist :: go_error where
  "errBlockDoesNotExist \<equiv> Sentinel ''block does not exist in blockchain''"
abbreviation errTransactionDoesNotExist :: go_error where
  "errTransactionDoesNotExist \<equiv> Sentinel ''transaction does not exist''"
abbreviation ethereum_NotFound :: go_error where
  "ethereum_NotFound \<equiv> Sentinel ''not found''"

section \<open>Commit, rollback, fork\<close>

text \<open>
  The new pending block and the state of its root. A block pointer that is nil makes \<open>GenerateChain\<close> panic.
\<close>

definition sim_rollback :: "('c, 's) geth_core \<Rightarrow> sim_block option \<Rightarrow> (('c, 's) SimulatedBackend, unit) call" where
  "sim_rollback g parent b =
     (case parent of
        None \<Rightarrow> (Panic nil_deref, b)
      | Some p \<Rightarrow>
          (case core_GenerateChain g p [] (blockchain b) of
             (Inl m, c) \<Rightarrow> (Panic m, b\<lparr>blockchain := c\<rparr>)
           | (Inr (blk, receipts), c) \<Rightarrow>
               (Ok (), b\<lparr>blockchain := c, pendingBlock := blk, pendingState := state_New g (bk_Root blk) c\<rparr>)))"

definition head_block :: "('c, 's) geth_core \<Rightarrow> ('c, 's) SimulatedBackend \<Rightarrow> sim_block option" where
  "head_block g b =
     (let header = bc_CurrentBlock g (blockchain b)
      in bc_GetBlock g (hd_Hash header) (word_of_int (hd_Number header)) (blockchain b))"

definition sim_Rollback :: "('c, 's) geth_core \<Rightarrow> (('c, 's) SimulatedBackend, unit) call" where
  "sim_Rollback g b = sim_rollback g (head_block g b) b"

definition sim_Commit :: "('c, 's) geth_core \<Rightarrow> (('c, 's) SimulatedBackend, hash) call" where
  "sim_Commit g b =
     (case bc_InsertChain g (pendingBlock b) (blockchain b) of
        (Err e, c) \<Rightarrow> (Panic (error_msg e), b\<lparr>blockchain := c\<rparr>)
      | (Panic p, c) \<Rightarrow> (Panic p, b\<lparr>blockchain := c\<rparr>)
      | (Ok _, c) \<Rightarrow>
          bind_call (sim_rollback g (Some (pendingBlock b))) (\<lambda>_. ret_call (bk_Hash (pendingBlock b)))
            (b\<lparr>blockchain := rawdb_WriteTxLookupEntriesByBlock g (pendingBlock b) c\<rparr>))"

definition blockByHash :: "('c, 's) geth_core \<Rightarrow> hash \<Rightarrow> ('c, 's) SimulatedBackend \<Rightarrow> sim_block outcome" where
  "blockByHash g h b =
     (if h = bk_Hash (pendingBlock b) then Ok (pendingBlock b)
      else case bc_GetBlockByHash g h (blockchain b) of Some block \<Rightarrow> Ok block | None \<Rightarrow> Err errBlockDoesNotExist)"

definition sim_Fork :: "('c, 's) geth_core \<Rightarrow> hash \<Rightarrow> (('c, 's) SimulatedBackend, unit) call" where
  "sim_Fork g parent b =
     (if length (bk_Transactions (pendingBlock b)) \<noteq> 0 then (Err (NewError ''pending block dirty''), b)
      else case blockByHash g parent b of
             Err e \<Rightarrow> (Err e, b)
           | Panic p \<Rightarrow> (Panic p, b)
           | Ok block \<Rightarrow> sim_rollback g (Some block) b)"

definition sim_Close :: "('c, 's) geth_core \<Rightarrow> (('c, 's) SimulatedBackend, unit) call" where
  "sim_Close g b = (Ok (), b\<lparr>blockchain := bc_Stop g (blockchain b)\<rparr>)"

section \<open>Adding a transaction, moving the clock\<close>

text \<open>
  \<open>regenerate\<close> is the end that \<open>SendTransaction\<close> and \<open>AdjustTime\<close> share: the pending block is built again on
  its parent. \<open>stateDB.Database()\<close> dereferences the result of \<open>State\<close>, whose error was dropped.
\<close>

definition regenerate ::
    "('c, 's) geth_core \<Rightarrow> sim_block \<Rightarrow> gen_action list \<Rightarrow> (('c, 's) SimulatedBackend, Receipt list) call" where
  "regenerate g parent actions b =
     (case core_GenerateChain g parent actions (blockchain b) of
        (Inl m, c) \<Rightarrow> (Panic m, b\<lparr>blockchain := c\<rparr>)
      | (Inr (blk, receipts), c) \<Rightarrow>
          (case bc_State g c of
             Ok _ \<Rightarrow> (Ok receipts, b\<lparr>blockchain := c, pendingBlock := blk, pendingState := state_New g (bk_Root blk) c\<rparr>)
           | Err e \<Rightarrow> (Panic nil_deref, b\<lparr>blockchain := c, pendingBlock := blk\<rparr>)
           | Panic p \<Rightarrow> (Panic p, b\<lparr>blockchain := c\<rparr>)))"

definition sim_SendTransaction :: "('c, 's) geth_core \<Rightarrow> Transaction \<Rightarrow> (('c, 's) SimulatedBackend, unit) call" where
  "sim_SendTransaction g tx b =
     (case blockByHash g (bk_ParentHash (pendingBlock b)) b of
        Err _ \<Rightarrow> (Err (NewError ''could not fetch parent''), b)
      | Panic p \<Rightarrow> (Panic p, b)
      | Ok block \<Rightarrow>
          (case types_Sender g block tx of
             Err e \<Rightarrow> (Err (NewError (''invalid transaction: '' @ error_msg e)), b)
           | Panic p \<Rightarrow> (Panic p, b)
           | Ok sender \<Rightarrow>
               (case pendingState b of
                  None \<Rightarrow> (Panic nil_deref, b)
                | Some s \<Rightarrow>
                    let nonce = st_GetNonce g sender s
                    in if tx_Nonce (inner tx) \<noteq> nonce
                       then (Err (NewError (''invalid transaction nonce: got '' @ show_nat (unat (tx_Nonce (inner tx))) @
                               '', want '' @ show_nat (unat nonce))), b)
                       else bind_call
                              (regenerate g block (map AddTxWithChain (bk_Transactions (pendingBlock b)) @ [AddTxWithChain tx]))
                              (\<lambda>receipts b'. (Ok (), b'\<lparr>pendingReceipts := receipts\<rparr>)) b)))"

text \<open>
  \<open>Duration.Seconds\<close>: whole seconds and the rest, each truncated towards zero, added as \<open>float64\<close> values.
\<close>

definition duration_Seconds :: "int \<Rightarrow> rat" where
  "duration_Seconds d =
     (let sec = sgn d * (\<bar>d\<bar> div 10 ^ 9); nsec = sgn d * (\<bar>d\<bar> mod 10 ^ 9)
      in round_prec 53 (of_int sec + round_prec 53 (of_int nsec / 10 ^ 9)))"

definition sim_AdjustTime :: "('c, 's) geth_core \<Rightarrow> int \<Rightarrow> (('c, 's) SimulatedBackend, unit) call" where
  "sim_AdjustTime g adjustment b =
     (if length (bk_Transactions (pendingBlock b)) \<noteq> 0
      then (Err (NewError ''could not adjust time on non-empty block''), b)
      else case bc_GetBlockByHash g (bk_ParentHash (pendingBlock b)) (blockchain b) of
             None \<Rightarrow> (Err (NewError ''could not find parent''), b)
           | Some block \<Rightarrow>
               bind_call (regenerate g block [OffsetTime (trunc (duration_Seconds adjustment))]) (\<lambda>_. ret_call ()) b)"

section \<open>Queries\<close>

text \<open>\<open>uint64(number.Int64())\<close> reads the low 64 bits.\<close>

definition blockByNumber :: "('c, 's) geth_core \<Rightarrow> big option \<Rightarrow> ('c, 's) SimulatedBackend \<Rightarrow> sim_block outcome" where
  "blockByNumber g number b =
     (case number of
        None \<Rightarrow> blockByHash g (hd_Hash (bc_CurrentBlock g (blockchain b))) b
      | Some n \<Rightarrow>
          if n = bk_Number (pendingBlock b) then blockByHash g (hd_Hash (bc_CurrentBlock g (blockchain b))) b
          else case bc_GetBlockByNumber g (word_of_int n) (blockchain b) of
                 None \<Rightarrow> Err errBlockDoesNotExist
               | Some block \<Rightarrow> Ok block)"

definition stateByBlockNumber :: "('c, 's) geth_core \<Rightarrow> big option \<Rightarrow> ('c, 's) SimulatedBackend \<Rightarrow> 's outcome" where
  "stateByBlockNumber g blockNumber b =
     (if blockNumber = None \<or> blockNumber = Some (hd_Number (bc_CurrentBlock g (blockchain b)))
      then bc_State g (blockchain b)
      else bind_out (blockByNumber g blockNumber b) (\<lambda>block. bc_StateAt g (bk_Root block) (blockchain b)))"

definition sim_CodeAt :: "('c, 's) geth_core \<Rightarrow> address \<Rightarrow> big option \<Rightarrow> ('c, 's) SimulatedBackend \<Rightarrow> bytes outcome" where
  "sim_CodeAt g contract blockNumber b = bind_out (stateByBlockNumber g blockNumber b) (\<lambda>s. Ok (st_GetCode g contract s))"

definition sim_BalanceAt :: "('c, 's) geth_core \<Rightarrow> address \<Rightarrow> big option \<Rightarrow> ('c, 's) SimulatedBackend \<Rightarrow> big outcome" where
  "sim_BalanceAt g contract blockNumber b = bind_out (stateByBlockNumber g blockNumber b) (\<lambda>s. Ok (st_GetBalance g contract s))"

definition sim_NonceAt :: "('c, 's) geth_core \<Rightarrow> address \<Rightarrow> big option \<Rightarrow> ('c, 's) SimulatedBackend \<Rightarrow> uint64 outcome" where
  "sim_NonceAt g contract blockNumber b = bind_out (stateByBlockNumber g blockNumber b) (\<lambda>s. Ok (st_GetNonce g contract s))"

definition sim_StorageAt ::
    "('c, 's) geth_core \<Rightarrow> address \<Rightarrow> hash \<Rightarrow> big option \<Rightarrow> ('c, 's) SimulatedBackend \<Rightarrow> hash outcome" where
  "sim_StorageAt g contract key blockNumber b = bind_out (stateByBlockNumber g blockNumber b) (\<lambda>s. Ok (st_GetState g contract key s))"

definition sim_TransactionReceipt :: "('c, 's) geth_core \<Rightarrow> hash \<Rightarrow> ('c, 's) SimulatedBackend \<Rightarrow> Receipt outcome" where
  "sim_TransactionReceipt g txHash b =
     (case rawdb_ReadReceipt g txHash (blockchain b) of None \<Rightarrow> Err ethereum_NotFound | Some r \<Rightarrow> Ok r)"

text \<open>\<open>Block.Transaction\<close> gives the first transaction of the block with the hash.\<close>

definition sim_TransactionByHash :: "('c, 's) geth_core \<Rightarrow> hash \<Rightarrow> ('c, 's) SimulatedBackend \<Rightarrow> (Transaction \<times> bool) outcome" where
  "sim_TransactionByHash g txHash b =
     (case find (\<lambda>tx. tx_Hash tx = txHash) (bk_Transactions (pendingBlock b)) of
        Some tx \<Rightarrow> Ok (tx, True)
      | None \<Rightarrow>
          (case rawdb_ReadTransaction g txHash (blockchain b) of
             Some tx \<Rightarrow> Ok (tx, False)
           | None \<Rightarrow> Err ethereum_NotFound))"

definition sim_HeaderByHash :: "('c, 's) geth_core \<Rightarrow> hash \<Rightarrow> ('c, 's) SimulatedBackend \<Rightarrow> sim_header outcome" where
  "sim_HeaderByHash g h b =
     (if h = bk_Hash (pendingBlock b) then Ok (bk_Header (pendingBlock b))
      else case bc_GetHeaderByHash g h (blockchain b) of None \<Rightarrow> Err errBlockDoesNotExist | Some header \<Rightarrow> Ok header)"

text \<open>A number that is not known gives a nil header and no error.\<close>

definition sim_HeaderByNumber :: "('c, 's) geth_core \<Rightarrow> big option \<Rightarrow> ('c, 's) SimulatedBackend \<Rightarrow> sim_header option outcome" where
  "sim_HeaderByNumber g block b =
     (case block of
        None \<Rightarrow> Ok (Some (bc_CurrentHeader g (blockchain b)))
      | Some n \<Rightarrow>
          if n = bk_Number (pendingBlock b) then Ok (Some (bc_CurrentHeader g (blockchain b)))
          else Ok (bc_GetHeaderByNumber g (word_of_int n) (blockchain b)))"

definition sim_TransactionCount :: "('c, 's) geth_core \<Rightarrow> hash \<Rightarrow> ('c, 's) SimulatedBackend \<Rightarrow> uint64 outcome" where
  "sim_TransactionCount g blockHash b =
     (if blockHash = bk_Hash (pendingBlock b) then Ok (of_nat (length (bk_Transactions (pendingBlock b))))
      else case bc_GetBlockByHash g blockHash (blockchain b) of
             None \<Rightarrow> Err errBlockDoesNotExist
           | Some block \<Rightarrow> Ok (of_nat (length (bk_Transactions block))))"

text \<open>\<open>index+1\<close> is computed with 64 bits.\<close>

definition transaction_at :: "Transaction list \<Rightarrow> uint64 \<Rightarrow> Transaction outcome" where
  "transaction_at transactions index =
     (if (of_nat (length transactions) :: uint64) < index + 1 then Err errTransactionDoesNotExist
      else if unat index < length transactions then Ok (transactions ! unat index)
      else Panic ''index out of range'')"

definition sim_TransactionInBlock ::
    "('c, 's) geth_core \<Rightarrow> hash \<Rightarrow> uint64 \<Rightarrow> ('c, 's) SimulatedBackend \<Rightarrow> Transaction outcome" where
  "sim_TransactionInBlock g blockHash index b =
     (if blockHash = bk_Hash (pendingBlock b) then transaction_at (bk_Transactions (pendingBlock b)) index
      else case bc_GetBlockByHash g blockHash (blockchain b) of
             None \<Rightarrow> Err errBlockDoesNotExist
           | Some block \<Rightarrow> transaction_at (bk_Transactions block) index)"

definition sim_PendingCodeAt :: "('c, 's) geth_core \<Rightarrow> address \<Rightarrow> ('c, 's) SimulatedBackend \<Rightarrow> bytes outcome" where
  "sim_PendingCodeAt g contract b =
     (case pendingState b of None \<Rightarrow> Panic nil_deref | Some s \<Rightarrow> Ok (st_GetCode g contract s))"

text \<open>Asking for a nonce creates the account in the pending state when it is not there.\<close>

definition sim_PendingNonceAt :: "('c, 's) geth_core \<Rightarrow> address \<Rightarrow> (('c, 's) SimulatedBackend, uint64) call" where
  "sim_PendingNonceAt g account b =
     (case pendingState b of
        None \<Rightarrow> (Panic nil_deref, b)
      | Some s \<Rightarrow>
          let s' = st_GetOrNewStateObject g account s
          in (Ok (st_GetNonce g account s'), b\<lparr>pendingState := Some s'\<rparr>))"

definition sim_SuggestGasPrice :: "('c, 's) SimulatedBackend \<Rightarrow> big outcome" where
  "sim_SuggestGasPrice b =
     (case hd_BaseFee (bk_Header (pendingBlock b)) of Some fee \<Rightarrow> Ok fee | None \<Rightarrow> Ok 1)"

definition sim_SuggestGasTipCap :: "('c, 's) SimulatedBackend \<Rightarrow> big outcome" where
  "sim_SuggestGasTipCap b = Ok 1"

section \<open>An abstract ledger\<close>

text \<open>
  What the backend promises: a parent, the transactions that wait on top of it, and the committed blocks with
  their parents and transactions.
\<close>

record sim_ledger =
  lg_parent :: hash
  lg_pending :: "Transaction list"
  lg_blocks :: "hash \<Rightarrow> (hash \<times> Transaction list) option"

datatype sim_call =
    SendTransactionCall Transaction
  | CommitCall
  | RollbackCall
  | ForkCall hash
  | AdjustTimeCall int
  | PendingNonceCall address

text \<open>
  The Boolean is whether the call returned without an error. Only \<open>SendTransaction\<close>, \<open>Fork\<close> and \<open>AdjustTime\<close>
  may refuse, and then nothing changes.
\<close>

inductive ledger_step :: "sim_call \<Rightarrow> bool \<Rightarrow> sim_ledger \<Rightarrow> sim_ledger \<Rightarrow> bool" where
  send: "ledger_step (SendTransactionCall tx) True s (s\<lparr>lg_pending := lg_pending s @ [tx]\<rparr>)"
| send_refused: "ledger_step (SendTransactionCall tx) False s s"
| commit: "ledger_step CommitCall True s
     \<lparr>lg_parent = h, lg_pending = [], lg_blocks = (lg_blocks s)(h \<mapsto> (lg_parent s, lg_pending s))\<rparr>"
| rollback: "lg_blocks s h \<noteq> None \<Longrightarrow> ledger_step RollbackCall True s (s\<lparr>lg_parent := h, lg_pending := []\<rparr>)"
| fork: "lg_pending s = [] \<Longrightarrow> ledger_step (ForkCall h) True s (s\<lparr>lg_parent := h\<rparr>)"
| fork_refused: "ledger_step (ForkCall h) False s s"
| time: "lg_pending s = [] \<Longrightarrow> ledger_step (AdjustTimeCall d) True s s"
| time_refused: "ledger_step (AdjustTimeCall d) False s s"
| nonce: "ledger_step (PendingNonceCall a) True s s"

definition void :: "('w, 'a) call \<Rightarrow> ('w, unit) call" where
  "void c = bind_call c (\<lambda>_. ret_call ())"

fun sim_op :: "('c, 's) geth_core \<Rightarrow> sim_call \<Rightarrow> (('c, 's) SimulatedBackend, unit) call" where
  "sim_op g (SendTransactionCall tx) = sim_SendTransaction g tx"
| "sim_op g CommitCall = void (sim_Commit g)"
| "sim_op g RollbackCall = sim_Rollback g"
| "sim_op g (ForkCall h) = sim_Fork g h"
| "sim_op g (AdjustTimeCall d) = sim_AdjustTime g d"
| "sim_op g (PendingNonceCall a) = void (sim_PendingNonceAt g a)"

text \<open>One call with go-ethereum beside the backend; a panic ends the program.\<close>

definition sim_step :: "sim_call \<Rightarrow> ('c, 's) geth_core \<times> ('c, 's) SimulatedBackend \<Rightarrow>
    (bool \<times> ('c, 's) geth_core \<times> ('c, 's) SimulatedBackend) option" where
  "sim_step c gb =
     (case sim_op (fst gb) c (snd gb) of
        (Ok _, b') \<Rightarrow> Some (True, fst gb, b')
      | (Err _, b') \<Rightarrow> Some (False, fst gb, b')
      | (Panic _, _) \<Rightarrow> None)"

definition sim_abs :: "('c, 's) geth_core \<Rightarrow> ('c, 's) SimulatedBackend \<Rightarrow> sim_ledger" where
  "sim_abs g b =
     \<lparr>lg_parent = bk_ParentHash (pendingBlock b), lg_pending = bk_Transactions (pendingBlock b),
      lg_blocks = (\<lambda>h. map_option (\<lambda>x. (bk_ParentHash x, bk_Transactions x)) (bc_GetBlockByHash g h (blockchain b)))\<rparr>"

section \<open>What go-ethereum promises\<close>

definition added :: "gen_action list \<Rightarrow> Transaction list" where
  "added actions = List.map_filter (\<lambda>a. case a of AddTxWithChain tx \<Rightarrow> Some tx | OffsetTime _ \<Rightarrow> None) actions"

text \<open>
  A generated block sits on the block it was generated from and has the transactions that were added;
  generating stores no block. An inserted block is found under its hash, and the blocks that were there stay.
  A block is found by hash when it is found by hash and number, and it has the hash it is found under.
\<close>

definition geth_laws :: "('c, 's) geth_core \<Rightarrow> bool" where
  "geth_laws g \<longleftrightarrow>
     (\<forall>p actions c blk rs c'. core_GenerateChain g p actions c = (Inr (blk, rs), c') \<longrightarrow>
        bk_ParentHash blk = bk_Hash p \<and> bk_Transactions blk = added actions \<and>
        (\<forall>h. bc_GetBlockByHash g h c' = bc_GetBlockByHash g h c)) \<and>
     (\<forall>blk c c'. bc_InsertChain g blk c = (Ok (), c') \<longrightarrow>
        (\<forall>h. bc_GetBlockByHash g h c' = (if h = bk_Hash blk then Some blk else bc_GetBlockByHash g h c))) \<and>
     (\<forall>blk c h. bc_GetBlockByHash g h (rawdb_WriteTxLookupEntriesByBlock g blk c) = bc_GetBlockByHash g h c) \<and>
     (\<forall>h n c blk. bc_GetBlock g h n c = Some blk \<longrightarrow> bc_GetBlockByHash g h c = Some blk) \<and>
     (\<forall>h c blk. bc_GetBlockByHash g h c = Some blk \<longrightarrow> bk_Hash blk = h)"

lemma geth_lawsD:
  assumes "geth_laws g"
  shows generated: "core_GenerateChain g p actions c = (Inr (blk, rs), c') \<Longrightarrow>
      bk_ParentHash blk = bk_Hash p \<and> bk_Transactions blk = added actions \<and>
      (\<forall>h. bc_GetBlockByHash g h c' = bc_GetBlockByHash g h c)"
    and inserted: "bc_InsertChain g blk c = (Ok (), c') \<Longrightarrow>
      bc_GetBlockByHash g h c' = (if h = bk_Hash blk then Some blk else bc_GetBlockByHash g h c)"
    and indexed: "bc_GetBlockByHash g h (rawdb_WriteTxLookupEntriesByBlock g blk c) = bc_GetBlockByHash g h c"
    and by_number: "bc_GetBlock g h n c = Some blk \<Longrightarrow> bc_GetBlockByHash g h c = Some blk"
    and own_hash: "bc_GetBlockByHash g h c = Some blk \<Longrightarrow> bk_Hash blk = h"
  using assms by (simp_all add: geth_laws_def)

lemma added_simps [simp]:
  "added [] = []" "added (map AddTxWithChain txs @ [AddTxWithChain tx]) = txs @ [tx]" "added [OffsetTime d] = []"
  by (simp_all add: added_def map_filter_def comp_def)

section \<open>The backend implements the ledger\<close>

lemma blockByHash_Ok:
  assumes "geth_laws g" "blockByHash g h b = Ok blk"
  shows "bk_Hash blk = h"
  using assms(2) own_hash [OF assms(1)] by (auto simp: blockByHash_def split: if_splits option.splits)

lemma sim_rollback_Ok:
  assumes "geth_laws g" "sim_rollback g p b = (Ok (), b')"
  shows "\<exists>blk. p = Some blk \<and> sim_abs g b' = (sim_abs g b)\<lparr>lg_parent := bk_Hash blk, lg_pending := []\<rparr>"
proof -
  obtain blk new rs c where g: "p = Some blk" "core_GenerateChain g blk [] (blockchain b) = (Inr (new, rs), c)"
    "b' = b\<lparr>blockchain := c, pendingBlock := new, pendingState := state_New g (bk_Root new) c\<rparr>"
    using assms(2) by (auto simp: sim_rollback_def split: option.splits prod.splits sum.splits)
  then show ?thesis using generated [OF assms(1) g(2)] by (auto simp: sim_abs_def)
qed

lemma sim_rollback_not_Err [simp]: "sim_rollback g p b \<noteq> (Err e, b')"
  by (auto simp: sim_rollback_def split: option.splits prod.splits sum.splits)

lemma regenerate_Ok:
  assumes "geth_laws g" "regenerate g p actions b = (Ok rs, b')"
  shows "sim_abs g b' = (sim_abs g b)\<lparr>lg_parent := bk_Hash p, lg_pending := added actions\<rparr>"
proof -
  obtain new c where g: "core_GenerateChain g p actions (blockchain b) = (Inr (new, rs), c)"
    "b' = b\<lparr>blockchain := c, pendingBlock := new, pendingState := state_New g (bk_Root new) c\<rparr>"
    using assms(2) by (auto simp: regenerate_def split: prod.splits sum.splits outcome.splits)
  then show ?thesis using generated [OF assms(1) g(1)] by (auto simp: sim_abs_def)
qed

lemma regenerate_not_Err [simp]: "regenerate g p actions b \<noteq> (Err e, b')"
  by (auto simp: regenerate_def split: prod.splits sum.splits outcome.splits)

lemma sim_SendTransaction_cases:
  assumes "sim_SendTransaction g tx b = (r, b')" "\<nexists>p. r = Panic p"
  obtains e where "r = Err e" "b' = b"
  | blk rs b1 where "r = Ok ()" "b' = b1\<lparr>pendingReceipts := rs\<rparr>" "blockByHash g (bk_ParentHash (pendingBlock b)) b = Ok blk"
      "regenerate g blk (map AddTxWithChain (bk_Transactions (pendingBlock b)) @ [AddTxWithChain tx]) b = (Ok rs, b1)"
  using assms
  by (auto simp: sim_SendTransaction_def Let_def bind_call_def split: outcome.splits option.splits if_splits prod.splits)

lemma sim_abs_pendingReceipts [simp]: "sim_abs g (b\<lparr>pendingReceipts := rs\<rparr>) = sim_abs g b"
  and sim_abs_pendingState [simp]: "sim_abs g (b\<lparr>pendingState := s\<rparr>) = sim_abs g b"
  by (simp_all add: sim_abs_def)

lemma sim_SendTransaction_refines:
  assumes "geth_laws g" "sim_SendTransaction g tx b = (r, b')" "\<nexists>p. r = Panic p"
  shows "sim_abs g b' = (if is_Ok r then (sim_abs g b)\<lparr>lg_pending := lg_pending (sim_abs g b) @ [tx]\<rparr> else sim_abs g b)"
proof (rule sim_SendTransaction_cases [OF assms(2,3)])
  fix blk rs b1
  assume r: "r = Ok ()" "b' = b1\<lparr>pendingReceipts := rs\<rparr>" "blockByHash g (bk_ParentHash (pendingBlock b)) b = Ok blk"
    "regenerate g blk (map AddTxWithChain (bk_Transactions (pendingBlock b)) @ [AddTxWithChain tx]) b = (Ok rs, b1)"
  then show ?thesis
    using regenerate_Ok [OF assms(1) r(4)] blockByHash_Ok [OF assms(1) r(3)] by (simp add: sim_abs_def)
qed simp

lemma sim_Commit_refines:
  assumes "geth_laws g" "sim_Commit g b = (r, b')" "\<nexists>p. r = Panic p"
  shows "r = Ok (bk_Hash (pendingBlock b)) \<and>
    sim_abs g b' = \<lparr>lg_parent = bk_Hash (pendingBlock b), lg_pending = [],
      lg_blocks = (lg_blocks (sim_abs g b))(bk_Hash (pendingBlock b) \<mapsto> (lg_parent (sim_abs g b), lg_pending (sim_abs g b)))\<rparr>"
proof -
  obtain c where i: "bc_InsertChain g (pendingBlock b) (blockchain b) = (Ok (), c)"
    and k: "bind_call (sim_rollback g (Some (pendingBlock b))) (\<lambda>_. ret_call (bk_Hash (pendingBlock b)))
      (b\<lparr>blockchain := rawdb_WriteTxLookupEntriesByBlock g (pendingBlock b) c\<rparr>) = (r, b')"
    using assms(2,3) by (auto simp: sim_Commit_def split: prod.splits outcome.splits)
  let ?b1 = "b\<lparr>blockchain := rawdb_WriteTxLookupEntriesByBlock g (pendingBlock b) c\<rparr>"
  have rr: "sim_rollback g (Some (pendingBlock b)) ?b1 = (Ok (), b')" "r = Ok (bk_Hash (pendingBlock b))"
    using k assms(3)
    by (auto simp: bind_call_def ret_call_def split: prod.splits outcome.splits)
  have "sim_abs g ?b1 = (sim_abs g b)\<lparr>lg_blocks :=
      (lg_blocks (sim_abs g b))(bk_Hash (pendingBlock b) \<mapsto> (lg_parent (sim_abs g b), lg_pending (sim_abs g b)))\<rparr>"
    by (auto simp: sim_abs_def indexed [OF assms(1)] inserted [OF assms(1) i])
  with sim_rollback_Ok [OF assms(1) rr(1)] rr(2) show ?thesis by simp
qed


lemma sim_op_refines:
  assumes "geth_laws g" "sim_op g c b = (r, b')" "\<nexists>p. r = Panic p"
  shows "ledger_step c (is_Ok r) (sim_abs g b) (sim_abs g b')"
proof (cases c)
  case (SendTransactionCall tx)
  then show ?thesis
    using sim_SendTransaction_refines [OF assms(1) _ assms(3), of tx b b'] assms(2)
      send [of tx "sim_abs g b"] send_refused [of tx "sim_abs g b"] by (cases "is_Ok r") auto
next
  case CommitCall
  obtain rc where rc: "sim_Commit g b = (rc, b')" "\<nexists>p. rc = Panic p" "is_Ok rc \<longleftrightarrow> is_Ok r"
    using assms(2,3) CommitCall by (auto simp: void_def bind_call_def ret_call_def split: prod.splits outcome.splits)
  from sim_Commit_refines [OF assms(1) rc(1,2)] rc(3) commit [of "sim_abs g b" "bk_Hash (pendingBlock b)"] show ?thesis
    by auto (simp add: CommitCall)
next
  case RollbackCall
  have ok: "r = Ok ()" using assms(2,3) RollbackCall by (cases r) (auto simp: sim_Rollback_def)
  then obtain blk where blk: "head_block g b = Some blk"
    "sim_abs g b' = (sim_abs g b)\<lparr>lg_parent := bk_Hash blk, lg_pending := []\<rparr>"
    using sim_rollback_Ok [OF assms(1), of "head_block g b" b b'] assms(2) RollbackCall by (auto simp: sim_Rollback_def)
  have "lg_blocks (sim_abs g b) (bk_Hash blk) \<noteq> None"
    using blk(1) by_number [OF assms(1)] own_hash [OF assms(1)] by (fastforce simp: head_block_def Let_def sim_abs_def)
  with rollback blk(2) RollbackCall ok show ?thesis by simp
next
  case (ForkCall h)
  show ?thesis
  proof (cases "is_Ok r")
    case True
    then obtain blk where f: "lg_pending (sim_abs g b) = []" "blockByHash g h b = Ok blk" "sim_rollback g (Some blk) b = (Ok (), b')"
      using assms(2) ForkCall by (auto simp: sim_Fork_def is_Ok_conv sim_abs_def split: if_splits outcome.splits)
    have "sim_abs g b' = (sim_abs g b)\<lparr>lg_parent := h\<rparr>"
      using sim_rollback_Ok [OF assms(1) f(3)] blockByHash_Ok [OF assms(1) f(2)] f(1) by simp
    with fork [OF f(1), of h] ForkCall True show ?thesis by simp
  next
    case False
    then have "b' = b" using assms(2,3) ForkCall by (cases r) (auto simp: sim_Fork_def split: if_splits outcome.splits)
    then show ?thesis using False ForkCall by (simp add: fork_refused)
  qed
next
  case (AdjustTimeCall d)
  show ?thesis
  proof (cases "is_Ok r")
    case True
    then obtain blk rs where f: "lg_pending (sim_abs g b) = []"
      "bc_GetBlockByHash g (bk_ParentHash (pendingBlock b)) (blockchain b) = Some blk"
      "regenerate g blk [OffsetTime (trunc (duration_Seconds d))] b = (Ok rs, b')"
      using assms(2) AdjustTimeCall by (auto simp: sim_AdjustTime_def is_Ok_conv sim_abs_def split: if_splits option.splits)
    have "sim_abs g b' = sim_abs g b"
      using regenerate_Ok [OF assms(1) f(3)] own_hash [OF assms(1) f(2)] f(1) by (simp add: sim_abs_def)
    then show ?thesis using True AdjustTimeCall f(1) by (simp add: time)
  next
    case False
    then have "b' = b"
      using assms(2,3) AdjustTimeCall
      by (cases r) (auto simp: sim_AdjustTime_def bind_call_def ret_call_def split: if_splits option.splits outcome.splits prod.splits)
    then show ?thesis using False AdjustTimeCall by (simp add: time_refused)
  qed
next
  case (PendingNonceCall a)
  then have "sim_abs g b' = sim_abs g b" "is_Ok r"
    using assms(2,3) by (auto simp: void_def sim_PendingNonceAt_def bind_call_def ret_call_def Let_def split: option.splits)
  then show ?thesis using PendingNonceCall by (simp add: nonce)
qed

lemma sim_step_Some:
  "sim_step c gb = Some (ok, gb') \<longleftrightarrow>
     (\<exists>r b'. sim_op (fst gb) c (snd gb) = (r, b') \<and> (\<nexists>p. r = Panic p) \<and> ok = is_Ok r \<and> gb' = (fst gb, b'))"
  by (auto simp: sim_step_def split: prod.splits outcome.splits)

interpretation backend: implements sim_step "\<lambda>gb. geth_laws (fst gb)" "\<lambda>gb. sim_abs (fst gb) (snd gb)" ledger_step
  by unfold_locales (auto simp: sim_step_Some dest: sim_op_refines)

lemma exec_run_geth: "exec_run sim_step cs (g, b) = Some (oks, g', b') \<Longrightarrow> g' = g"
  by (induction cs arbitrary: b oks) (auto simp: sim_step_Some split: option.splits)

text \<open>
  C25: the simulated chain is a ledger of blocks. Over any sequence of \<open>SendTransaction\<close>, \<open>Commit\<close>, \<open>Rollback\<close>,
  \<open>Fork\<close>, \<open>AdjustTime\<close> and \<open>PendingNonceAt\<close> calls that ends without a panic, what the backend holds moves as the
  abstract ledger does: sending appends to the pending transactions, committing stores exactly them as a block on
  the current parent, rolling back drops them and returns to a committed block; a call that returns without an
  error has had its effect and a refused one changes nothing. go-ethereum is assumed to build and to store blocks as documented.
\<close>

theorem sim_backend_refines_ledger:
  assumes "geth_laws g" "exec_run sim_step cs (g, b) = Some (oks, g', b')"
  shows "g' = g \<and> spec_run ledger_step cs oks (sim_abs g b) (sim_abs g b')"
  using assms exec_run_geth [OF assms(2)] backend.run_simulates [of "(g, b)" cs oks "(g', b')"] by simp

fun send_all :: "('c, 's) geth_core \<Rightarrow> Transaction list \<Rightarrow> (('c, 's) SimulatedBackend, unit) call" where
  "send_all g [] = ret_call ()"
| "send_all g (tx # txs) = bind_call (sim_SendTransaction g tx) (\<lambda>_. send_all g txs)"

lemma send_all_pending:
  assumes "geth_laws g" "send_all g txs b = (Ok (), b')"
  shows "sim_abs g b' = (sim_abs g b)\<lparr>lg_pending := lg_pending (sim_abs g b) @ txs\<rparr>"
  using assms(2)
proof (induction txs arbitrary: b)
  case (Cons tx txs)
  then obtain b1 where "sim_SendTransaction g tx b = (Ok (), b1)" "send_all g txs b1 = (Ok (), b')" by auto
  with Cons.IH sim_SendTransaction_refines [OF assms(1), of tx b "Ok ()" b1] show ?case by simp
qed simp

text \<open>
  A committed block holds what was sent. When the pending block is empty, a sequence of transactions is
  accepted one after the other and \<open>Commit\<close> returns a hash, then the chain has under that hash a block with
  exactly these transactions in this order, on the parent the backend had; the next pending block is empty and
  sits on it.
\<close>

theorem committed_block_holds_transactions:
  assumes "geth_laws g" "bk_Transactions (pendingBlock b) = []"
    and "send_all g txs b = (Ok (), b1)" "sim_Commit g b1 = (Ok h, b2)"
  shows "\<exists>blk. bc_GetBlockByHash g h (blockchain b2) = Some blk \<and> bk_Transactions blk = txs \<and>
    bk_ParentHash blk = bk_ParentHash (pendingBlock b) \<and>
    bk_ParentHash (pendingBlock b2) = h \<and> bk_Transactions (pendingBlock b2) = []"
proof -
  have a: "sim_abs g b1 = (sim_abs g b)\<lparr>lg_pending := txs\<rparr>"
    using send_all_pending [OF assms(1,3)] assms(2) by (simp add: sim_abs_def)
  have h: "h = bk_Hash (pendingBlock b1)" and
    c: "sim_abs g b2 = \<lparr>lg_parent = h, lg_pending = [], lg_blocks = (lg_blocks (sim_abs g b))(h \<mapsto> (lg_parent (sim_abs g b), txs))\<rparr>"
    using sim_Commit_refines [OF assms(1,4)] a by auto
  have "lg_blocks (sim_abs g b2) h = Some (lg_parent (sim_abs g b), txs)" using c by simp
  then have "\<exists>blk. bc_GetBlockByHash g h (blockchain b2) = Some blk \<and> bk_Transactions blk = txs \<and>
      bk_ParentHash blk = bk_ParentHash (pendingBlock b)"
    by (auto simp: sim_abs_def)
  moreover have "bk_ParentHash (pendingBlock b2) = h" "bk_Transactions (pendingBlock b2) = []"
    using c by (simp_all add: sim_abs_def)
  ultimately show ?thesis by blast
qed

text \<open>
  Forking at the pending block strands the backend. \<open>Fork\<close> finds the pending block under its own hash,
  although it is not part of the chain, and builds the new pending block on it; from then on every
  \<open>SendTransaction\<close> is refused because the parent cannot be fetched.
\<close>

theorem fork_of_pending_block_strands:
  assumes "geth_laws g" "bc_GetBlockByHash g (bk_Hash (pendingBlock b)) (blockchain b) = None"
    and "sim_Fork g (bk_Hash (pendingBlock b)) b = (Ok (), b')" "bk_Hash (pendingBlock b') \<noteq> bk_Hash (pendingBlock b)"
  shows "sim_SendTransaction g tx b' = (Err (NewError ''could not fetch parent''), b')"
proof -
  have "sim_rollback g (Some (pendingBlock b)) b = (Ok (), b')"
    using assms(3) by (auto simp: sim_Fork_def blockByHash_def split: if_splits)
  from sim_rollback_Ok [OF assms(1) this]
  have a: "sim_abs g b' = (sim_abs g b)\<lparr>lg_parent := bk_Hash (pendingBlock b), lg_pending := []\<rparr>" by auto
  have p: "bk_ParentHash (pendingBlock b') = bk_Hash (pendingBlock b)" using arg_cong [OF a, of lg_parent] by (simp add: sim_abs_def)
  have "lg_blocks (sim_abs g b') (bk_Hash (pendingBlock b)) = lg_blocks (sim_abs g b) (bk_Hash (pendingBlock b))"
    using a by simp
  then have "bc_GetBlockByHash g (bk_Hash (pendingBlock b)) (blockchain b') = None" using assms(2) by (simp add: sim_abs_def)
  then show ?thesis using assms(4) by (simp add: sim_SendTransaction_def blockByHash_def p)
qed

text \<open>
  \<open>TransactionInBlock\<close> answers for every index but one. Below the number of transactions it returns the
  transaction, from there on the error, except for the largest 64-bit index: adding one wraps around to zero, the
  test passes and the access panics.
\<close>

theorem TransactionInBlock_bounds:
  assumes "blockByHash g h b = Ok blk" "length (bk_Transactions blk) < 2 ^ 64 - 1"
  shows "sim_TransactionInBlock g h index b =
    (if unat index < length (bk_Transactions blk) then Ok (bk_Transactions blk ! unat index)
     else if index = - 1 then Panic ''index out of range'' else Err errTransactionDoesNotExist)"
proof -
  have t: "sim_TransactionInBlock g h index b = transaction_at (bk_Transactions blk) index"
    using assms(1) by (auto simp: sim_TransactionInBlock_def blockByHash_def split: if_splits option.splits)
  let ?n = "length (bk_Transactions blk)"
  have n: "unat (of_nat ?n :: uint64) = ?n" using assms(2) by (simp add: unat_of_nat)
  show ?thesis
  proof (cases "index = - 1")
    case True
    then have "unat index = 2 ^ 64 - 1" by (simp add: unat_minus_1)
    then show ?thesis unfolding t transaction_at_def using True assms(2) by simp
  next
    case False
    then have "unat (index + 1) = unat index + 1" by (rule unat_plus_1)
    then have "of_nat ?n < index + 1 \<longleftrightarrow> ?n \<le> unat index" by (simp add: word_less_nat_alt n less_Suc_eq_le)
    then show ?thesis using False by (auto simp: t transaction_at_def)
  qed
qed

section \<open>A chain to run on\<close>

text \<open>
  A chain is the list of its blocks, newest first; a state is the number of transactions executed so far, which is
  the next nonce of the only account.
\<close>

definition toy_block :: "sim_block \<Rightarrow> Transaction list \<Rightarrow> sim_block" where
  "toy_block p txs =
     \<lparr>bk_Header = (bk_Header p)\<lparr>hd_Hash := 16 * bk_Hash p + of_nat (length txs), hd_ParentHash := bk_Hash p,
        hd_Number := bk_Number p + 1, hd_Root := bk_Root p + of_nat (length txs)\<rparr>, bk_Transactions = txs\<rparr>"

definition toy_core :: "(sim_block list, uint64) geth_core" where
  "toy_core =
     \<lparr>core_GenerateChain = \<lambda>p actions c. (Inr (toy_block p (added actions), []), c),
      bc_InsertChain = \<lambda>blk c. (Ok (), blk # c), bc_Stop = \<lambda>c. c,
      bc_CurrentBlock = \<lambda>c. bk_Header (hd c), bc_CurrentHeader = \<lambda>c. bk_Header (hd c),
      bc_GetBlock = \<lambda>h n. find (\<lambda>x. bk_Hash x = h), bc_GetBlockByHash = \<lambda>h. find (\<lambda>x. bk_Hash x = h),
      bc_GetBlockByNumber = \<lambda>n. find (\<lambda>x. word_of_int (bk_Number x) = n),
      bc_GetHeaderByHash = \<lambda>h c. map_option bk_Header (find (\<lambda>x. bk_Hash x = h) c),
      bc_GetHeaderByNumber = \<lambda>n c. map_option bk_Header (find (\<lambda>x. word_of_int (bk_Number x) = n) c),
      bc_State = \<lambda>c. Ok (ucast (bk_Root (hd c))), bc_StateAt = \<lambda>r c. Ok (ucast r),
      rawdb_WriteTxLookupEntriesByBlock = \<lambda>blk c. c, rawdb_ReadReceipt = \<lambda>h c. None,
      rawdb_ReadTransaction = \<lambda>h c. None, types_Sender = \<lambda>blk tx. Ok 5, state_New = \<lambda>r c. Some (ucast r),
      st_GetCode = \<lambda>a s. [1], st_GetBalance = \<lambda>a s. 0, st_GetNonce = \<lambda>a s. s, st_GetState = \<lambda>a k s. 0,
      st_GetOrNewStateObject = \<lambda>a s. s\<rparr>"

definition toy_genesis :: sim_block where
  "toy_genesis = \<lparr>bk_Header = \<lparr>hd_Hash = 1, hd_ParentHash = 0, hd_Number = 0, hd_Time = 0, hd_Root = 3, hd_GasLimit = 1000,
     hd_BaseFee = None\<rparr>, bk_Transactions = []\<rparr>"

definition toy_backend :: "(sim_block list, uint64) SimulatedBackend" where
  "toy_backend = \<lparr>blockchain = [toy_genesis], pendingBlock = toy_block toy_genesis [], pendingState = Some 3, pendingReceipts = []\<rparr>"

lemma toy_core_laws: "geth_laws toy_core"
  by (auto simp: geth_laws_def toy_core_def toy_block_def find_Some_iff)

lemmas toy_defs = toy_core_def toy_block_def toy_genesis_def toy_backend_def demo_tx_def demo_raw_def

lemma toy_send:
  "sim_SendTransaction toy_core demo_tx toy_backend =
     (Ok (), toy_backend\<lparr>pendingBlock := toy_block toy_genesis [demo_tx], pendingState := Some 4\<rparr>)"
  by (simp add: toy_defs sim_SendTransaction_def blockByHash_def regenerate_def bind_call_def Let_def added_def map_filter_def)

lemma toy_commit:
  "sim_Commit toy_core (toy_backend\<lparr>pendingBlock := toy_block toy_genesis [demo_tx], pendingState := Some 4\<rparr>) =
     (Ok 17, \<lparr>blockchain = [toy_block toy_genesis [demo_tx], toy_genesis],
        pendingBlock = toy_block (toy_block toy_genesis [demo_tx]) [], pendingState = Some 4, pendingReceipts = []\<rparr>)"
  by (simp add: toy_defs sim_Commit_def sim_rollback_def bind_call_def ret_call_def added_def map_filter_def)

theorem sim_backend_refines_ledger_witness:
  "exec_run sim_step [SendTransactionCall demo_tx, SendTransactionCall demo_tx, CommitCall] (toy_core, toy_backend) =
     Some ([True, False, True], toy_core, snd (sim_Commit toy_core (snd (sim_SendTransaction toy_core demo_tx toy_backend)))) \<and>
   spec_run ledger_step [SendTransactionCall demo_tx, SendTransactionCall demo_tx, CommitCall] [True, False, True]
     (sim_abs toy_core toy_backend)
     (sim_abs toy_core (snd (sim_Commit toy_core (snd (sim_SendTransaction toy_core demo_tx toy_backend)))))"
proof -
  let ?b1 = "toy_backend\<lparr>pendingBlock := toy_block toy_genesis [demo_tx], pendingState := Some 4\<rparr>"
  have r: "\<exists>e. sim_SendTransaction toy_core demo_tx ?b1 = (Err e, ?b1)"
    by (simp add: toy_defs sim_SendTransaction_def blockByHash_def Let_def)
  have "exec_run sim_step [SendTransactionCall demo_tx, SendTransactionCall demo_tx, CommitCall] (toy_core, toy_backend) =
      Some ([True, False, True], toy_core, snd (sim_Commit toy_core (snd (sim_SendTransaction toy_core demo_tx toy_backend))))"
    using r by (auto simp: sim_step_def toy_send toy_commit void_def bind_call_def ret_call_def)
  then show ?thesis using sim_backend_refines_ledger [OF toy_core_laws] by blast
qed

theorem committed_block_holds_transactions_witness:
  "send_all toy_core [demo_tx] toy_backend = (Ok (), toy_backend\<lparr>pendingBlock := toy_block toy_genesis [demo_tx], pendingState := Some 4\<rparr>) \<and>
   (\<exists>blk. bc_GetBlockByHash toy_core 17 [toy_block toy_genesis [demo_tx], toy_genesis] = Some blk \<and> bk_Transactions blk = [demo_tx])"
proof -
  have s: "send_all toy_core [demo_tx] toy_backend = (Ok (), toy_backend\<lparr>pendingBlock := toy_block toy_genesis [demo_tx], pendingState := Some 4\<rparr>)"
    by (simp add: toy_send)
  have "bk_Transactions (pendingBlock toy_backend) = []" by (simp add: toy_defs)
  from committed_block_holds_transactions [OF toy_core_laws this s toy_commit] s show ?thesis by auto
qed

theorem fork_of_pending_block_strands_witness:
  "sim_Fork toy_core 16 toy_backend = (Ok (), toy_backend\<lparr>pendingBlock := toy_block (toy_block toy_genesis []) []\<rparr>) \<and>
   sim_SendTransaction toy_core demo_tx (toy_backend\<lparr>pendingBlock := toy_block (toy_block toy_genesis []) []\<rparr>) =
     (Err (NewError ''could not fetch parent''), toy_backend\<lparr>pendingBlock := toy_block (toy_block toy_genesis []) []\<rparr>)"
proof -
  have h: "bk_Hash (pendingBlock toy_backend) = 16" by (simp add: toy_defs)
  have f: "sim_Fork toy_core 16 toy_backend = (Ok (), toy_backend\<lparr>pendingBlock := toy_block (toy_block toy_genesis []) []\<rparr>)"
    by (simp add: toy_defs sim_Fork_def blockByHash_def sim_rollback_def added_def map_filter_def)
  show ?thesis
    using f fork_of_pending_block_strands [OF toy_core_laws, of toy_backend _ demo_tx, unfolded h, OF _ f]
    by (simp add: toy_defs)
qed

theorem TransactionInBlock_bounds_witness:
  "sim_TransactionInBlock toy_core 1 (- 1) toy_backend = Panic ''index out of range'' \<and>
   sim_TransactionInBlock toy_core 1 0 toy_backend = Err errTransactionDoesNotExist"
  using TransactionInBlock_bounds [of toy_core 1 toy_backend toy_genesis "- 1"] TransactionInBlock_bounds [of toy_core 1 toy_backend toy_genesis 0]
  by (simp add: toy_defs blockByHash_def)

end
