(* ===== verification/Gas_Estimation.thy ===== *)
theory Gas_Estimation
  imports Sim_Backend
begin

text \<open>
  \<^verbatim>\<open>ops/backends/simulated.go\<close>: contract calls on the simulated chain and the binary search for the gas a call
  needs. The EVM, the journal of the state database and the ABI's revert reasons are the record \<open>geth_evm\<close>. The
  search adds its bounds with 64 bits; it is a partial function, so that not returning is the value \<open>None\<close>.
\<close>

section \<open>Messages and results\<close>

record sim_CallMsg = CallMsg +
  msg_Gas :: uint64
  msg_GasPrice :: "big option"
  msg_AccessList :: "(address \<times> hash list) list"

record core_Message =
  cm_From :: address
  cm_To :: "address option"
  cm_Value :: big
  cm_GasLimit :: uint64
  cm_GasPrice :: big
  cm_GasFeeCap :: big
  cm_GasTipCap :: big
  cm_Data :: bytes
  cm_AccessList :: "(address \<times> hash list) list"
  cm_SkipAccountChecks :: bool

text \<open>A \<open>core.ExecutionResult\<close> through its field \<open>Err\<close> and its methods.\<close>

record ExecutionResult =
  res_Err :: "go_error option"
  res_Failed :: bool
  res_Return :: bytes
  res_Revert :: bytes

record ('c, 's) geth_evm =
  cfg_IsLondon :: "big \<Rightarrow> 'c \<Rightarrow> bool"
  core_ApplyMessage :: "sim_header \<Rightarrow> core_Message \<Rightarrow> 'c \<Rightarrow> ('s, ExecutionResult) call"
  st_SetBalance :: "address \<Rightarrow> big \<Rightarrow> 's \<Rightarrow> 's"
  st_Snapshot :: "'s \<Rightarrow> nat \<times> 's"
  st_RevertToSnapshot :: "nat \<Rightarrow> 's \<Rightarrow> 's"
  abi_UnpackRevert :: "bytes \<Rightarrow> string outcome"
  hexutil_Encode :: "bytes \<Rightarrow> string"

abbreviation vm_ErrOutOfGas :: go_error where "vm_ErrOutOfGas \<equiv> Sentinel ''out of gas''"
abbreviation core_ErrIntrinsicGas :: string where "core_ErrIntrinsicGas \<equiv> ''intrinsic gas too low''"
abbreviation ErrInsufficientFundsForTransfer :: go_error where
  "ErrInsufficientFundsForTransfer \<equiv> Sentinel ''insufficient funds for transfer''"
abbreviation both_prices :: go_error where
  "both_prices \<equiv> NewError ''both gasPrice and (maxFeePerGas or maxPriorityFeePerGas) specified''"

record revertError =
  re_error :: go_error
  re_reason :: string

definition newRevertError :: "('c, 's) geth_evm \<Rightarrow> ExecutionResult \<Rightarrow> revertError" where
  "newRevertError e res =
     \<lparr>re_error =
        (case abi_UnpackRevert e (res_Revert res) of
           Ok reason \<Rightarrow> NewError (''execution reverted: '' @ reason)
         | _ \<Rightarrow> NewError ''execution reverted''),
      re_reason = hexutil_Encode e (res_Revert res)\<rparr>"

definition ErrorCode :: "revertError \<Rightarrow> int" where "ErrorCode r = 3"

definition ErrorData :: "revertError \<Rightarrow> string" where "ErrorData r = re_reason r"

text \<open>A \<open>*revertError\<close> as an error value; \<open>Unwrap\<close> is not promoted from the embedded interface.\<close>

definition revert_error :: "revertError \<Rightarrow> go_error" where
  "revert_error r = Typed True ''revertError'' (error_msg (re_error r)) None"

section \<open>Calls\<close>

definition nil_as_zero :: "big option \<Rightarrow> big" where
  "nil_as_zero x = (case x of None \<Rightarrow> 0 | Some v \<Rightarrow> v)"

text \<open>The gas price, the fee cap and the tip cap of the message. \<open>head.BaseFee\<close> is added when a cap is set.\<close>

definition call_fees :: "bool \<Rightarrow> big option \<Rightarrow> sim_CallMsg \<Rightarrow> (big \<times> big \<times> big) outcome" where
  "call_fees london baseFee msg =
     (if \<not> london then let p = nil_as_zero (msg_GasPrice msg) in Ok (p, p, p)
      else case msg_GasPrice msg of
             Some p \<Rightarrow> Ok (p, p, p)
           | None \<Rightarrow>
               let feeCap = nil_as_zero (msg_GasFeeCap msg); tipCap = nil_as_zero (msg_GasTipCap msg)
               in if feeCap \<noteq> 0 \<or> tipCap \<noteq> 0
                  then (case baseFee of None \<Rightarrow> Panic nil_deref | Some bf \<Rightarrow> Ok (min (tipCap + bf) feeCap, feeCap, tipCap))
                  else Ok (0, feeCap, tipCap))"

definition core_message :: "sim_CallMsg \<Rightarrow> big \<times> big \<times> big \<Rightarrow> core_Message" where
  "core_message msg fees =
     \<lparr>cm_From = msg_From msg, cm_To = msg_To msg, cm_Value = nil_as_zero (msg_Value msg),
      cm_GasLimit = (if msg_Gas msg = 0 then 50000000 else msg_Gas msg),
      cm_GasPrice = fst fees, cm_GasFeeCap = fst (snd fees), cm_GasTipCap = snd (snd fees),
      cm_Data = msg_Data msg, cm_AccessList = msg_AccessList msg, cm_SkipAccountChecks = True\<rparr>"

definition callContract ::
    "('c, 's) geth_core \<Rightarrow> ('c, 's) geth_evm \<Rightarrow> sim_CallMsg \<Rightarrow> sim_header \<Rightarrow> 'c \<Rightarrow> ('s, ExecutionResult) call" where
  "callContract g e msg header c s =
     (if msg_GasPrice msg \<noteq> None \<and> (msg_GasFeeCap msg \<noteq> None \<or> msg_GasTipCap msg \<noteq> None) then (Err both_prices, s)
      else let head = bc_CurrentHeader g c
           in case call_fees (cfg_IsLondon e (hd_Number head) c) (hd_BaseFee head) msg of
                Err x \<Rightarrow> (Err x, s)
              | Panic p \<Rightarrow> (Panic p, s)
              | Ok fees \<Rightarrow>
                  core_ApplyMessage e header (core_message msg fees) c
                    (st_SetBalance e (msg_From msg) (2 ^ 256 - 1) (st_GetOrNewStateObject g (msg_From msg) s)))"

text \<open>What a caller makes of an execution: a revert reason, an error of the EVM, or the returned bytes.\<close>

definition call_result :: "('c, 's) geth_evm \<Rightarrow> ExecutionResult outcome \<Rightarrow> bytes outcome" where
  "call_result e r =
     bind_out r (\<lambda>res.
       if length (res_Revert res) > 0 then Err (revert_error (newRevertError e res))
       else case res_Err res of Some x \<Rightarrow> Err x | None \<Rightarrow> Ok (res_Return res))"

definition sim_CallContract ::
    "('c, 's) geth_core \<Rightarrow> ('c, 's) geth_evm \<Rightarrow> sim_CallMsg \<Rightarrow> big option \<Rightarrow> ('c, 's) SimulatedBackend \<Rightarrow> bytes outcome" where
  "sim_CallContract g e msg blockNumber b =
     (if blockNumber \<noteq> None \<and> blockNumber \<noteq> Some (hd_Number (bc_CurrentBlock g (blockchain b))) then Err errBlockNumberUnsupported
      else bind_out (bc_State g (blockchain b)) (\<lambda>s.
             call_result e (fst (callContract g e msg (bc_CurrentBlock g (blockchain b)) (blockchain b) s))))"

text \<open>The deferred call reverts the pending state on every way out, a panic included.\<close>

definition sim_PendingCallContract ::
    "('c, 's) geth_core \<Rightarrow> ('c, 's) geth_evm \<Rightarrow> sim_CallMsg \<Rightarrow> (('c, 's) SimulatedBackend, bytes) call" where
  "sim_PendingCallContract g e msg b =
     (case pendingState b of
        None \<Rightarrow> (Panic nil_deref, b)
      | Some s \<Rightarrow>
          (case st_Snapshot e s of
             (snapshot, s1) \<Rightarrow>
               (case callContract g e msg (bk_Header (pendingBlock b)) (blockchain b) s1 of
                  (r, s2) \<Rightarrow> (call_result e r, b\<lparr>pendingState := Some (st_RevertToSnapshot e snapshot s2)\<rparr>))))"

section \<open>Gas estimation\<close>

text \<open>\<open>new(big.Int).Div\<close> is Euclidean: the remainder is not negative.\<close>

definition big_Div :: "int \<Rightarrow> int \<Rightarrow> int" where
  "big_Div x y = sgn y * (x div \<bar>y\<bar>)"

definition fee_cap :: "sim_CallMsg \<Rightarrow> big outcome" where
  "fee_cap msg =
     (if msg_GasPrice msg \<noteq> None \<and> (msg_GasFeeCap msg \<noteq> None \<or> msg_GasTipCap msg \<noteq> None) then Err both_prices
      else case msg_GasPrice msg of
             Some p \<Rightarrow> Ok p
           | None \<Rightarrow> (case msg_GasFeeCap msg of Some p \<Rightarrow> Ok p | None \<Rightarrow> Ok 0))"

text \<open>The upper end of the search after the balance has been looked at.\<close>

definition recap :: "big \<Rightarrow> big option \<Rightarrow> big \<Rightarrow> uint64 \<Rightarrow> uint64 outcome" where
  "recap balance transfer feeCap hi =
     (if transfer \<noteq> None \<and> balance \<le> the transfer then Err ErrInsufficientFundsForTransfer
      else let allowance = big_Div (balance - nil_as_zero transfer) feeCap
           in if 0 \<le> allowance \<and> allowance < 2 ^ 64 \<and> (word_of_int allowance :: uint64) < hi
              then Ok (word_of_int allowance) else Ok hi)"

definition gas_cap :: "('c, 's) geth_core \<Rightarrow> sim_CallMsg \<Rightarrow> ('c, 's) SimulatedBackend \<Rightarrow> uint64 outcome" where
  "gas_cap g msg b =
     (let hi = (if 21000 \<le> msg_Gas msg then msg_Gas msg else hd_GasLimit (bk_Header (pendingBlock b)))
      in bind_out (fee_cap msg) (\<lambda>feeCap.
           if feeCap = 0 then Ok hi
           else case pendingState b of
                  None \<Rightarrow> Panic nil_deref
                | Some s \<Rightarrow> recap (st_GetBalance g (msg_From msg) s) (msg_Value msg) feeCap hi))"

text \<open>Whether a gas allowance fails, and the result when there is one.\<close>

definition executable ::
    "('c, 's) geth_core \<Rightarrow> ('c, 's) geth_evm \<Rightarrow> sim_CallMsg \<Rightarrow> sim_header \<Rightarrow> 'c \<Rightarrow> uint64 \<Rightarrow> ('s, bool \<times> ExecutionResult option) call" where
  "executable g e msg header c gas s =
     (case st_Snapshot e s of
        (snapshot, s1) \<Rightarrow>
          (case callContract g e (msg\<lparr>msg_Gas := gas\<rparr>) header c s1 of
             (Panic p, s2) \<Rightarrow> (Panic p, s2)
           | (Err x, s2) \<Rightarrow>
               ((if errors_Is x core_ErrIntrinsicGas then Ok (True, None) else Err x), st_RevertToSnapshot e snapshot s2)
           | (Ok res, s2) \<Rightarrow> (Ok (res_Failed res, Some res), st_RevertToSnapshot e snapshot s2)))"

text \<open>The loop over a test \<open>ex\<close>; \<open>None\<close> when it never ends.\<close>

partial_function (option) gas_search ::
    "(uint64 \<Rightarrow> ('s, bool \<times> ExecutionResult option) call) \<Rightarrow> uint64 \<Rightarrow> uint64 \<Rightarrow> 's \<Rightarrow> (uint64 outcome \<times> 's) option" where
  "gas_search ex lo hi s =
     (if lo + 1 < hi
      then (let mid = (hi + lo) div 2
            in case ex mid s of
                 (Panic p, s') \<Rightarrow> Some (Panic p, s')
               | (Err x, s') \<Rightarrow> Some (Err x, s')
               | (Ok (failed, _), s') \<Rightarrow> (if failed then gas_search ex mid hi s' else gas_search ex lo mid s'))
      else Some (Ok hi, s))"

declare gas_search.simps [code]

text \<open>The last test, made when the search has not moved its upper end.\<close>

definition at_cap :: "('c, 's) geth_evm \<Rightarrow> uint64 \<Rightarrow> bool \<times> ExecutionResult option \<Rightarrow> uint64 outcome" where
  "at_cap e cap fr =
     (case fr of
        (False, _) \<Rightarrow> Ok cap
      | (True, Some res) \<Rightarrow>
          if res_Err res \<noteq> Some vm_ErrOutOfGas
          then (if length (res_Revert res) > 0 then Err (revert_error (newRevertError e res))
                else case res_Err res of Some x \<Rightarrow> Err x | None \<Rightarrow> Ok 0)
          else Err (NewError (''gas required exceeds allowance ('' @ show_nat (unat cap) @ '')''))
      | (True, None) \<Rightarrow> Err (NewError (''gas required exceeds allowance ('' @ show_nat (unat cap) @ '')'')))"

definition finish_estimate ::
    "('c, 's) geth_evm \<Rightarrow> (uint64 \<Rightarrow> ('s, bool \<times> ExecutionResult option) call) \<Rightarrow> uint64 \<Rightarrow> uint64 outcome \<times> 's \<Rightarrow> uint64 outcome \<times> 's" where
  "finish_estimate e ex cap rs =
     (case rs of
        (Ok hi, s) \<Rightarrow>
          if hi = cap then (case ex hi s of (r, s') \<Rightarrow> (bind_out r (at_cap e cap), s')) else (Ok hi, s)
      | (Err x, s) \<Rightarrow> (Err x, s)
      | (Panic p, s) \<Rightarrow> (Panic p, s))"

definition sim_EstimateGas ::
    "('c, 's) geth_core \<Rightarrow> ('c, 's) geth_evm \<Rightarrow> sim_CallMsg \<Rightarrow> ('c, 's) SimulatedBackend \<Rightarrow>
     (uint64 outcome \<times> ('c, 's) SimulatedBackend) option" where
  "sim_EstimateGas g e msg b =
     (case gas_cap g msg b of
        Err x \<Rightarrow> Some (Err x, b)
      | Panic p \<Rightarrow> Some (Panic p, b)
      | Ok cap \<Rightarrow>
          (case pendingState b of
             None \<Rightarrow> Some (Panic nil_deref, b)
           | Some s \<Rightarrow>
               let ex = executable g e msg (bk_Header (pendingBlock b)) (blockchain b)
               in case gas_search ex 20999 cap s of
                    None \<Rightarrow> None
                  | Some rs \<Rightarrow> (case finish_estimate e ex cap rs of (r, s') \<Rightarrow> Some (r, b\<lparr>pendingState := Some s'\<rparr>))))"

section \<open>What the EVM and the journal promise\<close>

text \<open>
  What go-ethereum documents of each operation. \<open>view\<close> is the content of the state database and \<open>marks\<close> the
  revisions it can return to, with the content each of them stands for: taking a snapshot adds one, writing to an account and
  executing a message keep those there are, reverting brings the content back. What an operation does to the content, and the
  answer of an execution, depend on the content only; a failed result carries an error.
\<close>

definition journal_laws :: "('c, 's) geth_core \<Rightarrow> ('c, 's) geth_evm \<Rightarrow> ('s \<Rightarrow> 'v) \<Rightarrow> ('s \<Rightarrow> nat \<Rightarrow> 'v option) \<Rightarrow> bool" where
  "journal_laws g e view marks \<longleftrightarrow>
     (\<forall>s. view (snd (st_Snapshot e s)) = view s \<and> marks (snd (st_Snapshot e s)) = (marks s)(fst (st_Snapshot e s) \<mapsto> view s)) \<and>
     (\<forall>s i v. marks s i = Some v \<longrightarrow> view (st_RevertToSnapshot e i s) = v) \<and>
     (\<forall>s a. marks (st_GetOrNewStateObject g a s) = marks s) \<and>
     (\<forall>s a x. marks (st_SetBalance e a x s) = marks s) \<and>
     (\<forall>s h m c i v. marks s i = Some v \<longrightarrow> marks (snd (core_ApplyMessage e h m c s)) i = Some v)"

definition content_laws :: "('c, 's) geth_core \<Rightarrow> ('c, 's) geth_evm \<Rightarrow> ('s \<Rightarrow> 'v) \<Rightarrow> bool" where
  "content_laws g e view \<longleftrightarrow>
     (\<forall>s t a. view s = view t \<longrightarrow> view (st_GetOrNewStateObject g a s) = view (st_GetOrNewStateObject g a t)) \<and>
     (\<forall>s t a x. view s = view t \<longrightarrow> view (st_SetBalance e a x s) = view (st_SetBalance e a x t)) \<and>
     (\<forall>s t a. view s = view t \<longrightarrow> st_GetBalance g a s = st_GetBalance g a t) \<and>
     (\<forall>s t h m c. view s = view t \<longrightarrow> fst (core_ApplyMessage e h m c s) = fst (core_ApplyMessage e h m c t)) \<and>
     (\<forall>h m c s res s'. core_ApplyMessage e h m c s = (Ok res, s') \<longrightarrow> (res_Failed res \<longleftrightarrow> res_Err res \<noteq> None))"

definition evm_laws :: "('c, 's) geth_core \<Rightarrow> ('c, 's) geth_evm \<Rightarrow> ('s \<Rightarrow> 'v) \<Rightarrow> ('s \<Rightarrow> nat \<Rightarrow> 'v option) \<Rightarrow> bool" where
  "evm_laws g e view marks \<longleftrightarrow> journal_laws g e view marks \<and> content_laws g e view"

lemma journalD:
  assumes "evm_laws g e view marks"
  shows snap_view: "view (snd (st_Snapshot e s)) = view s"
    and snap_marks: "marks (snd (st_Snapshot e s)) = (marks s)(fst (st_Snapshot e s) \<mapsto> view s)"
    and revert_mark: "marks s i = Some v \<Longrightarrow> view (st_RevertToSnapshot e i s) = v"
    and object_marks: "marks (st_GetOrNewStateObject g a s) = marks s"
    and balance_marks: "marks (st_SetBalance e a x s) = marks s"
    and apply_marks: "marks s i = Some v \<Longrightarrow> marks (snd (core_ApplyMessage e h m c s)) i = Some v"
  using assms by (simp_all add: evm_laws_def journal_laws_def)

lemma contentD:
  assumes "evm_laws g e view marks"
  shows object_view: "view s = view t \<Longrightarrow> view (st_GetOrNewStateObject g a s) = view (st_GetOrNewStateObject g a t)"
    and balance_view: "view s = view t \<Longrightarrow> view (st_SetBalance e a x s) = view (st_SetBalance e a x t)"
    and get_balance_view: "view s = view t \<Longrightarrow> st_GetBalance g a s = st_GetBalance g a t"
    and apply_view: "view s = view t \<Longrightarrow> fst (core_ApplyMessage e h m c s) = fst (core_ApplyMessage e h m c t)"
    and failed_err: "core_ApplyMessage e h m c s = (Ok res, s') \<Longrightarrow> res_Failed res \<longleftrightarrow> res_Err res \<noteq> None"
  using assms unfolding evm_laws_def content_laws_def by metis+

lemma callContract_view:
  assumes "evm_laws g e view marks" "view s = view t"
  shows "fst (callContract g e msg header c s) = fst (callContract g e msg header c t)"
  using apply_view [OF assms(1) balance_view [OF assms(1) object_view [OF assms]]]
  by (auto simp: callContract_def Let_def split: outcome.splits)

lemma callContract_marks:
  assumes "evm_laws g e view marks" "marks s i = Some v"
  shows "marks (snd (callContract g e msg header c s)) i = Some v"
  using apply_marks [OF assms(1)] assms(2)
  by (auto simp: callContract_def Let_def balance_marks [OF assms(1)] object_marks [OF assms(1)] split: outcome.splits)

lemma callContract_reverted:
  assumes "evm_laws g e view marks"
  shows "view (st_RevertToSnapshot e (fst (st_Snapshot e s)) (snd (callContract g e msg header c (snd (st_Snapshot e s))))) = view s"
  by (rule revert_mark [OF assms callContract_marks [OF assms]]) (simp add: snap_marks [OF assms])

lemma callContract_failed_err:
  assumes "evm_laws g e view marks" "callContract g e msg header c s = (Ok res, s')"
  shows "res_Failed res \<longleftrightarrow> res_Err res \<noteq> None"
  using assms(2) failed_err [OF assms(1)]
  by (auto simp: callContract_def Let_def split: outcome.splits if_splits)

lemma fst_executable:
  "fst (executable g e msg header c gas s) =
     (case fst (callContract g e (msg\<lparr>msg_Gas := gas\<rparr>) header c (snd (st_Snapshot e s))) of
        Panic p \<Rightarrow> Panic p
      | Err x \<Rightarrow> if errors_Is x core_ErrIntrinsicGas then Ok (True, None) else Err x
      | Ok res \<Rightarrow> Ok (res_Failed res, Some res))"
  by (auto simp: executable_def split: prod.splits outcome.splits)

lemma executable_view:
  assumes "evm_laws g e view marks" "view s = view s'"
  shows "fst (executable g e msg header c gas s) = fst (executable g e msg header c gas s')"
proof -
  have "view (snd (st_Snapshot e s)) = view (snd (st_Snapshot e s'))"
    using assms(2) snap_view [OF assms(1)] by simp
  from callContract_view [OF assms(1) this] show ?thesis by (simp add: fst_executable)
qed

lemma executable_reverted:
  assumes "evm_laws g e view marks" "executable g e msg header c gas s = (r, s')" "\<And>p. r \<noteq> Panic p"
  shows "view s' = view s"
  using assms(2,3) callContract_reverted [OF assms(1), of s "msg\<lparr>msg_Gas := gas\<rparr>" header c]
  by (auto simp: executable_def split: prod.splits outcome.splits)

lemma executable_failed:
  assumes "evm_laws g e view marks" "executable g e msg header c gas s = (Ok (failed, Some res), s')"
  shows "failed \<longleftrightarrow> res_Err res \<noteq> None"
  using assms(2) callContract_failed_err [OF assms(1)]
  by (auto simp: executable_def split: prod.splits outcome.splits if_splits)

section \<open>Queries of the pending state\<close>

text \<open>
  A query is a call or an estimate on the pending state. A panic of an estimate ends the program before the snapshot is reverted;
  a run of queries stops there, and at an estimate that does not return.
\<close>

datatype pending_query = AskCall sim_CallMsg | AskGas sim_CallMsg

datatype pending_answer = CallAnswer "bytes outcome" | GasAnswer "uint64 outcome"

fun ask ::
    "('c, 's) geth_core \<Rightarrow> ('c, 's) geth_evm \<Rightarrow> pending_query \<Rightarrow> ('c, 's) SimulatedBackend \<Rightarrow> (pending_answer \<times> ('c, 's) SimulatedBackend) option" where
  "ask g e (AskCall msg) b = (case sim_PendingCallContract g e msg b of (r, b') \<Rightarrow> Some (CallAnswer r, b'))"
| "ask g e (AskGas msg) b = map_option (\<lambda>(r, b'). (GasAnswer r, b')) (sim_EstimateGas g e msg b)"

fun ends_program :: "pending_answer \<Rightarrow> bool" where
  "ends_program (CallAnswer r) = False"
| "ends_program (GasAnswer r) = (case r of Panic p \<Rightarrow> True | _ \<Rightarrow> False)"

fun ask_all ::
    "('c, 's) geth_core \<Rightarrow> ('c, 's) geth_evm \<Rightarrow> pending_query list \<Rightarrow> ('c, 's) SimulatedBackend \<Rightarrow> ('c, 's) SimulatedBackend option" where
  "ask_all g e [] b = Some b"
| "ask_all g e (q # qs) b =
     (case ask g e q b of None \<Rightarrow> None | Some (r, b') \<Rightarrow> if ends_program r then None else ask_all g e qs b')"

text \<open>The answer of a test depends on the content only, and the test leaves the content as it is unless it panics.\<close>

definition harmless :: "('s \<Rightarrow> 'v) \<Rightarrow> (uint64 \<Rightarrow> ('s, bool \<times> ExecutionResult option) call) \<Rightarrow> bool" where
  "harmless view ex \<longleftrightarrow>
     (\<forall>gas s t. view s = view t \<longrightarrow> fst (ex gas s) = fst (ex gas t)) \<and>
     (\<forall>gas s. (\<forall>p. fst (ex gas s) \<noteq> Panic p) \<longrightarrow> view (snd (ex gas s)) = view s)"

lemma executable_harmless: "evm_laws g e view marks \<Longrightarrow> harmless view (executable g e msg header c)"
  unfolding harmless_def
proof (intro conjI allI impI)
  assume laws: "evm_laws g e view marks"
  show "fst (executable g e msg header c gas s) = fst (executable g e msg header c gas t)" if "view s = view t" for gas s t
    by (rule executable_view [OF laws that])
  show "view (snd (executable g e msg header c gas s)) = view s" if "\<forall>p. fst (executable g e msg header c gas s) \<noteq> Panic p" for gas s
    by (rule executable_reverted [OF laws prod.collapse [symmetric]]) (use that in blast)
qed

lemma harmlessE:
  assumes "harmless view ex" "view t = view s" "ex gas s = (r, s')"
  obtains t' where "ex gas t = (r, t')" "(\<forall>p. r \<noteq> Panic p) \<Longrightarrow> view s' = view s \<and> view t' = view s"
proof -
  have a: "fst (ex gas t) = r" using assms unfolding harmless_def by (metis fst_conv)
  show thesis
  proof (rule that [of "snd (ex gas t)"])
    show "ex gas t = (r, snd (ex gas t))" using a by (metis prod.collapse)
    show "view s' = view s \<and> view (snd (ex gas t)) = view s" if "\<forall>p. r \<noteq> Panic p"
      using assms a that unfolding harmless_def by (metis fst_conv snd_conv)
  qed
qed

section \<open>The binary search\<close>

text \<open>
  A test that answers every allowance with \<open>verdict\<close> in the states \<open>st_ok\<close> and stays in them.
\<close>

definition steady :: "(uint64 \<Rightarrow> ('s, bool \<times> ExecutionResult option) call) \<Rightarrow> ('s \<Rightarrow> bool) \<Rightarrow> (uint64 \<Rightarrow> bool) \<Rightarrow> bool" where
  "steady ex st_ok verdict \<longleftrightarrow> (\<forall>gas s. st_ok s \<longrightarrow> (\<exists>r s'. ex gas s = (Ok (verdict gas, r), s') \<and> st_ok s'))"

lemma steadyE:
  assumes "steady ex st_ok verdict" "st_ok s"
  obtains r s' where "ex gas s = (Ok (verdict gas, r), s')" "st_ok s'"
  using assms unfolding steady_def by blast

lemma mid_between:
  fixes lo hi :: uint64
  assumes "lo + 1 < hi" "unat hi < 2 ^ 63" "lo < hi"
  shows "unat ((hi + lo) div 2) = (unat hi + unat lo) div 2" "lo < (hi + lo) div 2" "(hi + lo) div 2 < hi"
proof -
  have l: "unat lo < unat hi" using assms(3) by (simp add: word_less_nat_alt)
  then have "unat lo + 1 < unat hi"
    using assms(1,2) unat_add_no_wrap [of lo 1] by (simp add: word_less_nat_alt)
  moreover have "unat (hi + lo) = unat hi + unat lo" using assms(2) l by (intro unat_add_no_wrap) simp
  then show m: "unat ((hi + lo) div 2) = (unat hi + unat lo) div 2" by (simp add: unat_div)
  ultimately show "lo < (hi + lo) div 2" "(hi + lo) div 2 < hi" by (simp_all add: word_less_nat_alt m)
qed

lemma gas_search_returns:
  assumes "steady ex st_ok verdict" "st_ok s" "lo < hi" "unat hi < 2 ^ 63"
  shows "\<exists>m s'. gas_search ex lo hi s = Some (Ok m, s') \<and> st_ok s' \<and> lo < m \<and> m \<le> hi \<and>
    (m \<noteq> hi \<longrightarrow> \<not> verdict m) \<and> (m \<noteq> lo + 1 \<longrightarrow> verdict (m - 1))"
  using assms(2-4)
proof (induction "unat hi - unat lo" arbitrary: lo hi s rule: less_induct)
  case less
  show ?case
  proof (cases "lo + 1 < hi")
    case False
    have "unat (lo + 1) = unat lo + 1"
      using less.prems(2,3) by (intro unat_plus_1) (auto simp: word_less_nat_alt unat_minus_1)
    then have "hi = lo + 1" using False less.prems(2) by (simp add: word_less_nat_alt word_unat_eq_iff)
    with less.prems show ?thesis by (simp add: gas_search.simps [of ex lo])
  next
    case True
    note mid = mid_between [OF True less.prems(3,2)]
    let ?mid = "(hi + lo) div 2"
    obtain r s1 where t: "ex ?mid s = (Ok (verdict ?mid, r), s1)" "st_ok s1"
      using steadyE [OF assms(1) less.prems(1)] by metis
    have dec: "unat hi - unat ?mid < unat hi - unat lo" "unat ?mid - unat lo < unat hi - unat lo" "unat ?mid < 2 ^ 63"
      using mid(2,3) less.prems(2,3) by (auto simp: word_less_nat_alt)
    show ?thesis
    proof (cases "verdict ?mid")
      case v: True
      obtain m s2 where m: "gas_search ex ?mid hi s1 = Some (Ok m, s2)" "st_ok s2" "?mid < m" "m \<le> hi"
        "m \<noteq> hi \<longrightarrow> \<not> verdict m" "m \<noteq> ?mid + 1 \<longrightarrow> verdict (m - 1)"
        using less.hyps [OF dec(1) t(2) mid(3) less.prems(3)] by blast
      have "gas_search ex lo hi s = Some (Ok m, s2)" using True t v m(1) by (simp add: gas_search.simps [of ex lo] Let_def)
      moreover have "verdict (m - 1)" using m(6) v by (cases "m = ?mid + 1") auto
      ultimately show ?thesis using m mid(2) by (intro exI [of _ m] exI [of _ s2]) auto
    next
      case v: False
      obtain m s2 where m: "gas_search ex lo ?mid s1 = Some (Ok m, s2)" "st_ok s2" "lo < m" "m \<le> ?mid"
        "m \<noteq> ?mid \<longrightarrow> \<not> verdict m" "m \<noteq> lo + 1 \<longrightarrow> verdict (m - 1)"
        using less.hyps [OF dec(2) t(2) mid(2) dec(3)] by blast
      have "gas_search ex lo hi s = Some (Ok m, s2)" using True t v m(1) by (simp add: gas_search.simps [of ex lo] Let_def)
      moreover have "\<not> verdict m" using m(5) v by (cases "m = ?mid") auto
      moreover have "m \<le> hi" using m(4) mid(3) by simp
      ultimately show ?thesis using m by blast
    qed
  qed
qed

lemma gas_search_small: "\<not> lo + 1 < hi \<Longrightarrow> gas_search ex lo hi s = Some (Ok hi, s)"
  by (simp add: gas_search.simps [of ex lo])

section \<open>Queries leave no trace\<close>

text \<open>A search that returns, returns the same on every state of the same content, and leaves the content as it is unless it panics.\<close>

lemma gas_search_same:
  assumes "gas_search ex lo hi s = Some y"
  shows "harmless view ex \<longrightarrow> view t = view s \<longrightarrow>
    (\<exists>t'. gas_search ex lo hi t = Some (fst y, t') \<and> ((\<forall>p. fst y \<noteq> Panic p) \<longrightarrow> view (snd y) = view s \<and> view t' = view s))"
proof (rule gas_search.raw_induct
    [where P = "\<lambda>ex lo hi s y. \<forall>t. harmless view ex \<longrightarrow> view t = view s \<longrightarrow>
       (\<exists>t'. gas_search ex lo hi t = Some (fst y, t') \<and> ((\<forall>p. fst y \<noteq> Panic p) \<longrightarrow> view (snd y) = view s \<and> view t' = view s))",
     OF _ assms, THEN spec], intro allI impI)
  fix search ex and lo hi :: uint64 and s y t
  assume IH: "\<And>ex lo hi s y. search ex lo hi s = Some y \<Longrightarrow> \<forall>t. harmless view ex \<longrightarrow> view t = view s \<longrightarrow>
      (\<exists>t'. gas_search ex lo hi t = Some (fst y, t') \<and> ((\<forall>p. fst y \<noteq> Panic p) \<longrightarrow> view (snd y) = view s \<and> view t' = view s))"
    and body: "(if lo + 1 < hi
      then (let mid = (hi + lo) div 2
            in case ex mid s of
                 (Ok (failed, _), s') \<Rightarrow> (if failed then search ex mid hi s' else search ex lo mid s')
               | (Err x, s') \<Rightarrow> Some (Err x, s')
               | (Panic p, s') \<Rightarrow> Some (Panic p, s'))
      else Some (Ok hi, s)) = Some y"
    and h: "harmless view ex" "view t = view s"
  show "\<exists>t'. gas_search ex lo hi t = Some (fst y, t') \<and> ((\<forall>p. fst y \<noteq> Panic p) \<longrightarrow> view (snd y) = view s \<and> view t' = view s)"
  proof (cases "lo + 1 < hi")
    case False
    then show ?thesis using body h(2) by (auto simp: gas_search.simps [of ex lo])
  next
    case True
    let ?mid = "(hi + lo) div 2"
    obtain r s1 where s1: "ex ?mid s = (r, s1)" by fastforce
    obtain t1 where t1: "ex ?mid t = (r, t1)" "(\<forall>p. r \<noteq> Panic p) \<Longrightarrow> view s1 = view s \<and> view t1 = view s"
      using harmlessE [OF h s1] by metis
    show ?thesis
    proof (cases r)
      case (Ok fr)
      obtain f q where fr: "fr = (f, q)" by fastforce
      have v: "view s1 = view s" "view t1 = view s1" using t1(2) Ok by simp_all
      have "(if f then search ex ?mid hi s1 else search ex lo ?mid s1) = Some y"
        using body True s1 Ok fr by (simp add: Let_def)
      then have "\<exists>t'. (if f then gas_search ex ?mid hi t1 else gas_search ex lo ?mid t1) = Some (fst y, t') \<and>
          ((\<forall>p. fst y \<noteq> Panic p) \<longrightarrow> view (snd y) = view s1 \<and> view t' = view s1)"
        using IH h(1) v(2) by (cases f) auto
      then show ?thesis using True t1(1) Ok fr v(1) by (simp add: gas_search.simps [of ex lo] Let_def)
    qed (use body True s1 t1 in \<open>auto simp: gas_search.simps [of ex lo] Let_def\<close>)
  qed
qed

lemma finish_same:
  assumes "harmless view ex" "view t = view s" "finish_estimate e ex cap (r, s) = (r', s')"
  shows "\<exists>t'. finish_estimate e ex cap (r, t) = (r', t') \<and> ((\<forall>p. r' \<noteq> Panic p) \<longrightarrow> view s' = view s)"
proof (cases "r = Ok cap")
  case True
  obtain x s1 where s1: "ex cap s = (x, s1)" by fastforce
  obtain t1 where "ex cap t = (x, t1)" "(\<forall>p. x \<noteq> Panic p) \<Longrightarrow> view s1 = view s" using harmlessE [OF assms(1,2) s1] by metis
  then show ?thesis using True assms(3) s1 by (cases x) (auto simp: finish_estimate_def bind_out_def)
qed (use assms in \<open>cases r; auto simp: finish_estimate_def split: if_splits\<close>)

lemma pending_id: "pendingState b = Some s \<Longrightarrow> b\<lparr>pendingState := Some s\<rparr> = b"
  by (metis SimulatedBackend.surjective SimulatedBackend.update_convs(3))

lemma gas_cap_view:
  assumes "evm_laws g e view marks" "pendingState b = Some s" "view t = view s"
  shows "gas_cap g msg (b\<lparr>pendingState := Some t\<rparr>) = gas_cap g msg b"
  using get_balance_view [OF assms(1,3)] assms(2) by (simp add: gas_cap_def Let_def cong: if_cong)

lemma EstimateGas_same:
  assumes "evm_laws g e view marks" "pendingState b = Some s" "view t = view s" "sim_EstimateGas g e msg b = Some (r, b')"
  shows "\<exists>s' t'. b' = b\<lparr>pendingState := Some s'\<rparr> \<and> sim_EstimateGas g e msg (b\<lparr>pendingState := Some t\<rparr>) = Some (r, b\<lparr>pendingState := Some t'\<rparr>) \<and>
    ((\<forall>p. r \<noteq> Panic p) \<longrightarrow> view s' = view s)"
proof (cases "gas_cap g msg b")
  case (Ok cap)
  let ?ex = "executable g e msg (bk_Header (pendingBlock b)) (blockchain b)"
  note h = executable_harmless [OF assms(1), of msg "bk_Header (pendingBlock b)" "blockchain b"]
  obtain x s1 where x: "gas_search ?ex 20999 cap s = Some (x, s1)"
    using assms(2,4) Ok by (auto simp: sim_EstimateGas_def Let_def split: option.splits)
  then obtain s2 where s2: "finish_estimate e ?ex cap (x, s1) = (r, s2)" "b' = b\<lparr>pendingState := Some s2\<rparr>"
    using assms(2,4) Ok by (auto simp: sim_EstimateGas_def Let_def split: prod.splits)
  obtain t1 where t1: "gas_search ?ex 20999 cap t = Some (x, t1)" "(\<forall>p. x \<noteq> Panic p) \<longrightarrow> view s1 = view s \<and> view t1 = view s"
    using gas_search_same [OF x, of view t] h assms(3) by auto
  show ?thesis
  proof (cases "\<exists>p. x = Panic p")
    case True
    then have "finish_estimate e ?ex cap (x, t1) = (r, t1)" "s2 = s1" "\<exists>p. r = Panic p"
      using s2(1) by (auto simp: finish_estimate_def)
    then show ?thesis using Ok gas_cap_view [OF assms(1-3)] t1(1) s2(2)
      by (intro exI [of _ s2] exI [of _ t1]) (auto simp: sim_EstimateGas_def Let_def)
  next
    case False
    then have v: "view s1 = view s" "view t1 = view s1" using t1(2) by auto
    from finish_same [OF h v(2) s2(1)] obtain t2 where "finish_estimate e ?ex cap (x, t1) = (r, t2)" "(\<forall>p. r \<noteq> Panic p) \<longrightarrow> view s2 = view s1"
      by blast
    then show ?thesis using Ok gas_cap_view [OF assms(1-3)] t1(1) s2(2) v(1)
      by (intro exI [of _ s2] exI [of _ t2]) (simp add: sim_EstimateGas_def Let_def)
  qed
next
  case (Err x)
  then have "b' = b" "r = Err x" "gas_cap g msg (b\<lparr>pendingState := Some t\<rparr>) = Err x"
    using assms(4) gas_cap_view [OF assms(1-3)] by (simp_all add: sim_EstimateGas_def)
  then show ?thesis using pending_id [OF assms(2)] by (intro exI [of _ s] exI [of _ t]) (simp add: sim_EstimateGas_def)
next
  case (Panic p)
  then have "b' = b" "r = Panic p" "gas_cap g msg (b\<lparr>pendingState := Some t\<rparr>) = Panic p"
    using assms(4) gas_cap_view [OF assms(1-3)] by (simp_all add: sim_EstimateGas_def)
  then show ?thesis using pending_id [OF assms(2)] by (intro exI [of _ s] exI [of _ t]) (simp add: sim_EstimateGas_def)
qed

lemma PendingCall_same:
  assumes "evm_laws g e view marks" "pendingState b = Some s" "view t = view s" "sim_PendingCallContract g e msg b = (r, b')"
  shows "\<exists>s' t'. b' = b\<lparr>pendingState := Some s'\<rparr> \<and> sim_PendingCallContract g e msg (b\<lparr>pendingState := Some t\<rparr>) = (r, b\<lparr>pendingState := Some t'\<rparr>) \<and>
    view s' = view s"
proof -
  let ?call = "callContract g e msg (bk_Header (pendingBlock b)) (blockchain b)"
  let ?s' = "st_RevertToSnapshot e (fst (st_Snapshot e s)) (snd (?call (snd (st_Snapshot e s))))"
  have b': "b' = b\<lparr>pendingState := Some ?s'\<rparr>" and r: "r = call_result e (fst (?call (snd (st_Snapshot e s))))"
    using assms(2,4) by (auto simp: sim_PendingCallContract_def split: prod.splits)
  have "fst (?call (snd (st_Snapshot e t))) = fst (?call (snd (st_Snapshot e s)))"
    by (rule callContract_view [OF assms(1)]) (simp add: snap_view [OF assms(1)] assms(3))
  then show ?thesis using b' r callContract_reverted [OF assms(1)]
    by (auto simp: sim_PendingCallContract_def split: prod.splits)
qed

lemma ask_same:
  assumes "evm_laws g e view marks" "pendingState b = Some s" "view t = view s" "ask g e q b = Some (r, b')"
  shows "\<exists>s' t'. b' = b\<lparr>pendingState := Some s'\<rparr> \<and> ask g e q (b\<lparr>pendingState := Some t\<rparr>) = Some (r, b\<lparr>pendingState := Some t'\<rparr>) \<and>
    (\<not> ends_program r \<longrightarrow> view s' = view s)"
proof (cases q)
  case (AskCall msg)
  then obtain x where "sim_PendingCallContract g e msg b = (x, b')" "r = CallAnswer x" using assms(4) by (auto split: prod.splits)
  with PendingCall_same [OF assms(1-3)] AskCall show ?thesis by fastforce
next
  case (AskGas msg)
  then obtain x where x: "sim_EstimateGas g e msg b = Some (x, b')" "r = GasAnswer x" using assms(4) by auto
  from EstimateGas_same [OF assms(1-3) x(1)] x(2) AskGas show ?thesis by (fastforce split: outcome.splits)
qed

lemma ask_answer:
  assumes "evm_laws g e view marks" "pendingState b = Some s" "view t = view s"
  shows "map_option fst (ask g e q (b\<lparr>pendingState := Some t\<rparr>)) = map_option fst (ask g e q b)"
proof (cases "ask g e q b")
  case (Some x)
  then show ?thesis using ask_same [OF assms, of q "fst x" "snd x"] by auto
next
  case None
  have "ask g e q (b\<lparr>pendingState := Some t\<rparr>) = None"
  proof (rule ccontr)
    assume "ask g e q (b\<lparr>pendingState := Some t\<rparr>) \<noteq> None"
    then obtain r b' where "ask g e q (b\<lparr>pendingState := Some t\<rparr>) = Some (r, b')" by auto
    from ask_same [OF assms(1) _ assms(3) [symmetric] this] assms(2)
    have "\<exists>t'. ask g e q (b\<lparr>pendingState := Some s\<rparr>) = Some (r, b\<lparr>pendingState := Some t'\<rparr>)" by auto
    then show False using None pending_id [OF assms(2)] by simp
  qed
  with None show ?thesis by simp
qed

text \<open>
  C33: queries of the pending state leave no trace. Although a call on the pending state gives its caller an unlimited balance and
  executes the message, and an estimate does so many times, after any run of calls and estimates that returned the chain, the pending block
  and its receipts are the same, the pending state has the content it had, and every query gets the answer it would have got before the run.
\<close>

theorem pending_queries_leave_no_trace:
  assumes "evm_laws g e view marks" "pendingState b = Some s" "ask_all g e qs b = Some b'"
  shows "\<exists>s'. b' = b\<lparr>pendingState := Some s'\<rparr> \<and> view s' = view s \<and> (\<forall>q. map_option fst (ask g e q b') = map_option fst (ask g e q b))"
proof -
  have "\<exists>s'. b' = b\<lparr>pendingState := Some s'\<rparr> \<and> view s' = view s"
    using assms(2,3)
  proof (induction qs arbitrary: b s)
    case Nil
    then show ?case by (auto intro: exI [of _ s])
  next
    case (Cons q qs)
    then obtain r b1 where b1: "ask g e q b = Some (r, b1)" "\<not> ends_program r" "ask_all g e qs b1 = Some b'"
      by (auto split: option.splits if_splits)
    from ask_same [OF assms(1) Cons.prems(1) refl b1(1)] b1(2) obtain s1 where "b1 = b\<lparr>pendingState := Some s1\<rparr>" "view s1 = view s" by blast
    with Cons.IH [of b1 s1] b1(3) show ?case by auto
  qed
  then show ?thesis using ask_answer [OF assms(1,2)] by blast
qed

section \<open>What EstimateGas returns\<close>

text \<open>
  \<open>gas_fails\<close> is the answer of the test on the pending state; \<open>gas_accepted\<close> holds when the message is never
  refused as such, so that every allowance gets an answer.
\<close>

definition gas_fails :: "('c, 's) geth_core \<Rightarrow> ('c, 's) geth_evm \<Rightarrow> sim_CallMsg \<Rightarrow> ('c, 's) SimulatedBackend \<Rightarrow> uint64 \<Rightarrow> bool" where
  "gas_fails g e msg b gas =
     (case pendingState b of
        None \<Rightarrow> True
      | Some s \<Rightarrow>
          (case fst (executable g e msg (bk_Header (pendingBlock b)) (blockchain b) gas s) of Ok (failed, _) \<Rightarrow> failed | _ \<Rightarrow> True))"

definition gas_accepted :: "('c, 's) geth_core \<Rightarrow> ('c, 's) geth_evm \<Rightarrow> sim_CallMsg \<Rightarrow> ('c, 's) SimulatedBackend \<Rightarrow> bool" where
  "gas_accepted g e msg b \<longleftrightarrow>
     (\<exists>s. pendingState b = Some s \<and>
        (\<forall>gas. is_Ok (fst (executable g e msg (bk_Header (pendingBlock b)) (blockchain b) gas s))))"

lemma executable_steady:
  assumes "evm_laws g e view marks" "gas_accepted g e msg b" "pendingState b = Some s"
  shows "steady (executable g e msg (bk_Header (pendingBlock b)) (blockchain b)) (\<lambda>x. view x = view s) (gas_fails g e msg b)"
  unfolding steady_def
proof (intro allI impI)
  fix gas x
  assume x: "view x = view s"
  let ?ex = "executable g e msg (bk_Header (pendingBlock b)) (blockchain b) gas"
  obtain f r where f: "fst (?ex s) = Ok (f, r)"
    using assms(2,3) unfolding gas_accepted_def is_Ok_conv by (metis option.inject surj_pair)
  then have "f = gas_fails g e msg b gas" using assms(3) by (simp add: gas_fails_def)
  moreover obtain x' where x': "?ex x = (Ok (f, r), x')"
    using f executable_view [OF assms(1) x] by (metis prod.collapse)
  moreover have "view x' = view s" using executable_reverted [OF assms(1) x'] x by simp
  ultimately show "\<exists>r x'. ?ex x = (Ok (gas_fails g e msg b gas, r), x') \<and> view x' = view s" by blast
qed

lemma at_cap_fails:
  assumes "evm_laws g e view marks" "executable g e msg header c gas s = (Ok (True, r), s')"
  shows "\<exists>x. at_cap e cap (True, r) = Err x"
  using executable_failed [OF assms(1), of msg header c gas s True _ s'] assms(2) by (cases r) (auto simp: at_cap_def)

lemma sim_EstimateGas_cases:
  assumes "evm_laws g e view marks" "gas_accepted g e msg b" "pendingState b = Some s" "gas_cap g msg b = Ok cap"
    and "gas_search (executable g e msg (bk_Header (pendingBlock b)) (blockchain b)) 20999 cap s = Some (Ok m, s1)"
    and "view s1 = view s"
  shows "\<exists>r s'. sim_EstimateGas g e msg b = Some (r, b\<lparr>pendingState := Some s'\<rparr>) \<and> view s' = view s \<and>
    (if m = cap \<and> gas_fails g e msg b cap then \<exists>x. r = Err x else r = Ok m)"
proof (cases "m = cap")
  case False
  then show ?thesis using assms(3-6) by (auto simp: sim_EstimateGas_def finish_estimate_def Let_def)
next
  case True
  obtain r s2 where t: "executable g e msg (bk_Header (pendingBlock b)) (blockchain b) cap s1 = (Ok (gas_fails g e msg b cap, r), s2)"
    "view s2 = view s"
    using steadyE [OF executable_steady [OF assms(1-3)] assms(6)] by metis
  have "sim_EstimateGas g e msg b = Some (at_cap e cap (gas_fails g e msg b cap, r), b\<lparr>pendingState := Some s2\<rparr>)"
    using True t assms(3-5) by (simp add: sim_EstimateGas_def finish_estimate_def Let_def)
  then show ?thesis
    using True t at_cap_fails [OF assms(1), of msg "bk_Header (pendingBlock b)" "blockchain b" cap s1 r s2 cap]
    by (cases "gas_fails g e msg b cap") (auto simp: at_cap_def)
qed

text \<open>
  C27: gas estimation returns, and what it returns is enough and not too much. For an upper end of the search below 2 to the 63 and
  a message that the EVM refuses at no allowance, \<open>EstimateGas\<close> ends, leaves the pending state as it was, and either reports
  an error because the upper end fails, or returns an allowance up to the upper end that does not fail; when it is above 21000 its predecessor
  fails. Where more gas never hurts, for the allowances from 21000 to the upper end, it is the least of these that does not fail.
\<close>

theorem EstimateGas_least:
  assumes "evm_laws g e view marks" "gas_accepted g e msg b" "pendingState b = Some s" "gas_cap g msg b = Ok cap" "unat cap < 2 ^ 63"
  shows "\<exists>r s'. sim_EstimateGas g e msg b = Some (r, b\<lparr>pendingState := Some s'\<rparr>) \<and> view s' = view s \<and>
    ((\<exists>x. r = Err x) \<and> gas_fails g e msg b cap \<or>
     (\<exists>m. r = Ok m \<and> m \<le> cap \<and> \<not> gas_fails g e msg b m \<and> (m = cap \<or> 21000 \<le> m) \<and> (21000 < m \<longrightarrow> gas_fails g e msg b (m - 1)) \<and>
        ((\<forall>x y. 21000 \<le> x \<longrightarrow> x \<le> y \<longrightarrow> y \<le> cap \<longrightarrow> gas_fails g e msg b y \<longrightarrow> gas_fails g e msg b x) \<longrightarrow>
           (\<forall>n. 21000 \<le> n \<longrightarrow> n < m \<longrightarrow> gas_fails g e msg b n))))"
proof -
  let ?ex = "executable g e msg (bk_Header (pendingBlock b)) (blockchain b)"
  let ?f = "gas_fails g e msg b"
  have "\<exists>m s1. gas_search ?ex 20999 cap s = Some (Ok m, s1) \<and> view s1 = view s \<and> m \<le> cap \<and> (m = cap \<or> \<not> ?f m) \<and>
      (m = cap \<or> 21000 \<le> m) \<and> (21000 < m \<longrightarrow> ?f (m - 1))"
  proof (cases "(20999 :: uint64) < cap")
    case True
    obtain m s1 where m: "gas_search ?ex 20999 cap s = Some (Ok m, s1)" "view s1 = view s" "20999 < m" "m \<le> cap"
      "m \<noteq> cap \<longrightarrow> \<not> ?f m" "m \<noteq> 20999 + 1 \<longrightarrow> ?f (m - 1)"
      using gas_search_returns [OF executable_steady [OF assms(1-3)] _ True assms(5)] by blast
    moreover have "21000 \<le> m" using m(3) by (simp add: word_less_nat_alt word_le_nat_alt)
    ultimately show ?thesis by auto
  next
    case False
    then have "\<not> (20999 :: uint64) + 1 < cap" "\<not> 21000 < cap" by (auto simp: word_less_nat_alt)
    then show ?thesis using gas_search_small [of 20999 cap ?ex s] by auto
  qed
  then obtain m s1 where m: "gas_search ?ex 20999 cap s = Some (Ok m, s1)" "view s1 = view s" "m \<le> cap" "m = cap \<or> \<not> ?f m"
      "m = cap \<or> 21000 \<le> m" "21000 < m \<longrightarrow> ?f (m - 1)" by blast
  obtain r s' where r: "sim_EstimateGas g e msg b = Some (r, b\<lparr>pendingState := Some s'\<rparr>)" "view s' = view s"
    "if m = cap \<and> ?f cap then \<exists>x. r = Err x else r = Ok m"
    using sim_EstimateGas_cases [OF assms(1-4) m(1,2)] by blast
  have least: "?f n" if "\<forall>x y. 21000 \<le> x \<longrightarrow> x \<le> y \<longrightarrow> y \<le> cap \<longrightarrow> ?f y \<longrightarrow> ?f x" "21000 \<le> n" "n < m" for n
  proof -
    have "unat (m - 1) = unat m - 1" using that(3) by (intro unat_minus_one) auto
    then have "n \<le> m - 1" using that(3) by (simp add: word_le_nat_alt word_less_nat_alt)
    moreover have "m - 1 \<le> cap" using m(3) \<open>unat (m - 1) = unat m - 1\<close> by (simp add: word_le_nat_alt)
    moreover have "?f (m - 1)" using m(6) that(2,3) by auto
    ultimately show ?thesis using that(1,2) by blast
  qed
  show ?thesis
  proof (cases "m = cap \<and> ?f cap")
    case True
    then show ?thesis using r by auto
  next
    case False
    then have "r = Ok m" "\<not> ?f m" using r(3) m(4) by auto
    with r(1,2) m(3,5,6) least show ?thesis by blast
  qed
qed

lemma wrapped_mid:
  assumes "unat (lo :: uint64) < 2 ^ 63"
  shows "lo + 1 < - 1" "unat ((- 1 + lo) div 2) < 2 ^ 63"
proof -
  have "unat (lo + 1) = unat lo + 1" using assms by (intro unat_plus_1) (auto simp: unat_minus_1)
  then show "lo + 1 < - 1" using assms by (simp add: word_less_nat_alt unat_minus_1)
  show "unat ((- 1 + lo) div 2) < 2 ^ 63" using unsigned_less [of "- 1 + lo", where 'a = nat] by (simp add: unat_div less_mult_imp_div_less)
qed

lemma gas_search_diverges:
  assumes "gas_search ex lo hi s = Some y"
  shows "steady ex st_ok (\<lambda>_. True) \<longrightarrow> st_ok s \<longrightarrow> hi = - 1 \<longrightarrow> unat lo < 2 ^ 63 \<longrightarrow> False"
proof (rule gas_search.raw_induct
    [where P = "\<lambda>ex lo hi s y. steady ex st_ok (\<lambda>_. True) \<longrightarrow> st_ok s \<longrightarrow> hi = - 1 \<longrightarrow> unat lo < 2 ^ 63 \<longrightarrow> False", OF _ assms],
    intro impI)
  fix search ex and lo hi :: uint64 and s y
  assume IH: "\<And>ex lo hi s y. search ex lo hi s = Some y \<Longrightarrow>
      steady ex st_ok (\<lambda>_. True) \<longrightarrow> st_ok s \<longrightarrow> hi = - 1 \<longrightarrow> unat lo < 2 ^ 63 \<longrightarrow> False"
    and body: "(if lo + 1 < hi
      then (let mid = (hi + lo) div 2
            in case ex mid s of
                 (Ok (failed, _), s') \<Rightarrow> (if failed then search ex mid hi s' else search ex lo mid s')
               | (Err x, s') \<Rightarrow> Some (Err x, s')
               | (Panic p, s') \<Rightarrow> Some (Panic p, s'))
      else Some (Ok hi, s)) = Some y"
    and st: "steady ex st_ok (\<lambda>_. True)" "st_ok s" "hi = - 1" "unat lo < 2 ^ 63"
  obtain r s' where t: "ex ((hi + lo) div 2) s = (Ok (True, r), s')" "st_ok s'" using steadyE [OF st(1,2)] by metis
  have "search ex ((- 1 + lo) div 2) (- 1) s' = Some y"
    using body t wrapped_mid(1) [OF st(4)] by (simp add: st(3) Let_def)
  from IH [OF this] st(1) t(2) wrapped_mid(2) [OF st(4)] show False by blast
qed

text \<open>
  Gas estimation may hang. For a call with the largest gas limit, no fee cap, and no allowance that succeeds, the
  sum of the search's bounds wraps around, its lower end falls back again and again, and \<open>EstimateGas\<close> never
  returns, with the backend's mutex held.
\<close>

theorem EstimateGas_hangs:
  assumes "evm_laws g e view marks" "gas_accepted g e msg b" "\<forall>gas. gas_fails g e msg b gas"
    and "msg_Gas msg = - 1" "fee_cap msg = Ok 0"
  shows "sim_EstimateGas g e msg b = None"
proof -
  obtain s where s: "pendingState b = Some s" using assms(2) by (auto simp: gas_accepted_def)
  let ?ex = "executable g e msg (bk_Header (pendingBlock b)) (blockchain b)"
  have cap: "gas_cap g msg b = Ok (- 1)" using assms(4,5) by (simp add: gas_cap_def word_le_nat_alt unat_minus_1)
  have "gas_fails g e msg b = (\<lambda>_. True)" using assms(3) by auto
  then have st: "steady ?ex (\<lambda>x. view x = view s) (\<lambda>_. True)" using executable_steady [OF assms(1,2) s] by simp
  have "gas_search ?ex 20999 (- 1) s = None"
  proof (rule ccontr)
    assume "gas_search ?ex 20999 (- 1) s \<noteq> None"
    then obtain y where "gas_search ?ex 20999 (- 1) s = Some y" by blast
    from gas_search_diverges [OF this, of "\<lambda>x. view x = view s"] st show False by simp
  qed
  then show ?thesis by (simp add: sim_EstimateGas_def cap s Let_def)
qed

text \<open>
  No funds for gas still gives an estimate. When the balance pays for no gas at all, the last test asks the EVM
  for an allowance of zero, which \<open>callContract\<close> replaces by fifty million; a call that succeeds with so much
  gas is estimated at zero.
\<close>

theorem EstimateGas_without_funds:
  assumes "gas_cap g msg b = Ok 0" "pendingState b = Some s"
    and "executable g e msg (bk_Header (pendingBlock b)) (blockchain b) 0 s = (Ok (False, r), s')"
  shows "sim_EstimateGas g e msg b = Some (Ok 0, b\<lparr>pendingState := Some s'\<rparr>) \<and>
    cm_GasLimit (core_message (msg\<lparr>msg_Gas := 0\<rparr>) fees) = 50000000"
  using assms by (simp add: gas_search_small sim_EstimateGas_def finish_estimate_def at_cap_def core_message_def Let_def)

section \<open>An EVM to run on\<close>

text \<open>
  The state holds the balances, the number of executed messages and the revisions. A message takes its value from the caller, counts, and
  needs \<open>need\<close> units of gas; it reverts when there is none that suffices.
\<close>

record journal_state =
  jr_balance :: "address \<Rightarrow> big"
  jr_count :: nat
  jr_revisions :: "((address \<Rightarrow> big) \<times> nat) list"

definition jr_content :: "journal_state \<Rightarrow> (address \<Rightarrow> big) \<times> nat" where
  "jr_content s = (jr_balance s, jr_count s)"

definition jr_marks :: "journal_state \<Rightarrow> nat \<Rightarrow> ((address \<Rightarrow> big) \<times> nat) option" where
  "jr_marks s i = (if i < length (jr_revisions s) then Some (jr_revisions s ! i) else None)"

definition journal_core :: "(sim_block list, journal_state) geth_core" where
  "journal_core =
     \<lparr>core_GenerateChain = \<lambda>p actions c. (Inr (toy_block p (added actions), []), c),
      bc_InsertChain = \<lambda>blk c. (Ok (), blk # c), bc_Stop = \<lambda>c. c,
      bc_CurrentBlock = \<lambda>c. bk_Header (hd c), bc_CurrentHeader = \<lambda>c. bk_Header (hd c),
      bc_GetBlock = \<lambda>h n c. None, bc_GetBlockByHash = \<lambda>h c. None, bc_GetBlockByNumber = \<lambda>n c. None,
      bc_GetHeaderByHash = \<lambda>h c. None, bc_GetHeaderByNumber = \<lambda>n c. None,
      bc_State = \<lambda>c. Err (NewError ''no state''), bc_StateAt = \<lambda>r c. Err (NewError ''no state''),
      rawdb_WriteTxLookupEntriesByBlock = \<lambda>blk c. c, rawdb_ReadReceipt = \<lambda>h c. None,
      rawdb_ReadTransaction = \<lambda>h c. None, types_Sender = \<lambda>blk tx. Ok 5, state_New = \<lambda>r c. None,
      st_GetCode = \<lambda>a s. [], st_GetBalance = \<lambda>a s. jr_balance s a, st_GetNonce = \<lambda>a s. of_nat (jr_count s), st_GetState = \<lambda>a k s. 0,
      st_GetOrNewStateObject = \<lambda>a s. s\<rparr>"

definition journal_evm :: "uint64 option \<Rightarrow> (sim_block list, journal_state) geth_evm" where
  "journal_evm need =
     \<lparr>cfg_IsLondon = \<lambda>n c. True,
      core_ApplyMessage = \<lambda>h m c s.
        (Ok (case need of
               None \<Rightarrow> \<lparr>res_Err = Some (Sentinel ''execution reverted''), res_Failed = True, res_Return = [], res_Revert = []\<rparr>
             | Some n \<Rightarrow>
                 if cm_GasLimit m < n
                 then \<lparr>res_Err = Some vm_ErrOutOfGas, res_Failed = True, res_Return = [], res_Revert = []\<rparr>
                 else \<lparr>res_Err = None, res_Failed = False, res_Return = [of_nat (jr_count s)], res_Revert = []\<rparr>),
         s\<lparr>jr_balance := (jr_balance s)(cm_From m := jr_balance s (cm_From m) - cm_Value m), jr_count := jr_count s + 1\<rparr>),
      st_SetBalance = \<lambda>a v s. s\<lparr>jr_balance := (jr_balance s)(a := v)\<rparr>,
      st_Snapshot = \<lambda>s. (length (jr_revisions s), s\<lparr>jr_revisions := jr_revisions s @ [jr_content s]\<rparr>),
      st_RevertToSnapshot = \<lambda>i s.
        (if i < length (jr_revisions s)
         then s\<lparr>jr_balance := fst (jr_revisions s ! i), jr_count := snd (jr_revisions s ! i), jr_revisions := take i (jr_revisions s)\<rparr> else s),
      abi_UnpackRevert = \<lambda>bs. Err (NewError ''invalid data for unpacking''), hexutil_Encode = \<lambda>bs. ''0x''\<rparr>"

definition journal_backend :: "(sim_block list, journal_state) SimulatedBackend" where
  "journal_backend = \<lparr>blockchain = [toy_genesis], pendingBlock = toy_block toy_genesis [],
     pendingState = Some \<lparr>jr_balance = \<lambda>a. 0, jr_count = 7, jr_revisions = []\<rparr>, pendingReceipts = []\<rparr>"

definition toy_msg :: sim_CallMsg where
  "toy_msg = \<lparr>msg_From = 5, msg_To = Some 6, msg_GasFeeCap = None, msg_GasTipCap = None, msg_Data = [], msg_Value = Some 2,
     msg_Gas = 30000, msg_GasPrice = None, msg_AccessList = []\<rparr>"

lemmas journal_defs = journal_core_def journal_evm_def journal_backend_def toy_block_def toy_genesis_def toy_msg_def

lemma journal_evm_laws: "evm_laws journal_core (journal_evm need) jr_content jr_marks"
  unfolding evm_laws_def
proof
  show "journal_laws journal_core (journal_evm need) jr_content jr_marks"
    by (auto simp: journal_laws_def journal_core_def journal_evm_def jr_content_def jr_marks_def fun_eq_iff nth_append less_Suc_eq split: if_splits)
  show "content_laws journal_core (journal_evm need) jr_content"
    by (auto simp: content_laws_def journal_core_def journal_evm_def jr_content_def split: option.splits if_splits)
qed

lemma journal_gas_accepted: "gas_accepted journal_core (journal_evm need) (toy_msg\<lparr>msg_Gas := n\<rparr>) journal_backend"
  by (simp add: gas_accepted_def executable_def callContract_def call_fees_def nil_as_zero_def journal_defs Let_def)

lemma journal_gas_fails:
  "gas_fails journal_core (journal_evm need) (toy_msg\<lparr>msg_Gas := n\<rparr>) journal_backend gas \<longleftrightarrow>
     (case need of None \<Rightarrow> True | Some k \<Rightarrow> (if gas = 0 then 50000000 else gas) < k)"
  by (auto simp: gas_fails_def executable_def callContract_def call_fees_def core_message_def nil_as_zero_def journal_defs
      Let_def split: option.splits)

lemma toy_msg_gas: "toy_msg\<lparr>msg_Gas := 30000\<rparr> = toy_msg"
  by (simp add: toy_msg_def)

theorem EstimateGas_least_witness:
  "\<exists>s'. sim_EstimateGas journal_core (journal_evm (Some 23000)) toy_msg journal_backend =
     Some (Ok 23000, journal_backend\<lparr>pendingState := Some s'\<rparr>) \<and> jr_content s' = (\<lambda>a. 0, 7)"
proof -
  let ?f = "gas_fails journal_core (journal_evm (Some 23000)) toy_msg journal_backend"
  note f = journal_gas_fails [of "Some 23000" 30000, unfolded toy_msg_gas option.case]
  have mono: "\<forall>x y. 21000 \<le> x \<longrightarrow> x \<le> y \<longrightarrow> y \<le> 30000 \<longrightarrow> ?f y \<longrightarrow> ?f x"
    by (auto simp: f word_le_nat_alt word_less_nat_alt split: if_splits)
  have cap: "gas_cap journal_core toy_msg journal_backend = Ok 30000" by (simp add: gas_cap_def fee_cap_def toy_msg_def)
  have p: "pendingState journal_backend = Some \<lparr>jr_balance = \<lambda>a. 0, jr_count = 7, jr_revisions = []\<rparr>" by (simp add: journal_backend_def)
  from EstimateGas_least [OF journal_evm_laws journal_gas_accepted [of "Some 23000" 30000, unfolded toy_msg_gas] p cap] f [of 30000]
  obtain m s' where m: "sim_EstimateGas journal_core (journal_evm (Some 23000)) toy_msg journal_backend = Some (Ok m, journal_backend\<lparr>pendingState := Some s'\<rparr>)"
    "jr_content s' = (\<lambda>a. 0, 7)" "\<not> ?f m" "\<forall>n. 21000 \<le> n \<longrightarrow> n < m \<longrightarrow> ?f n" "m = 30000 \<or> 21000 \<le> m"
    using mono by (auto simp: jr_content_def)
  have "\<not> ?f 23000" by (simp add: f)
  then have "\<not> 23000 < m" using m(4) by auto
  moreover have "23000 \<le> m" using m(3,5) by (auto simp: f linorder_not_less split: if_splits)
  ultimately have "m = 23000" by simp
  with m(1,2) show ?thesis by blast
qed

theorem EstimateGas_hangs_witness:
  "sim_EstimateGas journal_core (journal_evm None) (toy_msg\<lparr>msg_Gas := - 1\<rparr>) journal_backend = None"
  by (rule EstimateGas_hangs [OF journal_evm_laws journal_gas_accepted]) (simp_all add: journal_gas_fails, simp_all add: toy_msg_def fee_cap_def)

theorem EstimateGas_without_funds_witness:
  "\<exists>s'. sim_EstimateGas journal_core (journal_evm (Some 23000)) (toy_msg\<lparr>msg_GasPrice := Some 1, msg_Value := None\<rparr>) journal_backend =
     Some (Ok 0, journal_backend\<lparr>pendingState := Some s'\<rparr>)"
proof -
  let ?msg = "toy_msg\<lparr>msg_GasPrice := Some 1, msg_Value := None\<rparr>"
  obtain s where p: "pendingState journal_backend = Some s" by (simp add: journal_backend_def)
  have c: "gas_cap journal_core ?msg journal_backend = Ok 0"
    by (simp add: gas_cap_def fee_cap_def recap_def big_Div_def nil_as_zero_def journal_defs)
  have "\<exists>r s'. executable journal_core (journal_evm (Some 23000)) ?msg (bk_Header (pendingBlock journal_backend)) (blockchain journal_backend) 0 s =
      (Ok (False, r), s')"
    by (simp add: executable_def callContract_def call_fees_def core_message_def nil_as_zero_def journal_defs Let_def)
  then show ?thesis using EstimateGas_without_funds [OF c p] by blast
qed

text \<open>The caller owns nothing; both queries give it a balance and execute messages.\<close>

theorem pending_queries_leave_no_trace_witness:
  "\<exists>b' s'. ask_all journal_core (journal_evm (Some 20000)) [AskCall toy_msg, AskGas (toy_msg\<lparr>msg_Gas := 21000\<rparr>), AskCall toy_msg] journal_backend = Some b' \<and>
     b' = journal_backend\<lparr>pendingState := Some s'\<rparr> \<and> jr_content s' = (\<lambda>a. 0, 7) \<and>
     map_option fst (ask journal_core (journal_evm (Some 20000)) (AskCall toy_msg) b') = Some (CallAnswer (Ok [7]))"
proof -
  have p: "pendingState journal_backend = Some \<lparr>jr_balance = \<lambda>a. 0, jr_count = 7, jr_revisions = []\<rparr>" by (simp add: journal_backend_def)
  have "case ask_all journal_core (journal_evm (Some 20000)) [AskCall toy_msg, AskGas (toy_msg\<lparr>msg_Gas := 21000\<rparr>), AskCall toy_msg] journal_backend of
      None \<Rightarrow> False | Some _ \<Rightarrow> True" by code_simp
  then obtain b' where b': "ask_all journal_core (journal_evm (Some 20000)) [AskCall toy_msg, AskGas (toy_msg\<lparr>msg_Gas := 21000\<rparr>), AskCall toy_msg] journal_backend = Some b'"
    by (auto split: option.splits)
  have "map_option fst (ask journal_core (journal_evm (Some 20000)) (AskCall toy_msg) journal_backend) = Some (CallAnswer (Ok [7]))" by code_simp
  moreover obtain s' where "b' = journal_backend\<lparr>pendingState := Some s'\<rparr>" "jr_content s' = (\<lambda>a. 0, 7)"
    "\<forall>q. map_option fst (ask journal_core (journal_evm (Some 20000)) q b') = map_option fst (ask journal_core (journal_evm (Some 20000)) q journal_backend)"
    using pending_queries_leave_no_trace [OF journal_evm_laws p b'] by (auto simp: jr_content_def)
  ultimately show ?thesis using b' by metis
qed

end
