(* ===== verification/Sim_Setup.thy ===== *)
theory Sim_Setup
  imports Sim_Backend
begin

text \<open>
  \<^verbatim>\<open>ops/backends/simulated.go\<close> and \<^verbatim>\<open>ops/deployer/deployer.go\<close>: how a simulated backend is configured and made, the
  log filters it offers, the goroutines that relay logs and heads to a subscriber, and the \<open>filterBackend\<close> that
  go-ethereum's filters read from.
\<close>

section \<open>Options and construction\<close>

record sim_ChainConfig = ChainConfig +
  ShanghaiTime :: "uint64 option"
  CancunTime :: "uint64 option"

record sim_Genesis =
  sg_Config :: sim_ChainConfig
  sg_Timestamp :: uint64
  sg_GasLimit :: uint64
  sg_Difficulty :: "big option"
  sg_Alloc :: "address \<Rightarrow> big option"

text \<open>
  A database \<open>'d\<close>, a consensus engine \<open>'n\<close> and a configuration of the EVM \<open>'v\<close>; of \<open>core.CacheConfig\<close> the field
  \<open>Preimages\<close>, the only one that is set.
\<close>

record ('d, 'n, 'v) simulatedBackendConfig =
  sc_genesis :: sim_Genesis
  sc_cacheConfig :: "bool option"
  sc_database :: 'd
  sc_vmConfig :: 'v
  sc_consensus :: 'n

datatype ('d, 'n, 'v) SimulatedBackendOpt =
    WithDatabase 'd
  | WithGasLimit uint64
  | WithAlloc "address \<Rightarrow> big option"
  | WithCacheConfig bool
  | WithGenesis sim_Genesis
  | WithVMConfig 'v
  | WithConsensus 'n

primrec apply_opt :: "('d, 'n, 'v) SimulatedBackendOpt \<Rightarrow> ('d, 'n, 'v) simulatedBackendConfig \<Rightarrow> ('d, 'n, 'v) simulatedBackendConfig" where
  "apply_opt (WithDatabase d) s = s\<lparr>sc_database := d\<rparr>"
| "apply_opt (WithGasLimit l) s = s\<lparr>sc_genesis := (sc_genesis s)\<lparr>sg_GasLimit := l\<rparr>\<rparr>"
| "apply_opt (WithAlloc a) s = s\<lparr>sc_genesis := (sc_genesis s)\<lparr>sg_Alloc := a\<rparr>\<rparr>"
| "apply_opt (WithCacheConfig c) s = s\<lparr>sc_cacheConfig := Some c\<rparr>"
| "apply_opt (WithGenesis x) s = s\<lparr>sc_genesis := x\<rparr>"
| "apply_opt (WithVMConfig v) s = s\<lparr>sc_vmConfig := v\<rparr>"
| "apply_opt (WithConsensus n) s = s\<lparr>sc_consensus := n\<rparr>"

text \<open>
  What go-ethereum provides for the construction. \<open>MustCommit\<close> panics when the genesis cannot be written; the
  error of \<open>NewBlockChain\<close> is dropped and the chain is then a nil pointer.
\<close>

record ('c, 's, 'd, 'n, 'v) geth_setup =
  gs_core :: "('c, 's) geth_core"
  AllEthashProtocolChanges :: sim_ChainConfig
  NewMemoryDatabase :: 'd
  ethash_NewFaker :: 'n
  beacon_NewFaker :: 'n
  vm_zeroConfig :: 'v
  genesis_MustCommit :: "sim_Genesis \<Rightarrow> 'd \<Rightarrow> string + 'd"
  core_NewBlockChain :: "'d \<Rightarrow> bool option \<Rightarrow> sim_Genesis \<Rightarrow> 'n \<Rightarrow> 'v \<Rightarrow> 'c option"

definition default_config :: "('c, 's, 'd, 'n, 'v) geth_setup \<Rightarrow> ('d, 'n, 'v) simulatedBackendConfig" where
  "default_config x =
     \<lparr>sc_genesis = \<lparr>sg_Config = AllEthashProtocolChanges x, sg_Timestamp = 0, sg_GasLimit = 100000000, sg_Difficulty = None,
        sg_Alloc = Map.empty\<rparr>,
      sc_cacheConfig = None, sc_database = NewMemoryDatabase x, sc_vmConfig = vm_zeroConfig x, sc_consensus = ethash_NewFaker x\<rparr>"

text \<open>The backend before the first \<open>rollback\<close> has no pending block; \<open>rollback\<close> does not read it.\<close>

definition NewSimulatedBackendWithOpts ::
    "('c, 's, 'd, 'n, 'v) geth_setup \<Rightarrow> ('d, 'n, 'v) SimulatedBackendOpt list \<Rightarrow> ('c, 's) SimulatedBackend outcome" where
  "NewSimulatedBackendWithOpts x opts =
     (let config = fold apply_opt opts (default_config x)
      in case genesis_MustCommit x (sc_genesis config) (sc_database config) of
           Inl m \<Rightarrow> Panic m
         | Inr db \<Rightarrow>
             (case core_NewBlockChain x db (sc_cacheConfig config) (sc_genesis config) (sc_consensus config) (sc_vmConfig config) of
                None \<Rightarrow> Panic nil_deref
              | Some c \<Rightarrow>
                  let g = gs_core x; header = bc_CurrentBlock g c
                  in case bc_GetBlock g (hd_Hash header) (word_of_int (hd_Number header)) c of
                       None \<Rightarrow> Panic nil_deref
                     | Some block \<Rightarrow>
                         (case sim_rollback g (Some block)
                                 \<lparr>blockchain = c, pendingBlock = block, pendingState = None, pendingReceipts = []\<rparr> of
                            (Ok _, b) \<Rightarrow> Ok b
                          | (Err e, b) \<Rightarrow> Err e
                          | (Panic p, b) \<Rightarrow> Panic p)))"

definition NewSimulatedBackendWithDatabase ::
    "('c, 's, 'd, 'n, 'v) geth_setup \<Rightarrow> 'd \<Rightarrow> (address \<Rightarrow> big option) \<Rightarrow> uint64 \<Rightarrow> ('c, 's) SimulatedBackend outcome" where
  "NewSimulatedBackendWithDatabase x database alloc gasLimit =
     NewSimulatedBackendWithOpts x [WithDatabase database, WithAlloc alloc, WithGasLimit gasLimit]"

definition NewSimulatedBackend ::
    "('c, 's, 'd, 'n, 'v) geth_setup \<Rightarrow> (address \<Rightarrow> big option) \<Rightarrow> uint64 \<Rightarrow> ('c, 's) SimulatedBackend outcome" where
  "NewSimulatedBackend x alloc gasLimit = NewSimulatedBackendWithOpts x [WithGasLimit gasLimit, WithAlloc alloc]"

section \<open>The backend of the deployer\<close>

definition deployer_ChainID :: big where "deployer_ChainID = 1337"

definition thousandETH :: big where "thousandETH = 10 ^ 18 * 1000"

definition deployer_config :: "bool \<Rightarrow> sim_ChainConfig" where
  "deployer_config shanghai =
     \<lparr>ch_ChainID = deployer_ChainID, HomesteadBlock = Some 0, DAOForkBlock = None, DAOForkSupport = False,
      EIP150Block = Some 0, EIP155Block = Some 0, EIP158Block = Some 0, ByzantiumBlock = Some 0, ConstantinopleBlock = Some 0,
      PetersburgBlock = Some 0, IstanbulBlock = Some 0, MuirGlacierBlock = Some 0, BerlinBlock = Some 0, LondonBlock = Some 0,
      ArrowGlacierBlock = Some 0, GrayGlacierBlock = Some 0, MergeNetsplitBlock = Some 0, TerminalTotalDifficulty = Some 0,
      TerminalTotalDifficultyPassed = True, EnableL2EngineApi = False,
      ShanghaiTime = (if shanghai then Some 0 else None), CancunTime = None\<rparr>"

definition deployer_options ::
    "('c, 's, 'd, 'n, 'v) geth_setup \<Rightarrow> address \<Rightarrow> uint64 \<Rightarrow> bool \<Rightarrow> ('d, 'n, 'v) SimulatedBackendOpt list" where
  "deployer_options x testAddress ts shanghai =
     [WithCacheConfig True,
      WithGenesis \<lparr>sg_Config = deployer_config shanghai, sg_Timestamp = ts, sg_GasLimit = 15000000, sg_Difficulty = Some 0,
        sg_Alloc = [testAddress \<mapsto> thousandETH]\<rparr>,
      WithConsensus (beacon_NewFaker x)]"

definition NewBackendWithGenesisTimestamp ::
    "('c, 's, 'd, 'n, 'v) geth_setup \<Rightarrow> address \<Rightarrow> uint64 \<Rightarrow> bool \<Rightarrow> ('c, 's) SimulatedBackend outcome" where
  "NewBackendWithGenesisTimestamp x testAddress ts shanghai = NewSimulatedBackendWithOpts x (deployer_options x testAddress ts shanghai)"

definition NewL2Backend :: "('c, 's, 'd, 'n, 'v) geth_setup \<Rightarrow> address \<Rightarrow> ('c, 's) SimulatedBackend outcome" where
  "NewL2Backend x testAddress = NewBackendWithGenesisTimestamp x testAddress 0 False"

section \<open>Log filters\<close>

record sim_Log =
  log_Address :: address
  log_Topics :: "hash list"
  log_Data :: bytes

record FilterQuery =
  fq_BlockHash :: "hash option"
  fq_FromBlock :: "big option"
  fq_ToBlock :: "big option"
  fq_Addresses :: "address list"
  fq_Topics :: "hash list list"

datatype log_filter =
    NewBlockFilter hash "address list" "hash list list"
  | NewRangeFilter int int "address list" "hash list list"

definition query_filter :: "FilterQuery \<Rightarrow> log_filter" where
  "query_filter q =
     (case fq_BlockHash q of
        Some h \<Rightarrow> NewBlockFilter h (fq_Addresses q) (fq_Topics q)
      | None \<Rightarrow>
          let from = (case fq_FromBlock q of None \<Rightarrow> 0 | Some n \<Rightarrow> wrap_int64 n);
              to = (case fq_ToBlock q of None \<Rightarrow> - 1 | Some n \<Rightarrow> wrap_int64 n)
          in NewRangeFilter from to (fq_Addresses q) (fq_Topics q))"

text \<open>The filter returns pointers; one that is nil makes the copying loop panic.\<close>

fun copy_logs :: "sim_Log option list \<Rightarrow> sim_Log list outcome" where
  "copy_logs [] = Ok []"
| "copy_logs (None # ls) = Panic nil_deref"
| "copy_logs (Some l # ls) = bind_out (copy_logs ls) (\<lambda>r. Ok (l # r))"

definition FilterLogs :: "(log_filter \<Rightarrow> sim_Log option list outcome) \<Rightarrow> FilterQuery \<Rightarrow> sim_Log list outcome" where
  "FilterLogs filter_Logs query = bind_out (filter_Logs (query_filter query)) copy_logs"

section \<open>Relays to a subscriber\<close>

text \<open>
  The goroutine of \<open>SubscribeFilterLogs\<close> and of \<open>SubscribeNewHead\<close>. It waits for a batch, hands the elements of
  a batch to the subscriber one at a time, and ends with the error of the subscription underneath or, when asked
  to quit, with none. \<open>rl_received\<close> and \<open>rl_delivered\<close> record what went through the two channels; a head is a
  batch of one.
\<close>

datatype 'a relay_pc = Waiting | Delivering 'a "'a list" | Ended "go_error option"

record 'a relay =
  rl_pc :: "'a relay_pc"
  rl_received :: "'a list list"
  rl_delivered :: "'a list"

definition next_pc :: "'a list \<Rightarrow> 'a relay_pc" where
  "next_pc xs = (case xs of [] \<Rightarrow> Waiting | x # ys \<Rightarrow> Delivering x ys)"

inductive relay_step :: "'a relay \<Rightarrow> 'a relay \<Rightarrow> bool" where
  relay_receive: "rl_pc r = Waiting \<Longrightarrow> relay_step r (r\<lparr>rl_pc := next_pc batch, rl_received := rl_received r @ [batch]\<rparr>)"
| relay_deliver: "rl_pc r = Delivering x xs \<Longrightarrow> relay_step r (r\<lparr>rl_pc := next_pc xs, rl_delivered := rl_delivered r @ [x]\<rparr>)"
| relay_error: "\<nexists>e. rl_pc r = Ended e \<Longrightarrow> relay_step r (r\<lparr>rl_pc := Ended (Some err)\<rparr>)"
| relay_quit: "\<nexists>e. rl_pc r = Ended e \<Longrightarrow> relay_step r (r\<lparr>rl_pc := Ended None\<rparr>)"

definition relay_start :: "'a relay" where
  "relay_start = \<lparr>rl_pc = Waiting, rl_received = [], rl_delivered = []\<rparr>"

section \<open>What the filters read\<close>

datatype rpc_BlockNumber = PendingBlockNumber | LatestBlockNumber | FinalizedBlockNumber | SafeBlockNumber | BlockNumber int

record ('c, 'y) geth_filter =
  bc_CurrentFinalBlock :: "'c \<Rightarrow> sim_header option"
  bc_CurrentSafeBlock :: "'c \<Rightarrow> sim_header option"
  bc_GetBody :: "hash \<Rightarrow> 'c \<Rightarrow> 'y option"
  rawdb_ReadHeaderNumber :: "hash \<Rightarrow> 'c \<Rightarrow> uint64 option"
  rawdb_ReadHeader :: "hash \<Rightarrow> uint64 \<Rightarrow> 'c \<Rightarrow> sim_header option"
  rawdb_ReadReceipts :: "hash \<Rightarrow> uint64 \<Rightarrow> uint64 \<Rightarrow> 'c \<Rightarrow> Receipt list"
  rawdb_ReadLogs :: "hash \<Rightarrow> uint64 \<Rightarrow> 'c \<Rightarrow> sim_Log list list"

primrec fb_HeaderByNumber ::
    "('c, 's) geth_core \<Rightarrow> ('c, 'y) geth_filter \<Rightarrow> rpc_BlockNumber \<Rightarrow> ('c, 's) SimulatedBackend \<Rightarrow> sim_header option outcome" where
  "fb_HeaderByNumber g f PendingBlockNumber b = Ok (Some (bk_Header (pendingBlock b)))"
| "fb_HeaderByNumber g f LatestBlockNumber b = Ok (Some (bc_CurrentHeader g (blockchain b)))"
| "fb_HeaderByNumber g f FinalizedBlockNumber b = Ok (bc_CurrentFinalBlock f (blockchain b))"
| "fb_HeaderByNumber g f SafeBlockNumber b = Ok (bc_CurrentSafeBlock f (blockchain b))"
| "fb_HeaderByNumber g f (BlockNumber n) b = Ok (bc_GetHeaderByNumber g (word_of_int n) (blockchain b))"

definition fb_HeaderByHash :: "('c, 's) geth_core \<Rightarrow> hash \<Rightarrow> ('c, 's) SimulatedBackend \<Rightarrow> sim_header option outcome" where
  "fb_HeaderByHash g h b = Ok (bc_GetHeaderByHash g h (blockchain b))"

definition fb_GetBody :: "('c, 'y) geth_filter \<Rightarrow> hash \<Rightarrow> ('c, 's) SimulatedBackend \<Rightarrow> 'y outcome" where
  "fb_GetBody f h b =
     (case bc_GetBody f h (blockchain b) of Some body \<Rightarrow> Ok body | None \<Rightarrow> Err (NewError ''block body not found''))"

definition fb_PendingBlockAndReceipts :: "('c, 's) SimulatedBackend \<Rightarrow> sim_block \<times> Receipt list" where
  "fb_PendingBlockAndReceipts b = (pendingBlock b, pendingReceipts b)"

definition fb_GetReceipts :: "('c, 'y) geth_filter \<Rightarrow> hash \<Rightarrow> ('c, 's) SimulatedBackend \<Rightarrow> Receipt list outcome" where
  "fb_GetReceipts f h b =
     (case rawdb_ReadHeaderNumber f h (blockchain b) of
        None \<Rightarrow> Ok []
      | Some number \<Rightarrow>
          (case rawdb_ReadHeader f h number (blockchain b) of
             None \<Rightarrow> Ok []
           | Some header \<Rightarrow> Ok (rawdb_ReadReceipts f h number (hd_Time header) (blockchain b))))"

definition fb_GetLogs :: "('c, 'y) geth_filter \<Rightarrow> hash \<Rightarrow> uint64 \<Rightarrow> ('c, 's) SimulatedBackend \<Rightarrow> sim_Log list list outcome" where
  "fb_GetLogs f h number b = Ok (rawdb_ReadLogs f h number (blockchain b))"

definition fb_BloomStatus :: "uint64 \<times> uint64" where "fb_BloomStatus = (4096, 0)"

text \<open>\<open>EventMux\<close>, \<open>ServiceFilter\<close>, \<open>ChainConfig\<close> and \<open>CurrentHeader\<close>.\<close>

definition fb_unsupported :: "'a outcome" where "fb_unsupported = Panic ''not supported''"

text \<open>
  A subscription to new transactions or to pending logs never delivers anything and ends without an error when it is
  cancelled: the goroutine of \<open>nullSubscription\<close> only waits for that.
\<close>

definition nullSubscription :: "'a relay \<Rightarrow> 'a relay option" where
  "nullSubscription r = (case rl_pc r of Waiting \<Rightarrow> Some (r\<lparr>rl_pc := Ended None\<rparr>) | _ \<Rightarrow> None)"

definition sim_Blockchain :: "('c, 's) SimulatedBackend \<Rightarrow> 'c" where
  "sim_Blockchain b = blockchain b"

section \<open>Properties\<close>

text \<open>
  A new backend is ready. Whatever the options, a backend that is made has an empty pending block on the head
  of its chain, the pending state of that block's root and no receipts; a dropped error of \<open>NewBlockChain\<close> shows
  up as a panic, never as an error value.
\<close>

theorem NewSimulatedBackend_ready:
  assumes "geth_laws (gs_core x)"
  shows "(\<forall>e. NewSimulatedBackendWithOpts x opts \<noteq> Err e) \<and>
    (\<forall>b. NewSimulatedBackendWithOpts x opts = Ok b \<longrightarrow>
       bk_Transactions (pendingBlock b) = [] \<and> pendingReceipts b = [] \<and>
       pendingState b = state_New (gs_core x) (bk_Root (pendingBlock b)) (blockchain b) \<and>
       (\<exists>head. bc_GetBlockByHash (gs_core x) (bk_ParentHash (pendingBlock b)) (blockchain b) = Some head))"
proof (intro conjI allI impI)
  fix e show "NewSimulatedBackendWithOpts x opts \<noteq> Err e"
    by (auto simp: NewSimulatedBackendWithOpts_def sim_rollback_def Let_def split: sum.splits option.splits prod.splits)
next
  fix b assume "NewSimulatedBackendWithOpts x opts = Ok b"
  then obtain c n blk new rs c' where
      h: "bc_GetBlock (gs_core x) (hd_Hash (bc_CurrentBlock (gs_core x) c)) n c = Some blk"
    and gen: "core_GenerateChain (gs_core x) blk [] c = (Inr (new, rs), c')"
    and b: "b = \<lparr>blockchain = c', pendingBlock = new, pendingState = state_New (gs_core x) (bk_Root new) c', pendingReceipts = []\<rparr>"
    by (auto simp: NewSimulatedBackendWithOpts_def sim_rollback_def Let_def split: sum.splits option.splits prod.splits)
  note new = generated [OF assms gen]
  have "bk_Hash blk = hd_Hash (bc_CurrentBlock (gs_core x) c)" using own_hash [OF assms by_number [OF assms h]] .
  then have "bc_GetBlockByHash (gs_core x) (bk_ParentHash new) c' = Some blk" using new by_number [OF assms h] by simp
  with new b show "bk_Transactions (pendingBlock b) = []" "pendingReceipts b = []"
    "pendingState b = state_New (gs_core x) (bk_Root (pendingBlock b)) (blockchain b)"
    "\<exists>head. bc_GetBlockByHash (gs_core x) (bk_ParentHash (pendingBlock b)) (blockchain b) = Some head"
    by auto
qed

text \<open>
  The receipts of the pending block go stale. Neither \<open>Commit\<close>, \<open>Rollback\<close>, \<open>Fork\<close> nor \<open>AdjustTime\<close> resets
  them: after a commit, \<open>PendingBlockAndReceipts\<close> gives the filters an empty pending block together with the
  receipts of the block that was committed.
\<close>

theorem pending_receipts_go_stale:
  assumes "geth_laws g" "sim_Commit g b = (Ok h, b')"
  shows "fst (fb_PendingBlockAndReceipts b') = pendingBlock b' \<and> bk_Transactions (fst (fb_PendingBlockAndReceipts b')) = [] \<and>
    snd (fb_PendingBlockAndReceipts b') = pendingReceipts b"
proof -
  have "bk_Transactions (pendingBlock b') = []"
    using sim_Commit_refines [OF assms] by (auto simp: sim_abs_def)
  moreover have "pendingReceipts b' = pendingReceipts b"
    using assms(2) by (auto simp: sim_Commit_def sim_rollback_def bind_call_def ret_call_def split: outcome.splits prod.splits sum.splits)
  ultimately show ?thesis by (simp add: fb_PendingBlockAndReceipts_def)
qed

definition relay_rest :: "'a relay \<Rightarrow> 'a list" where
  "relay_rest r = (case rl_pc r of Delivering x xs \<Rightarrow> x # xs | _ \<Rightarrow> [])"

lemma relay_rest_next [simp]: "relay_rest (r\<lparr>rl_pc := next_pc xs, rl_received := a\<rparr>) = xs" "relay_rest (r\<lparr>rl_pc := next_pc xs, rl_delivered := d\<rparr>) = xs"
  by (auto simp: relay_rest_def next_pc_def split: list.splits)

lemma next_pc_not_Ended [simp]: "next_pc xs \<noteq> Ended e"
  by (simp add: next_pc_def split: list.splits)

lemma relay_reachable:
  assumes "relay_step\<^sup>*\<^sup>* relay_start r"
  shows "\<exists>lost. rl_delivered r @ relay_rest r @ lost = concat (rl_received r) \<and> ((\<nexists>e. rl_pc r = Ended e) \<longrightarrow> lost = [])"
  using assms
proof (induction rule: rtranclp_induct)
  case base
  then show ?case by (simp add: relay_start_def relay_rest_def)
next
  case (step r r')
  from step.hyps(2) show ?case
  proof (cases rule: relay_step.cases)
    case (relay_receive batch)
    then have "relay_rest r' = batch" "relay_rest r = []" by (auto simp: relay_rest_def [of r])
    then show ?thesis using relay_receive step.IH by simp
  next
    case (relay_deliver x xs)
    then have "relay_rest r' = xs" "relay_rest r = x # xs" by (auto simp: relay_rest_def [of r])
    then show ?thesis using relay_deliver step.IH by simp
  next
    case (relay_error err)
    with step.IH have "rl_delivered r @ relay_rest r = concat (rl_received r)" by auto
    then show ?thesis using relay_error by (intro exI [of _ "relay_rest r"]) (simp add: relay_rest_def)
  next
    case relay_quit
    with step.IH have "rl_delivered r @ relay_rest r = concat (rl_received r)" by auto
    then show ?thesis using relay_quit by (intro exI [of _ "relay_rest r"]) (simp add: relay_rest_def)
  qed
qed

text \<open>
  A relay delivers in order and drops nothing but its tail. In every reachable state of the goroutine behind
  \<open>SubscribeFilterLogs\<close> and \<open>SubscribeNewHead\<close>, what the subscriber got is a prefix of the flattened batches; while
  the goroutine waits for a batch, it is all of them.
\<close>

theorem relay_flattens_in_order:
  assumes "relay_step\<^sup>*\<^sup>* relay_start r"
  shows "(\<exists>rest. concat (rl_received r) = rl_delivered r @ rest) \<and>
    (rl_pc r = Waiting \<longrightarrow> rl_delivered r = concat (rl_received r))"
proof -
  obtain lost where l: "rl_delivered r @ relay_rest r @ lost = concat (rl_received r)" "(\<nexists>e. rl_pc r = Ended e) \<longrightarrow> lost = []"
    using relay_reachable [OF assms] by blast
  have "concat (rl_received r) = rl_delivered r @ relay_rest r @ lost" using l(1) by simp
  moreover have "rl_pc r = Waiting \<Longrightarrow> rl_delivered r = concat (rl_received r)" using l by (simp add: relay_rest_def)
  ultimately show ?thesis by blast
qed

end
