(* ===== verification/Genesis_Cmd.thy ===== *)
theory Genesis_Cmd
  imports Sim_Setup
begin

text \<open>
  The deployer on the simulated backend, and \<^verbatim>\<open>ops/cmd/genesis/main.go\<close> with \<open>NewGenesisConfig\<close> of
  \<^verbatim>\<open>ops/genesis/config.go\<close>: the command that builds the genesis file. The generated bindings turn a constructor into a
  transaction and send it through the backend; files, JSON and the L1 client are parameters.
\<close>

section \<open>Deploying on the simulated backend\<close>

text \<open>
  \<open>transact\<close> makes the signed deployment transaction (it asks the backend for the nonce and prices), \<open>wait\<close> is
  \<open>bind.WaitDeployed\<close>, which polls the receipt.
\<close>

definition sim_deploy_env ::
    "('c, 's) geth_core \<Rightarrow> unit outcome \<Rightarrow> (string \<Rightarrow> ctor_arg list \<Rightarrow> (('c, 's) SimulatedBackend, Transaction) call) \<Rightarrow>
     (hash \<Rightarrow> ('c, 's) SimulatedBackend \<Rightarrow> address outcome) \<Rightarrow> ('c, 's) SimulatedBackend deploy_env" where
  "sim_deploy_env g opts transact wait =
     \<lparr>keyedTransactor = opts,
      bindings_Deploy = \<lambda>name args. bind_call (transact name args) (\<lambda>tx. bind_call (sim_SendTransaction g tx) (\<lambda>_. ret_call (tx_Hash tx))),
      backend_Commit = sim_Commit g,
      bind_WaitDeployed = \<lambda>h b. (wait h b, b),
      backend_CodeAt = \<lambda>a b. (sim_CodeAt g a None b, b)\<rparr>"

definition keeps_ledger :: "('c, 's) geth_core \<Rightarrow> (string \<Rightarrow> ctor_arg list \<Rightarrow> (('c, 's) SimulatedBackend, Transaction) call) \<Rightarrow> bool" where
  "keeps_ledger g transact \<longleftrightarrow> (\<forall>name args b r b'. transact name args b = (r, b') \<longrightarrow> sim_abs g b' = sim_abs g b)"

lemma l2Deployer_Ok:
  assumes "l2Deployer env c k = (Ok h, k')"
  shows "\<exists>name args. bindings_Deploy env name args k = (Ok h, k')"
  using assms by (auto simp: l2Deployer_def split: if_splits list.splits ctor_arg.splits)

lemma deployed_code_frame:
  assumes "deployed_code (sim_deploy_env g opts transact wait) c a b = (Ok d, b')"
  shows "b' = b"
  using assms by (auto simp: deployed_code_def sim_deploy_env_def split: if_splits outcome.splits)

lemma deploy_one_ledger:
  assumes "geth_laws g" "keeps_ledger g transact" "deploy_one (sim_deploy_env g opts transact wait) c b = (Ok d, b')"
  shows "\<exists>tx. spec_run ledger_step [SendTransactionCall tx, CommitCall] [True, True] (sim_abs g b) (sim_abs g b')"
proof -
  let ?env = "sim_deploy_env g opts transact wait"
  obtain h b1 hash b2 addr where "l2Deployer ?env c b = (Ok h, b1)"
    and c: "sim_Commit g b1 = (Ok hash, b2)" and w: "deployed_code ?env c addr b2 = (Ok d, b')"
    using assms(3) by (auto simp: deploy_one_def sim_deploy_env_def)
  then obtain name args tx b0 where t: "transact name args b = (Ok tx, b0)" and s: "sim_SendTransaction g tx b0 = (Ok (), b1)"
    using l2Deployer_Ok [of ?env c b h b1] by (auto simp: sim_deploy_env_def)
  have "sim_abs g b0 = sim_abs g b" using assms(2) t by (simp add: keeps_ledger_def)
  moreover have "ledger_step (SendTransactionCall tx) True (sim_abs g b0) (sim_abs g b1)"
    using sim_op_refines [OF assms(1), of "SendTransactionCall tx" b0 "Ok ()" b1] s by simp
  moreover have "ledger_step CommitCall True (sim_abs g b1) (sim_abs g b2)"
    using sim_op_refines [OF assms(1), of CommitCall b1 "Ok ()" b2] c by (simp add: void_def bind_call_def ret_call_def)
  moreover have "b' = b2" by (rule deployed_code_frame [OF w])
  ultimately show ?thesis by auto
qed

lemma spec_run_append:
  "spec_run spec i1 o1 a b \<Longrightarrow> spec_run spec i2 o2 b c \<Longrightarrow> spec_run spec (i1 @ i2) (o1 @ o2) a c"
  by (induction rule: spec_run.induct) (auto intro: spec_run_Cons)

text \<open>
  C26: every contract is deployed in a block of its own. When \<open>Deploy\<close> on the simulated backend succeeds for a list of
  constructors, with bindings that only send the transaction they return, the backend went through one \<open>SendTransaction\<close> and one \<open>Commit\<close> per constructor, in order and
  nothing else: each of its blocks holds what was pending and exactly one new deployment transaction.
\<close>

theorem deploy_commits_one_block_each:
  assumes "geth_laws g" "keeps_ledger g transact" "Deploy (sim_deploy_env g opts transact wait) cs b = (Ok ds, b')"
  shows "\<exists>txs. length txs = length cs \<and>
    spec_run ledger_step (concat (map (\<lambda>tx. [SendTransactionCall tx, CommitCall]) txs)) (concat (map (\<lambda>tx. [True, True]) txs))
      (sim_abs g b) (sim_abs g b')"
proof -
  have "deploy_loop (sim_deploy_env g opts transact wait) cs b = (Ok ds, b')"
    using assms(3) by (auto simp: Deploy_def split: outcome.splits)
  then show ?thesis
  proof (induction cs arbitrary: b ds)
    case Nil
    then show ?case by simp
  next
    case (Cons c cs)
    obtain d b1 ds1 where 1: "deploy_one (sim_deploy_env g opts transact wait) c b = (Ok d, b1)"
      and 2: "deploy_loop (sim_deploy_env g opts transact wait) cs b1 = (Ok ds1, b')" using Cons.prems by auto
    obtain tx where r: "spec_run ledger_step [SendTransactionCall tx, CommitCall] [True, True] (sim_abs g b) (sim_abs g b1)"
      using deploy_one_ledger [OF assms(1,2) 1] by blast
    obtain txs where "length txs = length cs" and rest: "spec_run ledger_step (concat (map (\<lambda>tx. [SendTransactionCall tx, CommitCall]) txs))
        (concat (map (\<lambda>tx. [True, True]) txs)) (sim_abs g b1) (sim_abs g b')"
      using Cons.IH [OF 2] by blast
    then show ?case using spec_run_append [OF r rest] by (intro exI [of _ "tx # txs"]) simp
  qed
qed

section \<open>The genesis command\<close>

definition NewGenesisConfig :: "(string \<Rightarrow> bytes outcome) \<Rightarrow> (bytes \<Rightarrow> GenesisConfig outcome) \<Rightarrow> string \<Rightarrow> GenesisConfig outcome" where
  "NewGenesisConfig ReadFile Decode path =
     bind_out (wrap_err (''deploy config at '' @ path @ '' not found'') (ReadFile path)) (\<lambda>file.
       wrap_err ''cannot unmarshal deploy config'' (Decode file))"

record genesis_cli =
  gcl_genesisConfig :: string
  gcl_out :: string
  gcl_l1RpcUrl :: string
  gcl_exportHash :: "string option"
  gcl_l1Block :: "uint64 option"

datatype genesis_output = GenesisFile Genesis | HashFile hash

record ('w, 'k) genesis_env =
  gen_Dial :: "string \<Rightarrow> ('w, unit) call"
  gen_BlockByNumber :: "int \<Rightarrow> ('w, L1Block) call"
  rpc_SafeBlockNumber :: int
  gen_ReadFile :: "string \<Rightarrow> bytes outcome"
  gen_Decode :: "bytes \<Rightarrow> GenesisConfig outcome"
  gen_build :: "'k build_env"
  gen_backend :: 'k
  gen_BlockHash :: "Genesis \<Rightarrow> hash"
  gen_OpenFile :: "string \<Rightarrow> ('w, unit) call"
  gen_EncodeJSON :: "string \<Rightarrow> genesis_output \<Rightarrow> ('w, unit) call"

definition writeGenesisFile :: "('w, 'k) genesis_env \<Rightarrow> string \<Rightarrow> genesis_output \<Rightarrow> ('w, unit) call" where
  "writeGenesisFile env outfile input = bind_call (gen_OpenFile env outfile) (\<lambda>_. gen_EncodeJSON env outfile input)"

text \<open>The block number is converted to a signed one.\<close>

definition l1_start_block :: "('w, 'k) genesis_env \<Rightarrow> genesis_cli \<Rightarrow> ('w, L1Block) call" where
  "l1_start_block env c =
     (case gcl_l1Block c of
        Some n \<Rightarrow> wrap_call (''cannot get block '' @ show_nat (unat n)) (gen_BlockByNumber env (sint n))
      | None \<Rightarrow> wrap_call ''cannot get safe block'' (gen_BlockByNumber env (rpc_SafeBlockNumber env)))"

definition GenerateSpecularGenesis :: "('w, 'k) genesis_env \<Rightarrow> genesis_cli \<Rightarrow> ('w, unit) call" where
  "GenerateSpecularGenesis env c =
     bind_call (wrap_call (''cannot dial '' @ gcl_l1RpcUrl c) (gen_Dial env (gcl_l1RpcUrl c))) (\<lambda>_.
     bind_call (l1_start_block env c) (\<lambda>l1StartBlock.
     bind_call (\<lambda>w. (NewGenesisConfig (gen_ReadFile env) (gen_Decode env) (gcl_genesisConfig c), w)) (\<lambda>config.
     bind_call (\<lambda>w. (fst (BuildL2Genesis (gen_build env) config l1StartBlock (gen_backend env)), w)) (\<lambda>l2Genesis.
     bind_call (writeGenesisFile env (gcl_out c) (GenesisFile l2Genesis)) (\<lambda>_.
       case gcl_exportHash c of
         None \<Rightarrow> ret_call ()
       | Some path \<Rightarrow> writeGenesisFile env path (HashFile (gen_BlockHash env l2Genesis)))))))"

text \<open>\<open>main\<close>: \<open>log.Crit\<close> logs the error and exits with status 1.\<close>

definition genesis_main :: "(string list \<Rightarrow> genesis_cli outcome) \<Rightarrow> ('w, 'k) genesis_env \<Rightarrow> string list \<Rightarrow> 'w \<Rightarrow> (int \<times> string list) \<times> 'w" where
  "genesis_main parse env args w =
     (case parse args of
        Err e \<Rightarrow> ((1, [''Application failed: '' @ error_msg e]), w)
      | Panic p \<Rightarrow> ((2, [p]), w)
      | Ok c \<Rightarrow>
          (case GenerateSpecularGenesis env c w of
             (Ok _, w1) \<Rightarrow> ((0, []), w1)
           | (Err e, w1) \<Rightarrow> ((1, [''Application failed: '' @ error_msg e]), w1)
           | (Panic p, w1) \<Rightarrow> ((2, [p]), w1)))"

text \<open>
  Nothing is written before the genesis is built. When the configuration cannot be read or the genesis cannot be built, the
  command ends with that error and no file is opened; when it succeeds, the genesis it wrote was built from the L1
  block it fetched, and the exported hash is that genesis's.
\<close>

theorem genesis_built_before_written:
  assumes "gen_Dial env (gcl_l1RpcUrl c) w = (Ok (), w1)" "l1_start_block env c w1 = (Ok blk, w2)"
    and "NewGenesisConfig (gen_ReadFile env) (gen_Decode env) (gcl_genesisConfig c) = Ok config"
  shows "(\<forall>e. fst (BuildL2Genesis (gen_build env) config blk (gen_backend env)) = Err e \<longrightarrow> GenerateSpecularGenesis env c w = (Err e, w2)) \<and>
    (\<forall>w'. GenerateSpecularGenesis env c w = (Ok (), w') \<longrightarrow>
       (\<exists>genesis w3. fst (BuildL2Genesis (gen_build env) config blk (gen_backend env)) = Ok genesis \<and>
          writeGenesisFile env (gcl_out c) (GenesisFile genesis) w2 = (Ok (), w3) \<and>
          (case gcl_exportHash c of None \<Rightarrow> w' = w3 | Some p \<Rightarrow> writeGenesisFile env p (HashFile (gen_BlockHash env genesis)) w3 = (Ok (), w'))))"
proof -
  have g: "GenerateSpecularGenesis env c w =
      bind_call (\<lambda>w. (fst (BuildL2Genesis (gen_build env) config blk (gen_backend env)), w)) (\<lambda>l2Genesis.
      bind_call (writeGenesisFile env (gcl_out c) (GenesisFile l2Genesis)) (\<lambda>_.
        case gcl_exportHash c of None \<Rightarrow> ret_call () | Some path \<Rightarrow> writeGenesisFile env path (HashFile (gen_BlockHash env l2Genesis)))) w2"
    using assms by (simp add: GenerateSpecularGenesis_def bind_call_def [of "wrap_call _ _"] bind_call_def [of "l1_start_block _ _"] wrap_call_def
        bind_call_def [of "\<lambda>w. (Ok config, w)"])
  show ?thesis unfolding g
    by (cases "fst (BuildL2Genesis (gen_build env) config blk (gen_backend env))") (auto simp: bind_call_def [of "\<lambda>w. (_, w)"] split: option.splits)
qed

theorem deploy_commits_one_block_each_witness:
  "\<exists>ds b' txs. Deploy (sim_deploy_env toy_core (Ok ()) (\<lambda>n a. ret_call demo_tx) (\<lambda>h b. Ok 9)) [\<lparr>ctor_Name = ''L1Oracle'', ctor_Args = []\<rparr>] toy_backend =
       (Ok ds, b') \<and> length txs = 1 \<and>
     spec_run ledger_step (concat (map (\<lambda>tx. [SendTransactionCall tx, CommitCall]) txs)) (concat (map (\<lambda>tx. [True, True]) txs))
       (sim_abs toy_core toy_backend) (sim_abs toy_core b')"
proof -
  let ?env = "sim_deploy_env toy_core (Ok ()) (\<lambda>n a. ret_call demo_tx) (\<lambda>h b. Ok 9)" and ?c = "\<lparr>ctor_Name = ''L1Oracle'', ctor_Args = []\<rparr>"
  have "bindings_Deploy ?env ''L1Oracle'' [] toy_backend =
      (Ok (tx_Hash demo_tx), toy_backend\<lparr>pendingBlock := toy_block toy_genesis [demo_tx], pendingState := Some 4\<rparr>)"
    by (simp add: sim_deploy_env_def bind_call_def ret_call_def toy_send)
  then have "\<exists>ds b'. deploy_one ?env ?c toy_backend = (Ok ds, b')"
    using toy_commit by (simp add: deploy_one_def l2Deployer_def bind_call_def wrap_call_def)
      (simp add: sim_deploy_env_def toy_commit deployed_code_def sim_CodeAt_def stateByBlockNumber_def toy_core_def)
  then obtain ds b' where d: "Deploy ?env [?c] toy_backend = (Ok ds, b')" by (auto simp: Deploy_def sim_deploy_env_def)
  have "keeps_ledger toy_core (\<lambda>n a. ret_call demo_tx)" by (simp add: keeps_ledger_def ret_call_def)
  from deploy_commits_one_block_each [OF toy_core_laws this d] d show ?thesis by auto
qed

end
