(* ===== verification/Broker.thy ===== *)
theory Broker
  imports Eth_State
begin

text \<open>
  \<^verbatim>\<open>utils/broker.go\<close>, \<^verbatim>\<open>rollup/rpc/eth/eth_syncer.go\<close> and the polling of \<^verbatim>\<open>rollup/rpc/eth/utils.go\<close>: a broker that
  fans every message out to its subscribers, and the syncer that feeds the headers of L1 to \<open>EthState\<close> through
  three of them. Channels are buffers with a capacity; every send, receive and select of a goroutine that can go
  ahead is a labelled step, and a step that would block is not enabled. A run is any sequence of labels, so the
  theorems hold for every interleaving. A callback that panics ends the program and has no successor.
\<close>

section \<open>State\<close>

text \<open>
  The goroutine of \<open>Start\<close> waits in its select, hands a message to the rest of the subscribers in the order
  \<open>range\<close> picked, or has returned. A callback goroutine runs its loop, is about to execute the deferred
  \<open>Unsubscribe\<close>, or is gone; \<open>NoCallback\<close> is a channel that a client reads itself.
\<close>

datatype 'm start_pc = Selecting | FanningOut 'm "nat list" | Returned "go_error option"

datatype callback_pc = NoCallback | InLoop | Leaving | Gone

record 'm Broker =
  PubCh :: "'m list"
  subCh :: "nat list"
  unsubCh :: "nat list"
  stopCh_closed :: bool
  bro_pc :: "'m start_pc"
  bro_subs :: "nat list"
  bro_chan :: "nat \<Rightarrow> 'm list"
  bro_callback :: "nat \<Rightarrow> callback_pc"
  bro_made :: "nat list"
  bro_published :: "'m list"
  bro_taken :: "'m list"
  bro_sent :: "nat \<Rightarrow> 'm list"
  bro_got :: "nat \<Rightarrow> 'm list"

text \<open>
  The last four fields only record: what was put into \<open>PubCh\<close>, what \<open>Start\<close> took out of it, what it sent to a
  channel and what was received there. \<open>bro_made\<close> are the channels that exist.
\<close>

definition NewBroker :: "'m Broker" where
  "NewBroker =
     \<lparr>PubCh = [], subCh = [], unsubCh = [], stopCh_closed = False, bro_pc = Selecting, bro_subs = [], bro_chan = \<lambda>_. [],
      bro_callback = \<lambda>_. NoCallback, bro_made = [], bro_published = [], bro_taken = [], bro_sent = \<lambda>_. [], bro_got = \<lambda>_. []\<rparr>"

definition chanSize :: nat where "chanSize = 8"

section \<open>Client calls\<close>

definition Publish :: "'m \<Rightarrow> 'm Broker \<Rightarrow> 'm Broker option" where
  "Publish msg b =
     (if length (PubCh b) < 1 then Some (b\<lparr>PubCh := PubCh b @ [msg], bro_published := bro_published b @ [msg]\<rparr>) else None)"

definition Subscribe :: "nat \<Rightarrow> callback_pc \<Rightarrow> 'm Broker \<Rightarrow> 'm Broker option" where
  "Subscribe ch cb b =
     (if ch \<notin> set (bro_made b) \<and> length (subCh b) < 1
      then Some (b\<lparr>subCh := subCh b @ [ch], bro_made := ch # bro_made b, bro_callback := (bro_callback b)(ch := cb)\<rparr>)
      else None)"

definition Unsubscribe :: "nat \<Rightarrow> 'm Broker \<Rightarrow> 'm Broker option" where
  "Unsubscribe ch b = (if length (unsubCh b) < 1 then Some (b\<lparr>unsubCh := unsubCh b @ [ch]\<rparr>) else None)"

text \<open>Closing the channel a second time panics.\<close>

definition Stop :: "'m Broker \<Rightarrow> 'm Broker option" where
  "Stop b = (if stopCh_closed b then None else Some (b\<lparr>stopCh_closed := True\<rparr>))"

section \<open>The goroutine of Start\<close>

datatype select_case =
    SelectMsg "nat list"
  | SelectSub
  | SelectUnsub
  | SelectStop
  | SelectSubErr "go_error option"
  | SelectDone go_error

fun Start_select :: "select_case \<Rightarrow> 'm Broker \<Rightarrow> 'm Broker option" where
  "Start_select (SelectMsg order) b =
     (case PubCh b of
        [] \<Rightarrow> None
      | msg # rest \<Rightarrow>
          if distinct order \<and> set order = set (bro_subs b)
          then Some (b\<lparr>PubCh := rest, bro_taken := bro_taken b @ [msg], bro_pc := FanningOut msg order\<rparr>) else None)"
| "Start_select SelectSub b =
     (case subCh b of [] \<Rightarrow> None | ch # rest \<Rightarrow> Some (b\<lparr>subCh := rest, bro_subs := List.insert ch (bro_subs b)\<rparr>))"
| "Start_select SelectUnsub b =
     (case unsubCh b of [] \<Rightarrow> None | ch # rest \<Rightarrow> Some (b\<lparr>unsubCh := rest, bro_subs := removeAll ch (bro_subs b)\<rparr>))"
| "Start_select SelectStop b = (if stopCh_closed b then Some (b\<lparr>bro_pc := Returned None\<rparr>) else None)"
| "Start_select (SelectSubErr e) b = Some (b\<lparr>bro_pc := Returned e\<rparr>)"
| "Start_select (SelectDone e) b = Some (b\<lparr>bro_pc := Returned (Some e)\<rparr>)"

definition Start_fan :: "'m Broker \<Rightarrow> 'm Broker option" where
  "Start_fan b =
     (case bro_pc b of
        FanningOut msg [] \<Rightarrow> Some (b\<lparr>bro_pc := Selecting\<rparr>)
      | FanningOut msg (ch # rest) \<Rightarrow>
          if length (bro_chan b ch) < chanSize
          then Some (b\<lparr>bro_chan := (bro_chan b)(ch := bro_chan b ch @ [msg]), bro_sent := (bro_sent b)(ch := bro_sent b ch @ [msg]),
                 bro_pc := FanningOut msg rest\<rparr>)
          else None
      | _ \<Rightarrow> None)"

section \<open>Receivers\<close>

definition chan_receive :: "nat \<Rightarrow> 'm Broker \<Rightarrow> ('m \<times> 'm Broker) option" where
  "chan_receive ch b =
     (case bro_chan b ch of
        [] \<Rightarrow> None
      | m # ms \<Rightarrow> Some (m, b\<lparr>bro_chan := (bro_chan b)(ch := ms), bro_got := (bro_got b)(ch := bro_got b ch @ [m])\<rparr>))"

definition set_callback :: "nat \<Rightarrow> callback_pc \<Rightarrow> 'm Broker \<Rightarrow> 'm Broker" where
  "set_callback ch pc b = b\<lparr>bro_callback := (bro_callback b)(ch := pc)\<rparr>"

text \<open>
  A pass of the loop of \<open>SubscribeWithCallback\<close> that received a message. The callback works on a handler \<open>'h\<close>.
\<close>

definition callback_pass :: "('h \<Rightarrow> 'm \<Rightarrow> unit outcome \<times> 'h) \<Rightarrow> nat \<Rightarrow> 'm Broker \<times> 'h \<Rightarrow> ('m Broker \<times> 'h) option" where
  "callback_pass callbackFn ch bh =
     (if bro_callback (fst bh) ch = InLoop
      then (case chan_receive ch (fst bh) of
              None \<Rightarrow> None
            | Some (m, b) \<Rightarrow>
                (case callbackFn (snd bh) m of
                   (Ok _, h) \<Rightarrow> Some (b, h)
                 | (Err e, h) \<Rightarrow> Some (set_callback ch Leaving b, h)
                 | (Panic p, h) \<Rightarrow> None))
      else None)"

definition callback_done :: "nat \<Rightarrow> 'm Broker \<Rightarrow> 'm Broker option" where
  "callback_done ch b = (if bro_callback b ch = InLoop then Some (set_callback ch Leaving b) else None)"

definition callback_leave :: "nat \<Rightarrow> 'm Broker \<Rightarrow> 'm Broker option" where
  "callback_leave ch b =
     (if bro_callback b ch = Leaving then map_option (set_callback ch Gone) (Unsubscribe ch b) else None)"

section \<open>All steps\<close>

datatype 'm broker_label =
    CallPublish 'm
  | CallSubscribe nat
  | CallSubscribeWithCallback nat
  | CallUnsubscribe nat
  | CallStop
  | StartSelects select_case
  | StartFans
  | ClientReceives nat
  | CallbackRuns nat
  | CallbackCtxDone nat
  | CallbackLeaves nat

definition keep_handler :: "'h \<Rightarrow> 'm Broker option \<Rightarrow> ('m Broker \<times> 'h) option" where
  "keep_handler h r = map_option (\<lambda>b. (b, h)) r"

fun broker_exec :: "('h \<Rightarrow> 'm \<Rightarrow> unit outcome \<times> 'h) \<Rightarrow> 'm broker_label \<Rightarrow> 'm Broker \<times> 'h \<Rightarrow> ('m Broker \<times> 'h) option" where
  "broker_exec f (CallPublish m) (b, h) = keep_handler h (Publish m b)"
| "broker_exec f (CallSubscribe ch) (b, h) = keep_handler h (Subscribe ch NoCallback b)"
| "broker_exec f (CallSubscribeWithCallback ch) (b, h) = keep_handler h (Subscribe ch InLoop b)"
| "broker_exec f (CallUnsubscribe ch) (b, h) = keep_handler h (Unsubscribe ch b)"
| "broker_exec f CallStop (b, h) = keep_handler h (Stop b)"
| "broker_exec f (StartSelects sc) (b, h) = (case bro_pc b of Selecting \<Rightarrow> keep_handler h (Start_select sc b) | _ \<Rightarrow> None)"
| "broker_exec f StartFans (b, h) = keep_handler h (Start_fan b)"
| "broker_exec f (ClientReceives ch) (b, h) =
     (if bro_callback b ch = NoCallback then keep_handler h (map_option snd (chan_receive ch b)) else None)"
| "broker_exec f (CallbackRuns ch) (b, h) = callback_pass f ch (b, h)"
| "broker_exec f (CallbackCtxDone ch) (b, h) = keep_handler h (callback_done ch b)"
| "broker_exec f (CallbackLeaves ch) (b, h) = keep_handler h (callback_leave ch b)"

text \<open>A label whose step is not enabled leaves everything as it is.\<close>

definition broker_step :: "('h \<Rightarrow> 'm \<Rightarrow> unit outcome \<times> 'h) \<Rightarrow> 'm Broker \<times> 'h \<Rightarrow> 'm broker_label \<Rightarrow> 'm Broker \<times> 'h" where
  "broker_step f bh l = (case broker_exec f l bh of Some bh' \<Rightarrow> bh' | None \<Rightarrow> bh)"

lemmas broker_ops = Publish_def Subscribe_def Unsubscribe_def Stop_def Start_fan_def chan_receive_def set_callback_def
  callback_pass_def callback_done_def callback_leave_def keep_handler_def

section \<open>Delivery in order\<close>

definition in_flight :: "'m Broker \<Rightarrow> nat \<Rightarrow> 'm list" where
  "in_flight b ch = (case bro_pc b of FanningOut m cs \<Rightarrow> if ch \<in> set cs then [m] else [] | _ \<Rightarrow> [])"

definition books_balance :: "'m Broker \<Rightarrow> bool" where
  "books_balance b \<longleftrightarrow>
     bro_published b = bro_taken b @ PubCh b \<and> (\<forall>ch. bro_sent b ch = bro_got b ch @ bro_chan b ch)"

definition subs_sound :: "'m Broker \<Rightarrow> bool" where
  "subs_sound b \<longleftrightarrow>
     (\<forall>m cs. bro_pc b = FanningOut m cs \<longrightarrow> distinct cs \<and> set cs \<subseteq> set (bro_subs b)) \<and>
     distinct (subCh b) \<and> set (subCh b) \<inter> set (bro_subs b) = {} \<and>
     set (subCh b) \<subseteq> set (bro_made b) \<and> set (bro_subs b) \<subseteq> set (bro_made b)"

text \<open>
  Everything sent to a channel comes right after \<open>pre\<close> in what was taken, without gaps; while it is subscribed, nothing came after it but the
  message at hand. A channel that the broker has not registered yet was sent nothing.
\<close>

definition stretch_from :: "'m list \<Rightarrow> 'm Broker \<Rightarrow> nat \<Rightarrow> bool" where
  "stretch_from pre b ch \<longleftrightarrow>
     (\<exists>post. bro_taken b = pre @ bro_sent b ch @ post \<and> (ch \<in> set (bro_subs b) \<longrightarrow> post = in_flight b ch))"

definition stretch :: "'m Broker \<Rightarrow> nat \<Rightarrow> bool" where
  "stretch b ch \<longleftrightarrow> (\<exists>pre. stretch_from pre b ch) \<and> (ch \<notin> set (bro_made b) \<or> ch \<in> set (subCh b) \<longrightarrow> bro_sent b ch = [])"

definition broker_inv :: "'m Broker \<Rightarrow> bool" where
  "broker_inv b \<longleftrightarrow> books_balance b \<and> subs_sound b \<and> (\<forall>ch. stretch b ch)"

lemma NewBroker_inv: "broker_inv NewBroker"
  by (simp add: broker_inv_def books_balance_def subs_sound_def stretch_def stretch_from_def NewBroker_def)

text \<open>What the parts of the invariant read; the other fields may change freely.\<close>

lemma broker_inv_cong:
  assumes "broker_inv b" "bro_pc b' = bro_pc b" "bro_subs b' = bro_subs b" "subCh b' = subCh b" "bro_made b' = bro_made b"
    "bro_taken b' = bro_taken b" "bro_sent b' = bro_sent b" "books_balance b'"
  shows "broker_inv b'"
  using assms by (simp add: broker_inv_def subs_sound_def stretch_def stretch_from_def in_flight_def)

lemma stretchE:
  assumes "broker_inv b"
  obtains pre post where "bro_taken b = pre @ bro_sent b c @ post" "c \<in> set (bro_subs b) \<longrightarrow> post = in_flight b c"
    "c \<notin> set (bro_made b) \<or> c \<in> set (subCh b) \<longrightarrow> bro_sent b c = []"
proof -
  have "stretch b c" using assms by (simp add: broker_inv_def)
  then show thesis using that unfolding stretch_def stretch_from_def by blast
qed

lemma chan_receive_inv:
  assumes "broker_inv b" "chan_receive ch b = Some (m, b')"
  shows "broker_inv b'"
  using assms(2) by (intro broker_inv_cong [OF assms(1)])
    (use assms(1) in \<open>auto simp: chan_receive_def broker_inv_def books_balance_def split: list.splits\<close>)

lemma set_callback_inv: "broker_inv b \<Longrightarrow> broker_inv (set_callback ch pc b)"
  by (rule broker_inv_cong [where b = b]) (auto simp: set_callback_def broker_inv_def books_balance_def)

lemma Unsubscribe_inv: "broker_inv b \<Longrightarrow> Unsubscribe ch b = Some b' \<Longrightarrow> broker_inv b'"
  by (rule broker_inv_cong [where b = b]) (auto simp: Unsubscribe_def broker_inv_def books_balance_def split: if_splits)

lemma Publish_inv: "broker_inv b \<Longrightarrow> Publish m b = Some b' \<Longrightarrow> broker_inv b'"
  by (rule broker_inv_cong [where b = b]) (auto simp: Publish_def broker_inv_def books_balance_def split: if_splits)

lemma Stop_inv: "broker_inv b \<Longrightarrow> Stop b = Some b' \<Longrightarrow> broker_inv b'"
  by (rule broker_inv_cong [where b = b]) (auto simp: Stop_def broker_inv_def books_balance_def split: if_splits)

lemma Subscribe_inv: "broker_inv b \<Longrightarrow> Subscribe ch cb b = Some b' \<Longrightarrow> broker_inv b'"
  by (auto simp: Subscribe_def broker_inv_def books_balance_def subs_sound_def stretch_def stretch_from_def in_flight_def split: if_splits)

lemma Start_fan_from:
  assumes "subs_sound b" "stretch_from pre b c" "Start_fan b = Some b'"
  shows "stretch_from pre b' c"
proof (cases "bro_pc b")
  case (FanningOut m cs)
  obtain post where p: "bro_taken b = pre @ bro_sent b c @ post" "c \<in> set (bro_subs b) \<longrightarrow> post = in_flight b c"
    using assms(2) unfolding stretch_from_def by blast
  show ?thesis
  proof (cases cs)
    case Nil
    then show ?thesis using assms(2,3) FanningOut by (auto simp: Start_fan_def stretch_from_def in_flight_def)
  next
    case (Cons ch rest)
    have s: "ch \<in> set (bro_subs b)" "ch \<notin> set rest" using assms(1) FanningOut Cons by (auto simp: subs_sound_def)
    have b': "b' = b\<lparr>bro_chan := (bro_chan b)(ch := bro_chan b ch @ [m]), bro_sent := (bro_sent b)(ch := bro_sent b ch @ [m]),
        bro_pc := FanningOut m rest\<rparr>"
      using assms(3) FanningOut Cons by (simp add: Start_fan_def split: if_splits)
    show ?thesis
      using p s FanningOut Cons by (cases "c = ch") (auto simp: b' stretch_from_def in_flight_def)
  qed
qed (use assms(3) in \<open>simp_all add: Start_fan_def\<close>)

lemma Start_select_from:
  assumes "stretch_from pre b c" "c \<notin> set (subCh b)" "bro_pc b = Selecting" "Start_select sc b = Some b'"
  shows "stretch_from pre b' c"
  using assms by (cases sc) (auto simp: stretch_from_def in_flight_def split: list.splits if_splits)

lemma subs_sound_fan: "subs_sound b \<Longrightarrow> Start_fan b = Some b' \<Longrightarrow> subs_sound b'"
  by (auto simp: subs_sound_def Start_fan_def split: start_pc.splits list.splits if_splits)

lemma subs_sound_select: "subs_sound b \<Longrightarrow> bro_pc b = Selecting \<Longrightarrow> Start_select sc b = Some b' \<Longrightarrow> subs_sound b'"
  by (cases sc) (auto simp: subs_sound_def split: list.splits if_splits)

lemma Start_fan_inv:
  assumes "broker_inv b" "Start_fan b = Some b'"
  shows "broker_inv b'"
proof -
  have s: "subs_sound b" using assms(1) by (simp add: broker_inv_def)
  have "stretch b' c" for c
  proof -
    have "stretch b c" using assms(1) by (simp add: broker_inv_def)
    moreover have "bro_sent b' c = bro_sent b c" "bro_made b' = bro_made b" "subCh b' = subCh b" if "c \<notin> set (bro_subs b)"
      using assms(2) that s by (auto simp: Start_fan_def subs_sound_def split: start_pc.splits list.splits if_splits)
    moreover have "c \<in> set (bro_made b')" "c \<notin> set (subCh b')" if "c \<in> set (bro_subs b)"
      using assms(2) that s by (auto simp: Start_fan_def subs_sound_def split: start_pc.splits list.splits if_splits)
    ultimately show ?thesis using Start_fan_from [OF s _ assms(2)] unfolding stretch_def by metis
  qed
  moreover have "books_balance b'" using assms by (auto simp: broker_inv_def books_balance_def Start_fan_def split: start_pc.splits list.splits if_splits)
  ultimately show ?thesis using subs_sound_fan [OF s assms(2)] by (simp add: broker_inv_def)
qed

lemma Start_select_inv:
  assumes "broker_inv b" "bro_pc b = Selecting" "Start_select sc b = Some b'"
  shows "broker_inv b'"
proof -
  have s: "subs_sound b" using assms(1) by (simp add: broker_inv_def)
  have k: "bro_sent b' = bro_sent b" "bro_made b' = bro_made b" "set (subCh b') \<subseteq> set (subCh b)"
    using assms(3) by (cases sc; auto split: list.splits if_splits)+
  have "stretch b' c" for c
  proof (cases "c \<in> set (subCh b)")
    case False
    have "stretch b c" using assms(1) by (simp add: broker_inv_def)
    then show ?thesis using Start_select_from [OF _ False assms(2,3)] False k unfolding stretch_def by auto
  next
    case True
    have e: "bro_sent b c = []" using True assms(1) by (simp add: broker_inv_def stretch_def)
    moreover have "stretch_from (bro_taken b') b' c \<or> stretch_from (bro_taken b) b' c"
      using assms(2,3) s True e by (cases sc) (auto simp: stretch_from_def in_flight_def subs_sound_def split: list.splits if_splits)
    ultimately show ?thesis using k(1) unfolding stretch_def by auto
  qed
  moreover have "books_balance b'" using assms(1,3) by (cases sc) (auto simp: broker_inv_def books_balance_def split: list.splits if_splits)
  ultimately show ?thesis using subs_sound_select [OF s assms(2,3)] by (simp add: broker_inv_def)
qed

lemmas op_invs = Publish_inv Subscribe_inv Unsubscribe_inv Stop_inv Start_select_inv Start_fan_inv chan_receive_inv set_callback_inv

lemma broker_exec_inv:
  assumes "broker_inv b" "broker_exec f l (b, h) = Some (b', h')"
  shows "broker_inv b'"
  using assms
  by (cases "(f, l, (b, h))" rule: broker_exec.cases)
    (auto simp: keep_handler_def callback_pass_def callback_done_def callback_leave_def
      intro: op_invs split: start_pc.splits if_splits option.splits prod.splits outcome.splits)

interpretation broker_history: event_component "broker_step f" "\<lambda>bh. broker_inv (fst bh)" for f
  by unfold_locales (auto simp: broker_step_def broker_exec_inv split: option.splits)

text \<open>The channel was registered when the broker had taken \<open>pre\<close>.\<close>

definition joined_after :: "'m list \<Rightarrow> nat \<Rightarrow> 'm Broker \<Rightarrow> bool" where
  "joined_after pre ch b \<longleftrightarrow> broker_inv b \<and> ch \<in> set (bro_made b) \<and> ch \<notin> set (subCh b) \<and> stretch_from pre b ch"

lemma joined_exec:
  assumes "joined_after pre ch b" "broker_exec f l (b, h) = Some (b', h')"
  shows "joined_after pre ch b'"
proof -
  have j: "broker_inv b" "subs_sound b" "ch \<in> set (bro_made b)" "ch \<notin> set (subCh b)" "stretch_from pre b ch"
    using assms(1) by (auto simp: joined_after_def broker_inv_def)
  have "broker_inv b'" by (rule broker_exec_inv [OF j(1) assms(2)])
  moreover have "ch \<in> set (bro_made b') \<and> ch \<notin> set (subCh b')"
    using assms(2) j(3,4)
    by (cases "(f, l, (b, h))" rule: broker_exec.cases)
      (auto simp: broker_ops split: start_pc.splits if_splits option.splits prod.splits outcome.splits list.splits elim!: Start_select.elims)
  moreover have "stretch_from pre b' ch"
  proof (cases "l = StartFans \<or> (\<exists>sc. l = StartSelects sc)")
    case True
    then show ?thesis using assms(2) Start_fan_from [OF j(2,5)] Start_select_from [OF j(5,4)]
      by (auto simp: keep_handler_def split: start_pc.splits)
  next
    case False
    then show ?thesis using assms(2) j(5)
      by (cases "(f, l, (b, h))" rule: broker_exec.cases)
        (auto simp: broker_ops stretch_from_def in_flight_def split: if_splits option.splits prod.splits outcome.splits list.splits)
  qed
  ultimately show ?thesis by (simp add: joined_after_def)
qed

interpretation joined: event_component "broker_step f" "\<lambda>bh. joined_after pre ch (fst bh)" for f pre ch
  by unfold_locales (auto simp: broker_step_def joined_exec split: option.splits)

lemma SelectSub_joins:
  assumes "broker_inv b" "bro_pc b = Selecting" "subCh b = ch # rest"
  shows "joined_after (bro_taken b) ch (fst (broker_step f (b, h) (StartSelects SelectSub)))"
    "ch \<in> set (bro_subs (fst (broker_step f (b, h) (StartSelects SelectSub))))"
proof -
  let ?b = "b\<lparr>subCh := rest, bro_subs := List.insert ch (bro_subs b)\<rparr>"
  have s: "Start_select SelectSub b = Some ?b" using assms(3) by simp
  then have e: "broker_step f (b, h) (StartSelects SelectSub) = (?b, h)" using assms(2) by (simp add: broker_step_def keep_handler_def)
  have "bro_sent b ch = []" "ch \<notin> set rest" "ch \<in> set (bro_made b)"
    using assms(1,3) by (auto simp: broker_inv_def stretch_def subs_sound_def)
  then show "joined_after (bro_taken b) ch (fst (broker_step f (b, h) (StartSelects SelectSub)))"
    using Start_select_inv [OF assms(1,2) s] assms(2) by (simp add: e joined_after_def stretch_from_def in_flight_def)
  show "ch \<in> set (bro_subs (fst (broker_step f (b, h) (StartSelects SelectSub))))" by (simp add: e)
qed

text \<open>Only \<open>Unsubscribe\<close> takes a channel out, called by a client or by the callback goroutine that leaves.\<close>

definition unsubscribes :: "nat \<Rightarrow> 'm broker_label list \<Rightarrow> bool" where
  "unsubscribes ch ls \<longleftrightarrow> CallUnsubscribe ch \<in> set ls \<or> CallbackLeaves ch \<in> set ls"

lemma stays_subscribed_step:
  assumes "ch \<notin> set (unsubCh b)" "l \<noteq> CallUnsubscribe ch" "l \<noteq> CallbackLeaves ch"
  shows "ch \<notin> set (unsubCh (fst (broker_step f (b, h) l))) \<and>
    (ch \<in> set (bro_subs b) \<longrightarrow> ch \<in> set (bro_subs (fst (broker_step f (b, h) l))))"
  using assms
  by (cases "(f, l, (b, h))" rule: broker_exec.cases)
    (auto simp: broker_step_def broker_ops split: start_pc.splits if_splits option.splits prod.splits outcome.splits list.splits elim!: Start_select.elims)

lemma stays_subscribed:
  assumes "ch \<notin> set (unsubCh (fst bh))" "\<not> unsubscribes ch ls"
  shows "ch \<notin> set (unsubCh (fst (foldl (broker_step f) bh ls))) \<and>
    (ch \<in> set (bro_subs (fst bh)) \<longrightarrow> ch \<in> set (bro_subs (fst (foldl (broker_step f) bh ls))))"
  using assms
proof (induction ls arbitrary: bh)
  case (Cons l ls)
  then have "ch \<notin> set (unsubCh (fst (broker_step f bh l))) \<and>
      (ch \<in> set (bro_subs (fst bh)) \<longrightarrow> ch \<in> set (bro_subs (fst (broker_step f bh l))))"
    using stays_subscribed_step [of ch "fst bh" l f "snd bh"] by (auto simp: unsubscribes_def)
  with Cons show ?case by (auto simp: unsubscribes_def)
qed simp

text \<open>
  C28: subscribers see the published messages in order and without gaps. Let the broker register a channel after any interleaving of publishers,
  subscribers, callbacks and its own steps. After any further interleaving, what was received from the channel are the messages that the broker took
  right after the registration, in order and without gaps; while the channel is subscribed, what was received, what lies in it, the message
  on its way to it and what the broker has not taken yet are together everything published that the broker had not taken before the registration.
  And the channel stays subscribed until \<open>Unsubscribe\<close> is called for it.
\<close>

theorem subscribers_see_messages_in_order:
  assumes "bh1 = foldl (broker_step f) (NewBroker, h) ls1" "bro_pc (fst bh1) = Selecting" "subCh (fst bh1) = ch # rest"
    and "b2 = fst (foldl (broker_step f) (broker_step f bh1 (StartSelects SelectSub)) ls2)"
  shows "\<exists>post. bro_published b2 = bro_taken (fst bh1) @ bro_got b2 ch @ post \<and>
     (ch \<in> set (bro_subs b2) \<longrightarrow> post = bro_chan b2 ch @ in_flight b2 ch @ PubCh b2) \<and>
     (\<not> unsubscribes ch (ls1 @ ls2) \<longrightarrow> ch \<in> set (bro_subs b2))"
proof -
  let ?bh = "broker_step f bh1 (StartSelects SelectSub)"
  have inv: "broker_inv (fst bh1)" unfolding assms(1) using broker_history.run_inv [of "(NewBroker, h)" f ls1] by (simp add: NewBroker_inv)
  note j = SelectSub_joins [OF inv assms(2,3), of f "snd bh1", unfolded prod.collapse]
  have "joined_after (bro_taken (fst bh1)) ch b2" unfolding assms(4) by (rule joined.run_inv [OF j(1)])
  then obtain post where p: "bro_taken b2 = bro_taken (fst bh1) @ bro_sent b2 ch @ post" "ch \<in> set (bro_subs b2) \<longrightarrow> post = in_flight b2 ch"
    and bal: "books_balance b2" unfolding joined_after_def stretch_from_def broker_inv_def by blast
  have "ch \<in> set (bro_subs b2)" if "\<not> unsubscribes ch (ls1 @ ls2)"
  proof -
    have n: "\<not> unsubscribes ch (ls1 @ [StartSelects SelectSub])" "\<not> unsubscribes ch ls2" using that by (auto simp: unsubscribes_def)
    have "ch \<notin> set (unsubCh (fst ?bh))" using stays_subscribed [OF _ n(1), of "(NewBroker, h)" f] by (simp add: assms(1) NewBroker_def)
    from stays_subscribed [OF this n(2), of f] j(2) show ?thesis by (simp add: assms(4))
  qed
  then show ?thesis using p bal by (intro exI [of _ "bro_chan b2 ch @ post @ PubCh b2"]) (auto simp: books_balance_def)
qed

section \<open>A full channel that nobody reads\<close>

definition abandoned :: "nat \<Rightarrow> 'm Broker \<Rightarrow> bool" where
  "abandoned ch b \<longleftrightarrow> ch \<in> set (bro_made b) \<and> bro_callback b ch = Gone \<and> chanSize \<le> length (bro_chan b ch) \<and>
     (\<exists>m cs. bro_pc b = FanningOut m (ch # cs))"

lemma abandoned_exec:
  assumes "abandoned ch b" "broker_exec f l (b, h) = Some (b', h')"
  shows "abandoned ch b'"
  using assms
  by (cases "(f, l, (b, h))" rule: broker_exec.cases)
    (auto simp: broker_ops abandoned_def split: start_pc.splits if_splits option.splits prod.splits outcome.splits list.splits)

interpretation blocked: event_component "broker_step f" "\<lambda>bh. abandoned ch (fst bh)" for f ch
  by unfold_locales (auto simp: broker_step_def abandoned_exec split: option.splits)

text \<open>
  C29: a full channel without a reader blocks the broker for good. Once the broker is handing a message to a channel
  that is full and whose callback goroutine has ended, \<open>Start\<close> never gets on: it serves no subscriber, and
  neither \<open>Stop\<close>, nor an error of the subscription, nor the end of the context makes it return. The comment
  promises a non-blocking send, whose default branch is commented out.
\<close>

theorem full_channel_blocks_broker:
  assumes "abandoned ch (fst bh)"
  shows "\<exists>m cs. bro_pc (fst (foldl (broker_step f) bh ls)) = FanningOut m (ch # cs)"
  using blocked.run_inv [OF assms] by (auto simp: abandoned_def)

definition failing_callback :: "unit \<Rightarrow> nat \<Rightarrow> unit outcome \<times> unit" where
  "failing_callback h m = (Err (NewError ''boom''), h)"

definition deliver_one :: "nat broker_label list" where
  "deliver_one = [CallPublish 1, StartSelects (SelectMsg [0]), StartFans, StartFans]"

definition blocking_run :: "nat broker_label list" where
  "blocking_run = [CallSubscribeWithCallback 0, StartSelects SelectSub] @ concat (replicate 8 deliver_one) @
     [CallbackRuns 0] @ deliver_one @ [CallPublish 1, StartSelects (SelectMsg [0]), CallbackLeaves 0]"

definition at_channel :: "nat \<Rightarrow> 'm Broker \<Rightarrow> bool" where
  "at_channel ch b = (case bro_pc b of FanningOut m (c # cs) \<Rightarrow> c = ch | _ \<Rightarrow> False)"

lemma blocking_run_eval:
  "(let b = fst (foldl (broker_step failing_callback) (NewBroker, ()) blocking_run)
    in 0 \<in> set (bro_made b) \<and> bro_callback b 0 = Gone \<and> length (bro_chan b 0) = 8 \<and> at_channel 0 b)"
  by code_simp

lemma blocking_run_abandons: "abandoned 0 (fst (foldl (broker_step failing_callback) (NewBroker, ()) blocking_run))"
  using blocking_run_eval
  by (auto simp: Let_def abandoned_def at_channel_def chanSize_def split: start_pc.splits list.splits)

theorem full_channel_blocks_broker_witness:
  "\<exists>m cs. bro_pc (fst (foldl (broker_step failing_callback)
      (foldl (broker_step failing_callback) (NewBroker, ()) blocking_run)
      [CallStop, StartSelects SelectStop, StartFans, StartSelects (SelectDone (NewError ''context canceled''))])) = FanningOut m (0 # cs)"
  by (rule full_channel_blocks_broker [OF blocking_run_abandons])

section \<open>The syncer\<close>

record EthSyncer =
  LatestHeaderBroker :: "Header Broker"
  SafeHeaderBroker :: "Header Broker"
  FinalizedHeaderBroker :: "Header Broker"
  OnNewHandler :: EthState

definition NewEthSyncer :: "EthState \<Rightarrow> EthSyncer" where
  "NewEthSyncer handler =
     \<lparr>LatestHeaderBroker = NewBroker, SafeHeaderBroker = NewBroker, FinalizedHeaderBroker = NewBroker, OnNewHandler = handler\<rparr>"

primrec on_new :: "BlockTag \<Rightarrow> EthState \<Rightarrow> Header \<Rightarrow> unit outcome \<times> EthState" where
  "on_new Latest = OnLatest"
| "on_new Safe = OnSafe"
| "on_new Finalized = OnFinalized"

primrec broker_of :: "BlockTag \<Rightarrow> EthSyncer \<Rightarrow> Header Broker" where
  "broker_of Latest s = LatestHeaderBroker s"
| "broker_of Safe s = SafeHeaderBroker s"
| "broker_of Finalized s = FinalizedHeaderBroker s"

primrec set_broker :: "BlockTag \<Rightarrow> Header Broker \<Rightarrow> EthSyncer \<Rightarrow> EthSyncer" where
  "set_broker Latest b s = s\<lparr>LatestHeaderBroker := b\<rparr>"
| "set_broker Safe b s = s\<lparr>SafeHeaderBroker := b\<rparr>"
| "set_broker Finalized b s = s\<lparr>FinalizedHeaderBroker := b\<rparr>"

text \<open>A step of one of the brokers or of its callback, with the headers' handler.\<close>

definition syncer_broker :: "BlockTag \<Rightarrow> Header broker_label \<Rightarrow> EthSyncer \<Rightarrow> EthSyncer" where
  "syncer_broker tag l s =
     (case broker_step (on_new tag) (broker_of tag s, OnNewHandler s) l of (b, h) \<Rightarrow> (set_broker tag b s)\<lparr>OnNewHandler := h\<rparr>)"

text \<open>A poll that fails is logged and forgotten; one that succeeds is sent to \<open>PubCh\<close>.\<close>

definition poll :: "BlockTag \<Rightarrow> Header outcome \<Rightarrow> EthSyncer \<Rightarrow> EthSyncer" where
  "poll tag r s = (case r of Ok header \<Rightarrow> syncer_broker tag (CallPublish header) s | _ \<Rightarrow> s)"

definition subscribeNewHead :: "BlockTag \<Rightarrow> EthSyncer \<Rightarrow> EthSyncer" where
  "subscribeNewHead tag s = syncer_broker tag (CallSubscribeWithCallback 0) s"

definition syncer_Start :: "EthSyncer \<Rightarrow> EthSyncer" where
  "syncer_Start s = subscribeNewHead Finalized (subscribeNewHead Safe (subscribeNewHead Latest s))"

text \<open>\<open>Stop\<close> up to \<open>eg.Wait\<close>, which returns when the three \<open>Start\<close> goroutines have.\<close>

definition syncer_Stop :: "EthSyncer \<Rightarrow> EthSyncer" where
  "syncer_Stop s = syncer_broker Finalized CallStop (syncer_broker Latest CallStop s)"

definition has_returned :: "'m Broker \<Rightarrow> bool" where
  "has_returned b = (case bro_pc b of Returned _ \<Rightarrow> True | _ \<Rightarrow> False)"

definition Wait_returns :: "EthSyncer \<Rightarrow> bool" where
  "Wait_returns s \<longleftrightarrow> has_returned (LatestHeaderBroker s) \<and> has_returned (SafeHeaderBroker s) \<and> has_returned (FinalizedHeaderBroker s)"

text \<open>
  What happens while the context is live: polls, the goroutines' steps, clients of the brokers. \<open>Stop\<close> on a broker
  is called by the syncer only, callbacks are registered by \<open>Start\<close> only, and the polling subscription ends with
  the context only.
\<close>

datatype syncer_event = Polls BlockTag "Header outcome" | BrokerSteps BlockTag "Header broker_label" | StopCalled

fun while_live :: "Header broker_label \<Rightarrow> bool" where
  "while_live CallStop = False"
| "while_live (CallSubscribeWithCallback _) = False"
| "while_live (CallbackCtxDone _) = False"
| "while_live (StartSelects (SelectSubErr _)) = False"
| "while_live (StartSelects (SelectDone _)) = False"
| "while_live _ = True"

primrec syncer_step :: "EthSyncer \<Rightarrow> syncer_event \<Rightarrow> EthSyncer" where
  "syncer_step s (Polls tag r) = poll tag r s"
| "syncer_step s (BrokerSteps tag l) = (if while_live l then syncer_broker tag l s else s)"
| "syncer_step s StopCalled = syncer_Stop s"

section \<open>Stopping the syncer\<close>

definition keeps_running :: "'m Broker \<Rightarrow> bool" where
  "keeps_running b \<longleftrightarrow> \<not> stopCh_closed b \<and> \<not> has_returned b"

lemma keeps_running_step:
  assumes "keeps_running b" "while_live l"
  shows "keeps_running (fst (broker_step f (b, h) l))"
  using assms
  by (cases l rule: while_live.cases)
    (auto simp: broker_step_def keeps_running_def has_returned_def broker_ops
      split: start_pc.splits if_splits option.splits prod.splits outcome.splits list.splits)

lemma syncer_broker_sel [simp]:
  "broker_of tag (syncer_broker tag' l s) =
     (if tag = tag' then fst (broker_step (on_new tag) (broker_of tag s, OnNewHandler s) l) else broker_of tag s)"
  "OnNewHandler (syncer_broker tag' l s) = snd (broker_step (on_new tag') (broker_of tag' s, OnNewHandler s) l)"
  by (cases tag; cases tag'; simp add: syncer_broker_def split: prod.splits)+

interpretation safe_runs: event_component syncer_step "\<lambda>s. keeps_running (broker_of Safe s)"
proof unfold_locales
  fix s e assume "keeps_running (broker_of Safe s)"
  then show "keeps_running (broker_of Safe (syncer_step s e))"
    by (cases e) (auto simp: poll_def syncer_Stop_def simp del: broker_of.simps intro!: keeps_running_step split: outcome.splits)
qed

text \<open>
  C30: \<open>Stop\<close> does not return. It closes the brokers of the latest and the finalized headers but not that of the safe
  ones, and then waits for all three: as long as the context lives, whatever happens, \<open>eg.Wait\<close> keeps waiting.
\<close>

theorem syncer_Stop_never_returns:
  assumes "keeps_running (SafeHeaderBroker s)"
  shows "\<not> Wait_returns (foldl syncer_step (syncer_Stop s) es)"
proof -
  have "keeps_running (broker_of Safe (foldl syncer_step s (StopCalled # es)))"
    using safe_runs.run_inv [of s "StopCalled # es"] assms by simp
  then show ?thesis by (simp add: Wait_returns_def keeps_running_def)
qed

theorem syncer_Stop_never_returns_witness:
  "\<not> Wait_returns (foldl syncer_step (syncer_Stop (syncer_Start (NewEthSyncer NewEthState))) [BrokerSteps Safe (StartSelects SelectStop)])"
proof (rule syncer_Stop_never_returns)
  show "keeps_running (SafeHeaderBroker (syncer_Start (NewEthSyncer NewEthState)))"
    by (simp add: syncer_Start_def subscribeNewHead_def syncer_broker_def NewEthSyncer_def broker_step_def broker_ops NewBroker_def
        keeps_running_def has_returned_def)
qed

section \<open>Losing track of a head\<close>

definition no_callback_runs :: "'m Broker \<Rightarrow> bool" where
  "no_callback_runs b \<longleftrightarrow> (\<forall>ch. bro_callback b ch \<noteq> InLoop)"

lemma no_callback_runs_step:
  assumes "no_callback_runs b" "while_live l"
  shows "no_callback_runs (fst (broker_step f (b, h) l)) \<and> snd (broker_step f (b, h) l) = h"
  using assms
  by (cases l rule: while_live.cases)
    (auto simp: broker_step_def no_callback_runs_def broker_ops
      split: start_pc.splits if_splits option.splits prod.splits outcome.splits list.splits)

text \<open>The callback of another level leaves the safe head alone.\<close>

lemma broker_step_handler:
  "snd (broker_step f (b, h) l) = h \<or> (\<exists>m. snd (broker_step f (b, h) l) = snd (f h m))"
  by (cases "(f, l, (b, h))" rule: broker_exec.cases)
    (auto simp: broker_step_def keep_handler_def callback_pass_def split: option.splits prod.splits outcome.splits if_splits start_pc.splits, (metis snd_conv)+)

lemma on_new_SafeHead: "tag \<noteq> Safe \<Longrightarrow> SafeHead (snd (on_new tag h m)) = SafeHead h"
  by (cases tag) (auto simp: head_defs Let_def)

lemma syncer_broker_SafeHead: "tag \<noteq> Safe \<Longrightarrow> SafeHead (OnNewHandler (syncer_broker tag l s)) = SafeHead (OnNewHandler s)"
  using broker_step_handler [of "on_new tag" "broker_of tag s" "OnNewHandler s" l] on_new_SafeHead by auto

lemma CallStop_handler [simp]: "snd (broker_step f (b, h) CallStop) = h"
  by (simp add: broker_step_def keep_handler_def split: option.splits)

lemma CallPublish_handler [simp]: "snd (broker_step f (b, h) (CallPublish m)) = h"
  by (simp add: broker_step_def keep_handler_def split: option.splits)

definition safe_lost :: "BlockID \<Rightarrow> EthSyncer \<Rightarrow> bool" where
  "safe_lost x s \<longleftrightarrow> no_callback_runs (broker_of Safe s) \<and> SafeHead (OnNewHandler s) = x"

interpretation safe_stays_lost: event_component syncer_step "safe_lost x" for x
proof unfold_locales
  fix s e assume lost: "safe_lost x s"
  have b: "safe_lost x (syncer_broker tag l s)" if "while_live l" for tag l
    using lost no_callback_runs_step [of "broker_of Safe s" l "on_new Safe" "OnNewHandler s", OF _ that] syncer_broker_SafeHead [of tag l s]
    by (cases "tag = Safe") (simp_all add: safe_lost_def del: broker_of.simps)
  have "no_callback_runs (broker_of Safe (syncer_Stop s))" "OnNewHandler (syncer_Stop s) = OnNewHandler s"
    using lost by (simp_all add: safe_lost_def syncer_Stop_def del: broker_of.simps)
  then have "safe_lost x (syncer_Stop s)" using lost by (simp add: safe_lost_def del: broker_of.simps)
  then show "safe_lost x (syncer_step s e)"
    using lost b by (cases e) (auto simp: poll_def split: outcome.splits)
qed

text \<open>
  C35: one conflicting header ends the tracking of the safe head. When the callback of the safe broker receives a header
  of the recorded height with another hash, \<open>OnSafe\<close> returns an error, the goroutine unsubscribes, and whatever
  L1 reports afterwards, \<open>EthState\<close> keeps the safe head it has. The zero \<open>BlockID\<close> of a fresh state counts as
  recorded: a first safe header of height zero is such a conflict.
\<close>

theorem conflicting_header_ends_tracking:
  assumes "bro_chan (SafeHeaderBroker s) 0 = hdr # rest" "bro_callback (SafeHeaderBroker s) 0 = InLoop"
    and "\<forall>ch. ch \<noteq> 0 \<longrightarrow> bro_callback (SafeHeaderBroker s) ch \<noteq> InLoop"
    and "word_of_int (h_Number hdr) = id_Number (SafeHead (OnNewHandler s))" "h_Hash hdr \<noteq> id_Hash (SafeHead (OnNewHandler s))"
  shows "SafeHead (OnNewHandler (foldl syncer_step (syncer_step s (BrokerSteps Safe (CallbackRuns 0))) es)) = SafeHead (OnNewHandler s)"
proof -
  have "safe_lost (SafeHead (OnNewHandler s)) (syncer_step s (BrokerSteps Safe (CallbackRuns 0)))"
    using assms by (simp add: safe_lost_def syncer_broker_def broker_step_def broker_ops OnSafe_def Let_def no_callback_runs_def)
  then have "safe_lost (SafeHead (OnNewHandler s)) (foldl syncer_step (syncer_step s (BrokerSteps Safe (CallbackRuns 0))) es)"
    by (rule safe_stays_lost.run_inv)
  then show ?thesis by (simp add: safe_lost_def)
qed

definition genesis_polled :: EthSyncer where
  "genesis_polled = foldl syncer_step (syncer_Start (NewEthSyncer NewEthState))
     [BrokerSteps Safe (StartSelects SelectSub), Polls Safe (Ok (demo_header 0 7)), BrokerSteps Safe (StartSelects (SelectMsg [0])),
      BrokerSteps Safe StartFans]"

theorem conflicting_header_ends_tracking_witness:
  "SafeHead (OnNewHandler (foldl syncer_step (syncer_step genesis_polled (BrokerSteps Safe (CallbackRuns 0)))
     [BrokerSteps Safe StartFans, Polls Safe (Ok (demo_header 1 8)), BrokerSteps Safe (StartSelects (SelectMsg [0])),
      BrokerSteps Safe StartFans, BrokerSteps Safe (CallbackRuns 0)])) = EmptyBlockID"
proof -
  have g: "bro_chan (SafeHeaderBroker genesis_polled) 0 = [demo_header 0 7]" "bro_callback (SafeHeaderBroker genesis_polled) 0 = InLoop"
    "\<forall>ch. ch \<noteq> 0 \<longrightarrow> bro_callback (SafeHeaderBroker genesis_polled) ch \<noteq> InLoop" "SafeHead (OnNewHandler genesis_polled) = EmptyBlockID"
    by (simp_all add: genesis_polled_def syncer_Start_def subscribeNewHead_def syncer_broker_def NewEthSyncer_def poll_def broker_step_def
        broker_ops NewBroker_def chanSize_def SafeHead_def NewEthState_def Map_Load_def)
  have "word_of_int (h_Number (demo_header 0 7)) = id_Number (SafeHead (OnNewHandler genesis_polled))"
    "h_Hash (demo_header 0 7) \<noteq> id_Hash (SafeHead (OnNewHandler genesis_polled))"
    by (simp_all add: g(4) demo_header_def EmptyBlockID_def)
  from conflicting_header_ends_tracking [OF g(1-3) this] show ?thesis unfolding g(4) .
qed

text \<open>One message before the registration, three after it: the second of them is on its way, the third is still to be taken.\<close>

definition before_joining :: "nat broker_label list" where
  "before_joining = [CallPublish 1, StartSelects (SelectMsg []), StartFans, CallSubscribe 0]"

definition after_joining :: "nat broker_label list" where
  "after_joining = [CallPublish 2, StartSelects (SelectMsg [0]), StartFans, StartFans, ClientReceives 0, CallPublish 3,
     StartSelects (SelectMsg [0]), CallPublish 4]"

definition ordered_run :: "nat Broker" where
  "ordered_run = fst (foldl (broker_step failing_callback)
     (broker_step failing_callback (foldl (broker_step failing_callback) (NewBroker, ()) before_joining) (StartSelects SelectSub)) after_joining)"

theorem subscribers_see_messages_in_order_witness:
  "bro_published ordered_run = [1] @ [2] @ [3] @ [4] \<and> bro_got ordered_run 0 = [2] \<and> 0 \<in> set (bro_subs ordered_run)"
proof -
  let ?bh1 = "foldl (broker_step failing_callback) (NewBroker, ()) before_joining"
  have b1: "bro_pc (fst ?bh1) = Selecting" "subCh (fst ?bh1) = [0]" "bro_taken (fst ?bh1) = [1]"
    by (simp_all add: before_joining_def broker_step_def broker_ops NewBroker_def)
  have b2: "bro_got ordered_run 0 = [2]" "bro_chan ordered_run 0 = []" "in_flight ordered_run 0 = [3]" "PubCh ordered_run = [4]" by code_simp+
  have "\<not> unsubscribes 0 (before_joining @ after_joining)" by (simp add: unsubscribes_def before_joining_def after_joining_def)
  with subscribers_see_messages_in_order [OF refl b1(1,2) ordered_run_def] b1(3) b2 show ?thesis by auto
qed

end
