(* ===== verification/Mapped_Sub.thy ===== *)
theory Mapped_Sub
  imports Broker
begin

text \<open>
  \<open>SubscribeMappedToMany\<close> of \<^verbatim>\<open>utils/broker.go\<close>: a goroutine that subscribes to a broker, maps every message to a list of
  events and passes these on through a channel of its own. It runs interleaved with the broker and its other
  clients.
\<close>

section \<open>The goroutine\<close>

text \<open>
  It waits in its select, hands the events of a message over one at a time, or leaves: the deferred calls close the
  outgoing channel first and unsubscribe then. \<open>mp_results\<close> and \<open>mp_delivered\<close> record the messages with their events
  and what the consumer received.
\<close>

datatype 'u mapped_pc = MapSelecting | MapSending "'u list" | MapClosing | MapUnsubscribing | MapGone

record ('m, 'u) mapped =
  mp_pc :: "'u mapped_pc"
  mp_outCh :: "'u list"
  mp_closed :: bool
  mp_results :: "('m \<times> 'u list) list"
  mp_delivered :: "'u list"

definition SubscribeMappedToMany :: "nat \<Rightarrow> 'm Broker \<Rightarrow> ('m Broker \<times> ('m, 'u) mapped) option" where
  "SubscribeMappedToMany inCh b =
     map_option (\<lambda>b'. (b', \<lparr>mp_pc = MapSelecting, mp_outCh = [], mp_closed = False, mp_results = [], mp_delivered = []\<rparr>))
       (Subscribe inCh NoCallback b)"

definition map_receive :: "('m \<Rightarrow> 'u list outcome) \<Rightarrow> nat \<Rightarrow> 'm Broker \<times> ('m, 'u) mapped \<Rightarrow> ('m Broker \<times> ('m, 'u) mapped) option" where
  "map_receive mapFn inCh bs =
     (case (mp_pc (snd bs), chan_receive inCh (fst bs)) of
        (MapSelecting, Some (head, b)) \<Rightarrow>
          (case mapFn head of
             Ok out \<Rightarrow> Some (b, (snd bs)\<lparr>mp_pc := MapSending out, mp_results := mp_results (snd bs) @ [(head, out)]\<rparr>)
           | Err e \<Rightarrow> Some (b, (snd bs)\<lparr>mp_pc := MapClosing, mp_results := mp_results (snd bs) @ [(head, [])]\<rparr>)
           | Panic p \<Rightarrow> None)
      | _ \<Rightarrow> None)"

definition map_send :: "('m, 'u) mapped \<Rightarrow> ('m, 'u) mapped option" where
  "map_send s =
     (case mp_pc s of
        MapSending [] \<Rightarrow> Some (s\<lparr>mp_pc := MapSelecting\<rparr>)
      | MapSending (event # rest) \<Rightarrow>
          if length (mp_outCh s) < chanSize * chanSize
          then Some (s\<lparr>mp_pc := MapSending rest, mp_outCh := mp_outCh s @ [event]\<rparr>) else None
      | _ \<Rightarrow> None)"

definition map_ctx_done :: "('m, 'u) mapped \<Rightarrow> ('m, 'u) mapped option" where
  "map_ctx_done s = (case mp_pc s of MapSelecting \<Rightarrow> Some (s\<lparr>mp_pc := MapClosing\<rparr>) | _ \<Rightarrow> None)"

definition map_close :: "('m, 'u) mapped \<Rightarrow> ('m, 'u) mapped option" where
  "map_close s = (case mp_pc s of MapClosing \<Rightarrow> Some (s\<lparr>mp_pc := MapUnsubscribing, mp_closed := True\<rparr>) | _ \<Rightarrow> None)"

definition map_unsubscribe :: "nat \<Rightarrow> 'm Broker \<times> ('m, 'u) mapped \<Rightarrow> ('m Broker \<times> ('m, 'u) mapped) option" where
  "map_unsubscribe inCh bs =
     (case mp_pc (snd bs) of
        MapUnsubscribing \<Rightarrow> map_option (\<lambda>b. (b, (snd bs)\<lparr>mp_pc := MapGone\<rparr>)) (Unsubscribe inCh (fst bs))
      | _ \<Rightarrow> None)"

definition consume :: "('m, 'u) mapped \<Rightarrow> ('m, 'u) mapped option" where
  "consume s = (case mp_outCh s of [] \<Rightarrow> None | x # xs \<Rightarrow> Some (s\<lparr>mp_outCh := xs, mp_delivered := mp_delivered s @ [x]\<rparr>))"

section \<open>Interleaving\<close>

datatype 'm mapped_label =
    BrokerDoes "'m broker_label"
  | MapReceives
  | MapSends
  | MapCtxDone
  | MapCloses
  | MapUnsubscribes
  | ConsumerReceives

text \<open>Nobody else receives from the goroutine's channel: it is not shared.\<close>

fun mapped_exec ::
    "('h \<Rightarrow> 'm \<Rightarrow> unit outcome \<times> 'h) \<Rightarrow> ('m \<Rightarrow> 'u list outcome) \<Rightarrow> nat \<Rightarrow> 'm mapped_label \<Rightarrow>
     'm Broker \<times> ('m, 'u) mapped \<times> 'h \<Rightarrow> ('m Broker \<times> ('m, 'u) mapped \<times> 'h) option" where
  "mapped_exec f mapFn inCh (BrokerDoes l) (b, s, h) =
     (if l = ClientReceives inCh then None else map_option (\<lambda>(b', h'). (b', s, h')) (broker_exec f l (b, h)))"
| "mapped_exec f mapFn inCh MapReceives (b, s, h) = map_option (\<lambda>(b', s'). (b', s', h)) (map_receive mapFn inCh (b, s))"
| "mapped_exec f mapFn inCh MapSends (b, s, h) = map_option (\<lambda>s'. (b, s', h)) (map_send s)"
| "mapped_exec f mapFn inCh MapCtxDone (b, s, h) = map_option (\<lambda>s'. (b, s', h)) (map_ctx_done s)"
| "mapped_exec f mapFn inCh MapCloses (b, s, h) = map_option (\<lambda>s'. (b, s', h)) (map_close s)"
| "mapped_exec f mapFn inCh MapUnsubscribes (b, s, h) = map_option (\<lambda>(b', s'). (b', s', h)) (map_unsubscribe inCh (b, s))"
| "mapped_exec f mapFn inCh ConsumerReceives (b, s, h) = map_option (\<lambda>s'. (b, s', h)) (consume s)"

definition mapped_step ::
    "('h \<Rightarrow> 'm \<Rightarrow> unit outcome \<times> 'h) \<Rightarrow> ('m \<Rightarrow> 'u list outcome) \<Rightarrow> nat \<Rightarrow>
     'm Broker \<times> ('m, 'u) mapped \<times> 'h \<Rightarrow> 'm mapped_label \<Rightarrow> 'm Broker \<times> ('m, 'u) mapped \<times> 'h" where
  "mapped_step f mapFn inCh st l = (case mapped_exec f mapFn inCh l st of Some st' \<Rightarrow> st' | None \<Rightarrow> st)"

section \<open>Invariant\<close>

definition mp_rest :: "('m, 'u) mapped \<Rightarrow> 'u list" where
  "mp_rest s = (case mp_pc s of MapSending xs \<Rightarrow> xs | _ \<Rightarrow> [])"

definition events_of :: "('m \<Rightarrow> 'u list outcome) \<Rightarrow> 'm \<Rightarrow> 'u list" where
  "events_of mapFn m = (case mapFn m of Ok out \<Rightarrow> out | _ \<Rightarrow> [])"

definition private_channel :: "nat \<Rightarrow> 'm Broker \<Rightarrow> bool" where
  "private_channel ch b \<longleftrightarrow> ch \<in> set (bro_made b) \<and> bro_callback b ch = NoCallback"

fun mapped_inv :: "('m \<Rightarrow> 'u list outcome) \<Rightarrow> nat \<Rightarrow> 'm Broker \<times> ('m, 'u) mapped \<times> 'h \<Rightarrow> bool" where
  "mapped_inv mapFn inCh (b, s, h) \<longleftrightarrow> broker_inv b \<and> private_channel inCh b \<and>
     mp_results s = map (\<lambda>m. (m, events_of mapFn m)) (bro_got b inCh) \<and>
     mp_delivered s @ mp_outCh s @ mp_rest s = concat (map snd (mp_results s))"

lemma broker_exec_private:
  assumes "private_channel ch b" "l \<noteq> ClientReceives ch" "broker_exec f l (b, h) = Some (b', h')"
  shows "private_channel ch b' \<and> bro_got b' ch = bro_got b ch"
  using assms
  by (cases "(f, l, (b, h))" rule: broker_exec.cases)
    (auto simp: broker_ops private_channel_def split: start_pc.splits if_splits option.splits prod.splits outcome.splits list.splits
      elim!: Start_select.elims)

lemma chan_receive_Some:
  assumes "chan_receive ch b = Some (m, b')"
  shows "bro_got b' ch = bro_got b ch @ [m]" "private_channel c b' = private_channel c b"
  using assms by (auto simp: chan_receive_def private_channel_def split: list.splits)

lemma map_receive_inv:
  assumes "mapped_inv mapFn inCh (b, s, h)" "map_receive mapFn inCh (b, s) = Some (b', s')"
  shows "mapped_inv mapFn inCh (b', s', h)"
proof -
  obtain m where m: "mp_pc s = MapSelecting" "chan_receive inCh b = Some (m, b')"
    and s': "s' = s\<lparr>mp_pc := mp_pc s', mp_results := mp_results s @ [(m, events_of mapFn m)]\<rparr>" "mp_rest s' = events_of mapFn m"
    using assms(2) by (auto simp: map_receive_def events_of_def mp_rest_def split: mapped_pc.splits option.splits outcome.splits)
  have e: "mp_results s' = mp_results s @ [(m, events_of mapFn m)]" "mp_delivered s' = mp_delivered s" "mp_outCh s' = mp_outCh s"
    by (subst s'(1); simp)+
  have "mp_rest s = []" by (simp add: mp_rest_def m(1))
  then show ?thesis using assms(1) chan_receive_inv [OF _ m(2)] chan_receive_Some [OF m(2)] e s'(2) by simp
qed

lemma mapped_exec_inv:
  assumes "mapped_inv mapFn inCh st" "mapped_exec f mapFn inCh l st = Some st'"
  shows "mapped_inv mapFn inCh st'"
proof -
  obtain b s h b' s' h' where st: "st = (b, s, h)" "st' = (b', s', h')" by (metis prod.exhaust)
  show ?thesis
  proof (cases l)
    case (BrokerDoes x)
    then have "broker_exec f x (b, h) = Some (b', h')" "s' = s" "x \<noteq> ClientReceives inCh"
      using assms(2) st by (auto split: if_splits)
    then show ?thesis using assms(1) st broker_exec_inv broker_exec_private by fastforce
  next
    case MapReceives
    then have "map_receive mapFn inCh (b, s) = Some (b', s')" "h' = h" using assms(2) st by auto
    then show ?thesis using map_receive_inv assms(1) st by fast
  next
    case MapUnsubscribes
    then have u: "mp_pc s = MapUnsubscribing" "Unsubscribe inCh b = Some b'" "s' = s\<lparr>mp_pc := MapGone\<rparr>"
      using assms(2) st by (auto simp: map_unsubscribe_def split: mapped_pc.splits)
    then show ?thesis using assms(1) st Unsubscribe_inv [of b inCh b']
      by (auto simp: Unsubscribe_def private_channel_def mp_rest_def split: if_splits)
  qed (use assms st in \<open>auto simp: map_send_def map_ctx_done_def map_close_def consume_def mp_rest_def split: mapped_pc.splits list.splits if_splits\<close>)
qed

interpretation mapping_history: event_component "mapped_step f mapFn inCh" "mapped_inv mapFn inCh" for f mapFn inCh
  by unfold_locales (auto simp: mapped_step_def mapped_exec_inv split: option.splits)

text \<open>
  Mapped events arrive in order and without gaps. For a goroutine of \<open>SubscribeMappedToMany\<close> started on a broker after any
  history, and after any interleaving since, the messages it has taken are a contiguous stretch of what was
  published, and the events the consumer received, those in the channel and those about to be sent are exactly the
  events of these messages, in order; none is dropped when the channel is full, the goroutine waits.
\<close>

theorem mapped_events_in_order:
  assumes "SubscribeMappedToMany inCh (fst (foldl (broker_step f) (NewBroker, h) ls0)) = Some (b0, s0)"
    and "foldl (mapped_step f mapFn inCh) (b0, s0, h0) ls = (b, s, h')"
  shows "\<exists>pre taken post. bro_published b = pre @ taken @ post \<and>
    mp_delivered s @ mp_outCh s @ mp_rest s = concat (map (events_of mapFn) taken)"
proof -
  let ?b = "fst (foldl (broker_step f) (NewBroker, h) ls0)"
  have inv: "broker_inv ?b" using broker_history.run_inv [of "(NewBroker, h)" f ls0] by (simp add: NewBroker_inv)
  have s: "Subscribe inCh NoCallback ?b = Some b0" "s0 = \<lparr>mp_pc = MapSelecting, mp_outCh = [], mp_closed = False, mp_results = [], mp_delivered = []\<rparr>"
    using assms(1) by (auto simp: SubscribeMappedToMany_def)
  have "inCh \<notin> set (bro_made ?b)" "bro_got b0 inCh = bro_got ?b inCh" using s(1) by (auto simp: Subscribe_def split: if_splits)
  then have "bro_got b0 inCh = []" using stretchE [OF inv, of inCh] inv by (metis append_is_Nil_conv books_balance_def broker_inv_def)
  then have "mapped_inv mapFn inCh (b0, s0, h0)"
    using s Subscribe_inv [OF inv s(1)] by (auto simp: mp_rest_def private_channel_def Subscribe_def split: if_splits)
  from mapping_history.run_inv [OF this, of f ls] assms(2) have r: "mapped_inv mapFn inCh (b, s, h')" by simp
  obtain pre post where "bro_taken b = pre @ bro_sent b inCh @ post" using stretchE r by (metis mapped_inv.simps)
  then have "bro_published b = pre @ bro_got b inCh @ (bro_chan b inCh @ post @ PubCh b)"
    using r by (simp add: broker_inv_def books_balance_def)
  moreover have "mp_delivered s @ mp_outCh s @ mp_rest s = concat (map (events_of mapFn) (bro_got b inCh))"
    using r by (simp add: comp_def)
  ultimately show ?thesis by blast
qed

end
