(* ===== verification/Rollup_Config.thy ===== *)
theory Rollup_Config
  imports Eth_State
begin

text \<open>
  \<^verbatim>\<open>rollup/services/rollup_config.go\<close>: the rollup's parameters, their checks, and the block number that is
  due at a time, and the text form of \<open>Bytes32\<close>. The two clients are calls on a world \<open>'w\<close>; go-ethereum's hexadecimal coder and the
  JSON decoder are parameters.
\<close>

section \<open>Configuration\<close>

text \<open>
  \<open>Bytes32\<close> and its text form; go-ethereum's \<open>hexutil\<close> is a parameter: \<open>Encode\<close>, and \<open>UnmarshalFixedText\<close> for the number of bytes of the destination.
\<close>

record hexutil =
  hx_Encode :: "bytes \<Rightarrow> string"
  hx_UnmarshalFixedText :: "string \<Rightarrow> string \<Rightarrow> nat \<Rightarrow> bytes outcome"
  hx_UnmarshalFixedJSON :: "string \<Rightarrow> nat \<Rightarrow> bytes outcome"

definition Bytes32_UnmarshalJSON :: "hexutil \<Rightarrow> string \<Rightarrow> bytes outcome" where
  "Bytes32_UnmarshalJSON hx txt = hx_UnmarshalFixedJSON hx txt 32"

definition Bytes32_UnmarshalText :: "hexutil \<Rightarrow> string \<Rightarrow> bytes outcome" where
  "Bytes32_UnmarshalText hx txt = hx_UnmarshalFixedText hx ''Bytes32'' txt 32"

definition Bytes32_MarshalText :: "hexutil \<Rightarrow> bytes \<Rightarrow> string outcome" where
  "Bytes32_MarshalText hx b = Ok (hx_Encode hx b)"

definition Bytes32_String :: "hexutil \<Rightarrow> bytes \<Rightarrow> string" where
  "Bytes32_String hx b = hx_Encode hx b"

definition hex2 :: "uint8 \<Rightarrow> string" where
  "hex2 w = [''0123456789abcdef'' ! (unat w div 16), ''0123456789abcdef'' ! (unat w mod 16)]"

definition Bytes32_TerminalString :: "bytes \<Rightarrow> string" where
  "Bytes32_TerminalString b = concat (map hex2 (take 3 b)) @ ''..'' @ concat (map hex2 (drop 29 b))"

lemma Bytes32_TerminalString_length: "length b = 32 \<Longrightarrow> length (Bytes32_TerminalString b) = 14"
proof -
  have "length (concat (map hex2 bs)) = 2 * length bs" for bs by (induction bs) (simp_all add: hex2_def)
  then show "length b = 32 \<Longrightarrow> length (Bytes32_TerminalString b) = 14" by (simp add: Bytes32_TerminalString_def)
qed

lemma Bytes32_text_roundtrip:
  assumes "\<And>name bs. hx_UnmarshalFixedText hx name (hx_Encode hx bs) (length bs) = Ok bs" "length b = 32"
  shows "bind_out (Bytes32_MarshalText hx b) (Bytes32_UnmarshalText hx) = Ok b"
  using assms(1) [of "''Bytes32''" b] assms(2) by (simp add: Bytes32_MarshalText_def Bytes32_UnmarshalText_def)

record systemConfig =
  BatcherAddr :: address
  Overhead :: hash
  Scalar :: hash
  sys_GasLimit :: uint64

record rollup_Genesis =
  gen_L1 :: BlockID
  gen_L2 :: BlockID
  L2Time :: uint64
  SystemConfig :: systemConfig

record RollupConfig =
  cfg_Genesis :: rollup_Genesis
  BlockTime :: uint64
  MaxSequencerDrift :: uint64
  cfg_SeqWindowSize :: uint64
  cfg_L1ChainID :: "big option"
  cfg_L2ChainID :: "big option"
  BatchInboxAddress :: address

text \<open>The rollup file; reading and JSON decoding are parameters.\<close>

definition NewRollupConfig :: "(string \<Rightarrow> bytes outcome) \<Rightarrow> (bytes \<Rightarrow> RollupConfig outcome) \<Rightarrow> string \<Rightarrow> RollupConfig outcome" where
  "NewRollupConfig ReadFile Decode path =
     bind_out (wrap_err (''deploy config at '' @ path @ '' not found'') (ReadFile path)) (\<lambda>file. wrap_err ''cannot decode config'' (Decode file))"

text \<open>The errors of \<open>Check\<close>.\<close>

abbreviation "ErrBlockTimeZero \<equiv> ''block time cannot be 0''"
abbreviation "ErrInvalidSeqWindowSize \<equiv> ''sequencing window size must at least be 2''"
abbreviation "ErrMissingGenesisL1Hash \<equiv> ''genesis L1 hash cannot be empty''"
abbreviation "ErrMissingGenesisL2Hash \<equiv> ''genesis L2 hash cannot be empty''"
abbreviation "ErrGenesisHashesSame \<equiv> ''achievement get! rollup inception: L1 and L2 genesis cannot be the same''"
abbreviation "ErrMissingGenesisL2Time \<equiv> ''missing L2 genesis time''"
abbreviation "ErrMissingBatcherAddr \<equiv> ''missing genesis system config batcher address''"
abbreviation "ErrMissingOverhead \<equiv> ''missing genesis system config overhead''"
abbreviation "ErrMissingScalar \<equiv> ''missing genesis system config scalar''"
abbreviation "ErrMissingGasLimit \<equiv> ''missing genesis system config gas limit''"
abbreviation "ErrMissingBatchInboxAddress \<equiv> ''missing batch inbox address''"
abbreviation "ErrMissingL1ChainID \<equiv> ''L1 chain ID must not be nil''"
abbreviation "ErrMissingL2ChainID \<equiv> ''L2 chain ID must not be nil''"
abbreviation "ErrChainIDsSame \<equiv> ''L1 and L2 chain IDs must be different''"
abbreviation "ErrL1ChainIDNotPositive \<equiv> ''L1 chain ID must be non-zero and positive''"
abbreviation "ErrL2ChainIDNotPositive \<equiv> ''L2 chain ID must be non-zero and positive''"

section \<open>Operations\<close>

definition Check :: "RollupConfig \<Rightarrow> unit outcome" where
  "Check c =
     (let g = cfg_Genesis c; sys = SystemConfig g in
      if BlockTime c = 0 then Err (Sentinel ErrBlockTimeZero)
      else if cfg_SeqWindowSize c < 2 then Err (Sentinel ErrInvalidSeqWindowSize)
      else if id_Hash (gen_L1 g) = 0 then Err (Sentinel ErrMissingGenesisL1Hash)
      else if id_Hash (gen_L2 g) = 0 then Err (Sentinel ErrMissingGenesisL2Hash)
      else if id_Hash (gen_L2 g) = id_Hash (gen_L1 g) then Err (Sentinel ErrGenesisHashesSame)
      else if L2Time g = 0 then Err (Sentinel ErrMissingGenesisL2Time)
      else if BatcherAddr sys = 0 then Err (Sentinel ErrMissingBatcherAddr)
      else if Overhead sys = 0 then Err (Sentinel ErrMissingOverhead)
      else if Scalar sys = 0 then Err (Sentinel ErrMissingScalar)
      else if sys_GasLimit sys = 0 then Err (Sentinel ErrMissingGasLimit)
      else if BatchInboxAddress c = 0 then Err (Sentinel ErrMissingBatchInboxAddress)
      else case cfg_L1ChainID c of
             None \<Rightarrow> Err (Sentinel ErrMissingL1ChainID)
           | Some l1 \<Rightarrow>
               (case cfg_L2ChainID c of
                  None \<Rightarrow> Err (Sentinel ErrMissingL2ChainID)
                | Some l2 \<Rightarrow>
                    if l1 = l2 then Err (Sentinel ErrChainIDsSame)
                    else if l1 < 1 then Err (Sentinel ErrL1ChainIDNotPositive)
                    else if l2 < 1 then Err (Sentinel ErrL2ChainIDNotPositive)
                    else Ok ()))"

definition TargetBlockNumber :: "RollupConfig \<Rightarrow> uint64 \<Rightarrow> uint64 outcome" where
  "TargetBlockNumber c timestamp =
     (let genesisTimestamp = L2Time (cfg_Genesis c) in
      if timestamp < genesisTimestamp
      then Err (NewError (''did not reach genesis time ('' @ show_nat (unat genesisTimestamp) @ '') yet''))
      else let wallClockGenesisDiff = timestamp - genesisTimestamp in
           if BlockTime c = 0 then Panic ''integer divide by zero''
           else let blocksSinceGenesis = wallClockGenesisDiff div BlockTime c
                in Ok (id_Number (gen_L2 (cfg_Genesis c)) + blocksSinceGenesis))"

record 'w ChainClient =
  cl_ChainID :: "('w, big) call"
  cl_HeaderByNumber :: "uint64 \<Rightarrow> ('w, Header) call"

text \<open>
  \<open>CheckL1ChainID\<close> and \<open>CheckL2ChainID\<close> differ in the field and in the name of the layer; a nil chain ID
  is dereferenced by \<open>Cmp\<close>.
\<close>

definition checkChainID :: "string \<Rightarrow> big option \<Rightarrow> 'w ChainClient \<Rightarrow> ('w, unit) call" where
  "checkChainID layer configured client =
     bind_call (wrap_call (''failed to get '' @ layer @ '' chain ID'') (cl_ChainID client)) (\<lambda>i w.
       case configured of
         None \<Rightarrow> (Panic ''nil pointer dereference'', w)
       | Some c \<Rightarrow>
           if c \<noteq> i then (Err (NewError (''incorrect '' @ layer @ '' RPC chain id '' @ show_int i @ '', expected '' @ show_int c)), w)
           else (Ok (), w))"

definition CheckL1ChainID :: "RollupConfig \<Rightarrow> 'w ChainClient \<Rightarrow> ('w, unit) call" where
  "CheckL1ChainID c = checkChainID ''L1'' (cfg_L1ChainID c)"

definition CheckL2ChainID :: "RollupConfig \<Rightarrow> 'w ChainClient \<Rightarrow> ('w, unit) call" where
  "CheckL2ChainID c = checkChainID ''L2'' (cfg_L2ChainID c)"

definition checkGenesisHash :: "string \<Rightarrow> BlockID \<Rightarrow> 'w ChainClient \<Rightarrow> ('w, unit) call" where
  "checkGenesisHash layer b client =
     bind_call (wrap_call (''failed to get '' @ layer @ '' genesis blockhash'') (cl_HeaderByNumber client (id_Number b))) (\<lambda>header.
       if h_Hash header \<noteq> id_Hash b then fail_call (NewError (''incorrect '' @ layer @ '' genesis block hash '' @ show_hash (h_Hash header) @ '', expected '' @ show_hash (id_Hash b)))
       else ret_call ())"

definition CheckL1GenesisBlockHash :: "RollupConfig \<Rightarrow> 'w ChainClient \<Rightarrow> ('w, unit) call" where
  "CheckL1GenesisBlockHash c = checkGenesisHash ''L1'' (gen_L1 (cfg_Genesis c))"

definition CheckL2GenesisBlockHash :: "RollupConfig \<Rightarrow> 'w ChainClient \<Rightarrow> ('w, unit) call" where
  "CheckL2GenesisBlockHash c = checkGenesisHash ''L2'' (gen_L2 (cfg_Genesis c))"

definition ValidateL1Config :: "RollupConfig \<Rightarrow> 'w ChainClient \<Rightarrow> ('w, unit) call" where
  "ValidateL1Config c client = bind_call (CheckL1ChainID c client) (\<lambda>_. CheckL1GenesisBlockHash c client)"

definition ValidateL2Config :: "RollupConfig \<Rightarrow> 'w ChainClient \<Rightarrow> ('w, unit) call" where
  "ValidateL2Config c client = bind_call (CheckL2ChainID c client) (\<lambda>_. CheckL2GenesisBlockHash c client)"

section \<open>Properties\<close>

lemma Check_Ok_iff:
  "Check c = Ok () \<longleftrightarrow>
     BlockTime c \<noteq> 0 \<and> 2 \<le> cfg_SeqWindowSize c \<and> id_Hash (gen_L1 (cfg_Genesis c)) \<noteq> 0 \<and> id_Hash (gen_L2 (cfg_Genesis c)) \<noteq> 0 \<and>
     id_Hash (gen_L2 (cfg_Genesis c)) \<noteq> id_Hash (gen_L1 (cfg_Genesis c)) \<and> L2Time (cfg_Genesis c) \<noteq> 0 \<and>
     BatcherAddr (SystemConfig (cfg_Genesis c)) \<noteq> 0 \<and> Overhead (SystemConfig (cfg_Genesis c)) \<noteq> 0 \<and>
     Scalar (SystemConfig (cfg_Genesis c)) \<noteq> 0 \<and> sys_GasLimit (SystemConfig (cfg_Genesis c)) \<noteq> 0 \<and> BatchInboxAddress c \<noteq> 0 \<and>
     (\<exists>l1 l2. cfg_L1ChainID c = Some l1 \<and> cfg_L2ChainID c = Some l2 \<and> l1 \<noteq> l2 \<and> 0 < l1 \<and> 0 < l2)"
  by (auto simp: Check_def Let_def not_less split: option.splits)

text \<open>
  A configuration that passes \<open>Check\<close> gives every time its block. From the genesis time on,
  \<open>TargetBlockNumber\<close> does not panic and returns genesis plus \<open>k\<close> for the \<open>k\<close> with
  genesis time plus \<open>k\<close> block times at most the timestamp, and the next block later than it; before
  the genesis time it returns an error.
\<close>

theorem TargetBlockNumber_on_schedule:
  assumes "Check c = Ok ()"
  shows "if timestamp < L2Time (cfg_Genesis c) then (\<exists>e. TargetBlockNumber c timestamp = Err e)
    else (\<exists>k. TargetBlockNumber c timestamp = Ok (id_Number (gen_L2 (cfg_Genesis c)) + of_nat k) \<and>
      unat (L2Time (cfg_Genesis c)) + k * unat (BlockTime c) \<le> unat timestamp \<and>
      unat timestamp < unat (L2Time (cfg_Genesis c)) + (k + 1) * unat (BlockTime c))"
proof (cases "timestamp < L2Time (cfg_Genesis c)")
  case True
  then show ?thesis by (simp add: TargetBlockNumber_def Let_def)
next
  case False
  let ?d = "timestamp - L2Time (cfg_Genesis c)"
  define k where "k = unat ?d div unat (BlockTime c)"
  have le: "L2Time (cfg_Genesis c) \<le> timestamp" using False by simp
  have d: "unat ?d = unat timestamp - unat (L2Time (cfg_Genesis c))" using unat_sub_no_wrap [OF le] .
  have bt: "BlockTime c \<noteq> 0" "0 < unat (BlockTime c)" using assms by (auto simp: Check_Ok_iff unat_gt_0)
  have "?d div BlockTime c = of_nat k" by (simp add: k_def word_arith_nat_div)
  moreover have "k * unat (BlockTime c) \<le> unat ?d" by (simp add: k_def)
  moreover have "unat ?d < (k + 1) * unat (BlockTime c)"
    using dividend_less_div_times [OF bt(2), of "unat ?d"] by (simp add: k_def)
  ultimately show ?thesis
    using False bt le d by (auto simp: TargetBlockNumber_def Let_def word_le_nat_alt intro!: exI [of _ k])
qed

definition demo_rollup :: RollupConfig where
  "demo_rollup = \<lparr>cfg_Genesis = \<lparr>gen_L1 = NewBlockID 10 1, gen_L2 = NewBlockID 0 2, L2Time = 1000,
      SystemConfig = \<lparr>BatcherAddr = 1, Overhead = 1, Scalar = 1, sys_GasLimit = 1\<rparr>\<rparr>, BlockTime = 2, MaxSequencerDrift = 600,
     cfg_SeqWindowSize = 3600, cfg_L1ChainID = Some 1, cfg_L2ChainID = Some 13527, BatchInboxAddress = 1\<rparr>"

theorem TargetBlockNumber_on_schedule_witness:
  "\<exists>k. TargetBlockNumber demo_rollup 1007 = Ok (of_nat k) \<and> 1000 + k * 2 \<le> 1007 \<and> 1007 < 1000 + (k + 1) * 2"
proof -
  have "Check demo_rollup = Ok ()" by code_simp
  from TargetBlockNumber_on_schedule [OF this, of 1007] show ?thesis by (simp add: demo_rollup_def NewBlockID_def)
qed

end
