(* ===== verification/Service_Config.thy ===== *)
theory Service_Config
  imports Rollup_Config Tx_Mgr Batch_Builder
begin

text \<open>
  \<^verbatim>\<open>rollup/services/flags.go\<close>, \<^verbatim>\<open>rollup/services/config.go\<close>, \<^verbatim>\<open>rollup/rpc/eth/txmgr/config.go\<close>,
  \<^verbatim>\<open>rollup/rpc/eth/eth_client.go\<close>, \<^verbatim>\<open>rollup/rpc/eth/utils.go\<close> and \<^verbatim>\<open>cmd/sidecar/main.go\<close>: the command line of the sidecar, the
  system configuration read from it, and the services started with it. The command line library is a record of
  its typed accessors; decoding of the rollup file, of addresses and of keys are parameters, as are the
  constructors of clients and signers.
\<close>

section \<open>Flags\<close>

datatype flag_kind =
    StringFlag string
  | BoolFlag bool
  | IntFlag int
  | UintFlag uint64
  | Uint64Flag uint64
  | DurationFlag int

record cli_flag =
  fl_Name :: string
  fl_Kind :: flag_kind
  fl_Required :: bool

abbreviation flag :: "string \<Rightarrow> flag_kind \<Rightarrow> cli_flag" where
  "flag n k \<equiv> \<lparr>fl_Name = n, fl_Kind = k, fl_Required = False\<rparr>"
abbreviation required_flag :: "string \<Rightarrow> flag_kind \<Rightarrow> cli_flag" where
  "required_flag n k \<equiv> \<lparr>fl_Name = n, fl_Kind = k, fl_Required = True\<rparr>"

abbreviation seconds :: "int \<Rightarrow> int" where "seconds n \<equiv> n * 10 ^ 9"

definition VerbosityFlag :: cli_flag where "VerbosityFlag = flag ''verbosity'' (IntFlag 3)"
definition l1EndpointFlag :: cli_flag where "l1EndpointFlag = required_flag ''l1.endpoint'' (StringFlag '''')"
definition l2EndpointFlag :: cli_flag where "l2EndpointFlag = required_flag ''l2.endpoint'' (StringFlag '''')"
definition protocolRollupCfgPathFlag :: cli_flag where
  "protocolRollupCfgPathFlag = required_flag ''protocol.rollup-cfg-path'' (StringFlag '''')"
definition protocolRollupAddrFlag :: cli_flag where "protocolRollupAddrFlag = required_flag ''protocol.rollup-addr'' (StringFlag '''')"
definition protocolL1OracleAddrFlag :: cli_flag where
  "protocolL1OracleAddrFlag = flag ''protocol.l1-oracle-addr'' (StringFlag ''0xff00000000000000000000000000000000000002'')"
definition disseminatorEnableFlag :: cli_flag where "disseminatorEnableFlag = flag ''disseminator'' (BoolFlag False)"
definition disseminatorPrivateKeyFlag :: cli_flag where "disseminatorPrivateKeyFlag = flag ''disseminator.private-key'' (StringFlag '''')"
definition disseminatorClefEndpointFlag :: cli_flag where
  "disseminatorClefEndpointFlag = flag ''disseminator.clef-endpoint'' (StringFlag '''')"
definition disseminatorIntervalFlag :: cli_flag where "disseminatorIntervalFlag = flag ''disseminator.interval'' (UintFlag 8)"
definition disseminatorSubSafetyMarginFlag :: cli_flag where
  "disseminatorSubSafetyMarginFlag = flag ''disseminator.sub-safety-margin'' (Uint64Flag 0)"
definition disseminatorTargetBatchSizeFlag :: cli_flag where
  "disseminatorTargetBatchSizeFlag = flag ''disseminator.target-batch-size'' (Uint64Flag 0)"
definition validatorEnableFlag :: cli_flag where "validatorEnableFlag = flag ''validator'' (BoolFlag False)"
definition validatorAddrFlag :: cli_flag where "validatorAddrFlag = flag ''validator.addr'' (StringFlag '''')"
definition validatorPrivateKeyFlag :: cli_flag where "validatorPrivateKeyFlag = flag ''validator.private-key'' (StringFlag '''')"
definition validatorClefEndpointFlag :: cli_flag where "validatorClefEndpointFlag = flag ''validator.clef-endpoint'' (StringFlag '''')"
definition validatorValidationIntervalFlag :: cli_flag where
  "validatorValidationIntervalFlag = flag ''validator.validation-interval'' (UintFlag 10)"

definition disseminatorTxMgrNamespace :: string where "disseminatorTxMgrNamespace = ''disseminator.txmgr''"
definition validatorTxMgrNamespace :: string where "validatorTxMgrNamespace = ''validator.txmgr''"

definition generalFlags :: "cli_flag list" where "generalFlags = [VerbosityFlag, l1EndpointFlag, l2EndpointFlag]"
definition protocolFlags :: "cli_flag list" where
  "protocolFlags = [protocolRollupCfgPathFlag, protocolRollupAddrFlag, protocolL1OracleAddrFlag]"
definition disseminatorCLIFlags :: "cli_flag list" where
  "disseminatorCLIFlags = [disseminatorEnableFlag, disseminatorPrivateKeyFlag, disseminatorClefEndpointFlag, disseminatorIntervalFlag,
     disseminatorSubSafetyMarginFlag, disseminatorTargetBatchSizeFlag]"
definition validatorCLIFlags :: "cli_flag list" where
  "validatorCLIFlags = [validatorEnableFlag, validatorAddrFlag, validatorPrivateKeyFlag, validatorClefEndpointFlag, validatorValidationIntervalFlag]"

abbreviation "ResubmissionTimeoutFlagName \<equiv> ''resubmission-timeout''"
abbreviation "TxSendTimeoutFlagName \<equiv> ''send-timeout''"
abbreviation "TxNotInMempoolTimeoutFlagName \<equiv> ''not-in-mempool-timeout''"
abbreviation "NetworkTimeoutFlagName \<equiv> ''network-timeout''"
abbreviation "ReceiptQueryIntervalFlagName \<equiv> ''receipt-query-interval''"
abbreviation "NumConfirmationsFlagName \<equiv> ''num-confirmations''"
abbreviation "SafeAbortNonceTooLowCountFlagName \<equiv> ''safe-abort-nonce-too-low-count''"

definition txmgr_CLIFlags :: "string \<Rightarrow> cli_flag list" where
  "txmgr_CLIFlags namespace =
     [flag (namespace @ ''.'' @ NumConfirmationsFlagName) (Uint64Flag 10),
      flag (namespace @ ''.'' @ SafeAbortNonceTooLowCountFlagName) (Uint64Flag 3),
      flag (namespace @ ''.'' @ ResubmissionTimeoutFlagName) (DurationFlag (seconds 48)),
      flag (namespace @ ''.'' @ NetworkTimeoutFlagName) (DurationFlag (seconds 2)),
      flag (namespace @ ''.'' @ TxSendTimeoutFlagName) (DurationFlag 0),
      flag (namespace @ ''.'' @ TxNotInMempoolTimeoutFlagName) (DurationFlag (seconds 120)),
      flag (namespace @ ''.'' @ ReceiptQueryIntervalFlagName) (DurationFlag (seconds 12))]"

definition mergeFlagGroups :: "cli_flag list list \<Rightarrow> cli_flag list" where
  "mergeFlagGroups groups = fold (\<lambda>group flags. flags @ group) groups []"

definition CLIFlags :: "cli_flag list" where
  "CLIFlags = mergeFlagGroups
     [generalFlags, protocolFlags, disseminatorCLIFlags, txmgr_CLIFlags disseminatorTxMgrNamespace,
      validatorCLIFlags, txmgr_CLIFlags validatorTxMgrNamespace]"

section \<open>Configuration\<close>

text \<open>The accessors of \<open>cli.Context\<close>, each by the name of the flag.\<close>

record cli_Context =
  cli_String :: "string \<Rightarrow> string"
  cli_Bool :: "string \<Rightarrow> bool"
  cli_Int :: "string \<Rightarrow> int"
  cli_Uint :: "string \<Rightarrow> uint64"
  cli_Uint64 :: "string \<Rightarrow> uint64"
  cli_Duration :: "string \<Rightarrow> int"

text \<open>Reading the rollup file, addresses and keys \<open>'k\<close>.\<close>

record 'k config_env =
  os_ReadFile :: "string \<Rightarrow> bytes outcome"
  decode_rollup :: "bytes \<Rightarrow> RollupConfig outcome"
  HexToAddress :: "string \<Rightarrow> address"
  HexToECDSA :: "string \<Rightarrow> 'k outcome"

record ProtocolConfig =
  pc_Rollup :: RollupConfig
  pc_RollupAddr :: address

record L1Config = l1c_Endpoint :: string
record L2Config =
  l2c_Endpoint :: string
  l2c_ChainID :: uint64

record 'k DisseminatorConfig =
  dc_IsEnabled :: bool
  dc_AccountAddr :: address
  dc_PrivateKey :: "'k option"
  dc_ClefEndpoint :: string
  dc_DisseminationInterval :: int
  dc_SubSafetyMargin :: uint64
  dc_TargetBatchSize :: uint64
  dc_TxMgrCfg :: Config

record 'k ValidatorConfig =
  vc_IsEnabled :: bool
  vc_AccountAddr :: address
  vc_PrivateKey :: "'k option"
  vc_ClefEndpoint :: string
  vc_ValidationInterval :: int
  vc_TxMgrCfg :: Config

record 'k SystemConfig =
  sc_Protocol :: ProtocolConfig
  sc_L1 :: L1Config
  sc_L2 :: L2Config
  sc_Disseminator :: "'k DisseminatorConfig"
  sc_Validator :: "'k ValidatorConfig"

text \<open>\<open>keyStr[2:]\<close> of a string of one character is out of range.\<close>

definition toPrivateKey :: "'k config_env \<Rightarrow> string \<Rightarrow> 'k option outcome" where
  "toPrivateKey env keyStr =
     (if keyStr = '''' then Ok None
      else if length keyStr < 2 then Panic ''slice bounds out of range''
      else case HexToECDSA env (drop 2 keyStr) of
             Ok k \<Rightarrow> Ok (Some k)
           | Err e \<Rightarrow> Panic (''failed to parse secret key: '' @ error_msg e)
           | Panic p \<Rightarrow> Panic p)"

text \<open>\<open>time.Duration(n) * time.Second\<close> with 64 bits.\<close>

definition duration_of_seconds :: "uint64 \<Rightarrow> int" where
  "duration_of_seconds n = wrap_int64 (wrap_int64 (uint n) * 10 ^ 9)"

text \<open>
  The chain ID is a pointer that is passed on. A nil pointer, which the record of \<open>Config\<close> cannot hold, is zero
  there; \<open>createTxManager\<close> panics on it before the transaction manager exists.
\<close>

definition NewConfigFromCLI :: "cli_Context \<Rightarrow> string \<Rightarrow> big option \<Rightarrow> address \<Rightarrow> Config" where
  "NewConfigFromCLI c namespace chainID from =
     \<lparr>ResubmissionTimeout = cli_Duration c (namespace @ ''.'' @ ResubmissionTimeoutFlagName),
      cfg_ChainID = (case chainID of None \<Rightarrow> 0 | Some i \<Rightarrow> i),
      TxSendTimeout = cli_Duration c (namespace @ ''.'' @ TxSendTimeoutFlagName),
      TxNotInMempoolTimeout = cli_Duration c (namespace @ ''.'' @ TxNotInMempoolTimeoutFlagName),
      NetworkTimeout = cli_Duration c (namespace @ ''.'' @ NetworkTimeoutFlagName),
      ReceiptQueryInterval = cli_Duration c (namespace @ ''.'' @ ReceiptQueryIntervalFlagName),
      NumConfirmations = cli_Uint64 c (namespace @ ''.'' @ NumConfirmationsFlagName),
      SafeAbortNonceTooLowCount = cli_Uint64 c (namespace @ ''.'' @ SafeAbortNonceTooLowCountFlagName),
      cfg_From = from\<rparr>"

definition newProtocolConfigFromCLI :: "'k config_env \<Rightarrow> cli_Context \<Rightarrow> ProtocolConfig outcome" where
  "newProtocolConfigFromCLI env c =
     bind_out (NewRollupConfig (os_ReadFile env) (decode_rollup env) (cli_String c (fl_Name protocolRollupCfgPathFlag))) (\<lambda>rollupCfg.
       Ok \<lparr>pc_Rollup = rollupCfg, pc_RollupAddr = HexToAddress env (cli_String c (fl_Name protocolRollupAddrFlag))\<rparr>)"

definition newL1ConfigFromCLI :: "cli_Context \<Rightarrow> L1Config" where
  "newL1ConfigFromCLI c = \<lparr>l1c_Endpoint = cli_String c (fl_Name l1EndpointFlag)\<rparr>"

definition newL2ConfigFromCLI :: "cli_Context \<Rightarrow> L2Config" where
  "newL2ConfigFromCLI c = \<lparr>l2c_Endpoint = cli_String c (fl_Name l2EndpointFlag), l2c_ChainID = 0\<rparr>"

definition newDisseminatorConfigFromCLI :: "'k config_env \<Rightarrow> cli_Context \<Rightarrow> Config \<Rightarrow> 'k DisseminatorConfig outcome" where
  "newDisseminatorConfigFromCLI env c txMgrCfg =
     bind_out (toPrivateKey env (cli_String c (fl_Name disseminatorPrivateKeyFlag))) (\<lambda>key.
       Ok \<lparr>dc_IsEnabled = cli_Bool c (fl_Name disseminatorEnableFlag), dc_AccountAddr = cfg_From txMgrCfg, dc_PrivateKey = key,
           dc_ClefEndpoint = cli_String c (fl_Name disseminatorClefEndpointFlag),
           dc_DisseminationInterval = duration_of_seconds (cli_Uint c (fl_Name disseminatorIntervalFlag)),
           dc_SubSafetyMargin = cli_Uint64 c (fl_Name disseminatorSubSafetyMarginFlag),
           dc_TargetBatchSize = cli_Uint64 c (fl_Name disseminatorTargetBatchSizeFlag), dc_TxMgrCfg = txMgrCfg\<rparr>)"

definition newValidatorConfigFromCLI :: "'k config_env \<Rightarrow> cli_Context \<Rightarrow> Config \<Rightarrow> 'k ValidatorConfig outcome" where
  "newValidatorConfigFromCLI env c txMgrCfg =
     bind_out (toPrivateKey env (cli_String c (fl_Name validatorPrivateKeyFlag))) (\<lambda>key.
       Ok \<lparr>vc_IsEnabled = cli_Bool c (fl_Name validatorEnableFlag), vc_AccountAddr = cfg_From txMgrCfg, vc_PrivateKey = key,
           vc_ClefEndpoint = cli_String c (fl_Name validatorClefEndpointFlag),
           vc_ValidationInterval = duration_of_seconds (cli_Uint c (fl_Name validatorValidationIntervalFlag)), vc_TxMgrCfg = txMgrCfg\<rparr>)"

text \<open>The \<open>validate\<close> method of the disseminator's configuration; the validator's has the same body.\<close>

definition validate_signer :: "bool \<Rightarrow> 'k option \<Rightarrow> string \<Rightarrow> unit outcome" where
  "validate_signer enabled key clef =
     (if \<not> enabled then Ok ()
      else if key = None \<and> clef = '''' then Err (NewError ''missing both private key and clef endpoint (require at least one)'')
      else Ok ())"

definition validate_validator :: "'k ValidatorConfig \<Rightarrow> unit outcome" where
  "validate_validator c = validate_signer (vc_IsEnabled c) (vc_PrivateKey c) (vc_ClefEndpoint c)"

definition validate :: "'k SystemConfig \<Rightarrow> unit outcome" where
  "validate conf =
     (let d = sc_Disseminator conf; v = sc_Validator conf
      in if \<not> (dc_IsEnabled d \<or> vc_IsEnabled v)
         then Err (NewError ''at least one of disseminator and validator must be enabled'')
         else bind_out (wrap_err ''disseminator config invalid'' (validate_signer (dc_IsEnabled d) (dc_PrivateKey d) (dc_ClefEndpoint d))) (\<lambda>_.
                wrap_err ''validator config invalid'' (validate_validator v)))"

definition ParseSystemConfig :: "'k config_env \<Rightarrow> cli_Context \<Rightarrow> 'k SystemConfig outcome" where
  "ParseSystemConfig env c =
     bind_out (wrap_err ''failed to parse protocol config'' (newProtocolConfigFromCLI env c)) (\<lambda>protocolCfg.
       let disseminatorAddr = (if cli_String c (fl_Name disseminatorEnableFlag) \<noteq> ''''
             then BatcherAddr (rollup_Genesis.SystemConfig (cfg_Genesis (pc_Rollup protocolCfg))) else 0);
           validatorAddr = (if cli_String c (fl_Name validatorEnableFlag) \<noteq> ''''
             then HexToAddress env (cli_String c (fl_Name validatorAddrFlag)) else 0);
           l1ChainID = cfg_L1ChainID (pc_Rollup protocolCfg)
       in bind_out (newDisseminatorConfigFromCLI env c (NewConfigFromCLI c disseminatorTxMgrNamespace l1ChainID disseminatorAddr)) (\<lambda>d.
          bind_out (newValidatorConfigFromCLI env c (NewConfigFromCLI c validatorTxMgrNamespace l1ChainID validatorAddr)) (\<lambda>v.
            let conf = \<lparr>sc_Protocol = protocolCfg, sc_L1 = newL1ConfigFromCLI c, sc_L2 = newL2ConfigFromCLI c,
                       sc_Disseminator = d, sc_Validator = v\<rparr>
            in bind_out (wrap_err ''failed to validate config'' (validate conf)) (\<lambda>_. Ok conf))))"

section \<open>What the components read of it\<close>

definition GetL1OracleAddr :: "ProtocolConfig \<Rightarrow> address" where
  "GetL1OracleAddr c = 0x2A00000000000000000000000000000000000010"

definition GetL1ChainID :: "ProtocolConfig \<Rightarrow> uint64 outcome" where
  "GetL1ChainID c = (case cfg_L1ChainID (pc_Rollup c) of None \<Rightarrow> Panic ''nil pointer dereference'' | Some i \<Rightarrow> Ok (word_of_int i))"

definition GetL2ChainID :: "ProtocolConfig \<Rightarrow> uint64 outcome" where
  "GetL2ChainID c = (case cfg_L2ChainID (pc_Rollup c) of None \<Rightarrow> Panic ''nil pointer dereference'' | Some i \<Rightarrow> Ok (word_of_int i))"

text \<open>The interface \<open>derivation.Config\<close> as the system configuration implements it.\<close>

definition derivation_config :: "'k SystemConfig \<Rightarrow> derivationConfig" where
  "derivation_config conf =
     \<lparr>L1OracleAddr = GetL1OracleAddr (sc_Protocol conf), SeqWindowSize = cfg_SeqWindowSize (pc_Rollup (sc_Protocol conf)),
      SubSafetyMargin = dc_SubSafetyMargin (sc_Disseminator conf)\<rparr>"

definition bridge_config :: "ProtocolConfig \<Rightarrow> bridgeConfig" where
  "bridge_config c = \<lparr>SequencerInboxAddr = BatchInboxAddress (pc_Rollup c), RollupAddr = pc_RollupAddr c\<rparr>"

section \<open>Clients\<close>

text \<open>
  \<open>retry.Do\<close> of the retry library with the attempts, the delay and the context among its options, and
  \<open>rpc.DialContext\<close>. A connection is a value of \<open>'r\<close>.
\<close>

record retry_opts =
  ro_Attempts :: nat
  ro_Delay :: int
  ro_LastErrorOnly :: bool

definition DefaultRetryOpts :: retry_opts where
  "DefaultRetryOpts = \<lparr>ro_Attempts = 3, ro_Delay = seconds 5, ro_LastErrorOnly = True\<rparr>"

record ('w, 'r) dialer =
  retry_Do :: "retry_opts \<Rightarrow> ('w, 'r) call \<Rightarrow> ('w, 'r) call"
  rpc_DialContext :: "string \<Rightarrow> ('w, 'r) call"

definition DialWithRetry :: "('w, 'r) dialer \<Rightarrow> string \<Rightarrow> retry_opts option \<Rightarrow> ('w, 'r) call" where
  "DialWithRetry d endpoint retryOpts =
     wrap_call ''failed to connect to node''
       (retry_Do d (case retryOpts of None \<Rightarrow> DefaultRetryOpts | Some ro \<Rightarrow> ro) (rpc_DialContext d endpoint))"

record 'r LazyEthClient =
  lz_client :: "'r option"
  lz_endpoint :: string
  lz_retryOpts :: "retry_opts option"

definition NewLazilyDialedEthClient :: "string \<Rightarrow> 'r LazyEthClient" where
  "NewLazilyDialedEthClient endpoint = \<lparr>lz_client = None, lz_endpoint = endpoint, lz_retryOpts = None\<rparr>"

definition EnsureDialed :: "('w, 'r) dialer \<Rightarrow> ('r LazyEthClient \<times> 'w, unit) call" where
  "EnsureDialed d cw =
     (case lz_client (fst cw) of
        Some _ \<Rightarrow> (Ok (), cw)
      | None \<Rightarrow>
          (case wrap_call ''failed to connect to node'' (DialWithRetry d (lz_endpoint (fst cw)) (lz_retryOpts (fst cw))) (snd cw) of
             (Ok client, w) \<Rightarrow> (Ok (), ((fst cw)\<lparr>lz_client := Some client\<rparr>, w))
           | (Err e, w) \<Rightarrow> (Err e, (fst cw, w))
           | (Panic p, w) \<Rightarrow> (Panic p, (fst cw, w))))"

text \<open>A node that does not know the block answers null.\<close>

definition HeaderByTag :: "(BlockTag \<Rightarrow> ('w, Header option) call) \<Rightarrow> BlockTag \<Rightarrow> ('w, Header) call" where
  "HeaderByTag eth_getBlockByNumber tag =
     bind_call (eth_getBlockByNumber tag) (\<lambda>header. case header of None \<Rightarrow> fail_call (Sentinel ''not found'') | Some h \<Rightarrow> ret_call h)"

definition SuggestGasTipCap :: "('w, big) call \<Rightarrow> ('w, big) call \<Rightarrow> ('w, big) call" where
  "SuggestGasTipCap eth_maxPriorityFeePerGas eth_gasPrice w =
     (case eth_maxPriorityFeePerGas w of
        (Ok gasTipCap, w1) \<Rightarrow> (Ok gasTipCap, w1)
      | (Err e, w1) \<Rightarrow> eth_gasPrice w1
      | (Panic p, w1) \<Rightarrow> (Panic p, w1))"

definition TxPoolStatus :: "(string \<Rightarrow> ('w, (string \<times> uint64) list) call) \<Rightarrow> ('w, (string \<times> uint64) list) call" where
  "TxPoolStatus rpc_CallContext = rpc_CallContext ''txpool_status''"

section \<open>The sidecar\<close>

text \<open>A transactor: the account it signs for.\<close>

record ('w, 'k, 'r) sidecar_env =
  sd_config :: "'k config_env"
  sd_dialer :: "('w, 'r) dialer"
  NewExternalSigner :: "string \<Rightarrow> ('w, unit) call"
  NewKeyedTransactorWithChainID :: "'k \<Rightarrow> big \<Rightarrow> address outcome"
  bridge_NewTxManager :: "Config \<Rightarrow> bridgeConfig \<Rightarrow> ('w, unit) call"
  bridge_NewClient :: "bridgeConfig \<Rightarrow> ('w, unit) call"
  l1Syncer_Start :: "('w, unit) call"
  disseminator_Start :: "'k SystemConfig \<Rightarrow> ('w, unit) call"
  validator_Start :: "'k SystemConfig \<Rightarrow> ('w, unit) call"
  eg_Wait :: "('w, unit) call"

text \<open>The key is dereferenced to compute its address.\<close>

definition createTransactor ::
    "('w, 'k, 'r) sidecar_env \<Rightarrow> address \<Rightarrow> string \<Rightarrow> 'k option \<Rightarrow> uint64 \<Rightarrow> ('w, address) call" where
  "createTransactor env accountAddress clefEndpoint secretKey chainID w =
     (if clefEndpoint \<noteq> ''''
      then bind_call (wrap_call ''failed to initialize external signer from clef endpoint'' (NewExternalSigner env clefEndpoint))
             (\<lambda>_. ret_call accountAddress) w
      else case secretKey of
             None \<Rightarrow> (Panic ''nil pointer dereference'', w)
           | Some k \<Rightarrow> (NewKeyedTransactorWithChainID env k (uint chainID), w))"

definition createTxManager ::
    "('w, 'k, 'r) sidecar_env \<Rightarrow> string \<Rightarrow> ProtocolConfig \<Rightarrow> address \<Rightarrow> string \<Rightarrow> 'k option \<Rightarrow> Config \<Rightarrow> ('w, unit) call" where
  "createTxManager env l1RpcUrl protocolCfg accountAddr clef key txMgrCfg w =
     (case GetL1ChainID protocolCfg of
        Err e \<Rightarrow> (Err e, w)
      | Panic p \<Rightarrow> (Panic p, w)
      | Ok chainID \<Rightarrow>
          bind_call (wrap_call ''failed to initialize transactor'' (createTransactor env accountAddr clef key chainID)) (\<lambda>from.
          bind_call (wrap_call ''failed to initialize l1 client'' (DialWithRetry (sd_dialer env) l1RpcUrl None)) (\<lambda>_.
            bridge_NewTxManager env (txMgrCfg\<lparr>cfg_From := from\<rparr>) (bridge_config protocolCfg))) w)"

definition createL1State :: "('w, 'k, 'r) sidecar_env \<Rightarrow> 'k SystemConfig \<Rightarrow> ('w, unit) call" where
  "createL1State env conf =
     bind_call (wrap_call ''failed to initialize l1 client'' (DialWithRetry (sd_dialer env) (l1c_Endpoint (sc_L1 conf)) None))
       (\<lambda>_. l1Syncer_Start env)"

definition createDisseminator :: "('w, 'k, 'r) sidecar_env \<Rightarrow> 'k SystemConfig \<Rightarrow> ('w, unit) call" where
  "createDisseminator env conf =
     (let d = sc_Disseminator conf
      in wrap_call ''failed to initialize l1 tx manager''
           (createTxManager env (l1c_Endpoint (sc_L1 conf)) (sc_Protocol conf) (dc_AccountAddr d) (dc_ClefEndpoint d) (dc_PrivateKey d) (dc_TxMgrCfg d)))"

definition createValidator :: "('w, 'k, 'r) sidecar_env \<Rightarrow> 'k SystemConfig \<Rightarrow> ('w, unit) call" where
  "createValidator env conf =
     (let v = sc_Validator conf
      in bind_call (wrap_call ''failed to initialize l1 tx manager''
             (createTxManager env (l1c_Endpoint (sc_L1 conf)) (sc_Protocol conf) (vc_AccountAddr v) (vc_ClefEndpoint v) (vc_PrivateKey v) (vc_TxMgrCfg v)))
           (\<lambda>_. bind_call (wrap_call ''failed to initialize l1 client'' (DialWithRetry (sd_dialer env) (l1c_Endpoint (sc_L1 conf)) None))
           (\<lambda>_. wrap_call ''failed to initialize l1 bridge client'' (bridge_NewClient env (bridge_config (sc_Protocol conf))))))"

definition when_call :: "bool \<Rightarrow> ('w, unit) call \<Rightarrow> ('w, unit) call" where
  "when_call b c = (if b then c else ret_call ())"

definition startServices :: "('w, 'k, 'r) sidecar_env \<Rightarrow> cli_Context \<Rightarrow> ('w, unit) call" where
  "startServices env c w =
     (case wrap_err ''failed to parse config'' (ParseSystemConfig (sd_config env) c) of
        Err e \<Rightarrow> (Err e, w)
      | Panic p \<Rightarrow> (Panic p, w)
      | Ok conf \<Rightarrow>
          bind_call (wrap_call ''failed to start syncing l1 state'' (createL1State env conf)) (\<lambda>_.
          bind_call (when_call (dc_IsEnabled (sc_Disseminator conf))
             (bind_call (wrap_call ''failed to create disseminator'' (createDisseminator env conf))
                (\<lambda>_. wrap_call ''failed to start disseminator'' (disseminator_Start env conf)))) (\<lambda>_.
          bind_call (when_call (vc_IsEnabled (sc_Validator conf))
             (bind_call (wrap_call ''failed to create validator'' (createValidator env conf))
                (\<lambda>_. wrap_call ''failed to start validator'' (validator_Start env conf)))) (\<lambda>_.
            wrap_call ''service failed while running'' (eg_Wait env)))) w)"

text \<open>
  \<open>main\<close>: the command-line library parses the arguments (\<open>parse\<close>) and runs the action; an error is printed and ends the process with status 1, a panic
  with status 2.
\<close>

datatype exit_status = Exit int "string list"

definition sidecar_main :: "(cli_flag list \<Rightarrow> string list \<Rightarrow> cli_Context outcome) \<Rightarrow> ('w, 'k, 'r) sidecar_env \<Rightarrow> string list \<Rightarrow> 'w \<Rightarrow> exit_status \<times> 'w" where
  "sidecar_main parse env args w =
     (case parse CLIFlags args of
        Err e \<Rightarrow> (Exit 1 [error_msg e], w)
      | Panic p \<Rightarrow> (Exit 2 [p], w)
      | Ok c \<Rightarrow>
          (case startServices env c w of
             (Ok _, w1) \<Rightarrow> (Exit 0 [], w1)
           | (Err e, w1) \<Rightarrow> (Exit 1 [error_msg e], w1)
           | (Panic p, w1) \<Rightarrow> (Exit 2 [p], w1)))"

section \<open>Properties\<close>

text \<open>Two command lines that agree on every declared flag, read at its declared type.\<close>

definition agree_on :: "cli_Context \<Rightarrow> cli_Context \<Rightarrow> cli_flag \<Rightarrow> bool" where
  "agree_on c c' f =
     (case fl_Kind f of
        StringFlag _ \<Rightarrow> cli_String c (fl_Name f) = cli_String c' (fl_Name f)
      | BoolFlag _ \<Rightarrow> cli_Bool c (fl_Name f) = cli_Bool c' (fl_Name f)
      | IntFlag _ \<Rightarrow> cli_Int c (fl_Name f) = cli_Int c' (fl_Name f)
      | UintFlag _ \<Rightarrow> cli_Uint c (fl_Name f) = cli_Uint c' (fl_Name f)
      | Uint64Flag _ \<Rightarrow> cli_Uint64 c (fl_Name f) = cli_Uint64 c' (fl_Name f)
      | DurationFlag _ \<Rightarrow> cli_Duration c (fl_Name f) = cli_Duration c' (fl_Name f))"

lemmas flag_defs = VerbosityFlag_def l1EndpointFlag_def l2EndpointFlag_def protocolRollupCfgPathFlag_def protocolRollupAddrFlag_def
  protocolL1OracleAddrFlag_def disseminatorEnableFlag_def disseminatorPrivateKeyFlag_def disseminatorClefEndpointFlag_def
  disseminatorIntervalFlag_def disseminatorSubSafetyMarginFlag_def disseminatorTargetBatchSizeFlag_def validatorEnableFlag_def
  validatorAddrFlag_def validatorPrivateKeyFlag_def validatorClefEndpointFlag_def validatorValidationIntervalFlag_def

lemmas flag_lists = CLIFlags_def mergeFlagGroups_def generalFlags_def protocolFlags_def disseminatorCLIFlags_def validatorCLIFlags_def
  txmgr_CLIFlags_def disseminatorTxMgrNamespace_def validatorTxMgrNamespace_def

text \<open>
  C34: the configuration is read from declared flags at their declared types. No flag is declared twice, and two command
  lines that agree on every declared flag, as the type it is declared with, give the same configuration, error or
  panic; only the two switches that enable a service are, besides, read as strings.
\<close>

theorem config_reads_declared_flags:
  assumes "\<forall>f \<in> set CLIFlags. agree_on c c' f"
    and "cli_String c (fl_Name disseminatorEnableFlag) = cli_String c' (fl_Name disseminatorEnableFlag)"
    and "cli_String c (fl_Name validatorEnableFlag) = cli_String c' (fl_Name validatorEnableFlag)"
  shows "distinct (map fl_Name CLIFlags) \<and> ParseSystemConfig env c = ParseSystemConfig env c'"
proof
  show "distinct (map fl_Name CLIFlags)" by (simp add: flag_lists flag_defs)
  have a: "list_all (agree_on c c') CLIFlags" using assms(1) by (simp add: list_all_iff)
  have "newProtocolConfigFromCLI env c = newProtocolConfigFromCLI env c'"
    "newL1ConfigFromCLI c = newL1ConfigFromCLI c'" "newL2ConfigFromCLI c = newL2ConfigFromCLI c'"
    "cli_String c (fl_Name validatorAddrFlag) = cli_String c' (fl_Name validatorAddrFlag)"
    "newDisseminatorConfigFromCLI env c = newDisseminatorConfigFromCLI env c'" "newValidatorConfigFromCLI env c = newValidatorConfigFromCLI env c'"
    "NewConfigFromCLI c disseminatorTxMgrNamespace = NewConfigFromCLI c' disseminatorTxMgrNamespace"
    "NewConfigFromCLI c validatorTxMgrNamespace = NewConfigFromCLI c' validatorTxMgrNamespace"
    using a by (simp_all add: fun_eq_iff newProtocolConfigFromCLI_def newL1ConfigFromCLI_def newL2ConfigFromCLI_def NewConfigFromCLI_def
        newDisseminatorConfigFromCLI_def newValidatorConfigFromCLI_def flag_lists flag_defs agree_on_def)
  then show "ParseSystemConfig env c = ParseSystemConfig env c'" using assms(2,3) by (simp add: ParseSystemConfig_def)
qed

text \<open>
  The rollup file is not checked. Nothing calls \<open>RollupConfig.Check\<close>: a command line that is accepted with one rollup
  configuration is accepted with every other one, and when that one has no L1 chain ID, creating either service ends
  in a nil dereference instead of an error.
\<close>

theorem rollup_config_unchecked:
  assumes "ParseSystemConfig env c = Ok conf"
  shows "\<exists>conf'. ParseSystemConfig (env\<lparr>os_ReadFile := \<lambda>_. Ok bs, decode_rollup := \<lambda>_. Ok rc\<rparr>) c = Ok conf' \<and> pc_Rollup (sc_Protocol conf') = rc \<and>
    (cfg_L1ChainID rc = None \<longrightarrow>
       createDisseminator e conf' w = (Panic ''nil pointer dereference'', w) \<and> createValidator e conf' w = (Panic ''nil pointer dereference'', w))"
proof -
  let ?env = "env\<lparr>os_ReadFile := \<lambda>_. Ok bs, decode_rollup := \<lambda>_. Ok rc\<rparr>"
  obtain kd kv where k: "toPrivateKey env (cli_String c (fl_Name disseminatorPrivateKeyFlag)) = Ok kd"
    "toPrivateKey env (cli_String c (fl_Name validatorPrivateKeyFlag)) = Ok kv" and v: "validate conf = Ok ()"
    and d: "dc_IsEnabled (sc_Disseminator conf) = cli_Bool c (fl_Name disseminatorEnableFlag)" "dc_PrivateKey (sc_Disseminator conf) = kd"
      "dc_ClefEndpoint (sc_Disseminator conf) = cli_String c (fl_Name disseminatorClefEndpointFlag)"
      "vc_IsEnabled (sc_Validator conf) = cli_Bool c (fl_Name validatorEnableFlag)" "vc_PrivateKey (sc_Validator conf) = kv"
      "vc_ClefEndpoint (sc_Validator conf) = cli_String c (fl_Name validatorClefEndpointFlag)"
    using assms by (auto simp: ParseSystemConfig_def newDisseminatorConfigFromCLI_def newValidatorConfigFromCLI_def Let_def)
  have "toPrivateKey ?env = toPrivateKey env" by (simp add: toPrivateKey_def fun_eq_iff)
  then obtain conf' where "ParseSystemConfig ?env c = Ok conf'" "pc_Rollup (sc_Protocol conf') = rc"
    using k v d by (auto simp: ParseSystemConfig_def newProtocolConfigFromCLI_def NewRollupConfig_def newDisseminatorConfigFromCLI_def newValidatorConfigFromCLI_def
        Let_def validate_def validate_validator_def split: if_splits)
  then show ?thesis
    by (auto simp: createDisseminator_def createValidator_def createTxManager_def GetL1ChainID_def Let_def wrap_call_def bind_call_def)
qed

text \<open>
  An accepted configuration can sign. When the command line is accepted, at least one service is enabled, and every
  enabled service has the endpoint of an external signer or a private key, as its transactor needs.
\<close>

theorem accepted_config_can_sign:
  assumes "ParseSystemConfig env c = Ok conf"
  shows "(dc_IsEnabled (sc_Disseminator conf) \<or> vc_IsEnabled (sc_Validator conf)) \<and>
    (dc_IsEnabled (sc_Disseminator conf) \<longrightarrow> dc_ClefEndpoint (sc_Disseminator conf) \<noteq> '''' \<or> dc_PrivateKey (sc_Disseminator conf) \<noteq> None) \<and>
    (vc_IsEnabled (sc_Validator conf) \<longrightarrow> vc_ClefEndpoint (sc_Validator conf) \<noteq> '''' \<or> vc_PrivateKey (sc_Validator conf) \<noteq> None)"
proof -
  have "validate conf = Ok ()" using assms by (auto simp: ParseSystemConfig_def Let_def)
  then show ?thesis by (auto simp: validate_def validate_validator_def validate_signer_def Let_def split: if_splits)
qed

lemma wrap_int64_small: "0 \<le> x \<Longrightarrow> x \<le> 9223372036854775807 \<Longrightarrow> wrap_int64 x = x"
  by (rule wrap_int64_id) simp_all

lemma duration_of_seconds_small:
  assumes "uint n \<le> 9223372036"
  shows "duration_of_seconds n = uint n * 10 ^ 9"
proof -
  have p: "0 \<le> uint n" by simp
  have "wrap_int64 (uint n) = uint n" by (rule wrap_int64_small) (use p assms in linarith)+
  moreover have "wrap_int64 (uint n * 1000000000) = uint n * 1000000000" by (rule wrap_int64_small) (use p assms in linarith)+
  ultimately show ?thesis by (simp add: duration_of_seconds_def)
qed

text \<open>
  An interval is what was asked for up to 9223372036 seconds. Beyond, the multiplication with a second wraps around; one
  second more is negative. Zero and wrapped intervals pass validation, and the ticker of the service panics on them.
\<close>

theorem interval_exact_iff:
  "(duration_of_seconds n = int (unat n) * 10 ^ 9 \<longleftrightarrow> unat n \<le> 9223372036) \<and> duration_of_seconds 0 = 0 \<and>
   duration_of_seconds 9223372037 < 0 \<and>
   validate (conf\<lparr>sc_Disseminator := (sc_Disseminator conf)\<lparr>dc_DisseminationInterval := d\<rparr>\<rparr>) = validate conf"
proof -
  have "duration_of_seconds n = int (unat n) * 10 ^ 9 \<longleftrightarrow> unat n \<le> 9223372036"
  proof
    assume "duration_of_seconds n = int (unat n) * 10 ^ 9"
    then have "int (unat n) * 10 ^ 9 < 2 ^ 63" using wrap_int64_range(2) by (metis duration_of_seconds_def)
    then have "int (unat n) * 1000000000 < 9223372036854775808" by simp
    then show "unat n \<le> 9223372036" by linarith
  next
    assume "unat n \<le> 9223372036"
    then have "int (unat n) \<le> 9223372036" by linarith
    then have "uint n \<le> 9223372036" by simp
    then show "duration_of_seconds n = int (unat n) * 10 ^ 9" using duration_of_seconds_small by simp
  qed
  moreover have "duration_of_seconds 0 = 0" "duration_of_seconds 9223372037 < 0" by (simp_all add: duration_of_seconds_def wrap_int64_def)
  moreover have "validate (conf\<lparr>sc_Disseminator := (sc_Disseminator conf)\<lparr>dc_DisseminationInterval := d\<rparr>\<rparr>) = validate conf"
    by (simp add: validate_def validate_validator_def Let_def)
  ultimately show ?thesis by blast
qed

text \<open>
  The flag for the oracle's address has no effect. The configuration is the same whatever \<^verbatim>\<open>protocol.l1-oracle-addr\<close> says; the
  address the services use is fixed and differs from the flag's default.
\<close>

theorem oracle_flag_ignored:
  "ParseSystemConfig env (c\<lparr>cli_String := (cli_String c)(fl_Name protocolL1OracleAddrFlag := s)\<rparr>) = ParseSystemConfig env c \<and>
   GetL1OracleAddr p = 0x2A00000000000000000000000000000000000010 \<and>
   fl_Kind protocolL1OracleAddrFlag = StringFlag ''0xff00000000000000000000000000000000000002''"
  by (simp add: ParseSystemConfig_def newProtocolConfigFromCLI_def newL1ConfigFromCLI_def newL2ConfigFromCLI_def NewConfigFromCLI_def
      newDisseminatorConfigFromCLI_def newValidatorConfigFromCLI_def flag_defs GetL1OracleAddr_def)

text \<open>A lazy client that is dialed stays dialed and dials no more; a failed attempt leaves it to be dialed again.\<close>

lemma EnsureDialed_once:
  assumes "EnsureDialed d cw = (r, cw')"
  shows "(is_Ok r \<longleftrightarrow> lz_client (fst cw') \<noteq> None) \<and> (is_Ok r \<longrightarrow> EnsureDialed d cw' = (Ok (), cw'))"
  using assms
  by (auto simp: EnsureDialed_def split: option.splits prod.splits outcome.splits)

section \<open>A command line\<close>

definition demo_rollup_file :: "big option \<Rightarrow> RollupConfig" where
  "demo_rollup_file l1 = \<lparr>cfg_Genesis = \<lparr>gen_L1 = EmptyBlockID, gen_L2 = EmptyBlockID, L2Time = 0,
       SystemConfig = \<lparr>BatcherAddr = 9, Overhead = 0, Scalar = 0, sys_GasLimit = 0\<rparr>\<rparr>,
     BlockTime = 0, MaxSequencerDrift = 0, cfg_SeqWindowSize = 0, cfg_L1ChainID = l1, cfg_L2ChainID = None, BatchInboxAddress = 0\<rparr>"

definition demo_config_env :: "string config_env" where
  "demo_config_env = \<lparr>os_ReadFile = \<lambda>_. Ok [], decode_rollup = \<lambda>_. Ok (demo_rollup_file (Some 1)), HexToAddress = \<lambda>_. 5, HexToECDSA = Ok\<rparr>"

definition demo_cli :: cli_Context where
  "demo_cli = \<lparr>cli_String = \<lambda>n. if n = ''disseminator.private-key'' then ''0xaa'' else '''', cli_Bool = \<lambda>n. n = ''disseminator'',
     cli_Int = \<lambda>_. 3, cli_Uint = \<lambda>_. 8, cli_Uint64 = \<lambda>_. 10, cli_Duration = \<lambda>_. 0\<rparr>"

lemma demo_cli_accepted:
  "\<exists>conf. ParseSystemConfig demo_config_env demo_cli = Ok conf \<and> dc_IsEnabled (sc_Disseminator conf) \<and>
     dc_ClefEndpoint (sc_Disseminator conf) = '''' \<and> dc_PrivateKey (sc_Disseminator conf) = Some ''aa''"
  by (simp add: ParseSystemConfig_def newProtocolConfigFromCLI_def NewRollupConfig_def newDisseminatorConfigFromCLI_def newValidatorConfigFromCLI_def
      toPrivateKey_def validate_def validate_validator_def validate_signer_def flag_defs demo_config_env_def demo_cli_def Let_def)

theorem config_reads_declared_flags_witness:
  "ParseSystemConfig demo_config_env demo_cli =
     ParseSystemConfig demo_config_env (demo_cli\<lparr>cli_Bool := \<lambda>n. n = ''disseminator'' \<or> n = ''verbosity''\<rparr>)"
proof -
  let ?c = "demo_cli\<lparr>cli_Bool := \<lambda>n. n = ''disseminator'' \<or> n = ''verbosity''\<rparr>"
  have "\<forall>f \<in> set CLIFlags. agree_on demo_cli ?c f"
    by (simp add: flag_lists flag_defs agree_on_def demo_cli_def)
  moreover have "cli_String demo_cli = cli_String ?c" by simp
  ultimately show ?thesis using config_reads_declared_flags [of demo_cli ?c demo_config_env] by simp
qed

theorem rollup_config_unchecked_witness:
  "\<exists>conf. ParseSystemConfig (demo_config_env\<lparr>os_ReadFile := \<lambda>_. Ok [], decode_rollup := \<lambda>_. Ok (demo_rollup_file None)\<rparr>) demo_cli = Ok conf \<and>
     pc_Rollup (sc_Protocol conf) = demo_rollup_file None \<and> \<not> is_Ok (Check (demo_rollup_file None))"
proof -
  have "\<not> is_Ok (Check (demo_rollup_file None))" by (simp add: Check_def demo_rollup_file_def)
  moreover obtain conf where "ParseSystemConfig demo_config_env demo_cli = Ok conf" using demo_cli_accepted by blast
  from rollup_config_unchecked [OF this, where rc = "demo_rollup_file None" and bs = "[]" and e = "e :: (unit, string, unit) sidecar_env" and w = "()" for e]
  have "\<exists>conf'. ParseSystemConfig (demo_config_env\<lparr>os_ReadFile := \<lambda>_. Ok [], decode_rollup := \<lambda>_. Ok (demo_rollup_file None)\<rparr>) demo_cli = Ok conf' \<and>
      pc_Rollup (sc_Protocol conf') = demo_rollup_file None" by auto
  ultimately show ?thesis by blast
qed

theorem accepted_config_can_sign_witness:
  "\<exists>conf. ParseSystemConfig demo_config_env demo_cli = Ok conf \<and>
     (dc_ClefEndpoint (sc_Disseminator conf) \<noteq> '''' \<or> dc_PrivateKey (sc_Disseminator conf) \<noteq> None)"
  using demo_cli_accepted accepted_config_can_sign [of demo_config_env demo_cli] by blast

end
