(* ===== verification/Prover.thy ===== *)
theory Prover
  imports Tx_Mgr Eth_State
begin

text \<open>
  \<^verbatim>\<open>services/sidecar/proof\<close>: the execution states of a range of blocks, the tracers that observe the EVM, and the
  encoding of one-step proofs. The chain and its historical states are the record \<open>prover_Backend\<close>; running a
  transaction under a tracer yields the tracer callbacks in the order the EVM makes them.
\<close>

section \<open>Tracers\<close>

datatype capture =
    CaptureTxStart uint64
  | CaptureStart
  | CaptureState uint64 uint64
  | CaptureEnter
  | CaptureExit
  | CaptureFault
  | CaptureEnd
  | CaptureTxEnd uint64

text \<open>\<open>CaptureState pc gas\<close>: of the arguments of the callback the tracers read the gas only.\<close>

record GeneratedState =
  gs_VMHash :: hash
  gs_Gas :: uint64

type_synonym StateGenerator = "GeneratedState list"

definition NewStateGenerator :: StateGenerator where "NewStateGenerator = []"

fun state_generator_capture :: "capture \<Rightarrow> StateGenerator \<Rightarrow> StateGenerator" where
  "state_generator_capture (CaptureState pc gas) l = l @ [\<lparr>gs_VMHash = 0, gs_Gas = gas\<rparr>]"
| "state_generator_capture _ l = l"

definition GetGeneratedStates :: "StateGenerator \<Rightarrow> GeneratedState list outcome" where
  "GetGeneratedStates l = Ok l"

record OneStepProver =
  op_target :: hash
  op_step :: uint64

definition NewProver :: "hash \<Rightarrow> uint64 \<Rightarrow> OneStepProver" where
  "NewProver target step = \<lparr>op_target = target, op_step = step\<rparr>"

text \<open>Every callback of \<open>OneStepProver\<close> is empty.\<close>

definition one_step_capture :: "capture \<Rightarrow> OneStepProver \<Rightarrow> OneStepProver" where
  "one_step_capture c l = l"

section \<open>Proofs\<close>

text \<open>A proof is what its \<open>Encode\<close> returns.\<close>

type_synonym OneStepProof = "bytes list"

definition EmptyProof :: OneStepProof where "EmptyProof = []"

definition AddProof :: "bytes \<Rightarrow> OneStepProof \<Rightarrow> OneStepProof" where "AddProof proof p = p @ [proof]"

text \<open>\<open>copy(dst[offset:], src)\<close>: as many elements as both have.\<close>

definition copy_at :: "'a list \<Rightarrow> nat \<Rightarrow> 'a list \<Rightarrow> 'a list" where
  "copy_at dst offset src =
     (let n = min (length dst - offset) (length src) in take offset dst @ take n src @ drop (offset + n) dst)"

fun encode_loop :: "bytes list \<Rightarrow> nat \<Rightarrow> bytes \<Rightarrow> bytes" where
  "encode_loop [] offset encoded = encoded"
| "encode_loop (encodedProof # rest) offset encoded =
     encode_loop rest (offset + length encodedProof) (copy_at encoded offset encodedProof)"

definition Encode :: "OneStepProof \<Rightarrow> bytes" where
  "Encode p =
     (if length p = 0 then []
      else let encodedLen = fold (\<lambda>e n. n + length e) p 0 in encode_loop p 0 (replicate encodedLen 0))"

definition PlaceHolderProof_Encode :: bytes where
  "PlaceHolderProof_Encode = map (of_char :: char \<Rightarrow> uint8) ''proof''"

definition GetProof :: "OneStepProver \<Rightarrow> OneStepProof outcome" where
  "GetProof l = Ok (AddProof PlaceHolderProof_Encode EmptyProof)"

section \<open>Execution states\<close>

record proof_block =
  pb_Number :: big
  pb_Hash :: hash
  pb_Root :: hash
  pb_Transactions :: "Transaction list"

record ExecutionState =
  es_VMHash :: hash
  es_Block :: "proof_block option"
  es_TransactionIdx :: uint64
  es_StepIdx :: uint64

definition es_Hash :: "ExecutionState \<Rightarrow> hash" where "es_Hash s = es_VMHash s"

text \<open>
  The chain and its states \<open>'s\<close>. \<open>core_TransactionToMessage\<close> is \<open>None\<close> for a nil message, whose error is dropped.
  \<open>trace_message\<close> prepares the state, runs the message and lists the tracer callbacks.
\<close>

record ('w, 's, 'm) prover_Backend =
  pv_BlockByNumber :: "int \<Rightarrow> ('w, proof_block option) call"
  pv_HeaderByNumber :: "int \<Rightarrow> ('w, Header option) call"
  pv_HeaderByHash :: "hash \<Rightarrow> ('w, Header option) call"
  nil_header_Hash :: hash
  pv_StateAtBlock :: "proof_block option \<Rightarrow> uint64 \<Rightarrow> 's option \<Rightarrow> ('w, 's) call"
  pv_StateAtTransaction :: "proof_block \<Rightarrow> int \<Rightarrow> uint64 \<Rightarrow> ('w, 'm \<times> 's) call"
  pv_IsEIP158 :: "big \<Rightarrow> bool"
  pv_IntermediateRoot :: "bool \<Rightarrow> 's \<Rightarrow> hash \<times> 's"
  core_TransactionToMessage :: "proof_block \<Rightarrow> Transaction \<Rightarrow> 'm option"
  trace_message :: "proof_block option \<Rightarrow> 'm \<Rightarrow> 's \<Rightarrow> capture list \<times> unit outcome \<times> 's"

definition defaultProveReexec :: uint64 where "defaultProveReexec = 128"

definition reexec_of :: "uint64 option option \<Rightarrow> uint64" where
  "reexec_of config = (case config of Some (Some r) \<Rightarrow> r | _ \<Rightarrow> defaultProveReexec)"

definition inter_state :: "hash \<Rightarrow> proof_block \<Rightarrow> nat \<Rightarrow> ExecutionState" where
  "inter_state h block i = \<lparr>es_VMHash = h, es_Block = Some block, es_TransactionIdx = of_nat i, es_StepIdx = 0\<rparr>"

definition intra_states :: "proof_block \<Rightarrow> nat \<Rightarrow> GeneratedState list \<Rightarrow> ExecutionState list" where
  "intra_states block i gss =
     map (\<lambda>(idx, s). \<lparr>es_VMHash = gs_VMHash s, es_Block = Some block, es_TransactionIdx = of_nat i, es_StepIdx = of_nat (idx + 1)\<rparr>)
       (enumerate 0 gss)"

text \<open>One transaction: the state before it, then one state per step of the EVM.\<close>

definition prove_tx :: "('w, 's, 'm) prover_Backend \<Rightarrow> proof_block \<Rightarrow> nat \<Rightarrow> Transaction \<Rightarrow> 's \<Rightarrow> (ExecutionState list \<times> 's) outcome" where
  "prove_tx be block i tx statedb =
     (case pv_IntermediateRoot be (pv_IsEIP158 be (pb_Number block)) statedb of
        (root, statedb1) \<Rightarrow>
          (case core_TransactionToMessage be block tx of
             None \<Rightarrow> Panic ''nil pointer dereference''
           | Some msg \<Rightarrow>
               (case trace_message be (Some block) msg statedb1 of
                  (captures, r, statedb2) \<Rightarrow>
                    bind_out (wrap_err ''tracing failed'' r) (\<lambda>_.
                    bind_out (wrap_err ''tracing failed'' (GetGeneratedStates (fold state_generator_capture captures NewStateGenerator))) (\<lambda>gss.
                      Ok (inter_state root block i # intra_states block i gss, statedb2))))))"

fun prove_txs ::
    "('w, 's, 'm) prover_Backend \<Rightarrow> proof_block \<Rightarrow> nat \<Rightarrow> Transaction list \<Rightarrow> 's \<Rightarrow> (ExecutionState list \<times> 's) outcome" where
  "prove_txs be block i [] statedb = Ok ([], statedb)"
| "prove_txs be block i (tx # txs) statedb =
     bind_out (prove_tx be block i tx statedb) (\<lambda>(states, statedb1).
     bind_out (prove_txs be block (i + 1) txs statedb1) (\<lambda>(rest, statedb2). Ok (states @ rest, statedb2)))"

text \<open>
  The loop over the numbers of the blocks; \<open>left\<close> is how many are still to come, so the test \<open>num < endNum-1\<close> for
  a number inside the range is \<open>left > 0\<close>. The last block is returned beside the states.
\<close>

fun prove_blocks ::
    "('w, 's, 'm) prover_Backend \<Rightarrow> uint64 \<Rightarrow> uint64 \<Rightarrow> nat \<Rightarrow> 's \<Rightarrow> ('w, ExecutionState list \<times> proof_block) call" where
  "prove_blocks be reexec num left statedb w =
     bind_call (pv_BlockByNumber be (sint num)) (\<lambda>b w1.
       case b of
         None \<Rightarrow> (Err (NewError (''block #'' @ show_nat (unat num) @ '' not found'')), w1)
       | Some block \<Rightarrow>
           (case prove_txs be block 0 (pb_Transactions block) statedb of
              Err e \<Rightarrow> (Err e, w1)
            | Panic p \<Rightarrow> (Panic p, w1)
            | Ok (states, statedb1) \<Rightarrow>
                (case left of
                   0 \<Rightarrow> (Ok (states, block), w1)
                 | Suc n \<Rightarrow>
                     bind_call (pv_StateAtBlock be (Some block) reexec (Some statedb1)) (\<lambda>statedb2.
                     bind_call (prove_blocks be reexec (num + 1) n statedb2) (\<lambda>(rest, last). ret_call (states @ rest, last))) w1))) w"

declare prove_blocks.simps [simp del]

definition GenerateStates ::
    "('w, 's, 'm) prover_Backend \<Rightarrow> uint64 \<Rightarrow> uint64 \<Rightarrow> uint64 option option \<Rightarrow> ('w, ExecutionState list) call" where
  "GenerateStates be startNum endNum config =
     bind_call (pv_BlockByNumber be (sint (startNum - 1))) (\<lambda>parent.
     bind_call (pv_StateAtBlock be parent (reexec_of config) None) (\<lambda>statedb w.
       if startNum < endNum
       then bind_call (prove_blocks be (reexec_of config) startNum (unat endNum - unat startNum - 1) statedb) (\<lambda>(states, block).
              ret_call (states @ [inter_state (pb_Root block) block (length (pb_Transactions block))])) w
       else (Panic ''nil pointer dereference'', w)))"

definition GenerateProof ::
    "('w, 's, 'm) prover_Backend \<Rightarrow> ExecutionState \<Rightarrow> uint64 option option \<Rightarrow> ('w, OneStepProof) call" where
  "GenerateProof be startState config w =
     (case es_Block startState of
        None \<Rightarrow> (Err (NewError ''bad start state''), w)
      | Some block \<Rightarrow>
          if of_nat (length (pb_Transactions block)) \<le> es_TransactionIdx startState then (Err (NewError ''bad start state''), w)
          else bind_call (pv_StateAtTransaction be block (sint (es_TransactionIdx startState)) (reexec_of config)) (\<lambda>(msg, statedb) w1.
                 case trace_message be None msg statedb of
                   (captures, r, statedb1) \<Rightarrow>
                     (bind_out (wrap_err ''tracing failed'' r) (\<lambda>_.
                        GetProof (fold one_step_capture captures (NewProver (es_VMHash startState) (es_StepIdx startState)))), w1)) w)"

section \<open>The header a block context looks up\<close>

text \<open>The hash of a nil header is a constant of go-ethereum; its methods do not dereference it.\<close>

definition chain_GetHeader :: "('w, 's, 'm) prover_Backend \<Rightarrow> hash \<Rightarrow> uint64 \<Rightarrow> ('w, Header option) call" where
  "chain_GetHeader be h number w =
     (case pv_HeaderByNumber be (sint number) w of
        (Err e, w1) \<Rightarrow> (Ok None, w1)
      | (Panic p, w1) \<Rightarrow> (Panic p, w1)
      | (Ok header, w1) \<Rightarrow>
          if (case header of None \<Rightarrow> nil_header_Hash be | Some x \<Rightarrow> h_Hash x) = h then (Ok header, w1)
          else (case pv_HeaderByHash be h w1 of
                  (Err e, w2) \<Rightarrow> (Ok None, w2)
                | (Panic p, w2) \<Rightarrow> (Panic p, w2)
                | (Ok header2, w2) \<Rightarrow> (Ok header2, w2)))"

section \<open>The JSON form, the API and the debug tracer\<close>

text \<open>
  The anonymous struct that \<open>MarshalJson\<close> marshals; its gas field is never filled in, and a state without a block panics. The method is not the
  \<open>MarshalJSON\<close> of the interface \<open>json.Marshaler\<close>, so the encoder does not call it.
\<close>

record es_json =
  js_vmHash :: hash
  js_l2GasUsed :: "big option"
  js_blockHash :: hash
  js_txnIdx :: uint64
  js_stepIdx :: uint64

definition es_MarshalJson :: "(es_json \<Rightarrow> bytes outcome) \<Rightarrow> ExecutionState \<Rightarrow> bytes outcome" where
  "es_MarshalJson json_Marshal s =
     (case es_Block s of
        None \<Rightarrow> Panic ''nil pointer dereference''
      | Some b \<Rightarrow> json_Marshal \<lparr>js_vmHash = es_VMHash s, js_l2GasUsed = None, js_blockHash = pb_Hash b,
                               js_txnIdx = es_TransactionIdx s, js_stepIdx = es_StepIdx s\<rparr>)"

definition ProveTransaction :: "hash \<Rightarrow> hash \<Rightarrow> uint64 option option \<Rightarrow> ('w, bytes) call" where
  "ProveTransaction h target config = ret_call []"

definition chain_Engine :: "('w \<Rightarrow> 'e) \<Rightarrow> ('w, 'e) call" where
  "chain_Engine engine w = (Ok (engine w), w)"

definition proof_APIs :: "'b \<Rightarrow> (string \<times> string \<times> 'b \<times> bool) list" where
  "proof_APIs be = [(''proof'', ''1.0'', be, False)]"

definition debug_capture :: "capture \<Rightarrow> unit \<Rightarrow> unit" where
  "debug_capture c s = s"

section \<open>Encoding\<close>

lemma copy_at_fits [simp]: "copy_at (pre @ replicate (length src + n) z) (length pre) src = (pre @ src) @ replicate n z"
  by (simp add: copy_at_def Let_def)

lemma encode_loop_concat:
  "encode_loop ps (length pre) (pre @ replicate (sum_list (map length ps)) 0) = pre @ concat ps"
proof (induction ps arbitrary: pre)
  case (Cons p ps)
  then show ?case using Cons.IH [of "pre @ p"] by simp
qed simp

lemma fold_length: "fold (\<lambda>e n. n + length e) ps k = k + sum_list (map length ps)"
  by (induction ps arbitrary: k) auto

text \<open>
  The encoding of a one-step proof is the concatenation of its parts. The two passes, which first add up the lengths and
  then copy every part to its offset, give exactly the parts' encodings one after the other.
\<close>

theorem Encode_is_concat: "Encode p = concat p"
  using encode_loop_concat [of p "[]"] by (auto simp: Encode_def fold_length)

text \<open>
  Every proof is the placeholder. Whatever the start state, its step and its target, a proof that \<open>GenerateProof\<close> returns
  encodes to the five letters of \<^verbatim>\<open>proof\<close>.
\<close>

theorem GenerateProof_placeholder:
  assumes "GenerateProof be startState config w = (Ok p, w')"
  shows "Encode p = map of_char ''proof''"
proof -
  have "GetProof l = Ok p \<Longrightarrow> ?thesis" for l
    by (auto simp: GetProof_def AddProof_def EmptyProof_def PlaceHolderProof_Encode_def Encode_def copy_at_def Let_def)
  moreover obtain block where "es_Block startState = Some block" using assms by (cases "es_Block startState") (simp_all add: GenerateProof_def)
  then obtain l where "GetProof l = Ok p"
    using assms by (cases "of_nat (length (pb_Transactions block)) \<le> es_TransactionIdx startState")
      (auto simp: GenerateProof_def case_prod_unfold)
  ultimately show ?thesis by blast
qed

section \<open>The order of the states\<close>

type_synonym position = "proof_block option \<times> uint64 \<times> uint64"

definition position_of :: "ExecutionState \<Rightarrow> position" where
  "position_of s = (es_Block s, es_TransactionIdx s, es_StepIdx s)"

definition tx_positions :: "proof_block \<Rightarrow> nat \<times> nat \<Rightarrow> position list" where
  "tx_positions block ik = map (\<lambda>j. (Some block, of_nat (fst ik), of_nat j)) [0..<snd ik + 1]"

text \<open>For every transaction of a block, in order, the state before it and its steps.\<close>

definition block_positions :: "nat \<Rightarrow> proof_block \<Rightarrow> nat list \<Rightarrow> position list" where
  "block_positions i block steps = concat (map (tx_positions block) (enumerate i steps))"

definition blank_steps :: "ExecutionState list \<Rightarrow> bool" where
  "blank_steps states \<longleftrightarrow> (\<forall>s \<in> set states. es_StepIdx s \<noteq> 0 \<longrightarrow> es_VMHash s = 0)"

lemma blank_steps_simps [simp]:
  "blank_steps []" "blank_steps (xs @ ys) \<longleftrightarrow> blank_steps xs \<and> blank_steps ys" "blank_steps [inter_state h blk i]"
  by (auto simp: blank_steps_def inter_state_def)

lemma generated_blank: "\<forall>g \<in> set l. gs_VMHash g = 0 \<Longrightarrow> \<forall>g \<in> set (fold state_generator_capture cs l). gs_VMHash g = 0"
proof (induction cs arbitrary: l)
  case (Cons c cs)
  have "\<forall>g \<in> set (state_generator_capture c l). gs_VMHash g = 0" using Cons.prems by (cases c) auto
  with Cons.IH show ?case by simp
qed simp

lemma intra_positions: "map position_of (intra_states block i gss) = map (\<lambda>j. (Some block, of_nat i, of_nat j)) [1..<length gss + 1]"
  by (rule nth_equalityI) (simp_all add: intra_states_def position_of_def nth_enumerate_eq del: upt_Suc)

lemma prove_tx_positions:
  assumes "prove_tx be block i tx statedb = Ok (states, statedb')"
  shows "\<exists>k. map position_of states = tx_positions block (i, k) \<and> blank_steps states"
proof -
  obtain root captures where s: "states = inter_state root block i # intra_states block i (fold state_generator_capture captures [])"
    using assms by (auto simp: prove_tx_def GetGeneratedStates_def NewStateGenerator_def split: prod.splits option.splits)
  let ?gss = "fold state_generator_capture captures []"
  have "map position_of states = tx_positions block (i, length ?gss)"
    using intra_positions [of block i ?gss] upt_conv_Cons [of 0 "length ?gss + 1"]
    by (simp add: s tx_positions_def inter_state_def position_of_def del: upt_Suc)
  moreover have "blank_steps states"
    using generated_blank [of "[]" captures] set_zip_rightD by (fastforce simp: s blank_steps_def inter_state_def intra_states_def enumerate_eq_zip)
  ultimately show ?thesis by blast
qed

lemma prove_txs_positions:
  assumes "prove_txs be block i txs statedb = Ok (states, statedb')"
  shows "\<exists>ks. length ks = length txs \<and> map position_of states = block_positions i block ks \<and> blank_steps states"
  using assms
proof (induction txs arbitrary: i statedb states)
  case Nil
  then show ?case by (simp add: block_positions_def)
next
  case (Cons tx txs)
  obtain s1 d1 s2 where "prove_tx be block i tx statedb = Ok (s1, d1)" "prove_txs be block (i + 1) txs d1 = Ok (s2, statedb')" "states = s1 @ s2"
    using Cons.prems by auto
  moreover from prove_tx_positions [OF this(1)] Cons.IH [OF this(2)]
  obtain k ks where "map position_of s1 = tx_positions block (i, k)" "blank_steps s1" "length ks = length txs"
    "map position_of s2 = block_positions (i + 1) block ks" "blank_steps s2" by blast
  ultimately show ?case by (intro exI [of _ "k # ks"]) (simp add: block_positions_def)
qed

definition range_positions :: "(proof_block \<times> nat list) list \<Rightarrow> position list" where
  "range_positions bks = concat (map (\<lambda>(block, ks). block_positions 0 block ks) bks)"

definition steps_fit :: "proof_block \<times> nat list \<Rightarrow> bool" where
  "steps_fit bk \<longleftrightarrow> length (snd bk) = length (pb_Transactions (fst bk))"

definition served :: "('w, 's, 'm) prover_Backend \<Rightarrow> uint64 \<Rightarrow> proof_block \<Rightarrow> bool" where
  "served be num block \<longleftrightarrow> (\<exists>w w'. pv_BlockByNumber be (sint num) w = (Ok (Some block), w'))"

lemma prove_blocks_Ok:
  assumes "prove_blocks be reexec num left statedb w = (Ok (states, block), w')"
  obtains blk d s1 where "served be num blk" "prove_txs be blk 0 (pb_Transactions blk) statedb = Ok (s1, d)"
    "left = 0 \<longrightarrow> states = s1 \<and> block = blk"
    "\<forall>n. left = Suc n \<longrightarrow> (\<exists>d2 w1 s2 w2. prove_blocks be reexec (num + 1) n d2 w1 = (Ok (s2, block), w2) \<and> states = s1 @ s2)"
proof -
  obtain b w1 where q: "pv_BlockByNumber be (sint num) w = (Ok b, w1)"
    using assms unfolding prove_blocks.simps [of be reexec num left] bind_call_Ok by blast
  note r = assms [unfolded prove_blocks.simps [of be reexec num left] bind_call_def q, simplified]
  then obtain blk where b: "b = Some blk" by (cases b) simp_all
  then obtain s1 d where p: "prove_txs be blk 0 (pb_Transactions blk) statedb = Ok (s1, d)"
    using r by (cases "prove_txs be blk 0 (pb_Transactions blk) statedb") auto
  show thesis
  proof (rule that [OF _ p])
    show "served be num blk" using q b unfolding served_def by blast
    show "left = 0 \<longrightarrow> states = s1 \<and> block = blk" using r b p by auto
    show "\<forall>n. left = Suc n \<longrightarrow> (\<exists>d2 w1 s2 w2. prove_blocks be reexec (num + 1) n d2 w1 = (Ok (s2, block), w2) \<and> states = s1 @ s2)"
      using r b p by (auto simp: bind_call_def ret_call_def split: prod.split_asm outcome.split_asm) blast
  qed
qed

lemma prove_blocks_positions:
  assumes "prove_blocks be reexec num left statedb w = (Ok (states, block), w')"
  shows "\<exists>bks. length bks = left + 1 \<and> (\<forall>i < length bks. served be (num + of_nat i) (fst (bks ! i))) \<and>
    list_all steps_fit bks \<and> fst (last bks) = block \<and> map position_of states = range_positions bks \<and> blank_steps states"
  using assms
proof (induction left arbitrary: num statedb w states w')
  case 0
  obtain d where sv: "served be num block" and p: "prove_txs be block 0 (pb_Transactions block) statedb = Ok (states, d)"
    by (rule prove_blocks_Ok [OF 0]) auto
  from prove_txs_positions [OF p] obtain ks where "length ks = length (pb_Transactions block)"
    "map position_of states = block_positions 0 block ks" "blank_steps states" by blast
  then show ?case by (intro exI [of _ "[(block, ks)]"]) (simp add: range_positions_def steps_fit_def sv)
next
  case (Suc n)
  obtain blk d s1 d2 w1 w2 s2 where sv: "served be num blk" and p: "prove_txs be blk 0 (pb_Transactions blk) statedb = Ok (s1, d)"
    and r: "prove_blocks be reexec (num + 1) n d2 w1 = (Ok (s2, block), w2)" and s: "states = s1 @ s2"
    by (rule prove_blocks_Ok [OF Suc.prems]) auto
  from prove_txs_positions [OF p] obtain ks where ks: "length ks = length (pb_Transactions blk)"
    "map position_of s1 = block_positions 0 blk ks" "blank_steps s1" by blast
  from Suc.IH [OF r] obtain bks where bks: "length bks = n + 1" "list_all steps_fit bks" "fst (last bks) = block"
    "map position_of s2 = range_positions bks" "blank_steps s2"
    and bv: "\<forall>i < length bks. served be (num + 1 + of_nat i) (fst (bks ! i))" by blast
  from bks(1) have "bks \<noteq> []" by auto
  moreover have "\<forall>i < length ((blk, ks) # bks). served be (num + of_nat i) (fst (((blk, ks) # bks) ! i))"
    using sv bv by (simp add: All_less_Suc2 add.assoc)
  ultimately show ?case using ks bks s
    by (intro exI [of _ "(blk, ks) # bks"]) (simp add: range_positions_def steps_fit_def [abs_def])
qed

text \<open>
  C32: the states of a range of blocks come in execution order. When \<open>GenerateStates\<close> returns, the backend has served
  a block for every number of the range, and the states are, block by block and transaction by transaction, the state before the
  transaction followed by its steps numbered from one, and at the end one state with the last block's root and
  its number of transactions. Every state inside a transaction has the zero hash.
\<close>

theorem GenerateStates_layout:
  assumes "GenerateStates be startNum endNum config w = (Ok states, w')"
  shows "\<exists>bks lastBlock. length bks = unat endNum - unat startNum \<and> (\<forall>i < length bks. served be (startNum + of_nat i) (fst (bks ! i))) \<and>
    list_all steps_fit bks \<and> fst (last bks) = lastBlock \<and>
    map position_of states = range_positions bks @ [(Some lastBlock, of_nat (length (pb_Transactions lastBlock)), 0)] \<and>
    es_VMHash (last states) = pb_Root lastBlock \<and> (\<forall>s \<in> set states. es_StepIdx s \<noteq> 0 \<longrightarrow> es_VMHash s = 0)"
proof -
  obtain s1 block d w1 w2 where lt: "startNum < endNum"
    and p: "prove_blocks be (reexec_of config) startNum (unat endNum - unat startNum - 1) d w1 = (Ok (s1, block), w2)"
    and s: "states = s1 @ [inter_state (pb_Root block) block (length (pb_Transactions block))]"
    using assms by (auto simp: GenerateStates_def split: if_splits)
  have n: "unat endNum - unat startNum - 1 + 1 = unat endNum - unat startNum" using lt by (simp add: word_less_nat_alt)
  from prove_blocks_positions [OF p] obtain bks where bks: "length bks = unat endNum - unat startNum" "list_all steps_fit bks"
    "fst (last bks) = block" "map position_of s1 = range_positions bks" "blank_steps s1"
    "\<forall>i < length bks. served be (startNum + of_nat i) (fst (bks ! i))" unfolding n by blast
  have "blank_steps states" using bks(5) by (simp add: s)
  with bks show ?thesis unfolding blank_steps_def
    by (intro exI [of _ bks] exI [of _ block]) (simp add: s position_of_def inter_state_def)
qed

text \<open>
  A range needs a block and a parent. When the range is empty, \<open>GenerateStates\<close> dereferences the nil block after its loop and
  panics; when it starts at zero, the number of the parent it asks for is minus one, the pending block.
\<close>

theorem GenerateStates_range_errors:
  assumes "pv_BlockByNumber be (sint (startNum - 1)) w = (Ok parent, w1)" "pv_StateAtBlock be parent (reexec_of config) None w1 = (Ok d, w2)"
    and "endNum \<le> startNum"
  shows "GenerateStates be startNum endNum config w = (Panic ''nil pointer dereference'', w2) \<and> sint ((0 :: uint64) - 1) = - 1"
  using assms by (simp add: GenerateStates_def bind_call_def leD)

section \<open>A chain to run on\<close>

definition toy_proof_block :: proof_block where
  "toy_proof_block = \<lparr>pb_Number = 5, pb_Hash = 50, pb_Root = 51, pb_Transactions = [demo_tx]\<rparr>"

definition toy_prover :: "(unit, nat, unit) prover_Backend" where
  "toy_prover =
     \<lparr>pv_BlockByNumber = \<lambda>n w. (Ok (Some toy_proof_block), w), pv_HeaderByNumber = \<lambda>n w. (Ok None, w), pv_HeaderByHash = \<lambda>h w. (Ok None, w),
      nil_header_Hash = 1, pv_StateAtBlock = \<lambda>b r base w. (Ok 0, w), pv_StateAtTransaction = \<lambda>b i r w. (Ok ((), 0), w), pv_IsEIP158 = \<lambda>n. True,
      pv_IntermediateRoot = \<lambda>d s. (49, s), core_TransactionToMessage = \<lambda>b tx. Some (),
      trace_message = \<lambda>b m s. ([CaptureStart, CaptureState 0 100, CaptureState 1 90, CaptureEnd], Ok (), s)\<rparr>"

definition toy_states :: "ExecutionState list" where
  "toy_states = [inter_state 49 toy_proof_block 0, \<lparr>es_VMHash = 0, es_Block = Some toy_proof_block, es_TransactionIdx = 0, es_StepIdx = 1\<rparr>,
     \<lparr>es_VMHash = 0, es_Block = Some toy_proof_block, es_TransactionIdx = 0, es_StepIdx = 2\<rparr>, inter_state 51 toy_proof_block 1]"

lemma toy_generate: "GenerateStates toy_prover 5 6 None () = (Ok toy_states, ())"
  by (simp add: GenerateStates_def prove_blocks.simps prove_tx_def toy_prover_def toy_states_def toy_proof_block_def bind_call_def ret_call_def
      GetGeneratedStates_def NewStateGenerator_def intra_states_def reexec_of_def)

theorem GenerateStates_layout_witness:
  "GenerateStates toy_prover 5 6 None () = (Ok toy_states, ()) \<and>
   (\<exists>bks lastBlock. length bks = 1 \<and> served toy_prover 5 (fst (hd bks)) \<and> map position_of toy_states =
      range_positions bks @ [(Some lastBlock, of_nat (length (pb_Transactions lastBlock)), 0)])"
proof -
  obtain bks lastBlock where b: "length bks = 1" "map position_of toy_states =
      range_positions bks @ [(Some lastBlock, of_nat (length (pb_Transactions lastBlock)), 0)]"
    and "\<forall>i < length bks. served toy_prover (5 + of_nat i) (fst (bks ! i))"
    using GenerateStates_layout [OF toy_generate] by auto
  then have "served toy_prover 5 (fst (hd bks))" by (cases bks) auto
  with b toy_generate show ?thesis by blast
qed

theorem GenerateProof_placeholder_witness:
  "\<exists>p. GenerateProof toy_prover (hd toy_states) None () = (Ok p, ()) \<and> Encode p = map of_char ''proof''"
proof -
  obtain p where p: "GenerateProof toy_prover (hd toy_states) None () = (Ok p, ())"
    by (simp add: GenerateProof_def toy_prover_def toy_states_def inter_state_def toy_proof_block_def bind_call_def GetProof_def)
  from p GenerateProof_placeholder [OF p] show ?thesis by blast
qed

theorem GenerateStates_range_errors_witness:
  "GenerateStates toy_prover 5 5 None () = (Panic ''nil pointer dereference'', ())"
proof -
  have "pv_BlockByNumber toy_prover (sint ((5 :: uint64) - 1)) () = (Ok (Some toy_proof_block), ())"
    "pv_StateAtBlock toy_prover (Some toy_proof_block) (reexec_of None) None () = (Ok 0, ())"
    by (simp_all add: toy_prover_def)
  from GenerateStates_range_errors [OF this, of 5] show ?thesis by simp
qed

end
