(* ===== verification/Go_Fmt.thy ===== *)
theory Go_Fmt
  imports Go_Prelude
begin

text \<open>
  \<^verbatim>\<open>utils/fmt/error.go\<close>, \<^verbatim>\<open>utils/fmt/stackframe.go\<close>, \<^verbatim>\<open>utils/fmt/parse_panic.go\<close> and \<^verbatim>\<open>utils/errors.go\<close>: errors that
  carry a stack, the frames of a stack, and the parser that reads the output of a panicked program back into
  such an error. The runtime's symbol table and the file system are parameters. A rendering of a panic in the
  format of the runtime is the reference for the parser.
\<close>

section \<open>strings and strconv\<close>

fun str_index :: "string \<Rightarrow> string \<Rightarrow> nat option" where
  "str_index [] p = (if p = [] then Some 0 else None)"
| "str_index (c # s) p = (if has_prefix (c # s) p then Some 0 else map_option Suc (str_index s p))"

fun str_last_index :: "string \<Rightarrow> string \<Rightarrow> nat option" where
  "str_last_index [] p = (if p = [] then Some 0 else None)"
| "str_last_index (c # s) p =
     (case str_last_index s p of Some i \<Rightarrow> Some (Suc i) | None \<Rightarrow> if has_prefix (c # s) p then Some 0 else None)"

definition has_suffix :: "string \<Rightarrow> string \<Rightarrow> bool" where
  "has_suffix s p = has_prefix (rev s) (rev p)"

definition trim_prefix :: "string \<Rightarrow> string \<Rightarrow> string" where
  "trim_prefix s p = (if has_prefix s p then drop (length p) s else s)"

fun split_lines :: "string \<Rightarrow> string list" where
  "split_lines [] = [[]]"
| "split_lines (c # s) =
     (if c = CHR 0x0A then [] # split_lines s else case split_lines s of l # ls \<Rightarrow> (c # l) # ls | [] \<Rightarrow> [[c]])"

text \<open>The centre dot is two bytes.\<close>

fun replace_dots :: "string \<Rightarrow> string" where
  "replace_dots (a # b # s) =
     (if a = CHR 0xC2 \<and> b = CHR 0xB7 then CHR ''.'' # replace_dots s else a # replace_dots (b # s))"
| "replace_dots [a] = [a]"
| "replace_dots [] = []"

definition is_digit :: "char \<Rightarrow> bool" where
  "is_digit c \<longleftrightarrow> 48 \<le> (of_char c :: nat) \<and> (of_char c :: nat) \<le> 57"

definition digits_value :: "string \<Rightarrow> nat" where
  "digits_value ds = foldl (\<lambda>a c. 10 * a + (of_char c - 48)) 0 ds"

definition ParseInt32 :: "string \<Rightarrow> int option" where
  "ParseInt32 s =
     (let neg = has_prefix s ''-''; ds = (if has_prefix s ''-'' \<or> has_prefix s ''+'' then tl s else s); v = int (digits_value ds)
      in if ds = [] \<or> \<not> list_all is_digit ds then None
         else if neg then (if v \<le> 2 ^ 31 then Some (- v) else None)
         else if v < 2 ^ 31 then Some v else None)"

section \<open>Stack frames\<close>

record StackFrame =
  sf_File :: string
  sf_LineNumber :: int
  sf_Name :: string
  sf_Package :: string
  sf_ProgramCounter :: nat

text \<open>What \<open>packageAndName\<close> and \<open>parsePanicFrame\<close> do with a qualified name.\<close>

definition packageAndName :: "string \<Rightarrow> string \<times> string" where
  "packageAndName name =
     (let (pkg1, name1) = (case str_last_index name ''/'' of
             Some i \<Rightarrow> (take i name @ ''/'', drop (i + 1) name)
           | None \<Rightarrow> ('''', name));
          (pkg2, name2) = (case str_index name1 ''.'' of
             Some i \<Rightarrow> (pkg1 @ take i name1, drop (i + 1) name1)
           | None \<Rightarrow> (pkg1, name1))
      in (pkg2, replace_dots name2))"

text \<open>The symbol table: the name of the function at a program counter and its positions.\<close>

type_synonym symbols = "nat \<Rightarrow> (string \<times> (nat \<Rightarrow> string \<times> int)) option"

definition frame_Func :: "symbols \<Rightarrow> nat \<Rightarrow> (string \<times> (nat \<Rightarrow> string \<times> int)) option" where
  "frame_Func FuncForPC pc = (if pc = 0 then None else FuncForPC pc)"

definition NewStackFrame :: "symbols \<Rightarrow> nat \<Rightarrow> StackFrame" where
  "NewStackFrame FuncForPC pc =
     (case frame_Func FuncForPC pc of
        None \<Rightarrow> \<lparr>sf_File = '''', sf_LineNumber = 0, sf_Name = '''', sf_Package = '''', sf_ProgramCounter = pc\<rparr>
      | Some (name, FileLine) \<Rightarrow>
          \<lparr>sf_File = fst (FileLine (pc - 1)), sf_LineNumber = snd (FileLine (pc - 1)),
           sf_Name = snd (packageAndName name), sf_Package = fst (packageAndName name), sf_ProgramCounter = pc\<rparr>)"

text \<open>A file, when it can be opened, as the lines a scanner yields and the error it ends with.\<close>

type_synonym file_system = "string \<Rightarrow> (string list \<times> go_error option) outcome"

definition trim_blanks :: "string \<Rightarrow> string" where
  "trim_blanks s =
     (let blank = (\<lambda>c. c = CHR '' '' \<or> c = CHR 0x09) in rev (dropWhile blank (rev (dropWhile blank s))))"

definition sourceLine :: "file_system \<Rightarrow> StackFrame \<Rightarrow> string outcome" where
  "sourceLine Open frame =
     (if sf_LineNumber frame \<le> 0 then Ok ''???''
      else bind_out (Open (sf_File frame)) (\<lambda>(ls, err).
             if nat (sf_LineNumber frame) \<le> length ls then Ok (trim_blanks (ls ! (nat (sf_LineNumber frame) - 1)))
             else case err of Some e \<Rightarrow> Err e | None \<Rightarrow> Ok ''???''))"

fun show_hex :: "nat \<Rightarrow> string" where
  "show_hex n = (if n < 16 then [''0123456789abcdef'' ! n] else show_hex (n div 16) @ [''0123456789abcdef'' ! (n mod 16)])"

declare show_hex.simps [simp del]

definition frame_String :: "file_system \<Rightarrow> StackFrame \<Rightarrow> string" where
  "frame_String Open frame =
     (let str = sf_File frame @ '':'' @ show_int (sf_LineNumber frame) @ '' (0x'' @ show_hex (sf_ProgramCounter frame) @ '')'' @ [CHR 0x0A]
      in case sourceLine Open frame of
           Ok source \<Rightarrow> str @ [CHR 0x09] @ sf_Name frame @ '': '' @ source @ [CHR 0x0A]
         | _ \<Rightarrow> str)"

section \<open>Errors with a stack\<close>

text \<open>\<open>frames\<close> is nil until it is computed; a parsed error has frames and no program counters.\<close>

record fmt_Error =
  fe_Err :: go_error
  fe_stack :: "nat list"
  fe_frames :: "StackFrame list option"

definition MaxStackDepth :: nat where "MaxStackDepth = 50"

text \<open>
  The argument of \<open>New\<close> and \<open>Wrap\<close>: nil, an \<open>*Error\<close>, another error, or a value with its text under the verb \<^verbatim>\<open>%v\<close>.
  \<open>callers\<close> gives the program counters that \<open>runtime.Callers\<close> reports for a number of frames to skip.
\<close>

datatype wrap_arg = NilArg | FmtErrorArg fmt_Error | ErrorArg go_error | ValueArg string

text \<open>\<open>New\<close> has no case for nil, whose text is \<^verbatim>\<open><nil>\<close>, and keeps an \<open>*Error\<close> as the error underneath, named by its message.\<close>

definition fmt_New :: "(nat \<Rightarrow> nat list) \<Rightarrow> wrap_arg \<Rightarrow> fmt_Error" where
  "fmt_New callers a =
     \<lparr>fe_Err =
        (case a of
           NilArg \<Rightarrow> NewError ''<nil>''
         | FmtErrorArg x \<Rightarrow> Typed True ''Error'' (error_msg (fe_Err x)) (Some (fe_Err x))
         | ErrorArg e \<Rightarrow> e
         | ValueArg s \<Rightarrow> NewError s),
      fe_stack = take MaxStackDepth (callers 2), fe_frames = None\<rparr>"

definition fmt_Wrap :: "(nat \<Rightarrow> nat list) \<Rightarrow> wrap_arg \<Rightarrow> nat \<Rightarrow> fmt_Error option" where
  "fmt_Wrap callers a skip =
     (case a of
        NilArg \<Rightarrow> None
      | FmtErrorArg x \<Rightarrow> Some x
      | ErrorArg e \<Rightarrow> Some \<lparr>fe_Err = e, fe_stack = take MaxStackDepth (callers (2 + skip)), fe_frames = None\<rparr>
      | ValueArg s \<Rightarrow> Some \<lparr>fe_Err = NewError s, fe_stack = take MaxStackDepth (callers (2 + skip)), fe_frames = None\<rparr>)"

text \<open>\<open>Errorf\<close> of a format without arguments that wrap, or with one that does.\<close>

definition fmt_Errorf :: "(nat \<Rightarrow> nat list) \<Rightarrow> string \<Rightarrow> go_error option \<Rightarrow> fmt_Error option" where
  "fmt_Errorf callers m wrapped =
     fmt_Wrap callers (ErrorArg (case wrapped of None \<Rightarrow> NewError m | Some e \<Rightarrow> Wrapped m e)) 1"

definition err_Callers :: "fmt_Error \<Rightarrow> nat list" where "err_Callers err = fe_stack err"

definition err_Unwrap :: "fmt_Error \<Rightarrow> go_error" where "err_Unwrap err = fe_Err err"

text \<open>An empty slice that was never allocated is nil.\<close>

definition StackFrames :: "symbols \<Rightarrow> fmt_Error \<Rightarrow> StackFrame list \<times> fmt_Error" where
  "StackFrames FuncForPC err =
     (case fe_frames err of
        Some fs \<Rightarrow> (fs, err)
      | None \<Rightarrow> let fs = map (NewStackFrame FuncForPC) (fe_stack err) in (fs, err\<lparr>fe_frames := Some fs\<rparr>))"

definition err_Stack :: "file_system \<Rightarrow> symbols \<Rightarrow> (fmt_Error, string) call" where
  "err_Stack Open FuncForPC err =
     (case StackFrames FuncForPC err of
        ([], err') \<Rightarrow> (Panic ''index out of range'', err')
      | (frame # _, err') \<Rightarrow> (Ok (frame_String Open frame), err'))"

definition err_Error :: "file_system \<Rightarrow> symbols \<Rightarrow> (fmt_Error, string) call" where
  "err_Error Open FuncForPC err =
     (case err_Stack Open FuncForPC err of
        (Ok s, err') \<Rightarrow> (Ok (error_msg (fe_Err err) @ [CHR 0x0A] @ s), err')
      | (Err e, err') \<Rightarrow> (Err e, err')
      | (Panic p, err') \<Rightarrow> (Panic p, err'))"

section \<open>Parsing a panic\<close>

abbreviation invalid_line :: "string \<Rightarrow> string \<Rightarrow> go_error" where
  "invalid_line what line \<equiv> NewError (''bugsnag.panicParser: Invalid line ('' @ what @ ''): '' @ line)"

definition parse_position :: "string \<times> string \<Rightarrow> string \<Rightarrow> StackFrame outcome" where
  "parse_position pn line =
     (if \<not> has_prefix line [CHR 0x09] then Err (invalid_line ''no tab'' line)
      else case str_last_index line '':'' of
             None \<Rightarrow> Err (invalid_line ''no line number'' line)
           | Some idx \<Rightarrow>
               let file = drop 1 (take idx line); rest = drop (idx + 1) line;
                   number = (case str_index rest '' +'' of Some i \<Rightarrow> take i rest | None \<Rightarrow> rest)
               in case ParseInt32 number of
                    None \<Rightarrow> Err (invalid_line ''bad line number'' line)
                  | Some lno \<Rightarrow>
                      Ok \<lparr>sf_File = file, sf_LineNumber = lno, sf_Name = snd pn, sf_Package = fst pn, sf_ProgramCounter = 0\<rparr>)"

definition parsePanicFrame :: "string \<Rightarrow> string \<Rightarrow> bool \<Rightarrow> StackFrame outcome" where
  "parsePanicFrame name line createdBy =
     (case str_last_index name ''('' of
        None \<Rightarrow> if \<not> createdBy then Err (invalid_line ''no call'' name) else parse_position (packageAndName name) line
      | Some idx \<Rightarrow> parse_position (packageAndName (take idx name)) line)"

datatype panic_state = PStart | PSeek | PParsing | PDone

fun panic_loop :: "panic_state \<Rightarrow> string \<Rightarrow> StackFrame list \<Rightarrow> string list \<Rightarrow> (panic_state \<times> string \<times> StackFrame list) outcome" where
  "panic_loop st message stack [] = Ok (st, message, stack)"
| "panic_loop PStart message stack (line # lines) =
     (if has_prefix line ''panic: '' then panic_loop PSeek (trim_prefix line ''panic: '') stack lines
      else Err (invalid_line ''no prefix'' line))"
| "panic_loop PSeek message stack (line # lines) =
     (if has_prefix line ''goroutine '' \<and> has_suffix line ''[running]:'' then panic_loop PParsing message stack lines
      else panic_loop PSeek message stack lines)"
| "panic_loop PParsing message stack (line # lines) =
     (if line = [] then Ok (PDone, message, stack)
      else let createdBy = has_prefix line ''created by ''; line' = trim_prefix line ''created by ''
           in case lines of
                [] \<Rightarrow> Err (invalid_line ''unpaired'' line')
              | line2 # rest \<Rightarrow>
                  bind_out (parsePanicFrame line' line2 createdBy) (\<lambda>frame.
                    if createdBy then Ok (PDone, message, stack @ [frame])
                    else panic_loop PParsing message (stack @ [frame]) rest))"
| "panic_loop PDone message stack (line # lines) = panic_loop PDone message stack lines"

definition ParsePanic :: "string \<Rightarrow> fmt_Error outcome" where
  "ParsePanic text =
     bind_out (panic_loop PStart '''' [] (split_lines text)) (\<lambda>(st, message, stack).
       if st = PDone \<or> st = PParsing
       then Ok \<lparr>fe_Err = Typed False ''uncaughtPanic'' message None, fe_stack = [], fe_frames = (if stack = [] then None else Some stack)\<rparr>
       else Err (NewError (''could not parse panic: '' @ text)))"

section \<open>utils/errors.go\<close>

text \<open>The targets of \<open>errors.As\<close>, each a pointer flag and a type name.\<close>

definition AsAny :: "go_error \<Rightarrow> (bool \<times> string) list \<Rightarrow> bool" where
  "AsAny err targets = list_ex (\<lambda>(p, t). errors_As err p t) targets"

record 'c CategorizedError =
  cat_Cat :: 'c
  cat_Err :: go_error

definition NewCategorizedError :: "'c \<Rightarrow> go_error \<Rightarrow> 'c CategorizedError" where
  "NewCategorizedError cat err = \<lparr>cat_Cat = cat, cat_Err = err\<rparr>"

definition Categorized_Unwrap :: "'c CategorizedError \<Rightarrow> go_error" where "Categorized_Unwrap e = cat_Err e"

definition Categorized_Error :: "'c CategorizedError \<Rightarrow> string" where "Categorized_Error e = error_msg (cat_Err e)"

text \<open>The target is a \<open>*CategorizedError[T]\<close> or another error (\<open>None\<close>).\<close>

definition Categorized_Is :: "'c CategorizedError \<Rightarrow> 'c CategorizedError option \<Rightarrow> bool" where
  "Categorized_Is e target = (case target of None \<Rightarrow> False | Some err \<Rightarrow> cat_Cat e = cat_Cat err)"

section \<open>Reading back what the runtime prints\<close>

lemma str_last_index_single [simp]: "c \<notin> set b \<Longrightarrow> str_last_index (a @ c # b) [c] = Some (length a)"
proof (induction a)
  case Nil
  have "str_last_index b [c] = None" using Nil by (induction b) auto
  then show ?case by simp
qed simp

lemma str_last_index_none [simp]: "c \<notin> set s \<Longrightarrow> str_last_index s [c] = None"
  by (induction s) auto

lemma str_index_single [simp]: "c \<notin> set a \<Longrightarrow> str_index (a @ c # b) [c] = Some (length a)"
  by (induction a) auto

lemma str_index_plus: "CHR '' '' \<notin> set a \<Longrightarrow> str_index (a @ CHR '' '' # CHR ''+'' # b) '' +'' = Some (length a)"
  by (induction a) auto

lemma of_char_digit: "(n :: nat) < 10 \<Longrightarrow> (of_char (char_of (48 + n)) :: nat) = 48 + n"
  by (simp add: of_char_of)

lemma is_digit_show [simp]: "(n :: nat) < 10 \<Longrightarrow> is_digit (char_of (48 + n))"
  by (simp only: is_digit_def of_char_digit) simp

lemma show_nat_digits: "list_all is_digit (show_nat n)" "show_nat n \<noteq> []" "digits_value (show_nat n) = n"
  by (induction n rule: show_nat.induct; subst show_nat.simps; simp add: digits_value_def of_char_digit)+

lemma is_digit_not: "is_digit c \<Longrightarrow> c \<noteq> CHR ''-'' \<and> c \<noteq> CHR ''+'' \<and> c \<noteq> CHR '' '' \<and> c \<noteq> CHR '':''"
  by (auto simp: is_digit_def)

lemma show_nat_chars: "c \<in> set (show_nat n) \<Longrightarrow> is_digit c"
  using show_nat_digits(1) [of n] by (simp add: list_all_iff)

lemma ParseInt32_show [simp]:
  assumes "n < 2 ^ 31"
  shows "ParseInt32 (show_nat n) = Some (int n)"
proof -
  obtain c s where s: "show_nat n = c # s" using show_nat_digits(2) [of n] by (cases "show_nat n") auto
  then have "c \<noteq> CHR ''-''" "c \<noteq> CHR ''+''" using is_digit_not show_nat_chars [of c n] by auto
  then show ?thesis using assms show_nat_digits [of n] by (simp add: ParseInt32_def s Let_def)
qed

fun join_lines :: "string list \<Rightarrow> string" where
  "join_lines [] = []"
| "join_lines [l] = l"
| "join_lines (l # ls) = l @ [CHR 0x0A] @ join_lines ls"

abbreviation one_line :: "string \<Rightarrow> bool" where "one_line s \<equiv> CHR 0x0A \<notin> set s"

lemma split_lines_one [simp]: "one_line s \<Longrightarrow> split_lines s = [s]"
  by (induction s) auto

lemma split_lines_cons [simp]: "one_line s \<Longrightarrow> split_lines (s @ CHR 0x0A # t) = s # split_lines t"
  by (induction s) auto

lemma split_join_lines: "ls \<noteq> [] \<Longrightarrow> list_all one_line ls \<Longrightarrow> split_lines (join_lines ls) = ls"
  by (induction ls rule: join_lines.induct) auto

text \<open>A frame as the runtime prints it: two lines; the package is a directory and the last element of its path.\<close>

record panic_frame =
  pf_Dir :: string
  pf_Base :: string
  pf_Name :: string
  pf_Args :: string
  pf_File :: string
  pf_Line :: nat
  pf_Offset :: string

definition call_line :: "panic_frame \<Rightarrow> string" where
  "call_line f = pf_Dir f @ pf_Base f @ ''.'' @ pf_Name f @ ''('' @ pf_Args f @ '')''"

definition position_line :: "panic_frame \<Rightarrow> string" where
  "position_line f = [CHR 0x09] @ pf_File f @ '':'' @ show_nat (pf_Line f) @ '' +0x'' @ pf_Offset f"

definition render_panic :: "string \<Rightarrow> panic_frame list \<Rightarrow> string" where
  "render_panic message fs =
     join_lines ([''panic: '' @ message, [], ''goroutine 1 [running]:''] @ concat (map (\<lambda>f. [call_line f, position_line f]) fs) @ [[]])"

definition printable :: "panic_frame \<Rightarrow> bool" where
  "printable f \<longleftrightarrow>
     (pf_Dir f = [] \<or> last (pf_Dir f) = CHR ''/'') \<and> CHR ''/'' \<notin> set (pf_Base f) \<and> CHR ''.'' \<notin> set (pf_Base f) \<and>
     CHR ''/'' \<notin> set (pf_Name f) \<and> replace_dots (pf_Name f) = pf_Name f \<and> CHR ''('' \<notin> set (pf_Args f) \<and> CHR '':'' \<notin> set (pf_Offset f) \<and>
     pf_Line f < 2 ^ 31 \<and> \<not> has_prefix (call_line f) ''created by '' \<and> one_line (call_line f) \<and> one_line (position_line f)"

definition frame_of :: "panic_frame \<Rightarrow> StackFrame" where
  "frame_of f = \<lparr>sf_File = pf_File f, sf_LineNumber = int (pf_Line f), sf_Name = pf_Name f, sf_Package = pf_Dir f @ pf_Base f, sf_ProgramCounter = 0\<rparr>"

lemma packageAndName_call:
  assumes "printable f"
  shows "packageAndName (pf_Dir f @ pf_Base f @ ''.'' @ pf_Name f) = (pf_Dir f @ pf_Base f, pf_Name f)"
proof -
  have p: "CHR ''/'' \<notin> set (pf_Base f @ ''.'' @ pf_Name f)" "CHR ''.'' \<notin> set (pf_Base f)" "replace_dots (pf_Name f) = pf_Name f"
    using assms by (auto simp: printable_def)
  show ?thesis
  proof (cases "pf_Dir f = []")
    case True
    then show ?thesis using p by (simp add: packageAndName_def)
  next
    case False
    then obtain d where d: "pf_Dir f = d @ ''/''"
      using assms by (metis append_butlast_last_id printable_def)
    have "str_last_index (d @ CHR ''/'' # pf_Base f @ ''.'' @ pf_Name f) ''/'' = Some (length d)"
      using p(1) by (intro str_last_index_single)
    then show ?thesis using p(2,3) by (simp add: packageAndName_def d)
  qed
qed

lemma parse_position_line:
  assumes "printable f"
  shows "parse_position pn (position_line f) =
    Ok \<lparr>sf_File = pf_File f, sf_LineNumber = int (pf_Line f), sf_Name = snd pn, sf_Package = fst pn, sf_ProgramCounter = 0\<rparr>"
proof -
  let ?tail = "show_nat (pf_Line f) @ '' +0x'' @ pf_Offset f"
  have "CHR '':'' \<notin> set ?tail" using assms show_nat_chars is_digit_not by (fastforce simp: printable_def)
  then have i: "str_last_index (position_line f) '':'' = Some (length (CHR 0x09 # pf_File f))"
    using str_last_index_single [of "CHR '':''" ?tail "CHR 0x09 # pf_File f"] by (simp add: position_line_def)
  have "CHR '' '' \<notin> set (show_nat (pf_Line f))" using show_nat_chars is_digit_not by blast
  then have j: "str_index ?tail '' +'' = Some (length (show_nat (pf_Line f)))" using str_index_plus by simp
  have "pf_Line f < 2 ^ 31" using assms by (simp add: printable_def)
  then show ?thesis using i j by (simp add: parse_position_def Let_def position_line_def)
qed

lemma parsePanicFrame_rendered:
  assumes "printable f"
  shows "parsePanicFrame (call_line f) (position_line f) createdBy = Ok (frame_of f)"
proof -
  have "str_last_index ((pf_Dir f @ pf_Base f @ ''.'' @ pf_Name f) @ CHR ''('' # pf_Args f @ '')'') ''('' =
      Some (length (pf_Dir f @ pf_Base f @ ''.'' @ pf_Name f))"
    using assms by (intro str_last_index_single) (simp add: printable_def)
  then show ?thesis
    using packageAndName_call [OF assms] parse_position_line [OF assms]
    by (simp add: parsePanicFrame_def call_line_def frame_of_def)
qed

lemma panic_loop_frames:
  assumes "list_all printable fs"
  shows "panic_loop PParsing message stack (concat (map (\<lambda>f. [call_line f, position_line f]) fs) @ [[]]) =
    Ok (PDone, message, stack @ map frame_of fs)"
  using assms
proof (induction fs arbitrary: stack)
  case (Cons f fs)
  have "call_line f \<noteq> []" by (simp add: call_line_def)
  moreover have "\<not> has_prefix (call_line f) ''created by ''" using Cons.prems by (simp add: printable_def)
  ultimately show ?case using Cons parsePanicFrame_rendered [of f] by (simp add: trim_prefix_def Let_def)
qed simp

text \<open>
  C31: a printed panic is read back. For a panic of goroutine 1 printed in the runtime's format, with a message of one line, any number of printable frames and no \<open>created by\<close> frame, \<open>ParsePanic\<close>
  returns the message and for every frame its package, function, file and line.
\<close>

theorem ParsePanic_roundtrip:
  assumes "one_line message" "list_all printable fs"
  shows "ParsePanic (render_panic message fs) =
    Ok \<lparr>fe_Err = Typed False ''uncaughtPanic'' message None, fe_stack = [],
        fe_frames = (if fs = [] then None else Some (map frame_of fs))\<rparr>"
proof -
  let ?ls = "[''panic: '' @ message, [], ''goroutine 1 [running]:''] @ concat (map (\<lambda>f. [call_line f, position_line f]) fs) @ [[]]"
  have "list_all one_line ?ls" using assms by (auto simp: list_all_iff printable_def)
  then have "split_lines (render_panic message fs) = ?ls" unfolding render_panic_def by (intro split_join_lines) auto
  then show ?thesis
    using panic_loop_frames [OF assms(2), of message "[]"]
    by (simp add: ParsePanic_def trim_prefix_def has_suffix_def)
qed

text \<open>
  An error that was parsed may panic when it is printed. Calling \<open>Error\<close> on what \<open>ParsePanic\<close> returned indexes its
  first frame: it panics exactly when the text had no frame, which \<open>ParsePanic\<close> accepts.
\<close>

theorem parsed_error_may_panic:
  assumes "ParsePanic text = Ok err"
  shows "(fe_frames err = None \<longrightarrow> fst (err_Error Open FuncForPC err) = Panic ''index out of range'') \<and>
    (\<forall>f fs. fe_frames err = Some (f # fs) \<longrightarrow> fst (err_Error Open FuncForPC err) = Ok (error_msg (fe_Err err) @ [CHR 0x0A] @ frame_String Open f)) \<and>
    fe_frames err \<noteq> Some []"
  using assms by (auto simp: ParsePanic_def err_Error_def err_Stack_def StackFrames_def split: if_splits prod.splits)

definition demo_frame :: panic_frame where
  "demo_frame = \<lparr>pf_Dir = ''github.com/foo/'', pf_Base = ''main'', pf_Name = ''(*foo).destruct'', pf_Args = ''0xc2'',
     pf_File = ''/go/src/main.go'', pf_Line = 22, pf_Offset = ''151''\<rparr>"

lemma demo_frame_printable: "printable demo_frame"
  by (simp add: printable_def demo_frame_def call_line_def position_line_def show_nat.simps char_of_def)

theorem ParsePanic_roundtrip_witness:
  "ParsePanic (render_panic ''boom'' [demo_frame]) =
     Ok \<lparr>fe_Err = Typed False ''uncaughtPanic'' ''boom'' None, fe_stack = [], fe_frames = Some [frame_of demo_frame]\<rparr>"
  using ParsePanic_roundtrip [of "''boom''" "[demo_frame]"] demo_frame_printable by simp

definition frameless :: fmt_Error where
  "frameless = \<lparr>fe_Err = Typed False ''uncaughtPanic'' ''boom'' None, fe_stack = [], fe_frames = None\<rparr>"

theorem parsed_error_may_panic_witness:
  "ParsePanic (render_panic ''boom'' []) = Ok frameless \<and>
   fst (err_Error (\<lambda>p. Err (NewError ''no such file'')) (\<lambda>pc. None) frameless) = Panic ''index out of range''"
proof -
  have p: "ParsePanic (render_panic ''boom'' []) = Ok frameless"
    by (simp add: frameless_def ParsePanic_def render_panic_def trim_prefix_def has_suffix_def)
  show ?thesis using p parsed_error_may_panic [OF p] by (simp add: frameless_def)
qed

end
