(* ===== verification/Canonicalize.thy ===== *)
theory Canonicalize
  imports Go_Fmt Storage_Encoding "HOL-Library.Char_ord" "HOL-Library.List_Lexorder"
begin

text \<open>
  \<^verbatim>\<open>ops/bindings/ast/canonicalize.go\<close>: the AST identifiers that solc puts into a storage layout are replaced by small
  ones, so that layouts compare equal across compilations. The two regular expressions are matchers over the
  string; each has at most one way to match, because no class in them contains the character that follows it.
  A Go map is an association list, in the order in which \<open>range\<close> visits it.
\<close>

section \<open>Layouts with identifiers\<close>

record ast_Entry = StorageLayoutEntry +
  ast_Id :: uint64
  ast_Contract :: string

record ast_Type = StorageLayoutType +
  ast_Base :: string

record ast_Layout =
  al_Storage :: "ast_Entry list"
  al_Types :: "(string \<times> ast_Type) list"

section \<open>Matching\<close>

definition is_word :: "char \<Rightarrow> bool" where
  "is_word c \<longleftrightarrow>
     (let n = (of_char c :: nat) in 48 \<le> n \<and> n \<le> 57 \<or> 65 \<le> n \<and> n \<le> 90 \<or> 97 \<le> n \<and> n \<le> 122 \<or> n = 95)"

text \<open>A non-empty run of characters of a class, and what follows.\<close>

definition run_of :: "(char \<Rightarrow> bool) \<Rightarrow> string \<Rightarrow> (string \<times> string) option" where
  "run_of P s = (case takeWhile P s of [] \<Rightarrow> None | t \<Rightarrow> Some (t, dropWhile P s))"

definition expect :: "string \<Rightarrow> string \<Rightarrow> string option" where
  "expect p s = (if has_prefix s p then Some (drop (length p) s) else None)"

text \<open>\<^verbatim>\<open>\([\w]+\)([\d]+)\<close>: the digits and what follows them.\<close>

definition match_id :: "string \<Rightarrow> (string \<times> string) option" where
  "match_id s =
     Option.bind (expect ''('' s) (\<lambda>s1. Option.bind (run_of is_word s1) (\<lambda>(_, s2). Option.bind (expect '')'' s2) (run_of is_digit)))"

text \<open>\<open>remapTypeRe\<close>, anchored at both ends; the result is its second group.\<close>

definition remapTypeRe :: "string \<Rightarrow> string option" where
  "remapTypeRe s =
     Option.bind (expect ''t_'' s) (\<lambda>s1. Option.bind (run_of is_word s1) (\<lambda>(_, s2). Option.bind (match_id s2) (\<lambda>(digits, s3).
       case expect ''_'' s3 of
         None \<Rightarrow> if s3 = [] then Some digits else None
       | Some t \<Rightarrow> if t \<noteq> [] \<and> list_all is_word t then Some digits else None)))"

text \<open>\<open>remapAstIdStorage\<close> matches somewhere in the string.\<close>

definition storage_tail :: "string option \<Rightarrow> bool" where
  "storage_tail r =
     (case Option.bind r match_id of None \<Rightarrow> False | Some (_, s) \<Rightarrow> has_prefix s ''_storage'')"

definition storage_here :: "string \<Rightarrow> bool" where
  "storage_here s = (storage_tail (expect ''t_struct'' s) \<or> storage_tail (expect ''t_userDefinedValueType'' s))"

fun remapAstIdStorage :: "string \<Rightarrow> bool" where
  "remapAstIdStorage [] = storage_here []"
| "remapAstIdStorage (c # s) = (storage_here (c # s) \<or> remapAstIdStorage s)"

text \<open>\<open>strings.Replace(s, old, new, 1)\<close>.\<close>

definition replace_first :: "string \<Rightarrow> string \<Rightarrow> string \<Rightarrow> string" where
  "replace_first s old new =
     (case str_index s old of None \<Rightarrow> s | Some i \<Rightarrow> take i s @ new @ drop (i + length old) s)"

section \<open>The two passes\<close>

type_synonym remappings = "(string \<times> string) list"

fun renumber :: "uint64 \<Rightarrow> ast_Entry list \<Rightarrow> (uint64 \<times> uint64) list \<Rightarrow> (uint64 \<times> uint64) list \<times> uint64" where
  "renumber lastId [] m = (m, lastId)"
| "renumber lastId (slot # slots) m = renumber (lastId + 1) slots ((ast_Id slot, lastId) # m)"

text \<open>Whether a type gets an identifier of its own, and the digits that are replaced.\<close>

definition type_id :: "string \<Rightarrow> string option" where
  "type_id oldType =
     (if oldType = '''' then None
      else case remapTypeRe oldType of
             None \<Rightarrow> None
           | Some d \<Rightarrow> if str_contains oldType ''storage'' \<and> \<not> remapAstIdStorage oldType then None else Some d)"

fun remap_types :: "uint64 \<Rightarrow> string list \<Rightarrow> remappings" where
  "remap_types lastId [] = []"
| "remap_types lastId (oldType # types) =
     (case type_id oldType of
        None \<Rightarrow> remap_types lastId types
      | Some d \<Rightarrow> (oldType, replace_first oldType d (show_nat (unat lastId))) # remap_types (lastId + 1) types)"

definition replaceType :: "(remappings \<Rightarrow> remappings) \<Rightarrow> remappings \<Rightarrow> string \<Rightarrow> string" where
  "replaceType visit typeRemappings s =
     (case map_of typeRemappings s of
        Some (c # r) \<Rightarrow> c # r
      | _ \<Rightarrow> fold (\<lambda>(old, new) t. replace_first t old new) (filter (\<lambda>(old, new). str_contains s old) (visit typeRemappings)) s)"

definition normalize_contract :: "string \<Rightarrow> string \<Rightarrow> string" where
  "normalize_contract base contract =
     (if has_prefix contract ''/'' then trim_prefix (replace_first contract base '''') ''/'' else contract)"

definition canonical_type :: "(string \<Rightarrow> string) \<Rightarrow> ast_Type \<Rightarrow> ast_Type" where
  "canonical_type rep value =
     value\<lparr>st_Key := rep (st_Key value), st_Value := rep (st_Value value),
           ast_Base := (if ast_Base value \<noteq> '''' then rep (ast_Base value) else '''')\<rparr>"

definition lookup_id :: "(uint64 \<times> uint64) list \<Rightarrow> uint64 \<Rightarrow> uint64" where
  "lookup_id m k = (case map_of m k of None \<Rightarrow> 0 | Some v \<Rightarrow> v)"

text \<open>
  The types of the result are a Go map again; two old types with one new name would leave the value of the later
  one, so the list is built with \<open>AList\<close>-style updates.
\<close>

definition CanonicalizeASTIDs :: "(remappings \<Rightarrow> remappings) \<Rightarrow> ast_Layout \<Rightarrow> string \<Rightarrow> ast_Layout" where
  "CanonicalizeASTIDs visit inp monorepoBase =
     (let (astIDRemappings, lastId) = renumber 1000 (al_Storage inp) [];
          sortedOldTypes = sort (map fst (al_Types inp));
          typeRemappings = remap_types lastId sortedOldTypes;
          rep = replaceType visit typeRemappings
      in \<lparr>al_Storage = map (\<lambda>slot. slot\<lparr>ast_Id := lookup_id astIDRemappings (ast_Id slot),
             ast_Contract := normalize_contract monorepoBase (ast_Contract slot), entry_Type := rep (entry_Type slot)\<rparr>) (al_Storage inp),
          al_Types = fold (\<lambda>old out. (rep old, canonical_type rep (the (map_of (al_Types inp) old))) # filter (\<lambda>(k, _). k \<noteq> rep old) out)
            sortedOldTypes []\<rparr>)"

section \<open>Properties\<close>

lemma renumber_fresh:
  assumes "distinct (map ast_Id slots)"
  shows "i < length slots \<Longrightarrow> map_of (fst (renumber lastId slots m)) (ast_Id (slots ! i)) = Some (lastId + of_nat i)"
    and "k \<notin> ast_Id ` set slots \<Longrightarrow> map_of (fst (renumber lastId slots m)) k = map_of m k"
  using assms
proof (induction slots arbitrary: lastId m i k)
  case (Cons slot slots)
  { case 1
    show ?case
    proof (cases i)
      case 0
      have "ast_Id slot \<notin> ast_Id ` set slots" using "1.prems" by auto
      then show ?thesis using 0 Cons.IH(2) [of "ast_Id slot" "lastId + 1" "(ast_Id slot, lastId) # m"] "1.prems" by simp
    next
      case (Suc j)
      then show ?thesis using Cons.IH(1) [of j "lastId + 1" "(ast_Id slot, lastId) # m"] "1.prems" by (simp add: add_ac)
    qed
  next
    case 2
    then show ?case using Cons.IH(2) [of k "lastId + 1" "(ast_Id slot, lastId) # m"] by auto }
qed simp_all

text \<open>
  Canonical identifiers do not depend on the compiler's. For a layout whose variables have distinct AST identifiers, the
  variables keep their order, label, offset and slot and are numbered 1000, 1001 and so on.
\<close>

theorem canonical_ids:
  assumes "distinct (map ast_Id (al_Storage inp))"
  shows "map ast_Id (al_Storage (CanonicalizeASTIDs visit inp base)) = map (\<lambda>i. 1000 + of_nat i) [0..<length (al_Storage inp)] \<and>
    map entry_Label (al_Storage (CanonicalizeASTIDs visit inp base)) = map entry_Label (al_Storage inp) \<and>
    map entry_Offset (al_Storage (CanonicalizeASTIDs visit inp base)) = map entry_Offset (al_Storage inp) \<and>
    map entry_Slot (al_Storage (CanonicalizeASTIDs visit inp base)) = map entry_Slot (al_Storage inp)"
proof -
  have "map ast_Id (al_Storage (CanonicalizeASTIDs visit inp base)) = map (\<lambda>i. 1000 + of_nat i) [0..<length (al_Storage inp)]"
    by (rule nth_equalityI)
      (simp_all add: CanonicalizeASTIDs_def Let_def lookup_id_def case_prod_unfold renumber_fresh(1) [OF assms])
  then show ?thesis by (simp add: CanonicalizeASTIDs_def Let_def case_prod_unfold comp_def)
qed

text \<open>
  The result depends on the order of a Go map. With the remappings of two types of which one is a prefix of the other, a
  mapping type that mentions the longer one is rewritten to two different strings, depending on the order in
  which \<open>replaceType\<close> visits the map.
\<close>

definition clashing :: remappings where
  "clashing = [(''t_enum(B)12'', ''t_enum(B)1000''), (''t_enum(B)123'', ''t_enum(B)1001'')]"

theorem replaceType_depends_on_order:
  "remap_types 1000 [''t_enum(B)12'', ''t_enum(B)123''] = clashing \<and>
   replaceType (\<lambda>m. m) clashing ''t_mapping(t_address,t_enum(B)123)'' = ''t_mapping(t_address,t_enum(B)10003)'' \<and>
   replaceType rev clashing ''t_mapping(t_address,t_enum(B)123)'' = ''t_mapping(t_address,t_enum(B)1001)''"
  by code_simp

text \<open>
  An identifier that also occurs in the name is replaced there. The first occurrence of the digits is rewritten, so a type
  whose name contains its own identifier keeps the identifier and loses its name.
\<close>

theorem name_with_id_is_corrupted:
  "remap_types 1000 [''t_struct(Foo12)12_storage''] = [(''t_struct(Foo12)12_storage'', ''t_struct(Foo1000)12_storage'')]"
  by code_simp

definition demo_ast_layout :: ast_Layout where
  "demo_ast_layout = \<lparr>al_Storage =
     [\<lparr>entry_Label = ''a'', entry_Offset = 0, entry_Slot = 0, entry_Type = ''t_uint8'', ast_Id = 77, ast_Contract = ''C''\<rparr>,
      \<lparr>entry_Label = ''b'', entry_Offset = 1, entry_Slot = 0, entry_Type = ''t_uint8'', ast_Id = 42, ast_Contract = ''C''\<rparr>], al_Types = []\<rparr>"

theorem canonical_ids_witness:
  "map ast_Id (al_Storage (CanonicalizeASTIDs (\<lambda>m. m) demo_ast_layout '''')) = [1000, 1001]"
  using canonical_ids [of demo_ast_layout "\<lambda>m. m" "''''"] by (simp add: demo_ast_layout_def upt_rec)

end
