(* ===== verification/Bindings_Gen.thy ===== *)
theory Bindings_Gen
  imports Canonicalize
begin

text \<open>
  \<^verbatim>\<open>ops/bindings/gen/hardhat/hardhat.go\<close> and \<^verbatim>\<open>ops/bindings/gen/main.go\<close>: the tool that reads the compiler's artifacts and writes the
  Go files with storage layouts and code. The file system, the JSON coder and the program \<^verbatim>\<open>abigen\<close> are parameters; paths
  are handled as \<^verbatim>\<open>path/filepath\<close> does on Unix.
\<close>

section \<open>Paths\<close>

fun split_slash :: "string \<Rightarrow> string list" where
  "split_slash [] = [[]]"
| "split_slash (c # s) =
     (if c = CHR ''/'' then [] # split_slash s else case split_slash s of l # ls \<Rightarrow> (c # l) # ls | [] \<Rightarrow> [[c]])"

fun join_slash :: "string list \<Rightarrow> string" where
  "join_slash [] = ''''"
| "join_slash [p] = p"
| "join_slash (p # ps) = p @ ''/'' @ join_slash ps"

text \<open>The elements of a path without empty ones and dots; \<open>acc\<close> is reversed.\<close>

fun clean_parts :: "bool \<Rightarrow> string list \<Rightarrow> string list \<Rightarrow> string list" where
  "clean_parts rooted acc [] = rev acc"
| "clean_parts rooted acc (p # ps) =
     (if p = [] \<or> p = ''.'' then clean_parts rooted acc ps
      else if p = ''..''
      then (case acc of
              q # qs \<Rightarrow> if q = ''..'' then clean_parts rooted (p # acc) ps else clean_parts rooted qs ps
            | [] \<Rightarrow> if rooted then clean_parts rooted [] ps else clean_parts rooted [p] ps)
      else clean_parts rooted (p # acc) ps)"

definition path_Clean :: "string \<Rightarrow> string" where
  "path_Clean s =
     (let rooted = has_prefix s ''/''; parts = clean_parts rooted [] (split_slash s)
      in if rooted then ''/'' @ join_slash parts else if parts = [] then ''.'' else join_slash parts)"

text \<open>\<open>Join\<close> leaves out empty elements.\<close>

definition path_Join :: "string list \<Rightarrow> string" where
  "path_Join ps = (let qs = filter (\<lambda>p. p \<noteq> []) ps in if qs = [] then '''' else path_Clean (join_slash qs))"

definition path_Base :: "string \<Rightarrow> string" where
  "path_Base s =
     (let t = rev (dropWhile (\<lambda>c. c = CHR ''/'') (rev s))
      in if s = [] then ''.'' else if t = [] then ''/'' else last (split_slash t))"

definition path_Dir :: "string \<Rightarrow> string" where
  "path_Dir s = path_Clean (case str_last_index s ''/'' of Some i \<Rightarrow> take (i + 1) s | None \<Rightarrow> '''')"

text \<open>When the working directory is not known, the result besides the error is empty.\<close>

definition path_Abs :: "string outcome \<Rightarrow> string \<Rightarrow> string" where
  "path_Abs Getwd s =
     (if has_prefix s ''/'' then path_Clean s else case Getwd of Ok cwd \<Rightarrow> path_Join [cwd, s] | _ \<Rightarrow> '''')"

section \<open>Artifacts\<close>

datatype json = JNull | JBool bool | JNumber string | JString string | JArray "json list" | JObject "(string \<times> json) list"

text \<open>A missing key of a map is nil; an assertion to another type panics.\<close>

definition json_get :: "(string \<times> json) list \<Rightarrow> string \<Rightarrow> json" where
  "json_get kvs k = (case map_of kvs k of Some j \<Rightarrow> j | None \<Rightarrow> JNull)"

fun as_array :: "json \<Rightarrow> json list outcome" where
  "as_array (JArray js) = Ok js"
| "as_array j = Panic ''interface conversion''"

fun as_object :: "json \<Rightarrow> (string \<times> json) list outcome" where
  "as_object (JObject kvs) = Ok kvs"
| "as_object j = Panic ''interface conversion''"

record Artifact =
  ContractName :: string
  SourceName :: string
  art_Abi :: json
  Bytecode :: bytes
  DeployedBytecode :: bytes

record DebugFile =
  dbg_Format :: string
  dbg_BuildInfo :: string

record solc_contract =
  ct_StorageLayout :: ast_Layout

text \<open>
  Of the compiler's output the contracts, and of a contract its layout, are read; \<open>Contracts\<close> is a map of maps, by source
  and by contract, here in the order a loop visits them.
\<close>

record BuildInfo =
  bi_Format :: string
  bi_Id :: string
  bi_SolcVersion :: string
  bi_SolcLongVersion :: string
  bi_Contracts :: "(string \<times> (string \<times> solc_contract) list) list"

record build_system =
  os_Read :: "string \<Rightarrow> bytes outcome"
  os_Getwd :: "string outcome"
  json_Artifact :: "bytes \<Rightarrow> Artifact outcome"
  json_DebugFile :: "bytes \<Rightarrow> DebugFile outcome"
  json_BuildInfo :: "bytes \<Rightarrow> BuildInfo outcome"
  json_Object :: "bytes \<Rightarrow> (string \<times> json) list outcome"
  json_Marshal :: "json \<Rightarrow> bytes outcome"
  json_Layout :: "ast_Layout \<Rightarrow> string outcome"
  hex_String :: "bytes \<Rightarrow> string"

definition ReadArtifact :: "build_system \<Rightarrow> string \<Rightarrow> Artifact outcome" where
  "ReadArtifact sys path = bind_out (os_Read sys path) (json_Artifact sys)"

text \<open>One entry of a log; a layout that was seen before stays.\<close>

fun collect_layouts :: "build_system \<Rightarrow> (string \<times> json) list \<Rightarrow> (string \<Rightarrow> bytes option) \<Rightarrow> (string \<Rightarrow> bytes option) outcome" where
  "collect_layouts sys [] layout = Ok layout"
| "collect_layouts sys ((contract, data) # rest) layout =
     (if layout contract \<noteq> None then collect_layouts sys rest layout
      else bind_out (as_object data) (\<lambda>kvs. bind_out (json_Marshal sys (json_get kvs ''layout'')) (\<lambda>bs.
             collect_layouts sys rest (layout(contract \<mapsto> bs)))))"

fun collect_logs :: "build_system \<Rightarrow> json list \<Rightarrow> (string \<Rightarrow> bytes option) \<Rightarrow> (string \<Rightarrow> bytes option) outcome" where
  "collect_logs sys [] layout = Ok layout"
| "collect_logs sys (log # rest) layout =
     bind_out (as_object log) (\<lambda>kvs. bind_out (collect_layouts sys kvs layout) (collect_logs sys rest))"

definition ReadStorageLayoutFromCacheValidations :: "build_system \<Rightarrow> string \<Rightarrow> (string \<Rightarrow> bytes option) outcome" where
  "ReadStorageLayoutFromCacheValidations sys path =
     bind_out (os_Read sys path) (\<lambda>file. bind_out (json_Object sys file) (\<lambda>kvs.
       bind_out (as_array (json_get kvs ''log'')) (\<lambda>logs. collect_logs sys logs Map.empty)))"

text \<open>What \<open>WalkDir\<close> hands to its function, in order: a path below the directory and an error or whether it is a directory.\<close>

type_synonym dir_entry = "string \<times> bool outcome"

type_synonym infos = "(string \<Rightarrow> BuildInfo option) \<times> (string \<Rightarrow> BuildInfo option)"

definition debug_path :: "build_system \<Rightarrow> string \<Rightarrow> DebugFile \<Rightarrow> string" where
  "debug_path sys name d = path_Abs (os_Getwd sys) (path_Join [path_Dir name, dbg_BuildInfo d])"

definition target_of :: "string \<Rightarrow> string" where
  "target_of name = path_Base (take (length name - 9) name)"

definition visit_entry :: "build_system \<Rightarrow> string \<Rightarrow> dir_entry \<Rightarrow> infos \<Rightarrow> infos outcome" where
  "visit_entry sys artifactPath entry infos =
     bind_out (snd entry) (\<lambda>isDir.
       if isDir then Ok infos
       else let name = path_Join [artifactPath, fst entry]
            in if \<not> has_suffix name ''.dbg.json'' then Ok infos
               else bind_out (os_Read sys name) (\<lambda>file. bind_out (json_DebugFile sys file) (\<lambda>debugFile.
                      let target = target_of name; debugPath = debug_path sys name debugFile
                      in case fst infos debugPath of
                           Some buildInfo \<Rightarrow> Ok (fst infos, (snd infos)(target \<mapsto> buildInfo))
                         | None \<Rightarrow>
                             bind_out (os_Read sys debugPath) (\<lambda>buildInfoFile. bind_out (json_BuildInfo sys buildInfoFile) (\<lambda>buildInfo.
                               Ok ((fst infos)(debugPath \<mapsto> buildInfo), (snd infos)(target \<mapsto> buildInfo)))))))"

fun visit_entries :: "build_system \<Rightarrow> string \<Rightarrow> dir_entry list \<Rightarrow> infos \<Rightarrow> infos outcome" where
  "visit_entries sys artifactPath [] infos = Ok infos"
| "visit_entries sys artifactPath (e # es) infos = bind_out (visit_entry sys artifactPath e infos) (visit_entries sys artifactPath es)"

definition ReadBuildInfos :: "build_system \<Rightarrow> string \<Rightarrow> dir_entry list \<Rightarrow> (string \<Rightarrow> BuildInfo option) outcome" where
  "ReadBuildInfos sys artifactPath entries =
     bind_out (visit_entries sys artifactPath entries (Map.empty, Map.empty)) (\<lambda>infos. Ok (snd infos))"

text \<open>A contract that was not built has a nil build info.\<close>

definition GetStorageLayout :: "string \<Rightarrow> BuildInfo option \<Rightarrow> ast_Layout outcome" where
  "GetStorageLayout contractName buildInfo =
     (case buildInfo of
        None \<Rightarrow> Panic ''nil pointer dereference''
      | Some bi \<Rightarrow>
          (case find (\<lambda>(name, _). name = contractName) (concat (map snd (bi_Contracts bi))) of
             Some (_, contract) \<Rightarrow> Ok (ct_StorageLayout contract)
           | None \<Rightarrow> Err (NewError (''contract not found for '' @ contractName))))"

text \<open>Look-ups in a layout, of \<^verbatim>\<open>ops/bindings/solc/types.go\<close>.\<close>

definition GetStorageLayoutEntry :: "string \<Rightarrow> ast_Layout \<Rightarrow> ast_Entry outcome" where
  "GetStorageLayoutEntry name s =
     (case find (\<lambda>entry. entry_Label entry = name) (al_Storage s) of
        Some entry \<Rightarrow> Ok entry
      | None \<Rightarrow> Err (NewError (name @ '' not found'')))"

definition GetStorageLayoutType :: "string \<Rightarrow> ast_Layout \<Rightarrow> ast_Type outcome" where
  "GetStorageLayoutType name s =
     (case map_of (al_Types s) name of Some ty \<Rightarrow> Ok ty | None \<Rightarrow> Err (NewError (name @ '' not found'')))"

section \<open>Generating a file\<close>

text \<open>The name of a contract is between the last slash and the suffix of four letters; a slice out of bounds panics.\<close>

definition contract_name :: "string \<Rightarrow> string outcome" where
  "contract_name contract =
     (let lo = (case str_last_index contract ''/'' of Some i \<Rightarrow> i + 1 | None \<Rightarrow> 0)
      in if length contract < lo + 4 then Panic ''slice bounds out of range''
         else Ok (take (length contract - 4 - lo) (drop lo contract)))"

abbreviation dquote :: char where "dquote \<equiv> CHR 0x22"
abbreviation newline :: string where "newline \<equiv> [CHR 0x0A]"

definition escape_quotes :: "string \<Rightarrow> string" where
  "escape_quotes s = concat (map (\<lambda>c. if c = dquote then [CHR 0x5C, dquote] else [c]) s)"

record gen_data =
  gd_Name :: string
  gd_StorageLayout :: string
  gd_DeployedBin :: string
  gd_Package :: string

definition quoted :: "string \<Rightarrow> string" where
  "quoted s = [dquote] @ s @ [dquote]"

text \<open>The template, with the fields of the data put in as they are.\<close>

definition render_template :: "gen_data \<Rightarrow> string" where
  "render_template d =
     concat (map (\<lambda>l. l @ newline)
       [''// Code generated - DO NOT EDIT.'',
        ''// This file is a generated binding and any manual changes will be lost.'',
        '''',
        ''package '' @ gd_Package d,
        '''',
        ''import ('',
        [CHR 0x09] @ quoted ''encoding/json'',
        '''',
        [CHR 0x09] @ quoted ''github.com/specularL2/specular/ops/bindings/solc'',
        '')'',
        '''',
        ''const '' @ gd_Name d @ ''StorageLayoutJSON = '' @ quoted (gd_StorageLayout d),
        '''',
        ''var '' @ gd_Name d @ ''StorageLayout = new(solc.StorageLayout)'',
        '''',
        ''var '' @ gd_Name d @ ''DeployedBin = '' @ quoted (gd_DeployedBin d),
        ''func init() {'',
        [CHR 0x09] @ ''if err := json.Unmarshal([]byte('' @ gd_Name d @ ''StorageLayoutJSON), '' @ gd_Name d @ ''StorageLayout); err != nil {'',
        [CHR 0x09, CHR 0x09] @ ''panic(err)'',
        [CHR 0x09] @ ''}'',
        '''',
        [CHR 0x09] @ ''layouts['' @ quoted (gd_Name d) @ ''] = '' @ gd_Name d @ ''StorageLayout'',
        [CHR 0x09] @ ''deployedBytecodes['' @ quoted (gd_Name d) @ ''] = '' @ gd_Name d @ ''DeployedBin'',
        ''}''])"

record gen_flags =
  gf_Contracts :: string
  gf_SourceMaps :: string
  gf_OutDir :: string
  gf_Package :: string
  gf_ContractDir :: string
  gf_AbigenBin :: string

text \<open>
  What the tool does to the outside. An error of one of these, or of the reading, ends the program through
  \<open>log.Fatalf\<close>.
\<close>

record 'w gen_world =
  gw_WriteFile :: "string \<Rightarrow> string \<Rightarrow> ('w, unit) call"
  gw_RunAbigen :: "string list \<Rightarrow> ('w, unit) call"
  gw_OpenFile :: "string \<Rightarrow> ('w, unit) call"
  gw_Execute :: "string \<Rightarrow> string \<Rightarrow> ('w, unit) call"
  gw_MkdirTemp :: "('w, string) call"
  gw_RemoveAll :: "string \<Rightarrow> 'w \<Rightarrow> 'w"
  gw_Entries :: "dir_entry list"
  gw_Abi :: "json \<Rightarrow> string outcome"
  gw_List :: "bytes \<Rightarrow> string list outcome"

definition fatal :: "string \<Rightarrow> 'a outcome \<Rightarrow> ('w, 'a) call" where
  "fatal m r w = (wrap_err m r, w)"

definition generate_one ::
    "build_system \<Rightarrow> 'w gen_world \<Rightarrow> gen_flags \<Rightarrow> (remappings \<Rightarrow> remappings) \<Rightarrow> string \<Rightarrow> (string \<Rightarrow> BuildInfo option) \<Rightarrow> string \<Rightarrow> ('w, unit) call" where
  "generate_one sys gw f visit dir buildInfos contract =
     bind_call (fatal '''' (contract_name contract)) (\<lambda>name.
     bind_call (fatal ''error reading artifact'' (ReadArtifact sys (path_Join [gf_ContractDir f, ''artifacts'', contract, name @ ''.json'']))) (\<lambda>artifact.
     bind_call (fatal ''error marshaling abi'' (gw_Abi gw (art_Abi artifact))) (\<lambda>rawAbi.
     bind_call (wrap_call ''error writing file'' (gw_WriteFile gw (path_Join [dir, name @ ''.abi'']) rawAbi)) (\<lambda>_.
     bind_call (wrap_call ''error writing file'' (gw_WriteFile gw (path_Join [dir, name @ ''.bin'']) (hex_String sys (Bytecode artifact)))) (\<lambda>_.
     bind_call (fatal ''error getting cwd'' (os_Getwd sys)) (\<lambda>cwd.
     bind_call (wrap_call ''error running abigen'' (gw_RunAbigen gw
       [gf_AbigenBin f, ''--abi'', path_Join [dir, name @ ''.abi''], ''--bin'', path_Join [dir, name @ ''.bin''], ''--pkg'', gf_Package f,
        ''--type'', name, ''--out'', path_Join [cwd, gf_Package f, name @ ''.go'']])) (\<lambda>_.
     bind_call (fatal ''error getting storage layout'' (GetStorageLayout name (buildInfos name))) (\<lambda>storageLayout.
     bind_call (fatal ''error marshaling storage''
       (json_Layout sys (CanonicalizeASTIDs visit storageLayout (path_Join [gf_ContractDir f, ''..''])))) (\<lambda>ser.
     bind_call (wrap_call (''error opening '' @ path_Join [gf_OutDir f, name @ ''_more.go'']) (gw_OpenFile gw (path_Join [gf_OutDir f, name @ ''_more.go'']))) (\<lambda>_.
     wrap_call ''error writing template'' (gw_Execute gw (path_Join [gf_OutDir f, name @ ''_more.go''])
       (render_template \<lparr>gd_Name = name, gd_StorageLayout = escape_quotes ser,
          gd_DeployedBin = hex_String sys (DeployedBytecode artifact), gd_Package = gf_Package f\<rparr>))))))))))))"

fun generate_all ::
    "build_system \<Rightarrow> 'w gen_world \<Rightarrow> gen_flags \<Rightarrow> (remappings \<Rightarrow> remappings) \<Rightarrow> string \<Rightarrow> (string \<Rightarrow> BuildInfo option) \<Rightarrow> string list \<Rightarrow> ('w, unit) call" where
  "generate_all sys gw f visit dir buildInfos [] = ret_call ()"
| "generate_all sys gw f visit dir buildInfos (c # cs) =
     bind_call (generate_one sys gw f visit dir buildInfos c) (\<lambda>_. generate_all sys gw f visit dir buildInfos cs)"

definition contract_list :: "build_system \<Rightarrow> 'w gen_world \<Rightarrow> gen_flags \<Rightarrow> string list outcome" where
  "contract_list sys gw f =
     (if gf_ContractDir f = '''' then Err (NewError ''must provide -contract-dir'')
      else if gf_AbigenBin f = '''' then Err (NewError ''must provide -abigen-bin'')
      else bind_out (wrap_err ''error reading contract list'' (os_Read sys (gf_Contracts f))) (\<lambda>contractData.
           bind_out (wrap_err ''error parsing contract list'' (gw_List gw contractData)) (\<lambda>contracts.
             if contracts = [] then Err (NewError ''must define a list of contracts'') else Ok contracts)))"

text \<open>The temporary directory is removed by a deferred call: when \<open>main\<close> returns or panics, but not when \<open>log.Fatalf\<close> exits.\<close>

definition gen_main :: "build_system \<Rightarrow> 'w gen_world \<Rightarrow> gen_flags \<Rightarrow> (remappings \<Rightarrow> remappings) \<Rightarrow> ('w, unit) call" where
  "gen_main sys gw f visit =
     bind_call (\<lambda>w. (contract_list sys gw f, w)) (\<lambda>contracts.
     bind_call (gw_MkdirTemp gw) (\<lambda>dir w.
       case bind_call (fatal ''error reading build infos'' (ReadBuildInfos sys (path_Join [gf_ContractDir f, ''artifacts'']) (gw_Entries gw)))
              (\<lambda>buildInfos. generate_all sys gw f visit dir buildInfos contracts) w of
         (Ok _, w') \<Rightarrow> (Ok (), gw_RemoveAll gw dir w')
       | (Panic p, w') \<Rightarrow> (Panic p, gw_RemoveAll gw dir w')
       | (Err e, w') \<Rightarrow> (Err e, w')))"

section \<open>Properties\<close>

text \<open>Reading without the cache of build infos.\<close>

definition read_info :: "build_system \<Rightarrow> string \<Rightarrow> BuildInfo outcome" where
  "read_info sys p = bind_out (os_Read sys p) (json_BuildInfo sys)"

definition plain_entry :: "build_system \<Rightarrow> string \<Rightarrow> dir_entry \<Rightarrow> (string \<times> BuildInfo) option outcome" where
  "plain_entry sys artifactPath entry =
     bind_out (snd entry) (\<lambda>isDir.
       let name = path_Join [artifactPath, fst entry]
       in if isDir \<or> \<not> has_suffix name ''.dbg.json'' then Ok None
          else bind_out (os_Read sys name) (\<lambda>file. bind_out (json_DebugFile sys file) (\<lambda>d.
                 bind_out (read_info sys (debug_path sys name d)) (\<lambda>bi. Ok (Some (target_of name, bi))))))"

fun plain_infos :: "build_system \<Rightarrow> string \<Rightarrow> dir_entry list \<Rightarrow> (string \<Rightarrow> BuildInfo option) \<Rightarrow> (string \<Rightarrow> BuildInfo option) outcome" where
  "plain_infos sys artifactPath [] m = Ok m"
| "plain_infos sys artifactPath (e # es) m =
     bind_out (plain_entry sys artifactPath e) (\<lambda>r.
       plain_infos sys artifactPath es (case r of None \<Rightarrow> m | Some (target, bi) \<Rightarrow> m(target \<mapsto> bi)))"

definition cache_sound :: "build_system \<Rightarrow> infos \<Rightarrow> bool" where
  "cache_sound sys infos \<longleftrightarrow> (\<forall>p bi. fst infos p = Some bi \<longrightarrow> read_info sys p = Ok bi)"

lemma visit_entry_plain:
  assumes "cache_sound sys infos"
  shows "\<exists>c. cache_sound sys (c, snd infos) \<and> visit_entry sys a e infos =
      bind_out (plain_entry sys a e) (\<lambda>r. Ok (c, case r of None \<Rightarrow> snd infos | Some (target, bi) \<Rightarrow> (snd infos)(target \<mapsto> bi)))"
proof -
  let ?name = "path_Join [a, fst e]"
  have same: "cache_sound sys (fst infos, snd infos)" using assms by simp
  show ?thesis
  proof (cases "\<exists>fl d. snd e = Ok False \<and> has_suffix ?name ''.dbg.json'' \<and> os_Read sys ?name = Ok fl \<and> json_DebugFile sys fl = Ok d")
    case True
    then obtain fl d where f: "snd e = Ok False" "has_suffix ?name ''.dbg.json''" "os_Read sys ?name = Ok fl" "json_DebugFile sys fl = Ok d" by blast
    let ?p = "debug_path sys ?name d"
    have pl: "plain_entry sys a e = bind_out (read_info sys ?p) (\<lambda>bi. Ok (Some (target_of ?name, bi)))"
      using f by (simp add: plain_entry_def bind_out_def Let_def)
    show ?thesis
    proof (cases "fst infos ?p")
      case None
      then have v: "visit_entry sys a e infos =
          bind_out (read_info sys ?p) (\<lambda>bi. Ok ((fst infos)(?p \<mapsto> bi), (snd infos)(target_of ?name \<mapsto> bi)))"
        using f by (simp add: visit_entry_def bind_out_def read_info_def Let_def split: outcome.split)
      show ?thesis
      proof (cases "read_info sys ?p")
        case (Ok bi)
        then have "cache_sound sys ((fst infos)(?p \<mapsto> bi), snd infos)" using assms by (simp add: cache_sound_def)
        with v pl Ok show ?thesis by (intro exI [of _ "(fst infos)(?p \<mapsto> bi)"]) (simp add: bind_out_def)
      qed (use v pl same in \<open>auto simp: bind_out_def intro: exI [of _ "fst infos"]\<close>)
    next
      case (Some bi)
      then have "read_info sys ?p = Ok bi" using assms by (simp add: cache_sound_def)
      then show ?thesis using f Some same pl by (intro exI [of _ "fst infos"]) (simp add: visit_entry_def bind_out_def Let_def)
    qed
  next
    case False
    then show ?thesis using same
      by (intro exI [of _ "fst infos"]) (auto simp: visit_entry_def plain_entry_def bind_out_def Let_def split: outcome.splits)
  qed
qed

text \<open>
  C38: caching the build infos changes nothing. \<open>ReadBuildInfos\<close>, which keeps every build info it has read and reuses it for
  the contracts compiled together, returns the same map, error or panic as reading the build info of every debug
  file afresh.
\<close>

theorem ReadBuildInfos_cache_transparent: "ReadBuildInfos sys artifactPath entries = plain_infos sys artifactPath entries Map.empty"
proof -
  have "cache_sound sys infos \<Longrightarrow> bind_out (visit_entries sys artifactPath entries infos) (\<lambda>i. Ok (snd i)) =
      plain_infos sys artifactPath entries (snd infos)" for infos
  proof (induction entries arbitrary: infos)
    case (Cons e es)
    obtain c where c: "cache_sound sys (c, snd infos)" "visit_entry sys artifactPath e infos =
        bind_out (plain_entry sys artifactPath e) (\<lambda>r. Ok (c, case r of None \<Rightarrow> snd infos | Some (target, bi) \<Rightarrow> (snd infos)(target \<mapsto> bi)))"
      using visit_entry_plain [OF Cons.prems] by blast
    have cs: "cache_sound sys (c, m)" for m using c(1) by (simp add: cache_sound_def)
    show ?case using Cons.IH [OF cs] by (cases "plain_entry sys artifactPath e") (simp_all add: c(2) bind_out_def)
  qed (simp add: bind_out_def)
  from this [of "(Map.empty, Map.empty)"] show ?thesis by (simp add: ReadBuildInfos_def cache_sound_def)
qed

text \<open>
  How the Go compiler reads an interpreted string literal after its opening quote, as far as the escapes of a quote and a
  backslash go; what follows the closing quote is the second result.
\<close>

fun read_literal :: "string \<Rightarrow> (string \<times> string) option" where
  "read_literal [] = None"
| "read_literal (c # s) =
     (if c = dquote then Some ([], s)
      else if c = CHR 0x0A then None
      else if c = CHR 0x5C
      then (case s of
              e # r \<Rightarrow> if e = dquote \<or> e = CHR 0x5C then map_option (\<lambda>(x, y). (e # x, y)) (read_literal r) else None
            | [] \<Rightarrow> None)
      else map_option (\<lambda>(x, y). (c # x, y)) (read_literal s))"

text \<open>
  The layout in a generated file is the one that was serialized. For a serialization without backslashes and line breaks, the
  constant in the generated file reads back as the serialized layout; only quotes are escaped.
\<close>

theorem escaped_layout_roundtrip:
  assumes "CHR 0x5C \<notin> set ser" "CHR 0x0A \<notin> set ser"
  shows "read_literal (escape_quotes ser @ dquote # rest) = Some (ser, rest)"
  using assms by (induction ser) (auto simp: escape_quotes_def)

text \<open>
  Where the serialization escapes a quote itself, the backslash is not escaped: the literal of the generated file ends
  early and the file does not compile.
\<close>

lemma escaped_quote_breaks_literal:
  assumes "CHR 0x5C \<notin> set a" "CHR 0x0A \<notin> set a"
  shows "read_literal (escape_quotes (a @ [CHR 0x5C, dquote] @ b) @ dquote # rest) = Some (a @ [CHR 0x5C], escape_quotes b @ dquote # rest)"
  using assms by (induction a) (auto simp: escape_quotes_def)

text \<open>
  The name of a contract. For a path that ends in a file name and \<^verbatim>\<open>.sol\<close> the name is the file name without it; an entry that is
  shorter than four letters after its last slash makes the tool panic.
\<close>

theorem contract_name_cases:
  assumes "CHR ''/'' \<notin> set n"
  shows "contract_name (d @ ''/'' @ n @ ''.sol'') = Ok n" "contract_name (n @ ''.sol'') = Ok n"
    "length n < 4 \<Longrightarrow> contract_name (d @ ''/'' @ n) = Panic ''slice bounds out of range''"
proof -
  have l: "str_last_index (d @ CHR ''/'' # m) ''/'' = Some (length d)" if "CHR ''/'' \<notin> set m" for d m
    using that str_last_index_single [of "CHR ''/''" m d] by simp
  show "contract_name (d @ ''/'' @ n @ ''.sol'') = Ok n" using l [of "n @ ''.sol''" d] assms by (simp add: contract_name_def)
  show "contract_name (n @ ''.sol'') = Ok n"
    using str_last_index_none [of "CHR ''/''" "n @ ''.sol''"] assms by (simp add: contract_name_def)
  show "contract_name (d @ ''/'' @ n) = Panic ''slice bounds out of range''" if "length n < 4"
    using l [of n d] assms that by (simp add: contract_name_def)
qed

text \<open>
  The temporary directory stays behind on an error. Once the directory is made, \<open>main\<close> removes it when it succeeds or
  panics; every error goes through \<open>log.Fatalf\<close>, which exits without running deferred calls.
\<close>

theorem fatal_leaves_directory:
  assumes "contract_list sys gw f = Ok contracts" "gw_MkdirTemp gw w = (Ok dir, w1)"
    and "bind_call (fatal ''error reading build infos'' (ReadBuildInfos sys (path_Join [gf_ContractDir f, ''artifacts'']) (gw_Entries gw)))
           (\<lambda>buildInfos. generate_all sys gw f visit dir buildInfos contracts) w1 = (r, w2)"
  shows "snd (gen_main sys gw f visit w) = (case r of Err e \<Rightarrow> w2 | _ \<Rightarrow> gw_RemoveAll gw dir w2) \<and> fst (gen_main sys gw f visit w) = r"
  using assms by (cases r) (simp_all add: gen_main_def bind_call_def [of "\<lambda>w. (_, w)"] bind_call_def [of "gw_MkdirTemp gw"] del: bind_call_Ok)

end
