(* ===== verification/Assertion_Type.thy ===== *)
theory Assertion_Type
  imports Go_Prelude
begin

text \<open>
  \<^verbatim>\<open>rollup/types/assertion.go\<close>: an assertion holds three pointers to numbers that can be set in place. The numbers live in a store, a pointer is
  an address or nil, and \<open>Copy\<close> allocates. Shown here: a copy shares no number with the original.
\<close>

section \<open>Numbers in a store\<close>

record big_store =
  cells :: "nat \<Rightarrow> big"
  next_cell :: nat

type_synonym big_ptr = "nat option"

text \<open>\<open>new(big.Int).Set(p)\<close>; \<open>Set\<close> dereferences its argument.\<close>

definition new_Set :: "big_ptr \<Rightarrow> (big_store, big_ptr) call" where
  "new_Set p h =
     (case p of
        None \<Rightarrow> (Panic ''nil pointer dereference'', h)
      | Some a \<Rightarrow> (Ok (Some (next_cell h)), h\<lparr>cells := (cells h)(next_cell h := cells h a), next_cell := Suc (next_cell h)\<rparr>))"

definition Set_through :: "big_store \<Rightarrow> big_ptr \<times> big \<Rightarrow> big_store" where
  "Set_through h w = (case fst w of None \<Rightarrow> h | Some a \<Rightarrow> h\<lparr>cells := (cells h)(a := snd w)\<rparr>)"

section \<open>The assertion\<close>

record Assertion =
  asn_ID :: big_ptr
  asn_VmHash :: hash
  asn_BlockNum :: big_ptr
  asn_Deadline :: big_ptr
  asn_StartBlock :: uint64
  asn_EndBlock :: uint64

definition Assertion_Copy :: "Assertion \<Rightarrow> (big_store, Assertion) call" where
  "Assertion_Copy a =
     bind_call (new_Set (asn_ID a)) (\<lambda>i.
     bind_call (new_Set (asn_BlockNum a)) (\<lambda>n.
     bind_call (new_Set (asn_Deadline a)) (\<lambda>d.
       ret_call \<lparr>asn_ID = i, asn_VmHash = asn_VmHash a, asn_BlockNum = n, asn_Deadline = d,
                 asn_StartBlock = asn_StartBlock a, asn_EndBlock = asn_EndBlock a\<rparr>)))"

definition asn_ptrs :: "Assertion \<Rightarrow> big_ptr list" where
  "asn_ptrs a = [asn_ID a, asn_BlockNum a, asn_Deadline a]"

definition deref :: "big_store \<Rightarrow> big_ptr \<Rightarrow> big option" where
  "deref h p = map_option (cells h) p"

text \<open>All pointers of an assertion point to allocated numbers.\<close>

definition allocated :: "big_store \<Rightarrow> Assertion \<Rightarrow> bool" where
  "allocated h a \<longleftrightarrow> (\<forall>p \<in> set (asn_ptrs a). \<exists>x < next_cell h. p = Some x)"

section \<open>Properties\<close>

lemma Set_through_others: "p \<notin> fst ` set ws \<Longrightarrow> deref (foldl Set_through h ws) p = deref h p"
proof (induction ws arbitrary: h)
  case (Cons w ws)
  have "deref (Set_through h w) p = deref h p" using Cons.prems by (cases p) (auto simp: Set_through_def deref_def split: option.splits)
  then show ?case using Cons by simp
qed simp

text \<open>
  A copy is equal and independent: it returns, has the same numbers, hash and range, and whatever is set through the pointers of one
  of the two afterwards leaves all numbers of the other as they were.
\<close>

theorem Copy_is_deep:
  assumes "allocated h a"
  shows "\<exists>b h'. Assertion_Copy a h = (Ok b, h') \<and> map (deref h') (asn_ptrs b) = map (deref h) (asn_ptrs a) \<and>
    map (deref h') (asn_ptrs a) = map (deref h) (asn_ptrs a) \<and> asn_VmHash b = asn_VmHash a \<and>
    (fst ` set ws \<subseteq> set (asn_ptrs b) \<longrightarrow> map (deref (foldl Set_through h' ws)) (asn_ptrs a) = map (deref h) (asn_ptrs a)) \<and>
    (fst ` set ws \<subseteq> set (asn_ptrs a) \<longrightarrow> map (deref (foldl Set_through h' ws)) (asn_ptrs b) = map (deref h) (asn_ptrs a))"
proof -
  obtain i n d where p: "asn_ID a = Some i" "asn_BlockNum a = Some n" "asn_Deadline a = Some d" and l: "i < next_cell h" "n < next_cell h" "d < next_cell h"
    using assms by (auto simp: allocated_def asn_ptrs_def)
  let ?k = "next_cell h"
  obtain b h' where c: "Assertion_Copy a h = (Ok b, h')" and b: "asn_ptrs b = [Some ?k, Some (Suc ?k), Some (Suc (Suc ?k))]" "asn_VmHash b = asn_VmHash a"
    and h': "\<And>x. x < ?k \<Longrightarrow> cells h' x = cells h x" "cells h' ?k = cells h i" "cells h' (Suc ?k) = cells h n" "cells h' (Suc (Suc ?k)) = cells h d"
    using p l by (auto simp: Assertion_Copy_def new_Set_def bind_call_def ret_call_def asn_ptrs_def)
  have a: "asn_ptrs a = [Some i, Some n, Some d]" by (simp add: asn_ptrs_def p)
  have same: "map (deref h') (asn_ptrs b) = map (deref h) (asn_ptrs a)" "map (deref h') (asn_ptrs a) = map (deref h) (asn_ptrs a)"
    using l h' by (simp_all add: a b deref_def)
  have disj: "set (asn_ptrs a) \<inter> set (asn_ptrs b) = {}" using l by (auto simp: a b)
  have "map (deref (foldl Set_through h' ws)) ps = map (deref h') ps" if "fst ` set ws \<inter> set ps = {}" for ps
    using that by (auto intro: Set_through_others)
  with disj same have "fst ` set ws \<subseteq> set (asn_ptrs b) \<longrightarrow> map (deref (foldl Set_through h' ws)) (asn_ptrs a) = map (deref h) (asn_ptrs a)"
    "fst ` set ws \<subseteq> set (asn_ptrs a) \<longrightarrow> map (deref (foldl Set_through h' ws)) (asn_ptrs b) = map (deref h) (asn_ptrs a)"
    by (metis Int_commute disjoint_iff subset_eq)+
  with c b(2) same show ?thesis by blast
qed

text \<open>A nil number makes the copy panic.\<close>

lemma Copy_panics:
  assumes "None \<in> set (asn_ptrs a)"
  shows "\<exists>h'. Assertion_Copy a h = (Panic ''nil pointer dereference'', h')"
  using assms by (auto simp: asn_ptrs_def Assertion_Copy_def new_Set_def bind_call_def split: option.splits)

end
