(* ===== verification/Logging.thy ===== *)
theory Logging
  imports Go_Prelude
begin

text \<open>
  \<^verbatim>\<open>utils/log/log.go\<close> and \<^verbatim>\<open>root.go\<close>: the wrapper of go-ethereum's logger that puts the caller's function and line in front of every message. The
  frame two calls up is a parameter, the records handed to go-ethereum's logger are a list, and \<open>fmt.Errorf\<close> is a parameter.
\<close>

section \<open>Prefixes\<close>

record caller =
  cl_Func :: string
  cl_File :: string
  cl_Line :: int

text \<open>\<open>strings.Split\<close> at a single character.\<close>

fun split_at :: "char \<Rightarrow> string \<Rightarrow> string list" where
  "split_at sep [] = [[]]"
| "split_at sep (c # s) = (if c = sep then [] # split_at sep s else case split_at sep s of [] \<Rightarrow> [[c]] | l # ls \<Rightarrow> (c # l) # ls)"

definition getLogPrefix :: "caller \<Rightarrow> string" where
  "getLogPrefix fr = last (split_at CHR ''.'' (cl_Func fr)) @ '':'' @ show_int (cl_Line fr) @ '' | ''"

definition getFullLogPrefix :: "caller \<Rightarrow> string" where
  "getFullLogPrefix fr = last (split_at CHR ''/'' (cl_File fr)) @ '':'' @ last (split_at CHR ''.'' (cl_Func fr)) @ '':'' @ show_int (cl_Line fr) @ '' | ''"

section \<open>Logging\<close>

datatype Lvl = LvlCrit | LvlError | LvlWarn | LvlInfo | LvlDebug | LvlTrace

type_synonym log_record = "Lvl \<times> string \<times> string list"

definition log_at :: "Lvl \<Rightarrow> caller \<Rightarrow> string \<Rightarrow> string list \<Rightarrow> log_record list \<Rightarrow> log_record list" where
  "log_at l fr msg ctx sink =
     sink @ [(l, (if l = LvlError \<or> l = LvlCrit then getFullLogPrefix fr else getLogPrefix fr) @ msg, ctx)]"

definition logger_Errorf :: "(string \<Rightarrow> go_error \<Rightarrow> string) \<Rightarrow> caller \<Rightarrow> string \<Rightarrow> go_error \<Rightarrow> string list \<Rightarrow> log_record list \<Rightarrow> log_record list" where
  "logger_Errorf fmt_Errorf fr msg err args sink = sink @ [(LvlError, fmt_Errorf (getLogPrefix fr @ msg) err, args)]"

definition log_Errorf :: "(string \<Rightarrow> go_error \<Rightarrow> string) \<Rightarrow> caller \<Rightarrow> string \<Rightarrow> go_error \<Rightarrow> string list \<Rightarrow> log_record list \<Rightarrow> log_record list" where
  "log_Errorf fmt_Errorf fr msg err args sink = sink @ [(LvlError, fmt_Errorf (getFullLogPrefix fr @ msg) err, args)]"

section \<open>Properties\<close>

lemma split_at_Nil [simp]: "split_at c s \<noteq> []"
  by (cases s) (auto split: list.splits)

lemma split_at_none: "c \<notin> set s \<Longrightarrow> split_at c s = [s]"
  by (induction s) auto

lemma last_split_at: "c \<notin> set name \<Longrightarrow> last (split_at c (q @ c # name)) = name"
proof (induction q)
  case (Cons x q)
  obtain l ls where s: "split_at c (q @ c # name) = l # ls" by (cases "split_at c (q @ c # name)") auto
  have "ls \<noteq> []"
  proof
    assume "ls = []"
    moreover have "length (split_at c (q @ c # name)) \<ge> 2" by (induction q) (auto split: list.splits simp: Suc_le_eq numeral_2_eq_2)
    ultimately show False using s by simp
  qed
  then show ?case using Cons s by auto
qed (auto simp: split_at_none)

text \<open>
  A message starts with the name of the function that logged it, without its package and receiver, and the line; an error also with the name of
  the file, without its directories.
\<close>

theorem message_names_caller:
  assumes "cl_Func fr = qualifier @ CHR ''.'' # name" "CHR ''.'' \<notin> set name" "cl_File fr = dir @ CHR ''/'' # file" "CHR ''/'' \<notin> set file"
  shows "log_at l fr msg ctx sink = sink @ [(l, (if l = LvlError \<or> l = LvlCrit then file @ '':'' else '''') @ name @ '':'' @ show_int (cl_Line fr) @ '' | '' @ msg, ctx)]"
  using assms last_split_at [of "CHR ''.''" name qualifier] last_split_at [of "CHR ''/''" "file" "dir"]
  by (simp add: log_at_def getLogPrefix_def getFullLogPrefix_def)

theorem message_names_caller_witness:
  "log_at LvlInfo \<lparr>cl_Func = ''github.com/specular/validator.(*Validator).step'', cl_File = ''/src/validator.go'', cl_Line = 90\<rparr> ''ok'' [] [] =
     [(LvlInfo, ''step:90 | ok'', [])]"
proof -
  have "show_int 90 = ''90''" by code_simp
  then show ?thesis
    using message_names_caller [of "\<lparr>cl_Func = ''github.com/specular/validator.(*Validator).step'', cl_File = ''/src/validator.go'', cl_Line = 90\<rparr>"
        "''github.com/specular/validator.(*Validator)''" "''step''" "''/src''" "''validator.go''" LvlInfo "''ok''" "[]" "[]"] by simp
qed

end
