(* ===== verification/Merkle_Trie.thy ===== *)
theory Merkle_Trie
  imports Go_Prelude
begin

text \<open>
  \<^verbatim>\<open>contracts/src/libraries\<close>: the RLP reader \<^verbatim>\<open>rlp/RLPReader2.sol\<close>, \<^verbatim>\<open>Bytes.sol\<close> and the verifier of Merkle proofs \<^verbatim>\<open>trie/MerkleTrie.sol\<close>, which the
  portals use. An item in memory is the list of its bytes; a revert is the message it carries. \<open>keccak256\<close> is a parameter. Shown here: under a root,
  a key has one value, whatever proofs are presented, as long as the hash function has no collision among the strings that occur.
\<close>

section \<open>Reading RLP\<close>

datatype RLPItemType = DATA_ITEM | LIST_ITEM

definition bind_s :: "string + 'a \<Rightarrow> ('a \<Rightarrow> string + 'b) \<Rightarrow> string + 'b" where
  "bind_s r f = (case r of Inl e \<Rightarrow> Inl e | Inr x \<Rightarrow> f x)"

lemma bind_s_Inr [simp]: "bind_s r f = Inr y \<longleftrightarrow> (\<exists>x. r = Inr x \<and> f x = Inr y)"
  by (cases r) (auto simp: bind_s_def)

lemma bind_s_left [simp]: "bind_s (Inr x) f = f x" "bind_s (Inl e) f = Inl e"
  by (simp_all add: bind_s_def)

definition require :: "bool \<Rightarrow> string \<Rightarrow> string + unit" where
  "require b e = (if b then Inr () else Inl e)"

lemma require_Inr [simp]: "require b e = Inr u \<longleftrightarrow> b"
  by (simp add: require_def)

text \<open>The long forms of strings and lists differ in the base of the prefix only.\<close>

definition decode_long :: "nat \<Rightarrow> RLPItemType \<Rightarrow> bytes \<Rightarrow> string + nat \<times> nat \<times> RLPItemType" where
  "decode_long lenOfLen kind item =
     (let form = (case kind of DATA_ITEM \<Rightarrow> '' (long string)'' | LIST_ITEM \<Rightarrow> '' (long list)'');
          what = (case kind of DATA_ITEM \<Rightarrow> ''string'' | LIST_ITEM \<Rightarrow> ''list'') in
      bind_s (require (lenOfLen < length item) (''RLPReader: length of content must be > than length of '' @ what @ '' length'' @ form)) (\<lambda>_.
      bind_s (require (item ! 1 \<noteq> 0) (''RLPReader: length of content must not have any leading zeros'' @ form)) (\<lambda>_.
      let len = nat (dec_be (take lenOfLen (drop 1 item))) in
      bind_s (require (55 < len) (''RLPReader: length of content must be greater than 55 bytes'' @ form)) (\<lambda>_.
      bind_s (require (lenOfLen + len < length item) (''RLPReader: length of content must be greater than total length'' @ form)) (\<lambda>_.
        Inr (1 + lenOfLen, len, kind))))))"

definition decodeLength :: "bytes \<Rightarrow> string + nat \<times> nat \<times> RLPItemType" where
  "decodeLength item =
     (case item of
        [] \<Rightarrow> Inl ''RLPReader: length of an RLP item must be greater than zero to be decodable''
      | p # rest \<Rightarrow>
          let prefix = unat p in
          if prefix \<le> 0x7f then Inr (0, 1, DATA_ITEM)
          else if prefix \<le> 0xb7 then
            let strLen = prefix - 0x80 in
            bind_s (require (strLen < length item) ''RLPReader: length of content must be greater than string length (short string)'') (\<lambda>_.
            bind_s (require (strLen \<noteq> 1 \<or> 0x80 \<le> hd rest) ''RLPReader: invalid prefix, single byte < 0x80 are not prefixed (short string)'') (\<lambda>_.
              Inr (1, strLen, DATA_ITEM)))
          else if prefix \<le> 0xbf then decode_long (prefix - 0xb7) DATA_ITEM item
          else if prefix \<le> 0xf7 then
            let listLen = prefix - 0xc0 in
            bind_s (require (listLen < length item) ''RLPReader: length of content must be greater than list length (short list)'') (\<lambda>_.
              Inr (1, listLen, LIST_ITEM))
          else decode_long (prefix - 0xf7) LIST_ITEM item)"

definition MAX_LIST_LENGTH :: nat where "MAX_LIST_LENGTH = 32"

lemma decodeLength_pos: "decodeLength item = Inr (off, len, kind) \<Longrightarrow> 0 < off + len"
  by (auto simp: decodeLength_def decode_long_def Let_def split: list.splits if_splits)

text \<open>The loop of \<open>readList\<close>; \<open>itemCount\<close> items are already written.\<close>

function read_items :: "nat \<Rightarrow> bytes \<Rightarrow> string + bytes list" where
  "read_items itemCount rest =
     (if rest = [] then Inr []
      else case decodeLength rest of
             Inl e \<Rightarrow> Inl e
           | Inr (itemOffset, itemLength, _) \<Rightarrow>
               if itemCount < MAX_LIST_LENGTH
               then bind_s (read_items (itemCount + 1) (drop (itemOffset + itemLength) rest)) (\<lambda>items.
                      Inr (take (itemOffset + itemLength) rest # items))
               else Inl ''index out of bounds'')"
  by auto
termination
  by (relation "measure (\<lambda>(_, rest). length rest)") (auto intro!: diff_less dest: decodeLength_pos)

declare read_items.simps [simp del]

definition readList :: "bytes \<Rightarrow> string + bytes list" where
  "readList item =
     bind_s (require (item \<noteq> []) ''RLPReader: length of an RLP item must be greater than zero to be decodable'') (\<lambda>_.
     bind_s (decodeLength item) (\<lambda>(listOffset, listLength, itemType).
     bind_s (require (itemType = LIST_ITEM) ''RLPReader: decoded item type for list is not a list item'') (\<lambda>_.
     bind_s (require (listOffset + listLength = length item) ''RLPReader: list item has an invalid data remainder'') (\<lambda>_.
       read_items 0 (drop listOffset item)))))"

definition readBytes :: "bytes \<Rightarrow> string + bytes" where
  "readBytes item =
     bind_s (decodeLength item) (\<lambda>(itemOffset, itemLength, itemType).
     bind_s (require (itemType = DATA_ITEM) ''RLPReader: decoded item type for bytes is not a data item'') (\<lambda>_.
     bind_s (require (length item = itemOffset + itemLength) ''RLPReader: bytes value contains an invalid remainder'') (\<lambda>_.
       Inr (take itemLength (drop itemOffset item)))))"

section \<open>Walking down a proof\<close>

unbundle bit_operations_syntax

definition toNibbles :: "bytes \<Rightarrow> bytes" where
  "toNibbles bs = concat (map (\<lambda>b. [drop_bit 4 b, b AND 0x0f]) bs)"

text \<open>\<open>Bytes.equal\<close> compares hashes.\<close>

definition bytes_equal :: "(bytes \<Rightarrow> hash) \<Rightarrow> bytes \<Rightarrow> bytes \<Rightarrow> bool" where
  "bytes_equal keccak a b \<longleftrightarrow> keccak a = keccak b"

record TrieNode =
  encoded :: bytes
  decoded :: "bytes list"

definition TREE_RADIX :: nat where "TREE_RADIX = 16"
definition BRANCH_NODE_LENGTH :: nat where "BRANCH_NODE_LENGTH = TREE_RADIX + 1"
definition LEAF_OR_EXTENSION_NODE_LENGTH :: nat where "LEAF_OR_EXTENSION_NODE_LENGTH = 2"
definition RLP_NULL :: bytes where "RLP_NULL = [0x80]"

fun parseProof :: "bytes list \<Rightarrow> string + TrieNode list" where
  "parseProof [] = Inr []"
| "parseProof (p # ps) =
     bind_s (readList p) (\<lambda>items. bind_s (parseProof ps) (\<lambda>nodes. Inr (\<lparr>encoded = p, decoded = items\<rparr> # nodes)))"

definition getNodeID :: "bytes \<Rightarrow> string + bytes" where
  "getNodeID item = (if length item < 32 then Inr item else readBytes item)"

definition getNodePath :: "TrieNode \<Rightarrow> string + bytes" where
  "getNodePath node = bind_s (readBytes (decoded node ! 0)) (\<lambda>bs. Inr (toNibbles bs))"

definition getNodeValue :: "TrieNode \<Rightarrow> string + bytes" where
  "getNodeValue node = (if decoded node = [] then Inl ''index out of bounds'' else readBytes (last (decoded node)))"

fun getSharedNibbleLength :: "bytes \<Rightarrow> bytes \<Rightarrow> nat" where
  "getSharedNibbleLength (a # as) (b # bs) = (if a = b then Suc (getSharedNibbleLength as bs) else 0)"
| "getSharedNibbleLength _ _ = 0"

definition check_node :: "(bytes \<Rightarrow> hash) \<Rightarrow> nat \<Rightarrow> bytes \<Rightarrow> TrieNode \<Rightarrow> string + unit" where
  "check_node keccak currentKeyIndex currentNodeID node =
     (if currentKeyIndex = 0 then
        require (bytes_equal keccak (word32 (keccak (encoded node))) currentNodeID) ''MerkleTrie: invalid root hash''
      else if 32 \<le> length (encoded node) then
        require (bytes_equal keccak (word32 (keccak (encoded node))) currentNodeID) ''MerkleTrie: invalid large internal hash''
      else require (bytes_equal keccak (encoded node) currentNodeID) ''MerkleTrie: invalid internal node hash'')"

text \<open>
  What a checked node does to the walk: it ends with a node identifier and a key index, or goes on with the next identifier and an increment of the
  index. A nibble is less than 16, so a branch has the child that is read.
\<close>

datatype walk_move = Stop bytes nat | Continue bytes nat

definition node_move :: "bytes \<Rightarrow> nat \<Rightarrow> bytes \<Rightarrow> TrieNode \<Rightarrow> string + walk_move" where
  "node_move key currentKeyIndex currentNodeID node =
     (if length (decoded node) = BRANCH_NODE_LENGTH then
        if currentKeyIndex = length key then Inr (Stop currentNodeID currentKeyIndex)
        else if length key < currentKeyIndex then Inl ''index out of bounds''
        else bind_s (getNodeID (decoded node ! unat (key ! currentKeyIndex))) (\<lambda>nextID. Inr (Continue nextID 1))
      else if length (decoded node) = LEAF_OR_EXTENSION_NODE_LENGTH then
        bind_s (getNodePath node) (\<lambda>path.
        bind_s (require (path \<noteq> []) ''index out of bounds'') (\<lambda>_.
        let prefix = hd path;
            offset = 2 - unat prefix mod 2;
            pathRemainder = drop offset path;
            keyRemainder = drop currentKeyIndex key;
            shared = getSharedNibbleLength pathRemainder keyRemainder in
        bind_s (require (length pathRemainder \<le> length keyRemainder) ''MerkleTrie: invalid key length for leaf or extension node'') (\<lambda>_.
        if prefix = 2 \<or> prefix = 3 then
          Inr (Stop RLP_NULL
            (if length pathRemainder = shared \<and> length keyRemainder = shared then currentKeyIndex + shared else currentKeyIndex))
        else if prefix = 0 \<or> prefix = 1 then
          if shared \<noteq> length pathRemainder then Inr (Stop RLP_NULL currentKeyIndex)
          else bind_s (getNodeID (decoded node ! 1)) (\<lambda>nextID. Inr (Continue nextID shared))
        else Inl ''MerkleTrie: received a node with an unknown prefix'')))
      else Inl ''MerkleTrie: received an unparseable node'')"

text \<open>The loop of \<open>_walkNodePath\<close>, with its variables after the ones that stay fixed; it returns the path length, the identifier and the key index.\<close>

fun walk :: "(bytes \<Rightarrow> hash) \<Rightarrow> bytes \<Rightarrow> TrieNode list \<Rightarrow> nat \<Rightarrow> bytes \<Rightarrow> nat \<Rightarrow> nat \<Rightarrow> string + nat \<times> bytes \<times> nat" where
  "walk keccak key [] pathLength currentNodeID currentKeyIndex currentKeyIncrement = Inr (pathLength, currentNodeID, currentKeyIndex)"
| "walk keccak key (node # nodes) pathLength currentNodeID currentKeyIndex currentKeyIncrement =
     (let i = currentKeyIndex + currentKeyIncrement in
      bind_s (check_node keccak i currentNodeID node) (\<lambda>_.
      bind_s (node_move key i currentNodeID node) (\<lambda>move.
        case move of
          Stop nodeID j \<Rightarrow> Inr (pathLength + 1, nodeID, j)
        | Continue nodeID inc \<Rightarrow> walk keccak key nodes (pathLength + 1) nodeID i inc)))"

definition trie_get :: "(bytes \<Rightarrow> hash) \<Rightarrow> bytes \<Rightarrow> bytes list \<Rightarrow> hash \<Rightarrow> string + bool \<times> bytes" where
  "trie_get keccak k prf root =
     bind_s (parseProof prf) (\<lambda>nodes.
     let key = toNibbles k in
     bind_s (walk keccak key nodes 0 (word32 root) 0 0) (\<lambda>(pathLength, nodeID, keyIndex).
     let noRemainder = (drop keyIndex key = []); isFinalNode = bytes_equal keccak nodeID RLP_NULL in
     bind_s (require (noRemainder \<or> isFinalNode) ''MerkleTrie: provided proof is invalid'') (\<lambda>_.
     bind_s (if noRemainder then
               if pathLength = 0 then Inl ''arithmetic underflow'' else getNodeValue (nodes ! (pathLength - 1))
             else Inr []) (\<lambda>val. Inr (val \<noteq> [], val)))))"

definition trie_verifyInclusionProof :: "(bytes \<Rightarrow> hash) \<Rightarrow> bytes \<Rightarrow> bytes \<Rightarrow> bytes list \<Rightarrow> hash \<Rightarrow> string + bool" where
  "trie_verifyInclusionProof keccak k v prf root =
     bind_s (trie_get keccak k prf root) (\<lambda>(exists, val). Inr (exists \<and> bytes_equal keccak v val))"

text \<open>\<open>SecureMerkleTrie\<close> hashes the key first.\<close>

definition secure_get :: "(bytes \<Rightarrow> hash) \<Rightarrow> bytes \<Rightarrow> bytes list \<Rightarrow> hash \<Rightarrow> string + bool \<times> bytes" where
  "secure_get keccak k prf root = trie_get keccak (word32 (keccak k)) prf root"

definition secure_verifyInclusionProof :: "(bytes \<Rightarrow> hash) \<Rightarrow> bytes \<Rightarrow> bytes \<Rightarrow> bytes list \<Rightarrow> hash \<Rightarrow> string + bool" where
  "secure_verifyInclusionProof keccak k v prf root = trie_verifyInclusionProof keccak (word32 (keccak k)) v prf root"

section \<open>A proof binds the value\<close>

text \<open>
  The strings among which the hash function must not collide: the nodes of the proofs, the encodings of their hashes, the root and the null node.
\<close>

definition trie_strings :: "(bytes \<Rightarrow> hash) \<Rightarrow> hash \<Rightarrow> bytes list \<Rightarrow> bytes set" where
  "trie_strings keccak root ps = set ps \<union> (\<lambda>e. word32 (keccak e)) ` set ps \<union> {word32 root, RLP_NULL}"

text \<open>
  A trie has no extension node with an empty path. The verifier accepts one, and a proof that ends in such a node at the end of the key gives the
  identifier of the next node as the value.
\<close>

definition no_empty_extension :: "TrieNode \<Rightarrow> bool" where
  "no_empty_extension node \<longleftrightarrow>
     (case getNodePath node of
        Inl e \<Rightarrow> True
      | Inr path \<Rightarrow>
          \<not> (length (decoded node) = LEAF_OR_EXTENSION_NODE_LENGTH \<and> path \<noteq> [] \<and> (hd path = 0 \<or> hd path = 1) \<and>
             drop (2 - unat (hd path) mod 2) path = []))"

definition canonical_proof :: "bytes list \<Rightarrow> bool" where
  "canonical_proof ps \<longleftrightarrow> (case parseProof ps of Inl e \<Rightarrow> False | Inr nodes \<Rightarrow> list_all no_empty_extension nodes)"

definition node_of :: "bytes list \<Rightarrow> TrieNode \<Rightarrow> bool" where
  "node_of ps n \<longleftrightarrow> encoded n \<in> set ps \<and> readList (encoded n) = Inr (decoded n)"

lemma parseProof_nodes: "parseProof ps = Inr nodes \<Longrightarrow> set ps \<subseteq> set qs \<Longrightarrow> list_all (node_of qs) nodes \<and> length nodes = length ps"
  by (induction ps arbitrary: nodes) (auto simp: node_of_def)

lemma node_of_eq: "node_of ps a \<Longrightarrow> node_of ps b \<Longrightarrow> encoded a = encoded b \<Longrightarrow> a = b"
  by (cases a; cases b) (auto simp: node_of_def)

definition collision_free :: "(bytes \<Rightarrow> hash) \<Rightarrow> hash \<Rightarrow> bytes list \<Rightarrow> bool" where
  "collision_free keccak root ps \<longleftrightarrow> inj_on keccak (trie_strings keccak root ps)"

lemma collision_freeD:
  "collision_free keccak root ps \<Longrightarrow> a \<in> trie_strings keccak root ps \<Longrightarrow> b \<in> trie_strings keccak root ps \<Longrightarrow> keccak a = keccak b \<Longrightarrow> a = b"
  unfolding collision_free_def by (rule inj_onD)

lemma trie_stringsI:
  "e \<in> set ps \<Longrightarrow> e \<in> trie_strings keccak root ps" "e \<in> set ps \<Longrightarrow> word32 (keccak e) \<in> trie_strings keccak root ps"
  "word32 root \<in> trie_strings keccak root ps" "RLP_NULL \<in> trie_strings keccak root ps"
  by (simp_all add: trie_strings_def)

text \<open>The form in which a node is compared with the identifier its parent has for it.\<close>

definition node_key :: "(bytes \<Rightarrow> hash) \<Rightarrow> nat \<Rightarrow> TrieNode \<Rightarrow> bytes" where
  "node_key keccak i n = (if i = 0 \<or> 32 \<le> length (encoded n) then word32 (keccak (encoded n)) else encoded n)"

lemma check_node_Inr: "check_node keccak i nodeID n = Inr u \<longleftrightarrow> keccak (node_key keccak i n) = keccak nodeID"
  by (auto simp: check_node_def node_key_def bytes_equal_def)

lemma node_key_string: "node_of ps n \<Longrightarrow> node_key keccak i n \<in> trie_strings keccak root ps"
  by (auto simp: node_of_def node_key_def intro: trie_stringsI)

lemma checked_nodes_equal:
  assumes cf: "collision_free keccak root ps" and n: "node_of ps a" "node_of ps b"
    and c: "check_node keccak i nodeID a = Inr u" "check_node keccak i nodeID b = Inr v"
  shows "a = b"
proof -
  have "node_key keccak i a = node_key keccak i b"
    by (rule collision_freeD [OF cf]) (use n c in \<open>auto simp: check_node_Inr node_key_string\<close>)
  moreover have "encoded a = encoded b" if "keccak (encoded a) = keccak (encoded b)"
    by (rule collision_freeD [OF cf _ _ that]) (use n in \<open>auto simp: node_of_def intro: trie_stringsI\<close>)
  ultimately have "encoded a = encoded b"
    using length_word32 unfolding node_key_def by (metis (no_types, lifting) order_refl word32_inj)
  then show ?thesis using n by (rule node_of_eq [rotated 2])
qed

lemma RLP_NULL_no_list: "readList RLP_NULL = Inr items \<Longrightarrow> False"
  by (simp add: readList_def RLP_NULL_def decodeLength_def)

lemma null_has_no_node:
  assumes cf: "collision_free keccak root ps" and n: "node_of ps a" and c: "check_node keccak i nodeID a = Inr u" "keccak nodeID = keccak RLP_NULL"
  shows False
proof -
  have "node_key keccak i a = RLP_NULL"
    by (rule collision_freeD [OF cf]) (use n c in \<open>auto simp: check_node_Inr node_key_string trie_stringsI\<close>)
  moreover have "length (word32 w) \<noteq> length RLP_NULL" for w by (simp add: RLP_NULL_def)
  ultimately have "encoded a = RLP_NULL" unfolding node_key_def by (metis (full_types))
  with n RLP_NULL_no_list show False by (auto simp: node_of_def)
qed

lemma Continue_remainder:
  assumes "node_move key i nodeID n = Inr (Continue d inc)" "no_empty_extension n"
  shows "drop i key \<noteq> []"
  using assms by (auto simp: node_move_def no_empty_extension_def Let_def split: if_splits)

lemma walks_agree:
  assumes "collision_free keccak root ps" "list_all (node_of ps) as" "list_all (node_of ps) bs" "list_all no_empty_extension as" "as \<noteq> []" "bs \<noteq> []"
    and "walk keccak key as pl nodeID i inc = Inr (p1, d1, j1)" "walk keccak key bs pl nodeID i inc = Inr (p2, d2, j2)"
    and "drop j1 key = [] \<or> keccak d1 = keccak RLP_NULL" "drop j2 key = [] \<or> keccak d2 = keccak RLP_NULL"
  shows "drop j1 key = [] \<and> drop j2 key = [] \<and> pl < p1 \<and> pl < p2 \<and> as ! (p1 - pl - 1) = bs ! (p2 - pl - 1) \<or> drop j1 key \<noteq> [] \<and> drop j2 key \<noteq> []"
  using assms(2-)
proof (induction as arbitrary: bs pl nodeID i inc)
  case (Cons a as)
  then obtain b bs' where bs: "bs = b # bs'" by (cases bs) auto
  let ?i = "i + inc"
  have n: "node_of ps a" "node_of ps b" and e: "no_empty_extension a" using Cons.prems bs by auto
  have "check_node keccak ?i nodeID a = Inr ()" "check_node keccak ?i nodeID b = Inr ()"
    using Cons.prems bs by (auto simp: Let_def)
  then have ab: "a = b" by (rule checked_nodes_equal [OF assms(1) n])
  obtain move where m: "node_move key ?i nodeID a = Inr move" using Cons.prems by (auto simp: Let_def)
  show ?case
  proof (cases move)
    case (Stop d j)
    with Cons.prems bs ab m show ?thesis by (auto simp: Let_def)
  next
    case (Continue d k)
    have r: "drop ?i key \<noteq> []" using m e Continue by (intro Continue_remainder) auto
    have w: "walk keccak key as (pl + 1) d ?i k = Inr (p1, d1, j1)" "walk keccak key bs' (pl + 1) d ?i k = Inr (p2, d2, j2)"
      using Cons.prems bs ab m Continue by (auto simp: Let_def)
    have dead: False if "c # cs \<in> {as, bs'}" "[] \<in> {as, bs'}" for c cs
    proof -
      have "keccak d = keccak RLP_NULL" using that(2) w r Cons.prems by auto
      moreover have "check_node keccak (?i + k) d c = Inr ()" using that(1) w by (auto simp: Let_def)
      moreover have "node_of ps c" using that(1) Cons.prems bs by auto
      ultimately show False using null_has_no_node [OF assms(1)] by blast
    qed
    show ?thesis
    proof (cases "as = [] \<or> bs' = []")
      case True
      with dead have "as = [] \<and> bs' = []" by (metis insertCI neq_Nil_conv)
      with w r show ?thesis by simp
    next
      case False
      then have "drop j1 key = [] \<and> drop j2 key = [] \<and> pl + 1 < p1 \<and> pl + 1 < p2 \<and> as ! (p1 - (pl + 1) - 1) = bs' ! (p2 - (pl + 1) - 1) \<or>
          drop j1 key \<noteq> [] \<and> drop j2 key \<noteq> []"
        using w Cons.prems bs by (intro Cons.IH) auto
      then show ?thesis by (auto simp: bs nth_Cons' diff_diff_eq)
    qed
  qed
qed simp

text \<open>Two proofs under one root, one of them without empty extensions, give the same answer.\<close>

lemma trie_get_nodes:
  assumes "trie_get keccak k prf root = Inr res" "collision_free keccak root ps" "set prf \<subseteq> set ps"
  obtains nodes pl d j where "parseProof prf = Inr nodes" "nodes \<noteq> []" "list_all (node_of ps) nodes"
    "walk keccak (toNibbles k) nodes 0 (word32 root) 0 0 = Inr (pl, d, j)"
    "drop j (toNibbles k) = [] \<or> keccak d = keccak RLP_NULL"
    "(if drop j (toNibbles k) = [] then getNodeValue (nodes ! (pl - 1)) else Inr []) = Inr (snd res)" "fst res \<longleftrightarrow> snd res \<noteq> []"
proof -
  obtain nodes where n: "parseProof prf = Inr nodes" using assms(1) by (auto simp: trie_get_def)
  obtain pl d j where v: "walk keccak (toNibbles k) nodes 0 (word32 root) 0 0 = Inr (pl, d, j)"
    using assms(1) n by (auto simp: trie_get_def Let_def)
  have w: "drop j (toNibbles k) = [] \<or> keccak d = keccak RLP_NULL" "pl \<noteq> 0 \<or> drop j (toNibbles k) \<noteq> []"
    "(if drop j (toNibbles k) = [] then getNodeValue (nodes ! (pl - 1)) else Inr []) = Inr (snd res)" "fst res \<longleftrightarrow> snd res \<noteq> []"
    using assms(1) n v by (auto simp: trie_get_def Let_def bytes_equal_def split: if_splits)
  have "nodes \<noteq> []"
  proof
    assume "nodes = []"
    then have "keccak (word32 root) = keccak RLP_NULL" using v w by auto
    then have "word32 root = RLP_NULL" by (rule collision_freeD [OF assms(2) trie_stringsI(3,4)])
    then have "length (word32 root) = length RLP_NULL" by simp
    then show False by (simp add: RLP_NULL_def)
  qed
  with that n v w parseProof_nodes [OF n assms(3)] show ?thesis by blast
qed

lemma trie_proof_binds_value:
  assumes "collision_free keccak root (ps @ qs)" "canonical_proof ps"
    and "trie_get keccak k ps root = Inr a" "trie_get keccak k qs root = Inr b"
  shows "a = b"
proof -
  obtain as p1 d1 j1 where 1: "parseProof ps = Inr as" "as \<noteq> []" "list_all (node_of (ps @ qs)) as"
    "walk keccak (toNibbles k) as 0 (word32 root) 0 0 = Inr (p1, d1, j1)" "drop j1 (toNibbles k) = [] \<or> keccak d1 = keccak RLP_NULL"
    "(if drop j1 (toNibbles k) = [] then getNodeValue (as ! (p1 - 1)) else Inr []) = Inr (snd a)" "fst a \<longleftrightarrow> snd a \<noteq> []"
    by (rule trie_get_nodes [OF assms(3,1)]) auto
  obtain bs p2 d2 j2 where 2: "parseProof qs = Inr bs" "bs \<noteq> []" "list_all (node_of (ps @ qs)) bs"
    "walk keccak (toNibbles k) bs 0 (word32 root) 0 0 = Inr (p2, d2, j2)" "drop j2 (toNibbles k) = [] \<or> keccak d2 = keccak RLP_NULL"
    "(if drop j2 (toNibbles k) = [] then getNodeValue (bs ! (p2 - 1)) else Inr []) = Inr (snd b)" "fst b \<longleftrightarrow> snd b \<noteq> []"
    by (rule trie_get_nodes [OF assms(4,1)]) auto
  have "list_all no_empty_extension as" using assms(2) 1(1) by (simp add: canonical_proof_def)
  from walks_agree [OF assms(1) 1(3) 2(3) this 1(2) 2(2) 1(4) 2(4) 1(5) 2(5)]
  have "snd a = snd b" using 1(6) 2(6) by auto
  then show ?thesis using 1(7) 2(7) by (simp add: prod_eq_iff)
qed

end
