(* ===== verification/Portal_Contract.thy ===== *)
theory Portal_Contract
  imports Merkle_Trie Rollup_Contract
begin

text \<open>
  \<^verbatim>\<open>contracts/src/bridge/L1Portal.sol\<close> and \<^verbatim>\<open>L2Portal.sol\<close>: the portals that pass messages between the chains. The two contracts are mirror images; a
  record \<open>portal\<close> is the storage of either, with the messages it has sent and the hashes it has relayed as lists. The call to the target of a message
  may run any program, which may call the portal again: a transaction that relays carries the calls the target makes, so that a
  transaction is a tree of calls. \<open>keccak256\<close>, the reader of an encoded account (\<^verbatim>\<open>rlp/RLPReader.sol\<close>) and OpenZeppelin's pausing and proxies are parameters.
\<close>

section \<open>Messages\<close>

record CrossDomainMessage =
  x_version :: uint256
  x_nonce :: uint256
  x_sender :: address
  x_target :: address
  x_value :: uint256
  x_gasLimit :: uint256
  x_data :: bytes

text \<open>\<open>abi.encode\<close> of the six fields: the words, the offset of the data, its length and the data padded to words. The version is left out.\<close>

definition address32 :: "address \<Rightarrow> bytes" where
  "address32 a = word32 (ucast a)"

definition pad32 :: "bytes \<Rightarrow> bytes" where
  "pad32 bs = bs @ replicate ((32 - length bs mod 32) mod 32) 0"

definition abi_message :: "CrossDomainMessage \<Rightarrow> bytes" where
  "abi_message m =
     word32 (x_nonce m) @ address32 (x_sender m) @ address32 (x_target m) @ word32 (x_value m) @ word32 (x_gasLimit m) @
     word32 192 @ word32 (of_nat (length (x_data m))) @ pad32 (x_data m)"

definition hashCrossDomainMessage :: "(bytes \<Rightarrow> hash) \<Rightarrow> CrossDomainMessage \<Rightarrow> hash" where
  "hashCrossDomainMessage keccak m = keccak (abi_message m)"

lemma uint_ucast_address: "uint (ucast (a :: address) :: 256 word) = uint a"
  by (rule uint_up_ucast) (simp add: is_up)

lemma address32_inj [simp]: "address32 a = address32 b \<longleftrightarrow> a = b"
  by (metis address32_def uint_ucast_address word32_inj word_uint_eqI)

lemma length_address32 [simp]: "length (address32 a) = 32"
  by (simp add: address32_def)

text \<open>The encoding determines the message, up to its version.\<close>

lemma abi_message_inj:
  assumes "abi_message m = abi_message n" "length (x_data m) < 2 ^ 256" "length (x_data n) < 2 ^ 256"
  shows "m\<lparr>x_version := 0\<rparr> = n\<lparr>x_version := 0\<rparr>"
proof -
  have "of_nat (length (x_data m)) = (of_nat (length (x_data n)) :: uint256)" and d: "pad32 (x_data m) = pad32 (x_data n)"
    using assms(1) by (simp_all add: abi_message_def)
  then have "unat (of_nat (length (x_data m)) :: uint256) = unat (of_nat (length (x_data n)) :: uint256)" by simp
  then have "length (x_data m) = length (x_data n)" using assms(2,3) by (simp add: unat_of_nat)
  with d have "x_data m = x_data n" by (simp add: pad32_def)
  with assms(1) show ?thesis by (cases m; cases n) (simp add: abi_message_def)
qed

section \<open>State\<close>

definition DEFAULT_SENDER :: address where "DEFAULT_SENDER = 0xdEaD"
definition RECEIVE_DEFAULT_GAS_LIMIT :: uint256 where "RECEIVE_DEFAULT_GAS_LIMIT = 100000"
definition FINALIZE_GAS_BUFFER :: uint256 where "FINALIZE_GAS_BUFFER = 20000"
definition L2_PORTAL :: address where "L2_PORTAL = 0x2A00000000000000000000000000000000000011"

text \<open>
  \<open>initiated\<close> is \<open>initiatedDeposits\<close> on L1 and \<open>initiatedWithdrawals\<close> on L2, \<open>remoteSender\<close> is \<open>l2Sender\<close> and \<open>l1Sender\<close>, \<open>finalized\<close> is
  \<open>finalizedWithdrawals\<close> and \<open>finalizedDeposits\<close>; \<open>sent\<close> and \<open>relayed\<close> are the events of both kinds.
\<close>

record portal =
  p_self :: address
  p_other :: address
  initiated :: "hash \<Rightarrow> bool"
  remoteSender :: address
  p_nonce :: uint256
  finalized :: "hash \<Rightarrow> bool"
  sent :: "CrossDomainMessage list"
  relayed :: "hash list"

definition L1Portal_initialize :: "address \<Rightarrow> address \<Rightarrow> string + portal" where
  "L1Portal_initialize self rollup =
     bind_s (require (rollup \<noteq> 0) ''ZeroAddress'') (\<lambda>_.
       Inr \<lparr>p_self = self, p_other = L2_PORTAL, initiated = (\<lambda>_. False), remoteSender = DEFAULT_SENDER, p_nonce = 0, finalized = (\<lambda>_. False),
            sent = [], relayed = []\<rparr>)"

definition L2Portal_initialize :: "address \<Rightarrow> address \<Rightarrow> string + portal" where
  "L2Portal_initialize self l1PortalAddress =
     bind_s (require (l1PortalAddress \<noteq> 0) ''ZeroAddress'') (\<lambda>_.
       Inr \<lparr>p_self = self, p_other = l1PortalAddress, initiated = (\<lambda>_. False), remoteSender = DEFAULT_SENDER, p_nonce = 0, finalized = (\<lambda>_. False),
            sent = [], relayed = []\<rparr>)"

text \<open>\<open>pe_alias\<close> tells whether the sender is aliased: on L1, when it is not the origin of the transaction.\<close>

record portal_env =
  pe_sender :: address
  pe_value :: uint256
  pe_alias :: bool
  pe_onlyProxy :: bool
  pe_notPaused :: bool
  pe_gasleft :: uint256
  pe_root :: "string + hash"

definition alias_offset :: address where "alias_offset = 0x1111000000000000000000000000000000001111"

definition applyL1ToL2Alias :: "address \<Rightarrow> address" where
  "applyL1ToL2Alias a = a + alias_offset"

definition undoL1ToL2Alias :: "address \<Rightarrow> address" where
  "undoL1ToL2Alias a = a - alias_offset"

lemma undo_apply_alias: "undoL1ToL2Alias (applyL1ToL2Alias a) = a" "applyL1ToL2Alias (undoL1ToL2Alias a) = a"
  by (simp_all add: applyL1ToL2Alias_def undoL1ToL2Alias_def)

section \<open>Sending\<close>

definition initiate :: "(bytes \<Rightarrow> hash) \<Rightarrow> portal_env \<Rightarrow> address \<Rightarrow> uint256 \<Rightarrow> bytes \<Rightarrow> portal \<Rightarrow> string + portal" where
  "initiate keccak env target gasLimit d p =
     bind_s (require (pe_onlyProxy env) ''Function must be called through delegatecall'') (\<lambda>_.
     bind_s (require (pe_notPaused env) ''Pausable: paused'') (\<lambda>_.
     let from = (if pe_alias env then applyL1ToL2Alias (pe_sender env) else pe_sender env);
         m = \<lparr>x_version = 0, x_nonce = p_nonce p, x_sender = from, x_target = target, x_value = pe_value env, x_gasLimit = gasLimit, x_data = d\<rparr> in
     Inr (p\<lparr>initiated := (initiated p)(hashCrossDomainMessage keccak m := True), sent := sent p @ [m], p_nonce := p_nonce p + 1\<rparr>)))"

section \<open>Relaying\<close>

definition verifyAccountInclusion ::
    "(bytes \<Rightarrow> hash) \<Rightarrow> (bytes \<Rightarrow> string + hash) \<Rightarrow> address \<Rightarrow> hash \<Rightarrow> bytes list \<Rightarrow> string + hash" where
  "verifyAccountInclusion keccak decodeStorageRoot account stateRoot prf =
     bind_s (secure_get keccak (enc_be 20 (uint account)) prf stateRoot) (\<lambda>(exists, encodedAccount).
     bind_s (require exists ''invalid account proof'') (\<lambda>_. decodeStorageRoot encodedAccount))"

definition storage_key :: "(bytes \<Rightarrow> hash) \<Rightarrow> hash \<Rightarrow> bytes" where
  "storage_key keccak h = word32 (keccak (word32 h @ word32 0))"

definition verifyMessageInclusion :: "(bytes \<Rightarrow> hash) \<Rightarrow> hash \<Rightarrow> hash \<Rightarrow> bytes list \<Rightarrow> string + bool" where
  "verifyMessageInclusion keccak h storageRoot prf = secure_verifyInclusionProof keccak (storage_key keccak h) [1] prf storageRoot"

text \<open>The checks before the message is marked; they give its hash.\<close>

definition relay_checks ::
    "(bytes \<Rightarrow> hash) \<Rightarrow> (bytes \<Rightarrow> string + hash) \<Rightarrow> portal_env \<Rightarrow> CrossDomainMessage \<Rightarrow> bytes list \<Rightarrow> bytes list \<Rightarrow> portal \<Rightarrow> string + hash" where
  "relay_checks keccak decodeStorageRoot env m accountProof storageProof p =
     bind_s (require (pe_onlyProxy env) ''Function must be called through delegatecall'') (\<lambda>_.
     bind_s (require (pe_notPaused env) ''Pausable: paused'') (\<lambda>_.
     bind_s (require (remoteSender p = DEFAULT_SENDER) ''can only trigger one message per transaction'') (\<lambda>_.
     bind_s (require (x_target m \<noteq> p_self p) ''you cannot send messages to the portal contract'') (\<lambda>_.
     bind_s (pe_root env) (\<lambda>stateRoot.
     let h = hashCrossDomainMessage keccak m in
     bind_s (require (\<not> finalized p h) ''message has already been finalized'') (\<lambda>_.
     bind_s (verifyAccountInclusion keccak decodeStorageRoot (p_other p) stateRoot accountProof) (\<lambda>storageRoot.
     bind_s (verifyMessageInclusion keccak h storageRoot storageProof) (\<lambda>included.
     bind_s (require included ''invalid message inclusion proof'') (\<lambda>_. Inr h)))))))))"

definition enough_gas :: "portal_env \<Rightarrow> CrossDomainMessage \<Rightarrow> string + unit" where
  "enough_gas env m =
     (if uint (x_gasLimit m) + uint FINALIZE_GAS_BUFFER < 2 ^ 256
      then require (x_gasLimit m + FINALIZE_GAS_BUFFER \<le> pe_gasleft env) ''insufficient gas to finalize the message''
      else Inl ''arithmetic overflow'')"

text \<open>
  \<open>Relay\<close> carries the calls the target makes and whether the call to the target succeeds; what the target leaves of calls that revert is nothing.
\<close>

datatype portal_tx =
    Initiate portal_env address uint256 bytes
  | Receive portal_env
  | Relay portal_env CrossDomainMessage "bytes list" "bytes list" "portal_tx list" bool

fun portal_exec :: "(bytes \<Rightarrow> hash) \<Rightarrow> (bytes \<Rightarrow> string + hash) \<Rightarrow> portal_tx \<Rightarrow> portal \<Rightarrow> string + portal"
  and portal_run :: "(bytes \<Rightarrow> hash) \<Rightarrow> (bytes \<Rightarrow> string + hash) \<Rightarrow> portal_tx list \<Rightarrow> portal \<Rightarrow> portal" where
  "portal_exec keccak dec (Initiate env target gasLimit d) p = initiate keccak env target gasLimit d p"
| "portal_exec keccak dec (Receive env) p = initiate keccak env (pe_sender env) RECEIVE_DEFAULT_GAS_LIMIT [] p"
| "portal_exec keccak dec (Relay env m accountProof storageProof calls success) p =
     bind_s (relay_checks keccak dec env m accountProof storageProof p) (\<lambda>h.
     let p1 = p\<lparr>finalized := (finalized p)(h := True)\<rparr> in
     bind_s (enough_gas env m) (\<lambda>_.
     let p2 = portal_run keccak dec calls (p1\<lparr>remoteSender := x_sender m\<rparr>) in
     bind_s (require success ''call to target contract reverted'') (\<lambda>_.
       Inr (p2\<lparr>remoteSender := DEFAULT_SENDER, relayed := relayed p2 @ [h]\<rparr>))))"
| "portal_run keccak dec [] p = p"
| "portal_run keccak dec (t # ts) p = portal_run keccak dec ts (case portal_exec keccak dec t p of Inl e \<Rightarrow> p | Inr p' \<Rightarrow> p')"

section \<open>Where the state root comes from\<close>

definition isAssertionConfirmed :: "rollup \<Rightarrow> uint256 \<Rightarrow> hash \<Rightarrow> bool" where
  "isAssertionConfirmed c assertionID stateHash \<longleftrightarrow> assertionID \<le> lastConfirmedAssertionID c \<and> stateHash \<noteq> 0"

definition assertion_root :: "rollup \<Rightarrow> uint256 \<Rightarrow> string + hash" where
  "assertion_root c assertionID =
     (let h = a_stateHash (ro_getAssertion c assertionID) in
      if isAssertionConfirmed c assertionID h then Inr h else Inl ''L1Portal: assertion not confirmed'')"

text \<open>On L1 the root is the state hash of the assertion; on L2 it is the one of the oracle.\<close>

definition finalizeWithdrawalTransaction ::
    "rollup \<Rightarrow> portal_env \<Rightarrow> CrossDomainMessage \<Rightarrow> uint256 \<Rightarrow> bytes list \<Rightarrow> bytes list \<Rightarrow> portal_tx list \<Rightarrow> bool \<Rightarrow> portal_tx" where
  "finalizeWithdrawalTransaction c env m assertionID accountProof storageProof calls success =
     Relay (env\<lparr>pe_root := assertion_root c assertionID\<rparr>) m accountProof storageProof calls success"

definition finalizeDepositTransaction ::
    "hash \<Rightarrow> portal_env \<Rightarrow> CrossDomainMessage \<Rightarrow> bytes list \<Rightarrow> bytes list \<Rightarrow> portal_tx list \<Rightarrow> bool \<Rightarrow> portal_tx" where
  "finalizeDepositTransaction oracle_stateRoot env m accountProof storageProof calls success =
     Relay (env\<lparr>pe_root := Inr oracle_stateRoot\<rparr>) m accountProof storageProof calls success"

end
