(* ===== verification/Challenge_Contract.thy ===== *)
theory Challenge_Contract
  imports Rollup_Contract Inbox_Contract
begin

text \<open>
  \<^verbatim>\<open>contracts/src/challenge\<close>: the contract two validators play to settle which of their assertions is wrong. \<open>keccak256\<close> is a parameter, and so
  are the contracts at the addresses the challenge was given (\<open>l1_calls\<close>), over a state \<open>'w\<close> of the rest of L1. The events \<open>Completed\<close> are kept in a
  list, because they tell how a challenge ended.
\<close>

section \<open>ChallengeLib\<close>

text \<open>\<open>abi.encodePacked\<close> of an array pads every element to 32 bytes and does not write the length.\<close>

definition computeBisectionHash :: "(bytes \<Rightarrow> hash) \<Rightarrow> hash list \<Rightarrow> uint256 \<Rightarrow> uint256 \<Rightarrow> hash" where
  "computeBisectionHash keccak bisection start len = keccak (concat (map word32 bisection) @ word32 start @ word32 len)"

definition initialBisectionHash :: "(bytes \<Rightarrow> hash) \<Rightarrow> hash \<Rightarrow> hash \<Rightarrow> uint256 \<Rightarrow> hash" where
  "initialBisectionHash keccak startStateHash endStateHash numSteps = computeBisectionHash keccak [startStateHash, endStateHash] 0 numSteps"

text \<open>The degree is the constant 2 wherever these are called, so neither divides by zero nor overflows.\<close>

definition firstSegmentLength :: "uint256 \<Rightarrow> uint256 \<Rightarrow> uint256" where
  "firstSegmentLength len degree = len div degree + len mod degree"

definition otherSegmentLength :: "uint256 \<Rightarrow> uint256 \<Rightarrow> uint256" where
  "otherSegmentLength len degree = len div degree"

section \<open>State\<close>

datatype Turn = NoChallenge | Challenger | Defender

datatype CompletionReason = OSP_VERIFIED | TIMEOUT

record RawContext =
  encodedTx :: bytes
  l2BlockCoinbase :: address
  l2BlockNumber :: uint256
  l2BlockTimestamp :: uint256

definition txContextHash :: "(bytes \<Rightarrow> hash) \<Rightarrow> RawContext \<Rightarrow> hash" where
  "txContextHash keccak ctx =
     keccak (enc_be 20 (uint (l2BlockCoinbase ctx)) @ word32 (l2BlockNumber ctx) @ word32 (l2BlockTimestamp ctx))"

text \<open>
  \<open>SymChallenge\<close> with the fields of \<open>ChallengeBase\<close>; \<open>completions\<close> are the \<open>Completed\<close> events: winner, loser and reason.
\<close>

record challenge =
  turn :: Turn
  ch_verifier :: address
  ch_daProvider :: address
  resultReceiver :: address
  defender :: address
  challenger :: address
  lastMoveBlock :: uint256
  defenderTimeLeft :: uint256
  challengerTimeLeft :: uint256
  numSteps :: uint256
  bisectionHash :: hash
  startStateHash :: hash
  endStateDefenseHash :: hash
  endStateChallengeHash :: hash
  endStateHash :: hash
  completions :: "(address \<times> address \<times> CompletionReason) list"

definition new_SymChallenge :: challenge where
  "new_SymChallenge = \<lparr>turn = NoChallenge, ch_verifier = 0, ch_daProvider = 0, resultReceiver = 0, defender = 0, challenger = 0, lastMoveBlock = 0,
     defenderTimeLeft = 0, challengerTimeLeft = 0, numSteps = 0, bisectionHash = 0, startStateHash = 0, endStateDefenseHash = 0,
     endStateChallengeHash = 0, endStateHash = 0, completions = []\<rparr>"

datatype challenge_error =
    NotYourTurn | DeadlineExpired | DeadlineNotPassed | NotInitialized | AlreadyInitialized | ChallengeZeroAddress
  | PreviousStateInconsistent | TxContextInconsistent | Required string | ChallengePanic | DAReverted inbox_error | ReceiverReverted rollup_error

text \<open>The other contracts, by address; \<open>completeChallenge\<close> also gets the caller, the challenge itself.\<close>

record 'w l1_calls =
  at_verifyTxInclusion :: "address \<Rightarrow> bytes \<Rightarrow> bytes \<Rightarrow> 'w \<Rightarrow> inbox_error + unit"
  at_verifyOneStepProof :: "address \<Rightarrow> hash \<Rightarrow> RawContext \<Rightarrow> bytes \<Rightarrow> hash"
  at_completeChallenge :: "address \<Rightarrow> address \<Rightarrow> address \<Rightarrow> address \<Rightarrow> 'w \<Rightarrow> rollup_error + 'w"

section \<open>ChallengeBase\<close>

definition must :: "bool \<Rightarrow> challenge_error \<Rightarrow> challenge_error + unit" where
  "must b e = (if b then Inr () else Inl e)"

lemma must_Inr [simp]: "must b e = Inr u \<longleftrightarrow> b"
  by (simp add: must_def)

definition lift_err :: "('e \<Rightarrow> 'f) \<Rightarrow> 'e + 'a \<Rightarrow> 'f + 'a" where
  "lift_err f r = (case r of Inl e \<Rightarrow> Inl (f e) | Inr x \<Rightarrow> Inr x)"

lemma lift_err_Inr [simp]: "lift_err f r = Inr x \<longleftrightarrow> r = Inr x"
  by (cases r) (simp_all add: lift_err_def)

text \<open>\<open>a - b\<close> in checked arithmetic.\<close>

definition minus_c :: "uint256 \<Rightarrow> uint256 \<Rightarrow> challenge_error + uint256" where
  "minus_c a b = (if b \<le> a then Inr (a - b) else Inl ChallengePanic)"

lemma minus_c_Inr [simp]: "minus_c a b = Inr c \<longleftrightarrow> b \<le> a \<and> c = a - b"
  by (auto simp: minus_c_def)

definition plus_c :: "uint256 \<Rightarrow> uint256 \<Rightarrow> challenge_error + uint256" where
  "plus_c a b = (if uint a + uint b < 2 ^ 256 then Inr (a + b) else Inl ChallengePanic)"

definition times_c :: "uint256 \<Rightarrow> uint256 \<Rightarrow> challenge_error + uint256" where
  "times_c a b = (if uint a * uint b < 2 ^ 256 then Inr (a * b) else Inl ChallengePanic)"

definition currentResponder :: "challenge \<Rightarrow> challenge_error + address" where
  "currentResponder c =
     (case turn c of Defender \<Rightarrow> Inr (defender c) | Challenger \<Rightarrow> Inr (challenger c) | NoChallenge \<Rightarrow> Inl NotInitialized)"

definition currentResponderTimeLeft :: "challenge \<Rightarrow> challenge_error + uint256" where
  "currentResponderTimeLeft c =
     (case turn c of
        Defender \<Rightarrow> Inr (defenderTimeLeft c) | Challenger \<Rightarrow> Inr (challengerTimeLeft c) | NoChallenge \<Rightarrow> Inl NotInitialized)"

text \<open>Has the responder's time run out? Both the elapsed blocks and the remaining time may revert.\<close>

definition expired :: "msg_env \<Rightarrow> challenge \<Rightarrow> challenge_error + bool" where
  "expired env c =
     bind_r (minus_c (block_number env) (lastMoveBlock c)) (\<lambda>elapsed.
     bind_r (currentResponderTimeLeft c) (\<lambda>left. Inr (left < elapsed)))"

definition charge_move :: "msg_env \<Rightarrow> challenge \<Rightarrow> challenge_error + challenge" where
  "charge_move env c =
     bind_r
       (case turn c of
          Challenger \<Rightarrow>
            bind_r (minus_c (block_number env) (lastMoveBlock c)) (\<lambda>elapsed.
            bind_r (minus_c (challengerTimeLeft c) elapsed) (\<lambda>left. Inr (c\<lparr>challengerTimeLeft := left, turn := Defender\<rparr>)))
        | Defender \<Rightarrow>
            bind_r (minus_c (block_number env) (lastMoveBlock c)) (\<lambda>elapsed.
            bind_r (minus_c (defenderTimeLeft c) elapsed) (\<lambda>left. Inr (c\<lparr>defenderTimeLeft := left, turn := Challenger\<rparr>)))
        | NoChallenge \<Rightarrow> Inr c)
       (\<lambda>c1. Inr (c1\<lparr>lastMoveBlock := block_number env\<rparr>))"

definition onlyOnTurn ::
    "msg_env \<Rightarrow> (challenge \<times> 'w \<Rightarrow> challenge_error + challenge \<times> 'w) \<Rightarrow> challenge \<times> 'w \<Rightarrow> challenge_error + challenge \<times> 'w" where
  "onlyOnTurn env body s =
     bind_r (currentResponder (fst s)) (\<lambda>responder.
     bind_r (must (msg_sender env = responder) NotYourTurn) (\<lambda>_.
     bind_r (expired env (fst s)) (\<lambda>late.
     bind_r (must (\<not> late) DeadlineExpired) (\<lambda>_.
     bind_r (body s) (\<lambda>s1.
     bind_r (charge_move env (fst s1)) (\<lambda>c1. Inr (c1, snd s1)))))))"

definition complete ::
    "'w l1_calls \<Rightarrow> address \<Rightarrow> address \<Rightarrow> address \<Rightarrow> CompletionReason \<Rightarrow> challenge \<times> 'w \<Rightarrow> challenge_error + challenge \<times> 'w" where
  "complete calls this winner loser reason s =
     (let c = (fst s)\<lparr>completions := completions (fst s) @ [(winner, loser, reason)]\<rparr> in
      bind_r (lift_err ReceiverReverted (at_completeChallenge calls (resultReceiver c) this winner loser (snd s))) (\<lambda>w. Inr (c, w)))"

definition asserterWin ::
    "'w l1_calls \<Rightarrow> address \<Rightarrow> CompletionReason \<Rightarrow> challenge \<times> 'w \<Rightarrow> challenge_error + challenge \<times> 'w" where
  "asserterWin calls this reason s = complete calls this (defender (fst s)) (challenger (fst s)) reason s"

definition challengerWin ::
    "'w l1_calls \<Rightarrow> address \<Rightarrow> CompletionReason \<Rightarrow> challenge \<times> 'w \<Rightarrow> challenge_error + challenge \<times> 'w" where
  "challengerWin calls this reason s = complete calls this (challenger (fst s)) (defender (fst s)) reason s"

definition currentWin ::
    "'w l1_calls \<Rightarrow> address \<Rightarrow> CompletionReason \<Rightarrow> challenge \<times> 'w \<Rightarrow> challenge_error + challenge \<times> 'w" where
  "currentWin calls this reason s =
     (if turn (fst s) = Defender then asserterWin calls this reason s else challengerWin calls this reason s)"

definition sc_timeout :: "'w l1_calls \<Rightarrow> address \<Rightarrow> msg_env \<Rightarrow> challenge \<times> 'w \<Rightarrow> challenge_error + challenge \<times> 'w" where
  "sc_timeout calls this env s =
     bind_r (expired env (fst s)) (\<lambda>late.
     bind_r (must late DeadlineNotPassed) (\<lambda>_.
       if turn (fst s) = Defender then challengerWin calls this TIMEOUT s else asserterWin calls this TIMEOUT s))"

section \<open>SymChallenge\<close>

definition MAX_BISECTION_DEGREE :: uint256 where "MAX_BISECTION_DEGREE = 2"

record sc_init_args =
  i_defender :: address
  i_challenger :: address
  i_verifier :: address
  i_daProvider :: address
  i_resultReceiver :: address
  i_startStateHash :: hash
  i_endStateDefenseHash :: hash
  i_endStateChallengeHash :: hash
  i_challengePeriod :: uint256

definition sc_initialize :: "msg_env \<Rightarrow> sc_init_args \<Rightarrow> challenge \<Rightarrow> challenge_error + challenge" where
  "sc_initialize env args c =
     bind_r (must (turn c = NoChallenge \<and> bisectionHash c = 0) AlreadyInitialized) (\<lambda>_.
     bind_r (must (i_defender args \<noteq> 0 \<and> i_challenger args \<noteq> 0) ChallengeZeroAddress) (\<lambda>_.
       Inr (c\<lparr>defender := i_defender args, challenger := i_challenger args, ch_verifier := i_verifier args, ch_daProvider := i_daProvider args,
              resultReceiver := i_resultReceiver args, startStateHash := i_startStateHash args,
              endStateDefenseHash := i_endStateDefenseHash args, endStateChallengeHash := i_endStateChallengeHash args,
              turn := Defender, lastMoveBlock := block_number env,
              defenderTimeLeft := i_challengePeriod args, challengerTimeLeft := i_challengePeriod args\<rparr>)))"

text \<open>The two halves of \<open>initializeChallengeLength\<close>; the second sees what the first has written.\<close>

definition defender_names :: "msg_env \<Rightarrow> uint256 \<Rightarrow> challenge \<Rightarrow> challenge_error + challenge" where
  "defender_names env n c =
     (if turn c = Defender \<and> msg_sender env = defender c then
        bind_r (minus_c (block_number env) (lastMoveBlock c)) (\<lambda>elapsed.
        bind_r (minus_c (defenderTimeLeft c) elapsed) (\<lambda>left.
          Inr (c\<lparr>numSteps := n, turn := Challenger, defenderTimeLeft := left\<rparr>)))
      else Inr c)"

definition challenger_names :: "(bytes \<Rightarrow> hash) \<Rightarrow> msg_env \<Rightarrow> uint256 \<Rightarrow> challenge \<Rightarrow> challenge_error + challenge" where
  "challenger_names keccak env n c =
     (if turn c = Challenger \<and> msg_sender env = challenger c then
        let c1 = (if n < numSteps c then c\<lparr>numSteps := n, endStateHash := endStateChallengeHash c, turn := Defender\<rparr>
                  else c\<lparr>endStateHash := endStateDefenseHash c, turn := Challenger\<rparr>);
            c2 = c1\<lparr>bisectionHash := initialBisectionHash keccak (startStateHash c1) (endStateHash c1) (numSteps c1)\<rparr> in
        bind_r (minus_c (block_number env) (lastMoveBlock c2)) (\<lambda>elapsed.
        bind_r (minus_c (challengerTimeLeft c2) elapsed) (\<lambda>left. Inr (c2\<lparr>challengerTimeLeft := left\<rparr>)))
      else Inr c)"

definition initializeChallengeLength :: "(bytes \<Rightarrow> hash) \<Rightarrow> msg_env \<Rightarrow> uint256 \<Rightarrow> challenge \<Rightarrow> challenge_error + challenge" where
  "initializeChallengeLength keccak env n c =
     bind_r (expired env c) (\<lambda>late.
     bind_r (must (\<not> late) DeadlineExpired) (\<lambda>_.
     bind_r (must (bisectionHash c = 0) AlreadyInitialized) (\<lambda>_.
     bind_r (must (0 < n) (Required ''INVALID_NUM_STEPS'')) (\<lambda>_.
     bind_r (defender_names env n c) (\<lambda>c1.
     bind_r (challenger_names keccak env n c1) (\<lambda>c2. Inr (c2\<lparr>lastMoveBlock := block_number env\<rparr>)))))))"

text \<open>
  The segment the responder picks out of the previous bisection: its start and its length. The calldata arrays are shorter than \<open>2 ^ 256\<close>, so
  their lengths are compared as numbers.
\<close>

definition challenged_segment :: "nat \<Rightarrow> uint256 \<Rightarrow> uint256 \<Rightarrow> uint256 \<Rightarrow> challenge_error + uint256 \<times> uint256" where
  "challenged_segment prevLength index prevStart prevLen =
     (if 2 < prevLength then
        let first = firstSegmentLength prevLen MAX_BISECTION_DEGREE; other = otherSegmentLength prevLen MAX_BISECTION_DEGREE in
        if index = 1 then Inr (prevStart, first)
        else
          bind_r (minus_c index 2) (\<lambda>k.
          bind_r (times_c other k) (\<lambda>skip.
          bind_r (plus_c first skip) (\<lambda>d.
          bind_r (plus_c prevStart d) (\<lambda>start. Inr (start, other)))))
      else Inr (prevStart, prevLen))"

record bisect_args =
  b_bisection :: "hash list"
  b_index :: uint256
  b_prev :: "hash list"
  b_prevStart :: uint256
  b_prevLen :: uint256

text \<open>The body of \<open>bisectExecution\<close>, after both modifiers; reading an empty bisection is an index panic.\<close>

definition bisect_body :: "(bytes \<Rightarrow> hash) \<Rightarrow> bisect_args \<Rightarrow> challenge \<Rightarrow> challenge_error + challenge" where
  "bisect_body keccak a c =
     (let i = unat (b_index a); bisection = b_bisection a; prev = b_prev a in
      bind_r (must (computeBisectionHash keccak prev (b_prevStart a) (b_prevLen a) = bisectionHash c) PreviousStateInconsistent) (\<lambda>_.
      bind_r (must (0 < i \<and> i < length prev) (Required ''INVALID_INDEX'')) (\<lambda>_.
      bind_r (must (bisection \<noteq> []) ChallengePanic) (\<lambda>_.
      bind_r (must (hd bisection = prev ! (i - 1)) (Required ''INVALID_START'')) (\<lambda>_.
      bind_r (must (last bisection \<noteq> prev ! i) (Required ''INVALID_END'')) (\<lambda>_.
      bind_r (challenged_segment (length prev) (b_index a) (b_prevStart a) (b_prevLen a)) (\<lambda>(start, len).
      bind_r (must (1 < len) (Required ''TOO_SHORT'')) (\<lambda>_.
      bind_r (must (length bisection = unat (min len MAX_BISECTION_DEGREE) + 1) (Required ''CUT_COUNT'')) (\<lambda>_.
        Inr (c\<lparr>bisectionHash := computeBisectionHash keccak bisection start len\<rparr>))))))))))"

definition postInitialization :: "challenge \<Rightarrow> challenge_error + unit" where
  "postInitialization c = must (\<not> bisectionHash c \<noteq> 0) NotInitialized"

definition bisectExecution ::
    "(bytes \<Rightarrow> hash) \<Rightarrow> msg_env \<Rightarrow> bisect_args \<Rightarrow> challenge \<times> 'w \<Rightarrow> challenge_error + challenge \<times> 'w" where
  "bisectExecution keccak env a =
     onlyOnTurn env (\<lambda>s.
       bind_r (postInitialization (fst s)) (\<lambda>_. bind_r (bisect_body keccak a (fst s)) (\<lambda>c. Inr (c, snd s))))"

record osp_args =
  o_oneStepProof :: bytes
  o_txInclusionProof :: bytes
  o_ctx :: RawContext
  o_index :: uint256
  o_prev :: "hash list"
  o_prevStart :: uint256
  o_prevLen :: uint256

definition osp_body ::
    "(bytes \<Rightarrow> hash) \<Rightarrow> 'w l1_calls \<Rightarrow> address \<Rightarrow> osp_args \<Rightarrow> challenge \<times> 'w \<Rightarrow> challenge_error + challenge \<times> 'w" where
  "osp_body keccak calls this a s =
     (let c = fst s; i = unat (o_index a); prev = o_prev a in
      bind_r (must (computeBisectionHash keccak prev (o_prevStart a) (o_prevLen a) = bisectionHash c) PreviousStateInconsistent) (\<lambda>_.
      bind_r (must (0 < i \<and> i < length prev) (Required ''INVALID_INDEX'')) (\<lambda>_.
      bind_r (must (o_prevLen a div MAX_BISECTION_DEGREE \<le> 1) (Required ''BISECTION_INCOMPLETE'')) (\<lambda>_.
      bind_r (lift_err DAReverted (at_verifyTxInclusion calls (ch_daProvider c) (encodedTx (o_ctx a)) (o_txInclusionProof a) (snd s))) (\<lambda>_.
      bind_r (lift_err DAReverted (deserializeWord (o_txInclusionProof a) 0)) (\<lambda>(_, ctxHash).
      bind_r (must (txContextHash keccak (o_ctx a) = ctxHash) TxContextInconsistent) (\<lambda>_.
        if at_verifyOneStepProof calls (ch_verifier c) (prev ! (i - 1)) (o_ctx a) (o_oneStepProof a) \<noteq> prev ! i
        then currentWin calls this OSP_VERIFIED s else Inr s)))))))"

definition verifyOneStepProof ::
    "(bytes \<Rightarrow> hash) \<Rightarrow> 'w l1_calls \<Rightarrow> address \<Rightarrow> msg_env \<Rightarrow> osp_args \<Rightarrow> challenge \<times> 'w \<Rightarrow> challenge_error + challenge \<times> 'w" where
  "verifyOneStepProof keccak calls this env a = onlyOnTurn env (osp_body keccak calls this a)"

datatype sc_tx =
    ScInitialize sc_init_args | ScNameSteps uint256 | ScBisect bisect_args | ScProve osp_args | ScTimeout

fun sc_exec :: "(bytes \<Rightarrow> hash) \<Rightarrow> 'w l1_calls \<Rightarrow> address \<Rightarrow> msg_env \<Rightarrow> sc_tx \<Rightarrow> challenge \<times> 'w \<Rightarrow> challenge_error + challenge \<times> 'w" where
  "sc_exec keccak calls this env (ScInitialize a) s = bind_r (sc_initialize env a (fst s)) (\<lambda>c. Inr (c, snd s))"
| "sc_exec keccak calls this env (ScNameSteps n) s = bind_r (initializeChallengeLength keccak env n (fst s)) (\<lambda>c. Inr (c, snd s))"
| "sc_exec keccak calls this env (ScBisect a) s = bisectExecution keccak env a s"
| "sc_exec keccak calls this env (ScProve a) s = verifyOneStepProof keccak calls this env a s"
| "sc_exec keccak calls this env ScTimeout s = sc_timeout calls this env s"

text \<open>What the rollup contract initializes a new challenge with.\<close>

definition challenge_args :: "address \<Rightarrow> address \<times> address \<Rightarrow> uint256 \<times> uint256 \<Rightarrow> rollup \<Rightarrow> sc_init_args" where
  "challenge_args this players ids c =
     \<lparr>i_defender = fst players, i_challenger = snd players, i_verifier = ro_verifier c, i_daProvider = ro_daProvider c, i_resultReceiver = this,
      i_startStateHash = a_stateHash (assertions c (a_parent (assertions c (fst ids)))),
      i_endStateDefenseHash = a_stateHash (assertions c (fst ids)), i_endStateChallengeHash = a_stateHash (assertions c (snd ids)),
      i_challengePeriod = challengePeriod c\<rparr>"

lemma new_challenge_initialized:
  "(\<exists>ch. sc_initialize env (challenge_args this players ids c) new_SymChallenge = Inr ch) \<longleftrightarrow> fst players \<noteq> 0 \<and> snd players \<noteq> 0"
  by (simp add: sc_initialize_def challenge_args_def new_SymChallenge_def)

section \<open>AsymChallenge\<close>

text \<open>The asymmetric challenge only has an initializer; its \<open>bisectionHash\<close> is given.\<close>

record asym_args =
  as_defender :: address
  as_challenger :: address
  as_bisectionHash :: hash
  as_verifier :: address
  as_daProvider :: address
  as_resultReceiver :: address
  as_challengePeriod :: uint256

definition asym_initialize :: "msg_env \<Rightarrow> asym_args \<Rightarrow> challenge \<Rightarrow> challenge_error + challenge" where
  "asym_initialize env args c =
     bind_r (must (turn c = NoChallenge) AlreadyInitialized) (\<lambda>_.
     bind_r (must (as_defender args \<noteq> 0 \<and> as_challenger args \<noteq> 0) ChallengeZeroAddress) (\<lambda>_.
       Inr (c\<lparr>defender := as_defender args, challenger := as_challenger args, bisectionHash := as_bisectionHash args,
              ch_verifier := as_verifier args, ch_daProvider := as_daProvider args, resultReceiver := as_resultReceiver args,
              turn := Defender, lastMoveBlock := block_number env,
              defenderTimeLeft := as_challengePeriod args, challengerTimeLeft := as_challengePeriod args\<rparr>)))"

section \<open>The verifier\<close>

definition Verifier_verifyOneStepProof :: "hash \<Rightarrow> RawContext \<Rightarrow> bytes \<Rightarrow> hash" where
  "Verifier_verifyOneStepProof _ ctx oneStepProof = 0"

end
