(* ===== verification/Challenge_Path.thy ===== *)
theory Challenge_Path
  imports Challenge_Contract Rollup_Invariants
begin

text \<open>
  The challenge contract together with the two contracts it calls: the rollup contract as the receiver of the result and the sequencer inbox as the
  provider of data. Shown here: no challenge gets started, and one that were started is decided by the numbers of steps the players name.
\<close>

section \<open>No challenge starts\<close>

text \<open>
  Two sibling assertions are needed for a challenge, and there is only one assertion. Without a challenge nobody loses a stake, and nothing becomes
  withdrawable.
\<close>

definition peaceful :: "uint256 \<Rightarrow> rollup \<Rightarrow> bool" where
  "peaceful i c \<longleftrightarrow> single_child i c \<and> (\<forall>a. s_currentChallenge (stakers c a) = 0) \<and> zombies c = [] \<and> withdrawableFunds c = (\<lambda>_. 0)"

lemma single_child_no_challenge:
  assumes "single_child i c"
  shows "ro_challengeAssertion env players ids c \<noteq> Inr c'"
proof
  assume "ro_challengeAssertion env players ids c = Inr c'"
  then obtain d e where "d < e" "e \<le> lastCreatedAssertionID c" "lastConfirmedAssertionID c < d"
    by (auto simp: ro_challengeAssertion_def Let_def split: prod.splits)
  moreover have "lastConfirmedAssertionID c = lastCreatedAssertionID c \<or> lastCreatedAssertionID c = lastConfirmedAssertionID c + 1"
    using assms by (auto simp: single_child_def)
  ultimately show False using inc_le [of "lastConfirmedAssertionID c" d] by auto
qed

lemma no_challenge_to_complete:
  assumes "\<forall>a. s_currentChallenge (stakers c a) = 0"
  shows "ro_completeChallenge env winner loser c = Inl NotInChallenge"
  using assms by (simp add: ro_completeChallenge_def getChallenge_def Let_def req_def)

lemma ro_exec_peaceful:
  assumes "peaceful i c" "ro_exec env t c = Inr c'"
  shows "peaceful i c'"
proof -
  have s: "single_child i c'" by (rule ro_exec_single [OF _ assms(2)]) (use assms(1) in \<open>simp add: peaceful_def\<close>)
  have p: "\<forall>a. s_currentChallenge (stakers c a) = 0" "zombies c = []" "withdrawableFunds c = (\<lambda>_. 0)"
    using assms(1) by (simp_all add: peaceful_def)
  have "(\<forall>a. s_currentChallenge (stakers c' a) = 0) \<and> zombies c' = [] \<and> withdrawableFunds c' = (\<lambda>_. 0)"
  proof (cases t)
    case TxStake
    with assms(2) p show ?thesis by (auto simp: ro_stake_def stakeOnAssertion_def Let_def split: if_splits)
  next
    case (TxUnstake n)
    with assms(2) p show ?thesis by (auto simp: ro_unstake_def pay_def Let_def split: if_splits)
  next
    case (TxRemoveStake a)
    with assms(2) p show ?thesis by (auto simp: ro_removeStake_def deleteStaker_def pay_def no_staker_def split: if_splits)
  next
    case (TxAdvanceStake i)
    with assms(2) p show ?thesis by (auto simp: ro_advanceStake_def stakeOnAssertion_def Let_def)
  next
    case TxWithdraw
    with assms(2) p show ?thesis by (auto simp: ro_withdraw_def pay_def Let_def split: if_splits)
  next
    case (TxCreateAssertion h n)
    with assms(2) p show ?thesis
      by (auto simp: ro_createAssertion_def createAssertionHelper_def stakeOnAssertion_def Let_def split: if_splits)
  next
    case (TxChallenge ps ids)
    with assms(2) have "ro_challengeAssertion env ps ids c = Inr c'" by simp
    with assms(1) show ?thesis using single_child_no_challenge unfolding peaceful_def by blast
  next
    case TxConfirm
    with assms(2) p show ?thesis by (auto simp: ro_confirmFirstUnresolvedAssertion_def)
  next
    case (TxReject a)
    with assms(2) p show ?thesis by (auto simp: ro_rejectFirstUnresolvedAssertion_def)
  next
    case (TxCompleteChallenge w l)
    with assms(2) p no_challenge_to_complete show ?thesis by simp
  qed (use assms(2) p in \<open>auto simp: config_defs\<close>)
  with s show ?thesis by (simp add: peaceful_def)
qed

interpretation peace: event_component ro_apply "peaceful i" for i
  by unfold_locales (auto simp: ro_apply_def intro: ro_exec_peaceful split: sum.splits)

lemma initialize_peaceful:
  assumes "ro_initialize env args = Inr c"
  shows "peaceful (init_assertionID args) c"
proof -
  have "zombies c = []" using assms by (auto simp: ro_initialize_def createAssertionHelper_def Let_def ro_blank_def no_assertion_def)
  with initialize_invariants(3) [OF assms] ro_initialize_state [OF assms] show ?thesis by (simp add: peaceful_def no_staker_def)
qed

section \<open>The contracts a challenge calls\<close>

definition called_by :: "address \<Rightarrow> msg_env" where
  "called_by a = \<lparr>msg_sender = a, msg_value = 0, block_number = 0, is_validator = False, is_admin = False, when_not_paused = True,
     callee_accepts = (\<lambda>_. True), new_challenge = 0, challenge_initialized = True\<rparr>"

text \<open>The deployment: \<open>completeChallenge\<close> looks at nothing of its message but the sender.\<close>

definition deployed_calls ::
    "(bytes \<Rightarrow> hash) \<Rightarrow> (hash \<Rightarrow> 256 word \<Rightarrow> hash \<Rightarrow> hash \<Rightarrow> hash) \<Rightarrow> (rollup \<times> inbox) l1_calls" where
  "deployed_calls keccak keccak4 =
     \<lparr>at_verifyTxInclusion = (\<lambda>_ tx p w. verifyTxInclusion keccak keccak4 tx p (snd w)),
      at_verifyOneStepProof = (\<lambda>_. Verifier_verifyOneStepProof),
      at_completeChallenge = (\<lambda>_ this winner loser w.
        bind_r (ro_completeChallenge (called_by this) winner loser (fst w)) (\<lambda>r. Inr (r, snd w)))\<rparr>"

datatype l1_event = ChallengeTx msg_env sc_tx | RollupTx msg_env ro_tx | BatchTx bool address bytes

fun settle_step ::
    "(bytes \<Rightarrow> hash) \<Rightarrow> (hash \<Rightarrow> 256 word \<Rightarrow> hash \<Rightarrow> hash \<Rightarrow> hash) \<Rightarrow> address \<Rightarrow> challenge \<times> rollup \<times> inbox \<Rightarrow> l1_event \<Rightarrow>
     challenge \<times> rollup \<times> inbox" where
  "settle_step keccak keccak4 this s (ChallengeTx env t) =
     (case sc_exec keccak (deployed_calls keccak keccak4) this env t s of Inl e \<Rightarrow> s | Inr s' \<Rightarrow> s')"
| "settle_step keccak keccak4 this (c, r, i) (RollupTx env t) = (c, ro_apply r (env, t), i)"
| "settle_step keccak keccak4 this (c, r, i) (BatchTx paused sender d) = (c, r, inbox_after i (paused, sender, d))"

text \<open>The loser is whoever is on turn when the time runs out.\<close>

definition timeout_result :: "challenge \<Rightarrow> address \<times> address \<times> CompletionReason" where
  "timeout_result c =
     (if turn c = Defender then (challenger c, defender c, TIMEOUT) else (defender c, challenger c, TIMEOUT))"

lemma complete_Inr:
  assumes "complete (deployed_calls keccak keccak4) this winner loser reason s = Inr s'"
  shows "fst s' = (fst s)\<lparr>completions := completions (fst s) @ [(winner, loser, reason)]\<rparr>" "snd (snd s') = snd (snd s)"
  using assms by (auto simp: complete_def Let_def deployed_calls_def)

lemma sc_timeout_Inr:
  assumes "sc_timeout (deployed_calls keccak keccak4) this env s = Inr s'"
  shows "fst s' = (fst s)\<lparr>completions := completions (fst s) @ [timeout_result (fst s)]\<rparr>" "snd (snd s') = snd (snd s)"
  using assms by (auto simp: sc_timeout_def timeout_result_def challengerWin_def asserterWin_def dest: complete_Inr split: if_splits)

lemma no_accumulator_no_inclusion:
  assumes "accumulators i = []"
  shows "verifyTxInclusion keccak keccak4 tx p i \<noteq> Inr u"
  using assms by (auto simp: verifyTxInclusion_def split: sum.splits prod.splits if_splits)

lemma proof_never_verified:
  assumes "accumulators (snd (snd s)) = []"
  shows "verifyOneStepProof keccak (deployed_calls keccak keccak4) this env a s \<noteq> Inr s'"
  using assms by (auto simp: verifyOneStepProof_def onlyOnTurn_def osp_body_def Let_def deployed_calls_def no_accumulator_no_inclusion)

lemma inbox_after_id: "inbox_after i t = i"
  by (auto simp: inbox_after_def inbox_appendTxBatch_iff split: sum.splits)

section \<open>After the step numbers are in\<close>

text \<open>Once the bisection hash is set, no transaction changes the challenge, apart from the events of timeouts.\<close>

definition frozen :: "challenge \<Rightarrow> challenge \<times> rollup \<times> inbox \<Rightarrow> bool" where
  "frozen c0 s \<longleftrightarrow> accumulators (snd (snd s)) = [] \<and> bisectionHash c0 \<noteq> 0 \<and>
     (\<exists>k. fst s = c0\<lparr>completions := completions c0 @ replicate k (timeout_result c0)\<rparr>)"

lemma sc_exec_frozen:
  assumes "frozen c0 s" "sc_exec keccak (deployed_calls keccak keccak4) this env t s = Inr s'"
  shows "frozen c0 s'"
proof -
  obtain k where k: "fst s = c0\<lparr>completions := completions c0 @ replicate k (timeout_result c0)\<rparr>" and h: "bisectionHash c0 \<noteq> 0"
    and a: "accumulators (snd (snd s)) = []" using assms(1) by (auto simp: frozen_def)
  show ?thesis
  proof (cases t)
    case ScTimeout
    then have t: "sc_timeout (deployed_calls keccak keccak4) this env s = Inr s'" using assms(2) by simp
    have "timeout_result (fst s) = timeout_result c0" by (simp add: k timeout_result_def)
    then have "fst s' = c0\<lparr>completions := completions c0 @ replicate (Suc k) (timeout_result c0)\<rparr>"
      using sc_timeout_Inr(1) [OF t] by (simp add: k replicate_append_same)
    then show ?thesis using a h sc_timeout_Inr(2) [OF t] unfolding frozen_def by metis
  next
    case (ScProve x)
    with assms(2) a proof_never_verified show ?thesis by auto
  next
    case (ScBisect x)
    with assms(2) h show ?thesis by (auto simp: bisectExecution_def onlyOnTurn_def postInitialization_def k)
  next
    case (ScInitialize x)
    with assms(2) h show ?thesis by (auto simp: sc_initialize_def k)
  next
    case (ScNameSteps x)
    with assms(2) h show ?thesis by (auto simp: initializeChallengeLength_def k)
  qed
qed

interpretation frozen: event_component "settle_step keccak keccak4 this" "frozen c0" for keccak keccak4 this c0
proof
  fix s e
  assume f: "frozen c0 s"
  show "frozen c0 (settle_step keccak keccak4 this s e)"
  proof (cases e)
    case (ChallengeTx env t)
    with f show ?thesis by (auto intro: sc_exec_frozen split: sum.splits)
  next
    case (RollupTx env t)
    with f show ?thesis by (cases s) (auto simp: frozen_def)
  next
    case (BatchTx p a d)
    with f show ?thesis by (cases s) (auto simp: frozen_def inbox_after_id)
  qed
qed

lemma challenger_names_result:
  assumes "initializeChallengeLength keccak env m c = Inr c1" "turn c = Challenger" "msg_sender env = challenger c"
  shows "timeout_result c1 = (if m < numSteps c then (challenger c, defender c, TIMEOUT) else (defender c, challenger c, TIMEOUT))"
    "completions c1 = completions c" "defender c1 = defender c" "challenger c1 = challenger c" "lastMoveBlock c1 = block_number env"
    "turn c1 = (if m < numSteps c then Defender else Challenger)"
    "bisectionHash c1 = initialBisectionHash keccak (startStateHash c)
       (if m < numSteps c then endStateChallengeHash c else endStateDefenseHash c) (min m (numSteps c))"
  using assms by (auto simp: initializeChallengeLength_def defender_names_def challenger_names_def Let_def timeout_result_def min_def split: if_splits)

lemma time_left_upd [simp]:
  "currentResponderTimeLeft (c\<lparr>lastMoveBlock := b\<rparr>) = currentResponderTimeLeft c"
  "currentResponderTimeLeft (c\<lparr>completions := l\<rparr>) = currentResponderTimeLeft c"
  by (cases "turn c"; simp add: currentResponderTimeLeft_def)+

lemma timeout_fires:
  assumes "currentResponderTimeLeft c = Inr left" "unat (lastMoveBlock c) + unat left < unat (block_number env)"
  shows "sc_timeout calls this env (c, w) =
    (if turn c = Defender then complete calls this (challenger c) (defender c) TIMEOUT (c, w)
     else complete calls this (defender c) (challenger c) TIMEOUT (c, w))"
proof -
  have le: "lastMoveBlock c \<le> block_number env" using assms(2) by (simp add: word_le_nat_alt)
  have "unat left < unat (block_number env - lastMoveBlock c)" using assms(2) le by (simp add: unat_sub)
  then have "left < block_number env - lastMoveBlock c" by (simp add: word_less_nat_alt)
  then have "expired env c = Inr True" using le assms(1) by (simp add: expired_def minus_c_def)
  then show ?thesis by (simp add: sc_timeout_def must_def challengerWin_def asserterWin_def)
qed

section \<open>Postponing\<close>

text \<open>
  Calls of \<open>initializeChallengeLength\<close> by others than the players, each within the time left after the one before: they only write the block of
  the last move.
\<close>

fun spaced :: "nat \<Rightarrow> nat \<Rightarrow> (msg_env \<times> uint256) list \<Rightarrow> bool" where
  "spaced left b [] = True"
| "spaced left b ((env, n) # calls) =
     (b \<le> unat (block_number env) \<and> unat (block_number env) \<le> b + left \<and> 0 < n \<and> spaced left (unat (block_number env)) calls)"

definition name_steps :: "(bytes \<Rightarrow> hash) \<Rightarrow> challenge_error + challenge \<Rightarrow> msg_env \<times> uint256 \<Rightarrow> challenge_error + challenge" where
  "name_steps keccak r call = bind_r r (initializeChallengeLength keccak (fst call) (snd call))"

lemma within_time:
  assumes "currentResponderTimeLeft c = Inr left" "unat (lastMoveBlock c) \<le> unat (block_number env)"
    "unat (block_number env) \<le> unat (lastMoveBlock c) + unat left"
  shows "expired env c = Inr False"
proof -
  have le: "lastMoveBlock c \<le> block_number env" using assms(2) by (simp add: word_le_nat_alt)
  then have "unat (block_number env - lastMoveBlock c) \<le> unat left" using assms(3) by (simp add: unat_sub)
  then show ?thesis using le assms(1) by (simp add: expired_def minus_c_def word_less_nat_alt)
qed

lemma outsider_names:
  assumes "currentResponderTimeLeft c = Inr left" "unat (lastMoveBlock c) \<le> unat (block_number env)"
    "unat (block_number env) \<le> unat (lastMoveBlock c) + unat left"
    and "bisectionHash c = 0" "0 < n" "msg_sender env \<notin> {defender c, challenger c}"
  shows "initializeChallengeLength keccak env n c = Inr (c\<lparr>lastMoveBlock := block_number env\<rparr>)"
  using within_time [OF assms(1-3)] assms(4-6)
  by (simp add: initializeChallengeLength_def must_def defender_names_def challenger_names_def)

lemma postponed:
  assumes "currentResponderTimeLeft c = Inr left" "bisectionHash c = 0" "spaced (unat left) (unat (lastMoveBlock c)) calls"
    and "\<forall>(env, n) \<in> set calls. msg_sender env \<notin> {defender c, challenger c}"
  shows "foldl (name_steps keccak) (Inr c) calls =
    Inr (c\<lparr>lastMoveBlock := last (lastMoveBlock c # map (\<lambda>(env, _). block_number env) calls)\<rparr>)"
  using assms
proof (induction calls arbitrary: c)
  case (Cons call calls)
  obtain env n where e: "call = (env, n)" by fastforce
  let ?c = "c\<lparr>lastMoveBlock := block_number env\<rparr>"
  have "initializeChallengeLength keccak env n c = Inr ?c"
    by (rule outsider_names) (use Cons.prems e in auto)
  moreover have "foldl (name_steps keccak) (Inr ?c) calls =
      Inr (?c\<lparr>lastMoveBlock := last (lastMoveBlock ?c # map (\<lambda>(env, _). block_number env) calls)\<rparr>)"
    by (rule Cons.IH) (use Cons.prems e in auto)
  moreover have "name_steps keccak (Inr c) call = initializeChallengeLength keccak env n c" by (simp add: e name_steps_def)
  ultimately show ?case by (simp add: e)
qed simp

section \<open>Segments\<close>

text \<open>The two segments of a bisection tile the bisected one, and the first is at most one step longer.\<close>

lemma segments_tile:
  assumes "unat start + unat len < 2 ^ 256"
  shows "\<exists>first other. challenged_segment 3 1 start len = Inr (start, first) \<and> challenged_segment 3 2 start len = Inr (start + first, other) \<and>
    unat first + unat other = unat len \<and> unat other \<le> unat first \<and> unat first \<le> unat other + 1"
proof -
  define f o' where "f = firstSegmentLength len MAX_BISECTION_DEGREE" and "o' = otherSegmentLength len MAX_BISECTION_DEGREE"
  have o: "unat o' = unat len div 2" by (simp add: o'_def otherSegmentLength_def MAX_BISECTION_DEGREE_def unat_div)
  have "unat (len div 2) + unat (len mod 2) \<le> unat len" by (simp add: unat_div unat_mod)
  then have "unat (len div 2) + unat (len mod 2) < 2 ^ LENGTH(256)" using assms by simp
  then have f: "unat f = unat len div 2 + unat len mod 2"
    by (simp add: f_def firstSegmentLength_def MAX_BISECTION_DEGREE_def unat_add_lem [THEN iffD1] unat_div unat_mod)
  have "unat f \<le> unat len" using f by simp
  then have "unat start + unat f < 2 ^ 256" using assms by linarith
  then have "add_u start f = Inr (start + f)" by simp
  then have "uint start + uint f < 2 ^ 256" unfolding add_u_def by (auto split: if_splits)
  moreover from this have "uint f < 2 ^ 256" using uint_ge_0 [of start] by linarith
  ultimately have "challenged_segment 3 2 start len = Inr (start + f, o')"
    by (simp add: challenged_segment_def Let_def f_def o'_def minus_c_def times_c_def plus_c_def)
  moreover have "challenged_segment 3 1 start len = Inr (start, f)" by (simp add: challenged_segment_def Let_def f_def)
  moreover have "unat f + unat o' = unat len \<and> unat o' \<le> unat f \<and> unat f \<le> unat o' + 1" unfolding o f by presburger
  ultimately show ?thesis by blast
qed

text \<open>
  A bisection of three steps passes for the last round, which should have single steps only, although its first segment has two.
\<close>

lemma last_round_with_two_steps:
  "(3 :: uint256) div MAX_BISECTION_DEGREE \<le> 1" "challenged_segment 3 1 start 3 = Inr (start, 2)"
  by (simp_all add: MAX_BISECTION_DEGREE_def challenged_segment_def firstSegmentLength_def Let_def)

section \<open>Properties\<close>

text \<open>
  C19: no challenge ever starts, so a wrong assertion costs nothing. After the initialization of the rollup contract and any sequence of transactions,
  every \<open>challengeAssertion\<close> reverts, whoever calls it with whichever assertions; no staker is in a challenge, every \<open>completeChallenge\<close> reverts, and
  nothing was ever made withdrawable: no stake was cut, won or lost.
\<close>

theorem no_challenge_ever_starts:
  assumes "ro_initialize env0 args = Inr c0" "c = foldl ro_apply c0 txs"
  shows "(\<exists>e. ro_challengeAssertion env players ids c = Inl e) \<and> ro_completeChallenge env winner loser c = Inl NotInChallenge \<and>
    s_currentChallenge (stakers c a) = 0 \<and> zombies c = [] \<and> withdrawableFunds c a = 0"
proof -
  have p: "peaceful (init_assertionID args) c" unfolding assms(2) by (rule peace.run_inv [OF initialize_peaceful [OF assms(1)]])
  have "ro_challengeAssertion env players ids c \<noteq> Inr c'" for c'
    using p by (intro single_child_no_challenge [of "init_assertionID args"]) (simp add: peaceful_def)
  then have "\<exists>e. ro_challengeAssertion env players ids c = Inl e" by (metis sum.exhaust)
  with p no_challenge_to_complete show ?thesis by (simp add: peaceful_def)
qed

text \<open>
  C17: a challenge is decided by the numbers of steps the players name, not by the executions they claim. When the challenger has named its number \<open>m\<close>
  against the number of the defender, and the hash of the first bisection is not zero, then whatever happens afterwards to the
  challenge, the rollup contract and the inbox, the only completions are timeouts that the challenger wins when \<open>m\<close> is the smaller number and the
  defender otherwise, and once the time is over \<open>timeout\<close> reports exactly this winner: the guard \<open>postInitialization\<close> is inverted, so nobody can
  bisect, and a one-step proof needs an inclusion proof, which the inbox never accepts.
\<close>

theorem challenge_decided_by_step_numbers:
  assumes "initializeChallengeLength keccak env m c = Inr c1" "turn c = Challenger" "msg_sender env = challenger c"
    and "bisectionHash c1 \<noteq> 0" "accumulators i = []"
    and "winner = (if m < numSteps c then challenger c else defender c)" "loser = (if m < numSteps c then defender c else challenger c)"
    and "foldl (settle_step keccak keccak4 this) (c1, r, i) es = (c', r', i')"
  shows "(\<exists>k. completions c' = completions c @ replicate k (winner, loser, TIMEOUT)) \<and>
    (\<forall>env' left. currentResponderTimeLeft c1 = Inr left \<longrightarrow> unat (block_number env) + unat left < unat (block_number env') \<longrightarrow>
       sc_timeout calls this env' (c', w) = complete calls this winner loser TIMEOUT (c', w))"
proof -
  note n = challenger_names_result [OF assms(1-3)]
  have "frozen c1 (c1, r, i)" using assms(4,5) unfolding frozen_def by (auto intro: exI [of _ 0])
  from frozen.run_inv [OF this, of keccak keccak4 this es]
  obtain k where k: "c' = c1\<lparr>completions := completions c1 @ replicate k (timeout_result c1)\<rparr>"
    using assms(8) by (auto simp: frozen_def)
  have w: "timeout_result c1 = (winner, loser, TIMEOUT)" using n(1) assms(6,7) by simp
  have "completions c' = completions c @ replicate k (winner, loser, TIMEOUT)" using k w n(2) by simp
  moreover have "sc_timeout calls this env' (c', w) = complete calls this winner loser TIMEOUT (c', w)"
    if "currentResponderTimeLeft c1 = Inr left" "unat (block_number env) + unat left < unat (block_number env')" for env' left
  proof -
    have "turn c' = Defender \<longleftrightarrow> m < numSteps c" "lastMoveBlock c' = block_number env" "challenger c' = challenger c" "defender c' = defender c"
      by (simp_all add: k n(3-6))
    moreover have "currentResponderTimeLeft c' = Inr left" using that(1) by (simp add: k)
    ultimately show ?thesis using timeout_fires [of c' left env' calls this w] that(2) assms(6,7) by simp
  qed
  ultimately show ?thesis by blast
qed

text \<open>
  Anyone can keep a challenge from timing out. Before the step numbers are in, calls of \<open>initializeChallengeLength\<close> by outsiders, each within the
  responder's time after the one before, only move the block of the last move: no time is charged, the same player stays on turn, and until the
  responder's whole time has passed after the last of them \<open>timeout\<close> reverts.
\<close>

theorem outsiders_postpone_timeout:
  assumes "currentResponderTimeLeft c = Inr left" "bisectionHash c = 0" "spaced (unat left) (unat (lastMoveBlock c)) calls"
    and "\<forall>(env, n) \<in> set calls. msg_sender env \<notin> {defender c, challenger c}"
    and "b = last (lastMoveBlock c # map (\<lambda>(env, _). block_number env) calls)"
  shows "foldl (name_steps keccak) (Inr c) calls = Inr (c\<lparr>lastMoveBlock := b\<rparr>) \<and>
    (\<forall>env. unat b \<le> unat (block_number env) \<longrightarrow> unat (block_number env) \<le> unat b + unat left \<longrightarrow>
       sc_timeout ext this env (c\<lparr>lastMoveBlock := b\<rparr>, w) = Inl DeadlineNotPassed)"
proof -
  have "sc_timeout ext this env (c\<lparr>lastMoveBlock := b\<rparr>, w) = Inl DeadlineNotPassed"
    if "unat b \<le> unat (block_number env)" "unat (block_number env) \<le> unat b + unat left" for env
    using within_time [of "c\<lparr>lastMoveBlock := b\<rparr>" left env] that assms(1)
    by (simp add: sc_timeout_def must_def)
  with postponed [OF assms(1-4)] assms(5) show ?thesis by simp
qed

section \<open>A challenge\<close>

text \<open>A hash that is never zero, a challenge of account 1 against account 2, and its first moves.\<close>

definition demo_keccak :: "bytes \<Rightarrow> hash" where
  "demo_keccak bs = of_nat (length bs) + 1"

definition demo_challenge_args :: sc_init_args where
  "demo_challenge_args = \<lparr>i_defender = 1, i_challenger = 2, i_verifier = 9, i_daProvider = 8, i_resultReceiver = 6, i_startStateHash = 11,
     i_endStateDefenseHash = 21, i_endStateChallengeHash = 22, i_challengePeriod = 10\<rparr>"

definition demo_challenge :: challenge where
  "demo_challenge = (case sc_initialize (sent_by 6 0 100) demo_challenge_args new_SymChallenge of Inr c \<Rightarrow> c | Inl e \<Rightarrow> new_SymChallenge)"

definition demo_defended :: challenge where
  "demo_defended = (case initializeChallengeLength demo_keccak (sent_by 1 0 103) 40 demo_challenge of Inr c \<Rightarrow> c | Inl e \<Rightarrow> new_SymChallenge)"

definition demo_named :: challenge where
  "demo_named = (case initializeChallengeLength demo_keccak (sent_by 2 0 105) 39 demo_defended of Inr c \<Rightarrow> c | Inl e \<Rightarrow> new_SymChallenge)"

text \<open>The defender, whose claims are right, cannot move and loses although it calls in time.\<close>

definition demo_bisection :: bisect_args where
  "demo_bisection = \<lparr>b_bisection = [11, 15, 23], b_index = 1, b_prev = [11, 22], b_prevStart = 0, b_prevLen = 39\<rparr>"


text \<open>The run of the demo: outsiders, a third validator's batches and stakes, a bisection of the defender and the timeout.\<close>

definition demo_events :: "l1_event list" where
  "demo_events = [ChallengeTx (sent_by 1 0 106) (ScBisect demo_bisection), RollupTx (sent_by 3 100 107) TxStake, BatchTx False 3 [0],
     ChallengeTx (sent_by 3 0 108) (ScNameSteps 5), ChallengeTx (sent_by 2 0 120) ScTimeout]"

definition demo_stake :: ro_Staker where
  "demo_stake = \<lparr>s_isStaked = True, s_amountStaked = 100, s_assertionID = 0, s_currentChallenge = 50\<rparr>"

definition demo_disputed :: rollup where
  "demo_disputed = demo_contract\<lparr>numStakers := 2, eth := 200, stakers := (stakers demo_contract)(1 := demo_stake, 2 := demo_stake)\<rparr>"

lemma demo_named_step: "initializeChallengeLength demo_keccak (sent_by 2 0 105) 39 demo_defended = Inr demo_named"
proof -
  have "case initializeChallengeLength demo_keccak (sent_by 2 0 105) 39 demo_defended of Inr c \<Rightarrow> True | Inl e \<Rightarrow> False" by code_simp
  then show ?thesis by (auto simp: demo_named_def split: sum.splits)
qed

theorem no_challenge_ever_starts_witness:
  "\<exists>e. ro_challengeAssertion (sent_by 1 0 30) (1, 2) (0, 1) (foldl ro_apply demo_contract demo_txs) = Inl e"
  using no_challenge_ever_starts [OF demo_contract_initialized refl] by blast

theorem challenge_decided_by_step_numbers_witness:
  "completions (fst (foldl (settle_step demo_keccak (\<lambda>_ _ _ _. 0) 50)
     (demo_named, demo_disputed, \<lparr>accumulators = [], sequencerAddress = 3\<rparr>) demo_events)) = [(2, 1, TIMEOUT)]"
proof -
  let ?s = "foldl (settle_step demo_keccak (\<lambda>_ _ _ _. 0) 50) (demo_named, demo_disputed, \<lparr>accumulators = [], sequencerAddress = 3\<rparr>) demo_events"
  have d: "turn demo_defended = Challenger" "msg_sender (sent_by 2 0 105) = challenger demo_defended" "bisectionHash demo_named \<noteq> 0"
    "39 < numSteps demo_defended" "challenger demo_defended = 2" "defender demo_defended = 1" "completions demo_defended = []" by code_simp+
  obtain c' r' i' where s: "?s = (c', r', i')" by (metis surj_pair)
  have "\<exists>k. completions c' = completions demo_defended @ replicate k (2, 1, TIMEOUT)"
    using challenge_decided_by_step_numbers [OF demo_named_step d(1-3) _ refl refl s, THEN conjunct1] d(4-6) by simp
  moreover have "length (completions (fst ?s)) = 1" by code_simp
  ultimately show ?thesis using s d(7) by (auto simp: Suc_length_conv)
qed

theorem outsiders_postpone_timeout_witness:
  "foldl (name_steps demo_keccak) (Inr demo_challenge) [(sent_by 5 0 109, 1), (sent_by 5 0 118, 1), (sent_by 4 0 127, 7)] =
     Inr (demo_challenge\<lparr>lastMoveBlock := 127\<rparr>)"
proof -
  have "currentResponderTimeLeft demo_challenge = Inr 10" "bisectionHash demo_challenge = 0" by code_simp+
  moreover have "spaced (unat (10 :: uint256)) (unat (lastMoveBlock demo_challenge)) [(sent_by 5 0 109, 1), (sent_by 5 0 118, 1), (sent_by 4 0 127, 7)]"
    by code_simp
  moreover have "\<forall>(env, n) \<in> set [(sent_by 5 0 109, 1), (sent_by 5 0 118, 1), (sent_by 4 0 127, 7 :: uint256)].
      msg_sender env \<notin> {defender demo_challenge, challenger demo_challenge}"
    by code_simp
  moreover have "127 = last (lastMoveBlock demo_challenge # map (\<lambda>(env, _). block_number env)
      [(sent_by 5 0 109, 1), (sent_by 5 0 118, 1), (sent_by 4 0 127, 7 :: uint256)])" by (simp add: sent_by_def)
  ultimately show ?thesis by (rule outsiders_postpone_timeout [THEN conjunct1])
qed

end
