(* ===== verification/Portal_Path.thy ===== *)
theory Portal_Path
  imports Portal_Contract Challenge_Path Validator
begin

text \<open>
  What the portals guarantee, alone and together with the rollup contract and the validator: a message is relayed at most once, whatever its target does;
  a relayed message was sent on the other chain, if the state root it is proved against is one of that chain; and no withdrawal can be
  proved against what the validator asserts.
\<close>

section \<open>Trees of calls\<close>

text \<open>
  A call leaves the sender of the message that is being relayed as it found it, unmarks nothing, and relays only messages that were not marked
  before, each once.
\<close>

definition relays :: "portal \<Rightarrow> portal \<Rightarrow> bool" where
  "relays p p' \<longleftrightarrow> remoteSender p' = remoteSender p \<and> p_self p' = p_self p \<and> p_other p' = p_other p \<and>
     (\<exists>hs. relayed p' = relayed p @ hs \<and> distinct hs \<and> (\<forall>h. finalized p' h \<longleftrightarrow> finalized p h \<or> h \<in> set hs) \<and> (\<forall>h \<in> set hs. \<not> finalized p h))"

lemma relays_refl [simp]: "relays p p"
  by (auto simp: relays_def)

lemma relays_trans:
  assumes "relays p q" "relays q r"
  shows "relays p r"
proof -
  obtain hs where h: "relayed q = relayed p @ hs" "distinct hs" "\<forall>h. finalized q h \<longleftrightarrow> finalized p h \<or> h \<in> set hs" "\<forall>h \<in> set hs. \<not> finalized p h"
    using assms(1) by (auto simp: relays_def)
  obtain ks where k: "relayed r = relayed q @ ks" "distinct ks" "\<forall>h. finalized r h \<longleftrightarrow> finalized q h \<or> h \<in> set ks" "\<forall>h \<in> set ks. \<not> finalized q h"
    using assms(2) by (auto simp: relays_def)
  have "relayed r = relayed p @ (hs @ ks) \<and> distinct (hs @ ks) \<and> (\<forall>h. finalized r h \<longleftrightarrow> finalized p h \<or> h \<in> set (hs @ ks)) \<and>
      (\<forall>h \<in> set (hs @ ks). \<not> finalized p h)" using h k by auto
  then show ?thesis using assms unfolding relays_def by metis
qed

lemma initiate_relays: "initiate keccak env target gas d p = Inr p' \<Longrightarrow> relays p p'"
  by (auto simp: initiate_def relays_def Let_def)

lemma relay_checks_Inr:
  assumes "relay_checks keccak dec env m ap sp p = Inr h"
  shows "h = hashCrossDomainMessage keccak m" "remoteSender p = DEFAULT_SENDER" "\<not> finalized p h" "x_target m \<noteq> p_self p"
  using assms by (auto simp: relay_checks_def Let_def)

lemma relays_marked:
  assumes "relays (p\<lparr>finalized := (finalized p)(h := True), remoteSender := a\<rparr>) q" "\<not> finalized p h" "remoteSender p = DEFAULT_SENDER"
  shows "relays p (q\<lparr>remoteSender := DEFAULT_SENDER, relayed := relayed q @ [h]\<rparr>)"
proof -
  obtain hs where h: "relayed q = relayed p @ hs" "distinct hs" "\<forall>k. finalized q k \<longleftrightarrow> k = h \<or> finalized p k \<or> k \<in> set hs"
      "\<forall>k \<in> set hs. k \<noteq> h \<and> \<not> finalized p k" and s: "p_self q = p_self p" "p_other q = p_other p"
    using assms(1) by (auto simp: relays_def if_bool_eq_conj)
  have "relayed q @ [h] = relayed p @ (hs @ [h]) \<and> distinct (hs @ [h]) \<and> (\<forall>k. finalized q k \<longleftrightarrow> finalized p k \<or> k \<in> set (hs @ [h])) \<and>
      (\<forall>k \<in> set (hs @ [h]). \<not> finalized p k)" using h assms(2) by auto
  then have "\<exists>hs'. relayed q @ [h] = relayed p @ hs' \<and> distinct hs' \<and> (\<forall>k. finalized q k \<longleftrightarrow> finalized p k \<or> k \<in> set hs') \<and>
      (\<forall>k \<in> set hs'. \<not> finalized p k)" by blast
  then show ?thesis using s assms(3) by (simp add: relays_def)
qed

lemma exec_relays: "portal_exec keccak dec t p = Inr p' \<Longrightarrow> relays p p'"
  and run_relays: "relays q (portal_run keccak dec ts q)"
proof (induction keccak dec t p and keccak dec ts q arbitrary: p' rule: portal_exec_portal_run.induct)
  case (3 keccak dec env m ap sp calls success p)
  then obtain h where c: "relay_checks keccak dec env m ap sp p = Inr h" and g: "enough_gas env m = Inr ()"
    and p': "p' = (let q = portal_run keccak dec calls (p\<lparr>finalized := (finalized p)(h := True), remoteSender := x_sender m\<rparr>)
                   in q\<lparr>remoteSender := DEFAULT_SENDER, relayed := relayed q @ [h]\<rparr>)"
    by (auto simp: Let_def)
  have "relays (p\<lparr>finalized := (finalized p)(h := True), remoteSender := x_sender m\<rparr>)
      (portal_run keccak dec calls (p\<lparr>finalized := (finalized p)(h := True), remoteSender := x_sender m\<rparr>))"
    using 3(1) by simp
  from relays_marked [OF this relay_checks_Inr(3,2) [OF c]] show ?case by (simp add: p' Let_def)
next
  case (5 keccak dec t ts p)
  then show ?case by (auto intro: relays_trans split: sum.splits)
qed (auto intro: initiate_relays)

text \<open>The sent messages are numbered in order, and the marks of sent messages are those of the list.\<close>

definition booked :: "(bytes \<Rightarrow> hash) \<Rightarrow> portal \<Rightarrow> bool" where
  "booked keccak p \<longleftrightarrow> map x_nonce (sent p) = map of_nat [0..<length (sent p)] \<and> p_nonce p = of_nat (length (sent p)) \<and>
     (\<forall>m \<in> set (sent p). x_version m = 0) \<and> (\<forall>h. initiated p h \<longleftrightarrow> h \<in> hashCrossDomainMessage keccak ` set (sent p))"

lemma initiate_booked: "initiate keccak env target gas d p = Inr p' \<Longrightarrow> booked keccak p \<Longrightarrow> booked keccak p'"
  by (auto simp: initiate_def booked_def Let_def if_bool_eq_conj)

lemma booked_cong: "booked keccak p \<Longrightarrow> sent q = sent p \<Longrightarrow> initiated q = initiated p \<Longrightarrow> p_nonce q = p_nonce p \<Longrightarrow> booked keccak q"
  by (simp add: booked_def)

lemma exec_booked: "portal_exec keccak dec t p = Inr p' \<Longrightarrow> booked keccak p \<Longrightarrow> booked keccak p'"
  and run_booked: "booked keccak q \<Longrightarrow> booked keccak (portal_run keccak dec ts q)"
proof (induction keccak dec t p and keccak dec ts q arbitrary: p' rule: portal_exec_portal_run.induct)
  case (3 keccak dec env m ap sp calls success p)
  then obtain h where c: "relay_checks keccak dec env m ap sp p = Inr h" and g: "enough_gas env m = Inr ()"
    and p': "p' = (let q = portal_run keccak dec calls (p\<lparr>finalized := (finalized p)(h := True), remoteSender := x_sender m\<rparr>)
                   in q\<lparr>remoteSender := DEFAULT_SENDER, relayed := relayed q @ [h]\<rparr>)"
    by (auto simp: Let_def)
  let ?p = "p\<lparr>finalized := (finalized p)(h := True), remoteSender := x_sender m\<rparr>"
  have "booked keccak ?p" by (rule booked_cong [OF 3(3)]) simp_all
  then have "booked keccak (portal_run keccak dec calls ?p)" using 3(1) by simp
  then show ?case by (rule booked_cong) (simp_all add: p' Let_def)
qed (auto intro: initiate_booked split: sum.splits)

definition fresh_portal :: "portal \<Rightarrow> bool" where
  "fresh_portal p \<longleftrightarrow> remoteSender p = DEFAULT_SENDER \<and> p_nonce p = 0 \<and> sent p = [] \<and> relayed p = [] \<and> initiated p = (\<lambda>_. False) \<and> finalized p = (\<lambda>_. False)"

lemma initialized_fresh: "L1Portal_initialize self c = Inr p \<Longrightarrow> fresh_portal p" "L2Portal_initialize self a = Inr p \<Longrightarrow> fresh_portal p"
  by (auto simp: L1Portal_initialize_def L2Portal_initialize_def fresh_portal_def)

lemma fresh_booked: "fresh_portal p \<Longrightarrow> booked keccak p"
  by (simp add: fresh_portal_def booked_def)

section \<open>Proofs against the root of the other chain\<close>

lemma secure_get_binds:
  assumes "collision_free keccak root (ps @ qs)" "canonical_proof ps"
    and "secure_get keccak k ps root = Inr a" "secure_get keccak k qs root = Inr b"
  shows "a = b"
  using trie_proof_binds_value [OF assms(1,2)] assms(3,4) by (simp add: secure_get_def)

lemma relay_proofs:
  assumes "relay_checks keccak dec env m ap sp p = Inr h" "pe_root env = Inr root"
  obtains account sr v where "secure_get keccak (enc_be 20 (uint (p_other p))) ap root = Inr (True, account)" "dec account = Inr sr"
    "secure_get keccak (storage_key keccak h) sp sr = Inr (True, v)"
  using assms
  by (auto simp: relay_checks_def verifyAccountInclusion_def verifyMessageInclusion_def secure_verifyInclusionProof_def
      trie_verifyInclusionProof_def secure_get_def Let_def)

section \<open>Block hashes as state roots\<close>

text \<open>A string that decodes to neither a branch nor a leaf or an extension is no root node, so nothing can be proved against its hash.\<close>

lemma no_proof_against_hash:
  assumes "collision_free keccak (keccak b) (b # prf)" "readList b = Inr items" "length items \<noteq> BRANCH_NODE_LENGTH" "length items \<noteq> LEAF_OR_EXTENSION_NODE_LENGTH"
  shows "trie_get keccak k prf (keccak b) \<noteq> Inr r"
proof
  assume "trie_get keccak k prf (keccak b) = Inr r"
  then obtain nodes pl d j where n: "nodes \<noteq> []" "list_all (node_of (b # prf)) nodes"
    and w: "walk keccak (toNibbles k) nodes 0 (word32 (keccak b)) 0 0 = Inr (pl, d, j)"
    by (rule trie_get_nodes [OF _ assms(1)]) auto
  obtain a as where a: "nodes = a # as" using n(1) by (cases nodes) auto
  let ?b = "\<lparr>encoded = b, decoded = items\<rparr>"
  have "check_node keccak 0 (word32 (keccak b)) a = Inr ()" using w a by (auto simp: Let_def)
  moreover have "check_node keccak 0 (word32 (keccak b)) ?b = Inr ()" by (simp add: check_node_def require_def bytes_equal_def)
  moreover have "node_of (b # prf) a" "node_of (b # prf) ?b" using n a assms(2) by (auto simp: node_of_def)
  ultimately have "a = ?b" using checked_nodes_equal [OF assms(1)] by blast
  with w a assms(3,4) show False by (auto simp: Let_def node_move_def)
qed

text \<open>Every assertion of the contract carries the hash of a block, or nothing.\<close>

definition asserts_from :: "hash set \<Rightarrow> rollup \<Rightarrow> bool" where
  "asserts_from H c \<longleftrightarrow> (\<forall>i. a_stateHash (assertions c i) \<noteq> 0 \<longrightarrow> a_stateHash (assertions c i) \<in> H)"

lemma asserts_fromI: "(\<And>i. a_stateHash (assertions c i) \<noteq> 0 \<Longrightarrow> a_stateHash (assertions c i) \<in> H) \<Longrightarrow> asserts_from H c"
  by (simp add: asserts_from_def)

lemma asserts_fromD: "asserts_from H c \<Longrightarrow> a_stateHash (assertions c i) \<noteq> 0 \<Longrightarrow> a_stateHash (assertions c i) \<in> H"
  by (simp add: asserts_from_def)

fun asserted_in :: "hash set \<Rightarrow> ro_tx \<Rightarrow> bool" where
  "asserted_in H (TxCreateAssertion h n) = (h \<in> H)"
| "asserted_in H _ = True"

lemma asserts_from_cong: "asserts_from H c \<Longrightarrow> assertions c' = assertions c \<Longrightarrow> asserts_from H c'"
  by (simp add: asserts_from_def)

lemma stakeOnAssertion_from: "stakeOnAssertion a i c = Inr c' \<Longrightarrow> asserts_from H c \<Longrightarrow> asserts_from H c'"
  by (auto simp: stakeOnAssertion_def intro!: asserts_fromI dest: asserts_fromD split: if_splits)

lemma createAssertionHelper_from:
  "createAssertionHelper env i h n parent d c = Inr c' \<Longrightarrow> h \<in> H \<Longrightarrow> asserts_from H c \<Longrightarrow> asserts_from H c'"
  by (auto simp: createAssertionHelper_def Let_def intro!: asserts_fromI dest: asserts_fromD split: if_splits)

lemma createAssertion_from:
  assumes "ro_createAssertion env h n c = Inr c'" "h \<in> H" "asserts_from H c"
  shows "asserts_from H c'"
proof -
  obtain i parent d c1 where c1: "createAssertionHelper env i h n parent d (c\<lparr>lastCreatedAssertionID := i\<rparr>) = Inr c1"
      "stakeOnAssertion (msg_sender env) i c1 = Inr c'"
    using assms(1) by (auto simp: ro_createAssertion_def Let_def)
  have "asserts_from H (c\<lparr>lastCreatedAssertionID := i\<rparr>)" by (rule asserts_from_cong [OF assms(3)]) simp
  then have "asserts_from H c1" by (rule createAssertionHelper_from [OF c1(1) assms(2)])
  then show ?thesis by (rule stakeOnAssertion_from [OF c1(2)])
qed

lemma stake_from: "ro_stake env c = Inr c' \<Longrightarrow> asserts_from H c \<Longrightarrow> asserts_from H c'"
  by (auto simp: ro_stake_def stakeOnAssertion_def Let_def intro!: asserts_fromI dest: asserts_fromD split: if_splits)

lemma completeChallenge_assertions: "ro_completeChallenge env winner loser c = Inr c' \<Longrightarrow> assertions c' = assertions c"
  by (elim completeChallengeE) (auto simp: deleteStaker_def rewarded_def cut_stake_def Let_def split: if_splits)

lemma ro_exec_from:
  assumes "ro_exec env t c = Inr c'" "asserted_in H t" "asserts_from H c"
  shows "asserts_from H c'"
proof (cases t)
  case TxStake
  then show ?thesis using assms by (auto intro: stake_from)
next
  case (TxUnstake n)
  then show ?thesis using assms by (auto simp: ro_unstake_def pay_def Let_def intro: asserts_from_cong split: if_splits)
next
  case (TxRemoveStake a)
  then show ?thesis using assms by (auto simp: ro_removeStake_def deleteStaker_def pay_def intro: asserts_from_cong split: if_splits)
next
  case (TxAdvanceStake i)
  then show ?thesis using assms by (auto simp: ro_advanceStake_def Let_def intro: stakeOnAssertion_from)
next
  case TxWithdraw
  then show ?thesis using assms by (auto simp: ro_withdraw_def pay_def Let_def intro: asserts_from_cong split: if_splits)
next
  case (TxCreateAssertion h n)
  then show ?thesis using assms by (auto intro: createAssertion_from)
next
  case (TxChallenge ps ids)
  then show ?thesis using assms by (auto simp: ro_challengeAssertion_def Let_def intro: asserts_from_cong split: prod.splits)
next
  case TxConfirm
  then show ?thesis using assms by (auto simp: ro_confirmFirstUnresolvedAssertion_def intro: asserts_from_cong)
next
  case (TxReject a)
  then show ?thesis using assms by (auto simp: ro_rejectFirstUnresolvedAssertion_def no_assertion_def intro!: asserts_fromI dest: asserts_fromD split: if_splits)
next
  case (TxCompleteChallenge w l)
  then show ?thesis using assms(1,3) completeChallenge_assertions by (auto intro: asserts_from_cong)
qed (use assms in \<open>auto simp: config_defs intro: asserts_from_cong\<close>)

lemma run_from: "\<forall>(env, t) \<in> set txs. asserted_in H t \<Longrightarrow> asserts_from H c \<Longrightarrow> asserts_from H (foldl ro_apply c txs)"
proof (induction txs arbitrary: c)
  case (Cons t txs)
  have "asserts_from H (ro_apply c t)" using Cons.prems by (cases t) (auto simp: ro_apply_def intro: ro_exec_from split: sum.splits)
  with Cons show ?case by simp
qed simp

lemma initialize_from: "ro_initialize env args = Inr c \<Longrightarrow> init_vmHash args \<in> H \<Longrightarrow> asserts_from H c"
  by (auto simp: ro_initialize_def createAssertionHelper_def ro_blank_def no_assertion_def Let_def asserts_from_def)

section \<open>Properties\<close>

text \<open>
  C18: a message is relayed at most once and every message is accounted for. After the initialization of either portal and any transactions, each of
  which may run any tree of nested calls to the portal, no hash was relayed twice, exactly the relayed hashes are marked as finalized, no relay is in
  progress, the sent messages are numbered consecutively, and exactly their hashes are marked as initiated.
\<close>

theorem messages_relayed_once:
  assumes "L1Portal_initialize self a = Inr p0 \<or> L2Portal_initialize self a = Inr p0" "p = portal_run keccak dec txs p0"
  shows "distinct (relayed p) \<and> (\<forall>h. finalized p h \<longleftrightarrow> h \<in> set (relayed p)) \<and> remoteSender p = DEFAULT_SENDER \<and>
    map x_nonce (sent p) = map of_nat [0..<length (sent p)] \<and> (\<forall>h. initiated p h \<longleftrightarrow> h \<in> hashCrossDomainMessage keccak ` set (sent p))"
proof -
  have f: "fresh_portal p0" using assms(1) initialized_fresh by blast
  have "relays p0 p" unfolding assms(2) by (rule run_relays)
  moreover have "booked keccak p" unfolding assms(2) by (rule run_booked [OF fresh_booked [OF f]])
  ultimately show ?thesis using f by (auto simp: relays_def booked_def fresh_portal_def)
qed

text \<open>
  C13: a deposit that is finalized on L2 was made on L1. Let the oracle's state root be one of L1, that is, let there be proper proofs of the account
  of the L1 portal and of the entry of the message in its storage, present if it was initiated and absent otherwise. If the hash function has no
  collision among the strings of these proofs and of the ones presented, and none among the messages, then whatever proofs are presented, a message
  that \<open>finalizeDepositTransaction\<close> accepts is, up to its version, one that the L1 portal sent.
\<close>

theorem finalized_deposit_was_made:
  assumes "portal_exec keccak dec (finalizeDepositTransaction root env m ap sp calls success) p = Inr p'"
    and "L1Portal_initialize self r = Inr q0" "q = portal_run keccak dec txs q0"
    and "canonical_proof ap0" "secure_get keccak (enc_be 20 (uint (p_other p))) ap0 root = Inr (True, account)" "dec account = Inr sr"
    and "canonical_proof sp0" "h = hashCrossDomainMessage keccak m"
    and "secure_get keccak (storage_key keccak h) sp0 sr = Inr (if initiated q h then (True, [1]) else (False, []))"
    and "collision_free keccak root (ap0 @ ap)" "collision_free keccak sr (sp0 @ sp)"
    and "inj_on keccak (abi_message ` insert m (set (sent q)))" "\<forall>n \<in> insert m (set (sent q)). length (x_data n) < 2 ^ 256"
  shows "m\<lparr>x_version := 0\<rparr> \<in> set (sent q)"
proof -
  obtain h' where c: "relay_checks keccak dec (env\<lparr>pe_root := Inr root\<rparr>) m ap sp p = Inr h'"
    using assms(1) by (auto simp: finalizeDepositTransaction_def)
  then have h': "h' = h" using relay_checks_Inr(1) assms(8) by blast
  obtain account' sr' v where a: "secure_get keccak (enc_be 20 (uint (p_other p))) ap root = Inr (True, account')" "dec account' = Inr sr'"
    and s: "secure_get keccak (storage_key keccak h) sp sr' = Inr (True, v)"
    by (rule relay_proofs [OF c]) (simp_all add: h')
  have "account' = account" using secure_get_binds [OF assms(10,4,5) a(1)] by simp
  then have "sr' = sr" using a(2) assms(6) by simp
  with secure_get_binds [OF assms(11,7,9)] s have "initiated q h" by (auto split: if_splits)
  moreover have b: "booked keccak q" unfolding assms(3) by (rule run_booked [OF fresh_booked [OF initialized_fresh(1) [OF assms(2)]]])
  ultimately obtain n where n: "n \<in> set (sent q)" "keccak (abi_message m) = keccak (abi_message n)"
    using assms(8) by (auto simp: booked_def hashCrossDomainMessage_def)
  then have "abi_message m = abi_message n" by (intro inj_onD [OF assms(12)]) auto
  then have "m\<lparr>x_version := 0\<rparr> = n\<lparr>x_version := 0\<rparr>" by (rule abi_message_inj) (use assms(13) n(1) in auto)
  moreover have "n\<lparr>x_version := 0\<rparr> = n" using b n(1) by (auto simp: booked_def)
  ultimately show ?thesis using n(1) by simp
qed

text \<open>
  C12: what the validator asserts never lets a withdrawal through. The validator asserts the hash of a block's header, and compares the first assertion
  with the hash of the genesis header; the L1 portal takes the asserted hash for a state root. Where the hash of a header is the hash of its RLP encoding, a
  list of neither 2 nor 17 items, and there is no collision with the proof presented, every \<open>finalizeWithdrawalTransaction\<close> reverts, for every
  assertion of a contract whose assertions come from validators, and every message and proof.
\<close>

theorem asserted_blocks_lock_withdrawals:
  assumes "ro_initialize env0 args = Inr c0" "init_vmHash args = computeVmHash genesis" "genesis \<in> headers"
    and "\<forall>(env, t) \<in> set txs. asserted_in (computeVmHash ` headers) t" "c = foldl ro_apply c0 txs"
    and "\<forall>b \<in> headers. h_Hash b = keccak (header_rlp b)"
    and "\<forall>b \<in> headers. \<exists>items. readList (header_rlp b) = Inr items \<and> length items \<noteq> 2 \<and> length items \<noteq> 17"
    and "\<forall>b \<in> headers. collision_free keccak (h_Hash b) (header_rlp b # ap)"
  shows "\<exists>e. portal_exec keccak dec (finalizeWithdrawalTransaction c env m assertionID ap sp calls success) p = Inl e"
proof -
  have "asserts_from (computeVmHash ` headers) c"
    unfolding assms(5) by (rule run_from [OF assms(4) initialize_from [OF assms(1)]]) (use assms(2,3) in simp)
  then have from_headers: "a_stateHash (assertions c assertionID) \<noteq> 0 \<Longrightarrow> a_stateHash (assertions c assertionID) \<in> h_Hash ` headers"
    by (auto simp: asserts_from_def computeVmHash_def)
  have "relay_checks keccak dec (env\<lparr>pe_root := assertion_root c assertionID\<rparr>) m ap sp p \<noteq> Inr h" for h
  proof
    assume c: "relay_checks keccak dec (env\<lparr>pe_root := assertion_root c assertionID\<rparr>) m ap sp p = Inr h"
    then obtain root where root: "assertion_root c assertionID = Inr root" by (auto simp: relay_checks_def)
    then obtain b where b: "b \<in> headers" "root = h_Hash b"
      using from_headers by (auto simp: assertion_root_def isAssertionConfirmed_def ro_getAssertion_def Let_def split: if_splits)
    obtain account where "secure_get keccak (enc_be 20 (uint (p_other p))) ap root = Inr (True, account)"
      by (rule relay_proofs [OF c]) (simp_all add: root)
    then have "trie_get keccak (word32 (keccak (enc_be 20 (uint (p_other p))))) ap (keccak (header_rlp b)) = Inr (True, account)"
      using b assms(6) by (simp add: secure_get_def)
    moreover obtain items where "readList (header_rlp b) = Inr items" "length items \<noteq> 2" "length items \<noteq> 17" using assms(7) b(1) by blast
    moreover have "collision_free keccak (keccak (header_rlp b)) (header_rlp b # ap)" using assms(6,8) b(1) by auto
    ultimately show False
      using no_proof_against_hash by (auto simp: BRANCH_NODE_LENGTH_def TREE_RADIX_def LEAF_OR_EXTENSION_NODE_LENGTH_def)
  qed
  then obtain e where "relay_checks keccak dec (env\<lparr>pe_root := assertion_root c assertionID\<rparr>) m ap sp p = Inl e" by (metis sum.exhaust)
  then show ?thesis by (simp add: finalizeWithdrawalTransaction_def)
qed

section \<open>A deposit\<close>

text \<open>A hash by length and last byte, and tries of a single leaf.\<close>

definition tag_hash :: "bytes \<Rightarrow> hash" where
  "tag_hash bs = word_of_int (int (length bs) * 256 + uint (last bs))"

definition leaf_node :: "bytes \<Rightarrow> bytes \<Rightarrow> bytes" where
  "leaf_node key item =
     (let payload = 0xa1 # 0x20 # key @ item in
      if length payload \<le> 55 then of_nat (0xc0 + length payload) # payload else 0xf8 # of_nat (length payload) # payload)"

lemma collision_free_code:
  "collision_free keccak root ps \<longleftrightarrow> distinct (map keccak (remdups (ps @ map (\<lambda>e. word32 (keccak e)) ps @ [word32 root, RLP_NULL])))"
proof -
  have "trie_strings keccak root ps = set (remdups (ps @ map (\<lambda>e. word32 (keccak e)) ps @ [word32 root, RLP_NULL]))"
    by (auto simp: trie_strings_def)
  then show ?thesis by (simp only: collision_free_def distinct_map distinct_remdups simp_thms)
qed

text \<open>Without the restriction to tries without empty extensions, a proof and its beginning may give different values.\<close>

lemma empty_extension_two_answers:
  "let leaf = [0xc2, 0x20, 0x05]; extension = 0xe2 # 0x00 # 0xa0 # word32 (tag_hash leaf) in
   trie_get tag_hash [] [extension, leaf] (tag_hash extension) = Inr (True, [5]) \<and>
   trie_get tag_hash [] [extension] (tag_hash extension) = Inr (True, word32 (tag_hash leaf))"
  by code_simp

definition demo_portal_env :: portal_env where
  "demo_portal_env = \<lparr>pe_sender = 5, pe_value = 3, pe_alias = False, pe_onlyProxy = True, pe_notPaused = True, pe_gasleft = 50000, pe_root = Inl []\<rparr>"

definition demo_message :: CrossDomainMessage where
  "demo_message = \<lparr>x_version = 0, x_nonce = 0, x_sender = 5, x_target = 6, x_value = 3, x_gasLimit = 10, x_data = [9]\<rparr>"

definition demo_portal :: "address \<Rightarrow> address \<Rightarrow> portal" where
  "demo_portal self other = \<lparr>p_self = self, p_other = other, initiated = (\<lambda>_. False), remoteSender = DEFAULT_SENDER, p_nonce = 0, finalized = (\<lambda>_. False),
     sent = [], relayed = []\<rparr>"

definition demo_storage_leaf :: bytes where
  "demo_storage_leaf = leaf_node (word32 (tag_hash (storage_key tag_hash (hashCrossDomainMessage tag_hash demo_message)))) [1]"

definition demo_account_leaf :: bytes where
  "demo_account_leaf = leaf_node (word32 (tag_hash (enc_be 20 7))) (0xa0 # word32 (tag_hash demo_storage_leaf))"

text \<open>An account is the word of its storage root.\<close>

definition demo_account_root :: "bytes \<Rightarrow> string + hash" where
  "demo_account_root bs = Inr (word_of_int (dec_be bs))"

text \<open>The proof has a node too many, and the target sends a message back and tries to relay the same message again.\<close>

definition demo_relay :: portal_tx where
  "demo_relay = finalizeDepositTransaction (tag_hash demo_account_leaf) demo_portal_env demo_message [demo_account_leaf, [0xc0]] [demo_storage_leaf]
     [Receive demo_portal_env, Relay (demo_portal_env\<lparr>pe_root := Inr (tag_hash demo_account_leaf)\<rparr>) demo_message [demo_account_leaf] [demo_storage_leaf] [] True] True"

definition demo_l1_txs :: "portal_tx list" where
  "demo_l1_txs = [Initiate demo_portal_env 6 10 [9]]"

lemma demo_portals: "L2Portal_initialize 8 7 = Inr (demo_portal 8 7)" "L1Portal_initialize 7 4 = Inr (demo_portal 7 L2_PORTAL)"
  by (simp_all add: L2Portal_initialize_def L1Portal_initialize_def demo_portal_def require_def)

lemma demo_relayed: "\<exists>p'. portal_exec tag_hash demo_account_root demo_relay (demo_portal 8 7) = Inr p'"
proof -
  have "case portal_exec tag_hash demo_account_root demo_relay (demo_portal 8 7) of Inr p' \<Rightarrow> True | Inl e \<Rightarrow> False" by code_simp
  then show ?thesis by (auto split: sum.splits)
qed

theorem messages_relayed_once_witness:
  "distinct (relayed (portal_run tag_hash demo_account_root [demo_relay, demo_relay] (demo_portal 8 7))) \<and>
   length (relayed (portal_run tag_hash demo_account_root [demo_relay] (demo_portal 8 7))) = 1"
proof
  show "distinct (relayed (portal_run tag_hash demo_account_root [demo_relay, demo_relay] (demo_portal 8 7)))"
    using messages_relayed_once [OF _ refl, of 8 7 "demo_portal 8 7"] demo_portals by blast
  show "length (relayed (portal_run tag_hash demo_account_root [demo_relay] (demo_portal 8 7))) = 1" by code_simp
qed

theorem finalized_deposit_was_made_witness:
  "demo_message \<in> set (sent (portal_run tag_hash demo_account_root demo_l1_txs (demo_portal 7 L2_PORTAL)))"
proof -
  let ?q = "portal_run tag_hash demo_account_root demo_l1_txs (demo_portal 7 L2_PORTAL)" and ?h = "hashCrossDomainMessage tag_hash demo_message"
  obtain p' where p': "portal_exec tag_hash demo_account_root demo_relay (demo_portal 8 7) = Inr p'" using demo_relayed by blast
  have c: "canonical_proof [demo_account_leaf]" "canonical_proof [demo_storage_leaf]" by code_simp+
  have a: "secure_get tag_hash (enc_be 20 (uint (p_other (demo_portal 8 7)))) [demo_account_leaf] (tag_hash demo_account_leaf) =
      Inr (True, word32 (tag_hash demo_storage_leaf))" by code_simp
  have r: "demo_account_root (word32 (tag_hash demo_storage_leaf)) = Inr (tag_hash demo_storage_leaf)" by code_simp
  have s: "secure_get tag_hash (storage_key tag_hash ?h) [demo_storage_leaf] (tag_hash demo_storage_leaf) = Inr (True, [1])" by code_simp
  have i: "initiated ?q ?h" by code_simp
  have f: "collision_free tag_hash (tag_hash demo_account_leaf) ([demo_account_leaf] @ [demo_account_leaf, [0xc0]])"
    "collision_free tag_hash (tag_hash demo_storage_leaf) ([demo_storage_leaf] @ [demo_storage_leaf])"
    unfolding collision_free_code by code_simp+
  have q: "sent ?q = [demo_message]" by code_simp
  have "demo_message\<lparr>x_version := 0\<rparr> \<in> set (sent ?q)"
    by (rule finalized_deposit_was_made [OF p' [unfolded demo_relay_def] demo_portals(2) refl c(1) a r c(2) refl _ f])
      (use s i q in \<open>simp_all add: demo_message_def\<close>)
  then show ?thesis by (simp add: demo_message_def)
qed

section \<open>A withdrawal\<close>

definition demo_header_rlp :: "Header \<Rightarrow> bytes" where
  "demo_header_rlp b = 0xd0 # map of_nat [1..<17]"

definition demo_genesis_header :: Header where
  "demo_genesis_header = \<lparr>h_Number = 0, h_Hash = tag_hash (0xd0 # map of_nat [1..<17]), h_ParentHash = 0\<rparr>"

definition demo_rollup_args :: ro_init_args where
  "demo_rollup_args = demo_args\<lparr>init_vmHash := h_Hash demo_genesis_header\<rparr>"

theorem asserted_blocks_lock_withdrawals_witness:
  "\<exists>c0 e. ro_initialize (sent_by 1 0 1) demo_rollup_args = Inr c0 \<and> assertion_root c0 0 = Inr (h_Hash demo_genesis_header) \<and>
    portal_exec tag_hash demo_account_root
      (finalizeWithdrawalTransaction c0 demo_portal_env demo_message 0 [demo_header_rlp demo_genesis_header] [] [] True) (demo_portal 7 L2_PORTAL) = Inl e"
proof -
  have "case ro_initialize (sent_by 1 0 1) demo_rollup_args of Inr c \<Rightarrow> assertion_root c 0 = Inr (h_Hash demo_genesis_header) | Inl e \<Rightarrow> False" by code_simp
  then obtain c0 where c0: "ro_initialize (sent_by 1 0 1) demo_rollup_args = Inr c0" "assertion_root c0 0 = Inr (h_Hash demo_genesis_header)"
    by (auto split: sum.splits)
  have l: "\<exists>items. readList (demo_header_rlp demo_genesis_header) = Inr items \<and> length items \<noteq> 2 \<and> length items \<noteq> 17"
  proof -
    have "case readList (demo_header_rlp demo_genesis_header) of Inr items \<Rightarrow> length items = 16 | Inl e \<Rightarrow> False" by code_simp
    then show ?thesis by (auto split: sum.splits)
  qed
  have f: "collision_free tag_hash (h_Hash demo_genesis_header) (demo_header_rlp demo_genesis_header # [demo_header_rlp demo_genesis_header])"
    unfolding collision_free_code by code_simp
  have "\<exists>e. portal_exec tag_hash demo_account_root
      (finalizeWithdrawalTransaction c0 demo_portal_env demo_message 0 [demo_header_rlp demo_genesis_header] [] [] True) (demo_portal 7 L2_PORTAL) = Inl e"
    by (rule asserted_blocks_lock_withdrawals [OF c0(1), where headers = "{demo_genesis_header}" and txs = "[]" and header_rlp = demo_header_rlp
          and genesis = demo_genesis_header])
      (use l f in \<open>simp_all add: demo_rollup_args_def computeVmHash_def demo_genesis_header_def demo_header_rlp_def\<close>)
  with c0 show ?thesis by blast
qed

end
