(* ===== verification/Oracle_Contract.thy ===== *)
theory Oracle_Contract
  imports Fee_Hook Portal_Contract
begin

text \<open>
  \<^verbatim>\<open>contracts/src/bridge/L1Oracle.sol\<close>: the contract on L2 that keeps what L2 knows of L1. The fee hook reads the base fee from its storage, and the L2 portal proves
  deposits against its state root. The slots of its fields, which OpenZeppelin's base contracts determine, and its pausing are parameters.
\<close>

record L1Oracle =
  o_number :: uint256
  o_timestamp :: uint256
  o_baseFee :: uint256
  o_hash :: hash
  o_stateRoot :: hash

record oracle_env =
  oe_sender :: address
  oe_coinbase :: address
  oe_notPaused :: bool

definition setL1OracleValues :: "oracle_env \<Rightarrow> L1Oracle \<Rightarrow> L1Oracle \<Rightarrow> string + L1Oracle" where
  "setL1OracleValues env vals orc =
     bind_s (require (oe_sender env = oe_coinbase env) ''Only the coinbase can call this function.'') (\<lambda>_.
     bind_s (require (oe_notPaused env) ''Pausable: paused'') (\<lambda>_.
     bind_s (require (o_number orc < o_number vals) ''Block number must be greater than the current block number.'') (\<lambda>_.
       Inr (orc\<lparr>o_number := o_number vals, o_timestamp := o_timestamp vals, o_baseFee := o_baseFee vals, o_hash := o_hash vals,
              o_stateRoot := o_stateRoot vals\<rparr>))))"

definition oracle_apply :: "L1Oracle \<Rightarrow> oracle_env \<times> L1Oracle \<Rightarrow> L1Oracle" where
  "oracle_apply orc call = (case setL1OracleValues (fst call) (snd call) orc of Inl e \<Rightarrow> orc | Inr orc' \<Rightarrow> orc')"

lemma setL1OracleValues_iff:
  "setL1OracleValues env vals orc = Inr orc' \<longleftrightarrow>
     oe_sender env = oe_coinbase env \<and> oe_notPaused env \<and> o_number orc < o_number vals \<and> orc' = vals"
  by (cases orc; cases vals) (auto simp: setL1OracleValues_def)

interpretation oracle_numbers: monotone_component oracle_apply o_number
  by unfold_locales (auto simp: oracle_apply_def setL1OracleValues_iff split: sum.splits)

text \<open>Where the oracle's fields are in the storage of its account.\<close>

record oracle_slots =
  slot_number :: hash
  slot_timestamp :: hash
  slot_baseFee :: hash
  slot_hash :: hash
  slot_stateRoot :: hash

definition oracle_at :: "'db StateDB \<Rightarrow> oracle_slots \<Rightarrow> address \<Rightarrow> 'db \<Rightarrow> L1Oracle" where
  "oracle_at ops sl a db =
     \<lparr>o_number = sdb_GetState ops a (slot_number sl) db, o_timestamp = sdb_GetState ops a (slot_timestamp sl) db,
      o_baseFee = sdb_GetState ops a (slot_baseFee sl) db, o_hash = sdb_GetState ops a (slot_hash sl) db,
      o_stateRoot = sdb_GetState ops a (slot_stateRoot sl) db\<rparr>"

lemma run_last_accepted:
  "foldl oracle_apply orc calls = orc \<or>
   (\<exists>env. (env, foldl oracle_apply orc calls) \<in> set calls \<and> oe_sender env = oe_coinbase env \<and> oe_notPaused env \<and>
      o_number orc < o_number (foldl oracle_apply orc calls))"
proof (induction calls arbitrary: orc)
  case (Cons call calls)
  obtain env vals where call: "call = (env, vals)" by fastforce
  show ?case
  proof (cases "oracle_apply orc call = orc")
    case True
    with Cons.IH [of orc] show ?thesis by auto
  next
    case False
    then obtain orc' where "setL1OracleValues env vals orc = Inr orc'" "oracle_apply orc call = orc'"
      by (auto simp: call oracle_apply_def split: sum.splits)
    then have v: "oracle_apply orc call = vals" "oe_sender env = oe_coinbase env" "oe_notPaused env" "o_number orc < o_number vals"
      by (simp_all add: setL1OracleValues_iff)
    with Cons.IH [of vals] oracle_numbers.run_mono [of vals calls] show ?thesis by (auto simp: call intro: less_le_trans)
  qed
qed simp

text \<open>
  The fee follows the oracle. When the account of the oracle holds what any sequence of calls left in it, the fee of a transaction is computed from the base
  fee of the oracle's first values or of a call that the coinbase made for a later L1 block; calls by others and calls for earlier
  blocks leave the fee as it is.
\<close>

lemma fee_follows_oracle:
  assumes "oracle_at ops sl (L1OracleAddress conf) db = foldl oracle_apply orc calls" "slot_baseFee sl = L1OracleBaseFeeSlot conf"
    and "EncodeRLP tx = Ok bs" "3 \<le> length bs" "(z, n) = zeroesAndOnes (take (length bs - 3) bs)"
  shows "\<exists>vals. (vals = orc \<or> (\<exists>env. (env, vals) \<in> set calls \<and> oe_sender env = oe_coinbase env \<and> o_number orc < o_number vals)) \<and>
    calculateL1Fee EncodeRLP ops tx db conf = Ok (ScaleBigInt (txDataGas z n (L1FeeOverhead conf) * uint (o_baseFee vals)) (L1FeeMultiplier conf))"
proof -
  let ?v = "foldl oracle_apply orc calls"
  have "sdb_GetState ops (L1OracleAddress conf) (L1OracleBaseFeeSlot conf) db = o_baseFee ?v"
    using assms(2) by (simp add: assms(1) [symmetric] oracle_at_def)
  then have "calculateL1Fee EncodeRLP ops tx db conf = Ok (ScaleBigInt (txDataGas z n (L1FeeOverhead conf) * uint (o_baseFee ?v)) (L1FeeMultiplier conf))"
    using assms(3,4) by (simp add: calculateL1Fee_def readStorageSlot_def assms(5) [symmetric])
  with run_last_accepted [of orc calls] show ?thesis by blast
qed

definition demo_oracle :: "256 word \<Rightarrow> 256 word \<Rightarrow> L1Oracle" where
  "demo_oracle n fee = \<lparr>o_number = n, o_timestamp = 0, o_baseFee = fee, o_hash = 0, o_stateRoot = 0\<rparr>"

definition demo_oracle_env :: "address \<Rightarrow> oracle_env" where
  "demo_oracle_env a = \<lparr>oe_sender = a, oe_coinbase = 7, oe_notPaused = True\<rparr>"

lemma stale_and_foreign_calls:
  "foldl oracle_apply (demo_oracle 4 10) [(demo_oracle_env 7, demo_oracle 6 30), (demo_oracle_env 8, demo_oracle 7 1), (demo_oracle_env 7, demo_oracle 5 2)] =
   demo_oracle 6 30"
  by code_simp

end
