(* ===== verification/Spec2Isabelle.thy ===== *)
theory Spec2Isabelle
  imports Retry Batch_Delivery Assertion_Path Gas_Estimation Genesis_Cmd Mapped_Sub Service_Config Prover Bindings_Gen Assertion_Type Logging Portal_Path Oracle_Contract
begin

text \<open>
  A verification of the core of Specular, an optimistic rollup: the sidecar that posts batches and assertions to L1
  with the contracts they reach there, the hook that charges the L1 fee in the execution client, the tool that builds
  the L2 genesis with the simulated chain it runs on, and the generator of execution states for one-step proofs.

  \<^bold>\<open>The program.\<close> The sidecar (\<^verbatim>\<open>src/services/sidecar\<close>) runs two services.
  The batch disseminator reads new L2 blocks from the execution client, queues them in a batch builder, which feeds
  them to a versioned encoder, and sends each finished batch to the sequencer inbox on L1. The validator stakes on L1,
  creates an assertion for each new safe L2 head and confirms the first unresolved assertion. Both send through the
  bridge's transaction manager, which packs the call and hands it to the L1 transaction manager: it takes a nonce,
  chooses fees, publishes, and resubmits with larger fees until a receipt is deep enough. The heads of L1 are tracked
  by \<open>EthState\<close>, which a syncer feeds from three header subscriptions, each with its own broker. On L1,
  the rollup contract (\<^verbatim>\<open>src/contracts/src/Rollup.sol\<close>) keeps stakes and assertions and the
  sequencer inbox (\<^verbatim>\<open>SequencerInbox.sol\<close>) accepts batches; a challenge contract
  (\<^verbatim>\<open>challenge/SymChallenge.sol\<close>) is to settle disputes between validators, and the portals
  (\<^verbatim>\<open>bridge\<close>) pass messages between the chains, with Merkle proofs against the asserted state
  on L1 and the oracle's state root on L2. The fee hook (\<^verbatim>\<open>src/lib/el_golang_lib\<close>) runs before
  every transfer on L2. The genesis tool (\<^verbatim>\<open>src/ops\<close>) deploys the system contracts on a
  simulated chain and writes their code and storage into an in-memory state.

  \<^bold>\<open>Shape of the model.\<close> Structs are records, tagged alternatives datatypes;
  \<open>uint64\<close>, hashes and addresses are words of 64, 256 and 160 bits, \<open>*big.Int\<close> is
  \<open>int\<close>, and a pointer that may be nil an option. A Go call that reads or changes something is a
  \<open>call\<close>: from a state to an \<open>outcome\<close> (\<open>Ok\<close>, \<open>Err\<close> with a Go
  error, \<open>Panic\<close>) and a state. What is not under \<^verbatim>\<open>src\<close> is a parameter: the L1
  and L2 clients, the signer and the clock are record fields of type \<open>call\<close> over an arbitrary world
  \<open>'w\<close>; RLP is the record \<open>codec\<close>, the contract ABIs \<open>abi\<close>, geth's helpers
  \<open>geth\<close>, its chain \<open>geth_core\<close> and EVM \<open>geth_evm\<close>, the deployment chain
  \<open>deploy_env\<close>, the command-line library \<open>cli_Context\<close>. A transaction of a contract is a
  function from its storage to an error or a new storage; OpenZeppelin's roles and pausing are answers the message
  carries, and \<open>keccak256\<close> is an argument; what relies on it having no collisions says so for the strings
  that occur (\<open>collision_free\<close>), since a function to 256 bits is not injective. What is relied on of them
  is a named predicate (\<open>rlp_list_header\<close>, \<open>rlp_public_only\<close>, \<open>rlp_inverse\<close>,
  \<open>signer_keeps\<close>, \<open>suggestions_nonneg\<close>, \<open>map_range\<close>, \<open>geth_laws\<close>,
  \<open>journal_laws\<close> and \<open>content_laws\<close>, operation by operation), and every theorem that has one
  as a hypothesis is applied to a concrete instance. Errors keep their wrapping and whether they are a pointer or a
  value of their type, which \<open>errors.As\<close> tells apart.

  \<^bold>\<open>Theories.\<close>
  \<^item> \<open>Go_Prelude\<close>: errors, outcomes, call combinators, printing, two locales for components driven
    by sequences of events (\<open>event_component\<close>, \<open>monotone_component\<close>) and one for a component
    that implements an abstract specification (\<open>implements\<close>).
  \<^item> \<open>Retry\<close> (\<^verbatim>\<open>utils/retry\<close>): \<open>Do\<close> and the strategies.
    \<open>Do\<close> stops after the first success and after at most \<open>maxAttempts\<close> attempts; the
    exponential strategy is bounded until its product overflows.
  \<^item> \<open>Send_State\<close> (\<^verbatim>\<open>txmgr/send_state.go\<close>): the record
    \<open>SendState\<close> and its operations. The abort decision is characterised over the history of reports (C6).
  \<^item> \<open>Tx_Fees\<close>, \<open>Tx_Mgr\<close> (\<^verbatim>\<open>txmgr/tx_mgr.go\<close>): fee arithmetic,
    nonces, \<open>craftTx\<close>, \<open>increaseGasPrice\<close>, \<open>queryReceipt\<close>, \<open>send\<close>.
    \<open>sendTx\<close> with its goroutines is the inductive relation \<open>sendTx_step\<close> on
    \<open>send_run\<close>; a goroutine of \<open>publishAndWaitForTx\<close> and \<open>waitMined\<close> is a
    \<open>goroutine\<close> value. Invariants by rule induction give that all resubmissions carry one payload (C4),
    that a returned receipt is confirmed (C5), and that nothing is resubmitted once mined; fee bounds are C37, and
    after a reset nonces are consecutive.
  \<^item> \<open>Eth_State\<close> (\<^verbatim>\<open>rpc/eth/eth_state.go\<close>,
    \<^verbatim>\<open>types/block_id.go\<close>, \<^verbatim>\<open>utils/map.go\<close>): tracked heads; they never
    regress, and conflicts are refused.
  \<^item> \<open>Bridge\<close> (\<^verbatim>\<open>rpc/bridge\<close>): packing, unpacking and sending of the
    contract calls.
  \<^item> \<open>Batch_Encoder\<close> (\<^verbatim>\<open>derivation/batch_v0_encoder.go\<close>,
    \<open>DecodeBatch\<close>): the V0 format. The abstraction \<open>derived\<close> reads the blocks a list of
    sub-batches stands for; under the invariant \<open>enc_inv\<close>, \<open>ProcessBlock\<close> appends to it
    exactly the accepted block (C1).
  \<^item> \<open>Batch_Builder\<close> (\<^verbatim>\<open>derivation/batch_builder.go\<close>): the queue in front
    of an encoder. The locale \<open>versioned_encoder\<close> states what the builder relies on, proves that
    \<open>Build\<close> conserves blocks over any encoder, and is interpreted on the V0 encoder (C3, C20).
  \<^item> \<open>Disseminator\<close>, \<open>Validator\<close> (\<^verbatim>\<open>rollup/services\<close>): the two
    services with their event loops (C21, C36; a reorganisation rolls the builder back, a foreign genesis stops the
    validator, a batch that fails is sent again). The locale \<open>batch_source\<close> is what the disseminator
    relies on of a builder; the batch builder interprets it.
  \<^item> \<open>Data_Path\<close>: the abstract specification of the path from L2 blocks to posted batches. The
    queue \<open>path\<close> with its relation \<open>path_step\<close> is implemented by the builder over every
    encoder of the contract (a \<open>sublocale\<close> of \<open>implements\<close>, C10); conservation of blocks is
    proved on the queue and holds for the builder (C8); every run of the disseminator is a run of
    \<open>service_path\<close> (C9).
  \<^item> \<open>Rollup_Contract\<close>, \<open>Rollup_Invariants\<close>
    (\<^verbatim>\<open>contracts/src/Rollup.sol\<close>): the transactions and views of the rollup contract, with its
    errors and checked arithmetic, and what holds after any sequence of transactions: it can pay what it owes (C15),
    it counts its stakers, and it accepts one assertion in its life (C14).
  \<^item> \<open>Assertion_Path\<close>: the validator and the rollup contract together. The locale
    \<open>rollup_l1\<close> is what the validator relies on of L1; a \<open>sublocale\<close> derives it for the
    validator over the bridge and the transaction manager from what a node is documented to do
    (\<open>l1_node\<close>, \<open>sending_node\<close>), interpreted on a node that mines what it is sent. In a run
    the validator asserts at most once (C11), and a new safe head at every step keeps it from confirming (C16).
  \<^item> \<open>Inbox_Contract\<close>, \<open>Batch_Delivery\<close>
    (\<^verbatim>\<open>contracts/src/SequencerInbox.sol\<close>): the sequencer inbox, whose inclusion proofs never
    verify, and the way of a batch from the builder through bridge and transaction manager to it: a batch the
    disseminator lets go has a confirmed receipt for a transaction to the inbox with the batch's bytes (C7).
  \<^item> \<open>Challenge_Contract\<close>, \<open>Challenge_Path\<close>
    (\<^verbatim>\<open>contracts/src/challenge\<close>): the challenge game, over the contracts it calls, and
    together with the rollup contract and the inbox. No challenge gets started (C19); one that were is decided by the
    numbers of steps the players name (C17), and outsiders can keep it from timing out.
  \<^item> \<open>Merkle_Trie\<close> (\<^verbatim>\<open>contracts/src/libraries\<close>): the RLP reader and the
    verifier of Merkle proofs. A proof binds the value of a key: two proofs under one root give the same answer, if
    one of them is of a proper trie.
  \<^item> \<open>Portal_Contract\<close>, \<open>Portal_Path\<close>
    (\<^verbatim>\<open>contracts/src/bridge\<close>): both portals, with the nested calls of a message's target as a
    tree. Messages are relayed once (C18), a finalized deposit was made on L1 (C13), and what the validator asserts
    lets no withdrawal through (C12).
  \<^item> \<open>Oracle_Contract\<close> (\<^verbatim>\<open>contracts/src/bridge/L1Oracle.sol\<close>): the oracle's
    values, which only later L1 blocks replace, and the fee that follows them.
  \<^item> \<open>Rollup_Config\<close> (\<^verbatim>\<open>services/rollup_config.go\<close>): the checks of the
    configuration and the block schedule.
  \<^item> \<open>Memory_DB\<close> (\<^verbatim>\<open>ops/state/memory_db.go\<close>): accounts of the in-memory
    state. The locale \<open>account_state\<close> is the interface of balances and storage that the fee hook uses.
  \<^item> \<open>Fee_Hook\<close> (\<^verbatim>\<open>lib/el_golang_lib/hook/fee_hook.go\<close>): the L1 fee, with
    the 64-bit mantissas of \<open>big.Float\<close> and the rounding of the multiplier to three decimals (C24), and
    its charge (C23).
  \<^item> \<open>Storage_Encoding\<close> (\<^verbatim>\<open>ops/state/encoding.go\<close>,
    \<^verbatim>\<open>state.go\<close>, \<^verbatim>\<open>bindings/registry.go\<close>): Solidity storage (C40).
  \<^item> \<open>Predeploys\<close>, \<open>Genesis\<close> (\<^verbatim>\<open>ops/predeploys\<close>,
    \<^verbatim>\<open>ops/deployer\<close>, \<^verbatim>\<open>ops/genesis\<close>): deployment and the genesis state
    (C22).
  \<^item> \<open>Sim_Backend\<close>, \<open>Gas_Estimation\<close>, \<open>Sim_Setup\<close>
    (\<^verbatim>\<open>ops/backends/simulated.go\<close>, \<^verbatim>\<open>ops/deployer\<close>): the simulated
    chain. The abstract specification \<open>ledger_step\<close> is a ledger of committed blocks and pending
    transactions; the backend interprets \<open>implements\<close> with the abstraction \<open>sim_abs\<close> (C25).
    Calls and estimates on the pending state leave no trace (C33); the bisection of \<open>EstimateGas\<close> returns
    the least allowance where more gas never hurts (C27), except that it hangs for the largest gas limit.
    \<open>Sim_Setup\<close> has the options, constructors, log filters and the relays of subscriptions.
  \<^item> \<open>Genesis_Cmd\<close> (\<^verbatim>\<open>ops/cmd/genesis\<close>): the deployer on the simulated
    chain, as a run of the ledger (C26), and the command that writes the genesis file.
  \<^item> \<open>Broker\<close> (\<^verbatim>\<open>utils/broker.go\<close>,
    \<^verbatim>\<open>rpc/eth/eth_syncer.go\<close>, \<^verbatim>\<open>rpc/eth/utils.go\<close>): the goroutines of
    a broker and of its callbacks as labelled steps over bounded channels; a run is a list of labels, and a step that
    is not enabled changes nothing. Subscribers see the messages in order and lose none (C28); C29, C30 and C35 are
    what goes wrong.
  \<^item> \<open>Go_Fmt\<close> (\<^verbatim>\<open>utils/fmt\<close>, \<^verbatim>\<open>utils/errors.go\<close>):
    errors with stacks, and the parser of printed panics (C31).
  \<^item> \<open>Service_Config\<close> (\<^verbatim>\<open>services/config.go\<close>,
    \<^verbatim>\<open>flags.go\<close>, \<^verbatim>\<open>rpc/eth/eth_client.go\<close>,
    \<^verbatim>\<open>cmd/sidecar/main.go\<close>): flags, the configuration read from them (C34), dialling, and the
    wiring of the services.
  \<^item> \<open>Prover\<close> (\<^verbatim>\<open>services/sidecar/proof\<close>): execution states and proofs
    (C32).
  \<^item> \<open>Mapped_Sub\<close> (\<^verbatim>\<open>rpc/eth/utils.go\<close>): one subscription mapped to several
    channels.
  \<^item> \<open>Canonicalize\<close> (\<^verbatim>\<open>ops/bindings/ast/canonicalize.go\<close>): canonical
    identifiers of a storage layout.
  \<^item> \<open>Bindings_Gen\<close> (\<^verbatim>\<open>ops/bindings/gen\<close>,
    \<^verbatim>\<open>ops/bindings/solc\<close>): the reader of hardhat artifacts, whose cache is transparent (C38),
    and the writer of the bindings.
  \<^item> \<open>Assertion_Type\<close> (\<^verbatim>\<open>rollup/types/assertion.go\<close>): a copy of an
    assertion shares no number with the original.
  \<^item> \<open>Logging\<close> (\<^verbatim>\<open>utils/log\<close>): the prefixes of log messages.

  This theory holds what spans components: a batch that reaches L1 (C2) and the validator's stake (C39).

  \<^bold>\<open>Loops.\<close> Loops over a slice or a counter are recursive functions. The loop of
  \<open>appendToBuilder\<close> over \<open>uint64\<close> does not end for the largest end number, and
  \<open>disseminateBatches\<close> may not end at all; both are \<open>while_option\<close>, so that not returning is
  \<open>None\<close>, and C36 proves that the first returns. The bisection of \<open>EstimateGas\<close> is a
  \<open>partial_function (option)\<close> for the same reason. The event loops of the services are recursive over the
  list of ticks and cancellations they receive. No definition uses fuel.

  \<^bold>\<open>What is not modelled.\<close> Context deadlines other than as errors of the calls they bound; the
  JSON and command-line libraries; generated contract bindings, which only call the ABI library; the types of compiler
  output that no code of the repository reads; re-exports of the standard formatting functions; the token bridges,
  mintable tokens, the faucet and the upgradeable base contracts, which wrap OpenZeppelin's; the balances of ether of
  the portals; and the test suites.
\<close>

section \<open>Properties across components\<close>

text \<open>
  C2: the batch that reaches L1 carries no transactions. When \<open>disseminateBatch\<close> over the V0 encoder
  succeeds with a newly built batch (none was built before and is waiting), the bytes it passed to \<open>AppendTxBatch\<close> decode to blank sub-batches,
  whatever blocks were pending: the receipt is for a batch without content.
\<close>

theorem disseminated_batch_is_blank:
  assumes "rlp_inverse lib" "batchBuilder_ops d = batchBuilder_methods (V0_methods lib) u"
    and "lastBuilt b = None" "disseminateBatch d (b, w) = (Ok (), (b', w'))"
  shows "\<exists>batch receipt n. l1TxMgr_AppendTxBatch d batch w = (Ok receipt, w') \<and> lastBuilt b' = None \<and>
    DecodeBatch lib batch = Ok (replicate n newSubBatch)"
proof -
  obtain rb b1 where b1: "Build (V0_methods lib) u (l1State_Head d w) b = (rb, b1)" by fastforce
  obtain batch where rb: "rb = Ok batch"
    using assms(2,4) b1 by (cases rb) (auto simp: disseminateBatch_def batchBuilder_methods_def)
  obtain ra w1 where ra: "l1TxMgr_AppendTxBatch d batch w = (ra, w1)" by fastforce
  obtain receipt where rr: "ra = Ok receipt" "w1 = w'" "b' = Advance b1"
    using assms(2,4) b1 rb ra by (cases ra) (auto simp: disseminateBatch_def batchBuilder_methods_def)
  obtain f e e' where "GetBatch_V0 lib f e = (Ok batch, e')"
    using b1 rb assms(3)
    by (auto simp: Build_def getBatch_def Let_def V0_methods_def split: prod.splits outcome.splits if_splits)
  from GetBatch_V0_blank [OF assms(1) this] ra rr show ?thesis by (auto simp: Advance_def)
qed

definition demo_dis_ok :: "(BatchV0Encoder batchBuilder, bytes list) BatchDisseminator" where
  "demo_dis_ok = demo_dis\<lparr>l1TxMgr_AppendTxBatch :=
     (\<lambda>batch w. (Ok \<lparr>rc_TxHash = 1, rc_BlockNumber = 1, rc_Failed = False\<rparr>, w @ [batch]))\<rparr>"

theorem disseminated_batch_is_blank_witness:
  "\<exists>batch n. snd (snd (disseminateBatch demo_dis_ok (demo_builder, []))) = [batch] \<and>
     DecodeBatch demo_codec batch = Ok (replicate n newSubBatch)"
proof -
  have ops: "batchBuilder_ops demo_dis_ok = batchBuilder_methods (V0_methods demo_codec) demo_util"
    by (simp add: demo_dis_ok_def demo_dis_def)
  have nb: "lastBuilt demo_builder = None" by (simp add: demo_builder_def)
  have "fst (disseminateBatch demo_dis_ok (demo_builder, [])) = Ok ()" by code_simp
  then obtain b' w' where d: "disseminateBatch demo_dis_ok (demo_builder, []) = (Ok (), (b', w'))" by (metis prod.collapse)
  from disseminated_batch_is_blank [OF demo_codec_laws(2) ops nb d] d show ?thesis by (auto simp: demo_dis_ok_def)
qed

text \<open>
  C39: a validator cannot meet a large stake. \<open>ensureStaked\<close>, for an account that is not staked, passes the required amount through the bridge's
  \<open>Stake\<close>, which attaches it modulo \<open>2 ^ 64\<close>: from about 18.4 ether on, the transaction that is sent carries strictly less than the
  required stake, and the rollup contract that asks for this amount refuses it.
\<close>

theorem ensureStaked_truncates_stake:
  assumes "v_l1TxMgr v = bridge_methods m" "packStakeInput (bridge_util m) = Ok d"
    and "br_GetStaker (l1BridgeClient v) (AccountAddr v) w = (Ok staker, w1)" "\<not> IsStaked staker"
    and "br_GetRequiredStakeAmount (l1BridgeClient v) w1 = (Ok amount, w2)" "2 ^ 64 \<le> amount"
    and sent: "EthTxManager_Send m \<lparr>cand_TxData = d, cand_To = Some (RollupAddr (bridge_cfg m)), cand_GasLimit = 0,
      cand_Value = Some (amount mod 2 ^ 64)\<rparr> w2 = (r, w3)"
    and contract: "amount = uint (currentRequiredStake c)" "\<not> s_isStaked (stakers c (msg_sender env))" "msg_value env = word_of_int (amount mod 2 ^ 64)"
  shows "snd (ensureStaked v w) = w3 \<and> (is_Ok (fst (ensureStaked v w)) \<longleftrightarrow> is_Ok r) \<and> amount mod 2 ^ 64 < amount \<and>
    (\<exists>e. ro_stake env c = Inl e)"
proof -
  have "vt_Stake (v_l1TxMgr v) amount w2 = (r, w3)"
    using Stake_sends [OF assms(2), of amount] sent by (simp add: assms(1) bridge_methods_def)
  then have "snd (ensureStaked v w) = w3 \<and> (is_Ok (fst (ensureStaked v w)) \<longleftrightarrow> is_Ok r)"
    using assms(3-5) by (cases r) (auto simp: ensureStaked_def bind_call_def wrap_call_def ret_call_def)
  moreover have b: "amount mod 2 ^ 64 < 2 ^ 64" by simp
  then have less: "amount mod 2 ^ 64 < amount" using assms(6) by linarith
  moreover have "uint (msg_value env) = amount mod 2 ^ 64"
    using b unfolding contract(3) by (simp add: uint_word_of_int take_bit_eq_mod)
  with less have "\<not> baseStakeAmount c \<le> msg_value env"
    using contract(1) by (simp add: word_le_def currentRequiredStake_def)
  then have "ro_stake env c \<noteq> Inr c'" for c' using contract(2) by (simp add: ro_stake_def ro_isStaked_def Let_def)
  then have "\<exists>e. ro_stake env c = Inl e" by (metis sum.exhaust)
  ultimately show ?thesis by blast
qed

definition demo_staking :: "TxCandidate list Validator" where
  "demo_staking = \<lparr>AccountAddr = 1, v_l1TxMgr = bridge_methods demo_bridge,
     l1BridgeClient = \<lparr>br_GetRequiredStakeAmount = ret_call (20 * 10 ^ 18),
        br_GetStaker = (\<lambda>a. ret_call \<lparr>IsStaked = False, AssertionID = 0\<rparr>),
        br_GetAssertion = (\<lambda>i. fail_call (NewError ''no'')),
        br_RequireFirstUnresolvedAssertionIsConfirmable = fail_call (NewError ''no'')\<rparr>,
     v_l2Client = \<lparr>l2_EnsureDialed = ret_call (), l2_BlockNumber = ret_call 0,
        l2_BlockByNumber = (\<lambda>i. fail_call (NewError ''no'')), l2_HeaderByTag = (\<lambda>t. fail_call (NewError ''no''))\<rparr>\<rparr>"

definition demo_expensive :: rollup where
  "demo_expensive = demo_contract\<lparr>baseStakeAmount := 20 * 10 ^ 18\<rparr>"

theorem ensureStaked_truncates_stake_witness:
  "map cand_Value (snd (ensureStaked demo_staking [])) = [Some (20 * 10 ^ 18 - 2 ^ 64)] \<and>
   (\<exists>e. ro_stake (sent_by 1 (20 * 10 ^ 18 - 2 ^ 64) 2) demo_expensive = Inl e)"
proof -
  have p: "packStakeInput (bridge_util demo_bridge) = Ok [1, 2, 3, 4]"
    by (simp add: packStakeInput_def demo_bridge_def demo_util_def Let_def)
  have c: "20 * 10 ^ 18 = uint (currentRequiredStake demo_expensive)" "\<not> s_isStaked (stakers demo_expensive (msg_sender (sent_by 1 (20 * 10 ^ 18 - 2 ^ 64) 2)))"
    "msg_value (sent_by 1 (20 * 10 ^ 18 - 2 ^ 64) 2) = word_of_int (20 * 10 ^ 18 mod 2 ^ 64)" by code_simp+
  have "snd (ensureStaked demo_staking []) =
      [\<lparr>cand_TxData = [1, 2, 3, 4], cand_To = Some 2, cand_GasLimit = 0, cand_Value = Some (20 * 10 ^ 18 mod 2 ^ 64)\<rparr>] \<and>
      (\<exists>e. ro_stake (sent_by 1 (20 * 10 ^ 18 - 2 ^ 64) 2) demo_expensive = Inl e)"
    using ensureStaked_truncates_stake [OF _ _ _ _ _ _ _ c, of demo_staking demo_bridge "[1, 2, 3, 4]" "[]" "\<lparr>IsStaked = False, AssertionID = 0\<rparr>" "[]" "[]"
        "Err (NewError ''not sent'')"] p
    by (simp add: demo_staking_def ret_call_def demo_bridge_def)
  then show ?thesis by simp
qed

end
